(* ===== verification/Prelude.thy ===== *)
theory Prelude
  imports Main "HOL-Library.Word"
begin

text \<open>
  Shared vocabulary of the development: machine integer types, the error values of the modelled
  code, bounds-checked access to byte buffers (an access outside a buffer is the value
  \<open>Inl OutOfBounds\<close>, never an unspecified byte), and the interface to WebRTC's
  \<open>ByteReader\<close> and \<open>ByteWriter\<close> (\<open>modules/rtp_rtcp/source/byte_io.h\<close> of WebRTC, which is not
  part of the repository): a record of functions that the models take as an argument, with the
  documented big-endian behaviour as the locale \<open>big_endian_io\<close>.
\<close>

unbundle bit_operations_syntax

named_theorems buf_simps \<open>normal forms of buffer reads and writes\<close>

subsection \<open>Machine integers\<close>

type_synonym byte = "8 word"
type_synonym u16 = "16 word"
type_synonym u32 = "32 word"
type_synonym u64 = "64 word"

lemma unat_lt: "unat (w :: 'a::len word) < 2 ^ LENGTH('a)"
  by (rule unsigned_less)

lemma and_0xFF: "(w :: 'a::len word) AND 0xFF = take_bit 8 w"
  by (simp add: take_bit_eq_mask mask_eq_exp_minus_1)

lemma unat_high_byte: "unat (ucast (drop_bit 8 (w :: u16) AND 0xFF) :: byte) = unat w div 256"
  using unat_lt [of w]
  by (simp add: and_0xFF unsigned_ucast_eq unsigned_take_bit_eq unsigned_drop_bit_eq take_bit_eq_mod
      drop_bit_eq_div unat_div unat_mod)

lemma unat_low_byte: "unat (ucast ((w :: u16) AND 0xFF) :: byte) = unat w mod 256"
  by (simp add: and_0xFF unsigned_ucast_eq unsigned_take_bit_eq take_bit_eq_mod unat_mod)

lemma unat_two_bytes:
  "unat (ucast (drop_bit 8 (w :: u16) AND 0xFF) :: byte) * 256 + unat (ucast (w AND 0xFF) :: byte) = unat w"
  by (subst unat_high_byte, subst unat_low_byte) (rule div_mult_mod_eq)

text \<open>Bit fields as arithmetic: packing a field below another and taking it apart.\<close>

lemma unat_drop_bit: "unat (drop_bit k (w :: 'a::len word)) = unat w div 2 ^ k"
  by (metis drop_bit_eq_div unsigned_drop_bit_eq take_bit_length_eq unsigned_take_bit_eq)

lemma unat_take_bit: "unat (take_bit k w) = unat (w :: 'a::len word) mod 2 ^ k"
  by (metis unsigned_take_bit_eq take_bit_eq_mod)

lemma unat_push_bit: "unat w * 2 ^ k < 2 ^ LENGTH('a) \<Longrightarrow> unat (push_bit k (w :: 'a::len word)) = unat w * 2 ^ k"
  by (metis unsigned_push_bit_eq push_bit_eq_mult take_bit_nat_eq_self)

lemma unat_or_disjoint:
  assumes "a AND b = 0" shows "unat (a OR b :: 'a::len word) = unat a + unat b"
proof -
  have "unat a AND unat b = 0" by (metis assms unsigned_0 unsigned_and_eq)
  then have "unat a + unat b = unat a OR unat b" by (rule disjunctive_add_eq_or)
  then show ?thesis by (simp only: unsigned_or_eq)
qed

lemma push_bit_and_small:
  assumes "unat b < 2 ^ k" shows "push_bit k a AND b = (0 :: 'a::len word)"
proof -
  have "take_bit k b = b"
    using assms by (metis take_bit_nat_eq_self unsigned_take_bit_eq word_unat_eq_iff)
  then have "\<not> bit b n" if "k \<le> n" for n
    using that by (metis bit_take_bit_iff linorder_not_less)
  then have "bit (push_bit k a AND b) n \<longleftrightarrow> bit (0 :: 'a word) n" for n
    unfolding bit_and_iff bit_push_bit_iff by (metis bit_0_eq bot_apply bot_bool_def)
  then show ?thesis by (rule bit_eqI)
qed

lemma unat_pack:
  assumes "unat b < 2 ^ k" and "unat a * 2 ^ k < 2 ^ LENGTH('a)"
  shows "unat (push_bit k a OR b :: 'a::len word) = unat a * 2 ^ k + unat b"
  using unat_or_disjoint [OF push_bit_and_small [OF assms(1)]] unat_push_bit [OF assms(2)] by simp

lemma unat_of_nat_small: "n < 2 ^ LENGTH('a) \<Longrightarrow> unat (of_nat n :: 'a::len word) = n"
  by (simp add: unat_of_nat)

text \<open>Division of C++: it truncates towards zero.\<close>

definition tdiv :: "int \<Rightarrow> int \<Rightarrow> int" where
  "tdiv a b = sgn a * sgn b * (\<bar>a\<bar> div \<bar>b\<bar>)"

lemma tdiv_nonneg [simp]: "0 \<le> a \<Longrightarrow> 0 < b \<Longrightarrow> tdiv a b = a div b"
  by (cases "a = 0") (auto simp: tdiv_def)

subsection \<open>Errors as values\<close>

text \<open>
  \<open>Rejected\<close> is a \<open>return false\<close> of the source, \<open>OutOfBounds\<close> an access outside a buffer or a
  container (undefined behaviour in C++), \<open>CheckFailed\<close> the abort of an \<open>RTC_CHECK\<close>,
  \<open>Overflow\<close> the overflow of a signed integer (undefined behaviour in C++), \<open>DivisionByZero\<close> an
  integer division by zero, \<open>Diverges\<close> a loop that does not end, \<open>UseAfterFree\<close> an access to an object
  that has been deleted.
\<close>

datatype error = Rejected | OutOfBounds | CheckFailed | Overflow | DivisionByZero | Diverges | UseAfterFree

definition bindE :: "'e + 'a \<Rightarrow> ('a \<Rightarrow> 'e + 'b) \<Rightarrow> 'e + 'b" where
  "bindE m f = (case m of Inl e \<Rightarrow> Inl e | Inr x \<Rightarrow> f x)"

definition requireE :: "'e \<Rightarrow> bool \<Rightarrow> 'e + unit" where
  "requireE e b = (if b then Inr () else Inl e)"

lemma bindE_Inl [simp]: "bindE (Inl e) f = Inl e"
  by (simp add: bindE_def)

lemma bindE_Inr [simp]: "bindE (Inr x) f = f x"
  by (simp add: bindE_def)

lemma requireE_True [simp]: "requireE e True = Inr ()"
  by (simp add: requireE_def)

lemma requireE_False [simp]: "requireE e False = Inl e"
  by (simp add: requireE_def)

lemma bindE_requireE [simp]: "bindE (requireE e b) f = (if b then f () else Inl e)"
  by (simp add: requireE_def)

lemma bindE_eq_Inr [simp]: "bindE m f = Inr y \<longleftrightarrow> (\<exists>x. m = Inr x \<and> f x = Inr y)"
  by (cases m) auto

lemma bindE_eq_Inl: "bindE m f = Inl e \<longleftrightarrow> m = Inl e \<or> (\<exists>x. m = Inr x \<and> f x = Inl e)"
  by (cases m) auto

lemma bindE_assoc: "bindE (bindE m f) g = bindE m (\<lambda>x. bindE (f x) g)"
  by (cases m) auto

text \<open>A computation is memory safe when it never ends in an access outside a buffer.\<close>

definition in_bounds :: "error + 'a \<Rightarrow> bool" where
  "in_bounds r \<longleftrightarrow> r \<noteq> Inl OutOfBounds"

lemma in_bounds_Inr [simp]: "in_bounds (Inr x)"
  by (simp add: in_bounds_def)

lemma in_bounds_Inl [simp]: "in_bounds (Inl e) \<longleftrightarrow> e \<noteq> OutOfBounds"
  by (simp add: in_bounds_def)

lemma in_bounds_bindE:
  "in_bounds (bindE m f) \<longleftrightarrow> in_bounds m \<and> (\<forall>x. m = Inr x \<longrightarrow> in_bounds (f x))"
  by (cases m) auto

lemma in_bounds_if [simp]:
  "in_bounds (if b then x else y) \<longleftrightarrow> (b \<longrightarrow> in_bounds x) \<and> (\<not> b \<longrightarrow> in_bounds y)"
  by simp

text \<open>A parser that may refuse its input but does nothing else wrong.\<close>

definition only_rejects :: "error + 'a \<Rightarrow> bool" where
  "only_rejects r \<longleftrightarrow> (case r of Inl e \<Rightarrow> e = Rejected | Inr _ \<Rightarrow> True)"

lemma only_rejects_Inr [simp]: "only_rejects (Inr x)"
  by (simp add: only_rejects_def)

lemma only_rejects_Inl [simp]: "only_rejects (Inl e) \<longleftrightarrow> e = Rejected"
  by (simp add: only_rejects_def)

lemma only_rejects_bindE:
  "only_rejects (bindE m f) \<longleftrightarrow> only_rejects m \<and> (\<forall>x. m = Inr x \<longrightarrow> only_rejects (f x))"
  by (cases m) auto

lemma only_rejects_if [simp]:
  "only_rejects (if b then x else y) \<longleftrightarrow> (b \<longrightarrow> only_rejects x) \<and> (\<not> b \<longrightarrow> only_rejects y)"
  by simp

lemma only_rejects_in_bounds: "only_rejects r \<Longrightarrow> in_bounds r"
  by (cases r) auto

lemma only_rejectsE:
  assumes "only_rejects r"
  obtains "r = Inl Rejected" | x where "r = Inr x"
  using assms by (cases r) auto

subsection \<open>Arithmetic of \<open>size_t\<close>\<close>

definition size_add :: "nat \<Rightarrow> nat \<Rightarrow> nat" where
  "size_add a b = (a + b) mod 2 ^ 64"

definition size_sub :: "nat \<Rightarrow> nat \<Rightarrow> nat" where
  "size_sub a b = (if b \<le> a then a - b else 2 ^ 64 + a - b)"

text \<open>Conversions between \<open>int\<close> and \<open>size_t\<close>.\<close>

definition to_size :: "int \<Rightarrow> nat" where
  "to_size i = nat (i mod 2 ^ 64)"

definition to_int :: "nat \<Rightarrow> int" where
  "to_int n = sint (of_nat n :: 32 word)"

text \<open>The conversion of a wider signed integer to \<open>int\<close>.\<close>

definition to_i32 :: "int \<Rightarrow> int" where
  "to_i32 i = (i + 2 ^ 31) mod 2 ^ 32 - 2 ^ 31"

lemma to_i32_small [simp]: "- (2 ^ 31) \<le> i \<Longrightarrow> i < 2 ^ 31 \<Longrightarrow> to_i32 i = i"
  by (simp add: to_i32_def)

lemma to_i32_bounds: "- (2 ^ 31) \<le> to_i32 i" "to_i32 i < 2 ^ 31"
  unfolding to_i32_def using pos_mod_bound [of "2 ^ 32" "i + 2 ^ 31"] pos_mod_sign [of "2 ^ 32" "i + 2 ^ 31"] by simp_all

lemma to_size_nonneg [simp]: "0 \<le> i \<Longrightarrow> i < 2 ^ 64 \<Longrightarrow> to_size i = nat i"
  by (simp add: to_size_def)

lemma to_int_small [simp]: "n < 2 ^ 31 \<Longrightarrow> to_int n = int n"
  by (simp add: to_int_def sint_uint unsigned_of_nat signed_take_bit_int_eq_self take_bit_nat_eq_self)

lemma size_add_small [simp]: "a + b < 2 ^ 64 \<Longrightarrow> size_add a b = a + b"
  by (simp add: size_add_def)

lemma size_sub_le [simp]: "b \<le> a \<Longrightarrow> size_sub a b = a - b"
  by (simp add: size_sub_def)

subsection \<open>Total correctness\<close>

text \<open>\<open>returns P r\<close>: the computation ends without an error, in a result with the property \<open>P\<close>.\<close>

definition returns :: "('a \<Rightarrow> bool) \<Rightarrow> 'e + 'a \<Rightarrow> bool" where
  "returns P r \<longleftrightarrow> (\<exists>x. r = Inr x \<and> P x)"

lemma returns_Inr [simp]: "returns P (Inr x) \<longleftrightarrow> P x"
  by (simp add: returns_def)

lemma returns_Inl [simp]: "\<not> returns P (Inl e)"
  by (simp add: returns_def)

lemma returns_bind: "returns Q m \<Longrightarrow> (\<And>x. Q x \<Longrightarrow> returns P (f x)) \<Longrightarrow> returns P (bindE m f)"
  by (auto simp: returns_def)

lemma returns_weaken: "returns Q m \<Longrightarrow> (\<And>x. Q x \<Longrightarrow> P x) \<Longrightarrow> returns P m"
  by (auto simp: returns_def)

lemma returnsD: "returns P m \<Longrightarrow> m = Inr x \<Longrightarrow> P x"
  by (simp add: returns_def)

subsection \<open>Bounds-checked buffers\<close>

definition byte_at :: "'a list \<Rightarrow> nat \<Rightarrow> error + 'a" where
  "byte_at bs i = (if i < length bs then Inr (bs ! i) else Inl OutOfBounds)"

definition view :: "'a list \<Rightarrow> nat \<Rightarrow> nat \<Rightarrow> error + 'a list" where
  "view bs off n = (if off + n \<le> length bs then Inr (take n (drop off bs)) else Inl OutOfBounds)"

definition overwrite :: "nat \<Rightarrow> 'a list \<Rightarrow> 'a list \<Rightarrow> 'a list" where
  "overwrite off xs bs = take off bs @ xs @ drop (off + length xs) bs"

definition put :: "'a list \<Rightarrow> nat \<Rightarrow> 'a list \<Rightarrow> error + 'a list" where
  "put bs off xs = (if off + length xs \<le> length bs then Inr (overwrite off xs bs) else Inl OutOfBounds)"

lemma byte_at_ok [simp]: "i < length bs \<Longrightarrow> byte_at bs i = Inr (bs ! i)"
  by (simp add: byte_at_def)

lemma view_ok [simp]: "off + n \<le> length bs \<Longrightarrow> view bs off n = Inr (take n (drop off bs))"
  by (simp add: view_def)

lemma put_ok [simp]: "off + length xs \<le> length bs \<Longrightarrow> put bs off xs = Inr (overwrite off xs bs)"
  by (simp add: put_def)

lemma in_bounds_byte_at [simp]: "in_bounds (byte_at bs i) \<longleftrightarrow> i < length bs"
  by (simp add: byte_at_def)

lemma in_bounds_view [simp]: "in_bounds (view bs off n) \<longleftrightarrow> off + n \<le> length bs"
  by (simp add: view_def)

lemma in_bounds_put [simp]: "in_bounds (put bs off xs) \<longleftrightarrow> off + length xs \<le> length bs"
  by (simp add: put_def)

lemma only_rejects_byte_at [simp]: "only_rejects (byte_at bs i) \<longleftrightarrow> i < length bs"
  by (simp add: byte_at_def)

lemma only_rejects_view [simp]: "only_rejects (view bs off n) \<longleftrightarrow> off + n \<le> length bs"
  by (simp add: view_def)

lemma put_eq_Inr: "put bs off xs = Inr bs' \<longleftrightarrow> off + length xs \<le> length bs \<and> bs' = overwrite off xs bs"
  by (auto simp: put_def)

lemma length_overwrite [simp]: "off + length xs \<le> length bs \<Longrightarrow> length (overwrite off xs bs) = length bs"
  by (simp add: overwrite_def)

lemma take_overwrite_before [simp]:
  "n \<le> off \<Longrightarrow> off \<le> length bs \<Longrightarrow> take n (overwrite off xs bs) = take n bs"
  by (simp add: overwrite_def min_absorb1)

lemma overwrite_nil [simp]: "overwrite off [] bs = bs"
  by (simp add: overwrite_def)

text \<open>Two adjacent writes are one write: a serialiser that advances an index is a single write
  of the concatenation.\<close>

lemma overwrite_adjacent [buf_simps]:
  assumes "off + length xs + length ys \<le> length bs" and "off' = off + length xs"
  shows "overwrite off' ys (overwrite off xs bs) = overwrite off (xs @ ys) bs"
  using assms by (simp add: overwrite_def ac_simps)

lemma overwrite_whole: "length xs = length bs \<Longrightarrow> overwrite 0 xs bs = xs"
  by (simp add: overwrite_def)

lemma nth_overwrite:
  assumes "off + length xs \<le> length bs" and "i < length bs"
  shows "overwrite off xs bs ! i = (if off \<le> i \<and> i < off + length xs then xs ! (i - off) else bs ! i)"
  using assms by (auto simp: overwrite_def nth_append)

subsection \<open>WebRTC's byte reader and writer\<close>

text \<open>
  \<open>ReadBE io n bs\<close> is \<open>ByteReader<uintX_t, n>::ReadBigEndian\<close> on the bytes at the pointer,
  \<open>WriteBE io n v\<close> the bytes \<open>ByteWriter<uintX_t, n>::WriteBigEndian\<close> stores; \<open>ReadBES\<close> and
  \<open>WriteBES\<close> are their signed (\<open>intX_t\<close>) forms.
\<close>

record byte_io =
  ReadBE :: "nat \<Rightarrow> byte list \<Rightarrow> nat"
  WriteBE :: "nat \<Rightarrow> nat \<Rightarrow> byte list"
  ReadBES :: "nat \<Rightarrow> byte list \<Rightarrow> int"
  WriteBES :: "nat \<Rightarrow> int \<Rightarrow> byte list"

text \<open>Reads at an offset of a buffer, bounds-checked.\<close>

definition rd :: "byte_io \<Rightarrow> nat \<Rightarrow> byte list \<Rightarrow> nat \<Rightarrow> error + nat" where
  "rd io n bs off = (if off + n \<le> length bs then Inr (ReadBE io n (drop off bs)) else Inl OutOfBounds)"

definition rds :: "byte_io \<Rightarrow> nat \<Rightarrow> byte list \<Rightarrow> nat \<Rightarrow> error + int" where
  "rds io n bs off = (if off + n \<le> length bs then Inr (ReadBES io n (drop off bs)) else Inl OutOfBounds)"

definition rd16 :: "byte_io \<Rightarrow> byte list \<Rightarrow> nat \<Rightarrow> error + u16" where
  "rd16 io bs off = bindE (rd io 2 bs off) (\<lambda>v. Inr (of_nat v))"

definition rd32 :: "byte_io \<Rightarrow> byte list \<Rightarrow> nat \<Rightarrow> error + u32" where
  "rd32 io bs off = bindE (rd io 4 bs off) (\<lambda>v. Inr (of_nat v))"

definition wr16 :: "byte_io \<Rightarrow> u16 \<Rightarrow> byte list" where
  "wr16 io v = WriteBE io 2 (unat v)"

definition wr32 :: "byte_io \<Rightarrow> u32 \<Rightarrow> byte list" where
  "wr32 io v = WriteBE io 4 (unat v)"

lemma in_bounds_rd [simp]: "in_bounds (rd io n bs off) \<longleftrightarrow> off + n \<le> length bs"
  by (simp add: rd_def)

lemma in_bounds_rds [simp]: "in_bounds (rds io n bs off) \<longleftrightarrow> off + n \<le> length bs"
  by (simp add: rds_def)

lemma in_bounds_rd16 [simp]: "in_bounds (rd16 io bs off) \<longleftrightarrow> off + 2 \<le> length bs"
  by (simp add: rd16_def in_bounds_bindE)

lemma in_bounds_rd32 [simp]: "in_bounds (rd32 io bs off) \<longleftrightarrow> off + 4 \<le> length bs"
  by (simp add: rd32_def in_bounds_bindE)

lemma only_rejects_rd [simp]: "only_rejects (rd io n bs off) \<longleftrightarrow> off + n \<le> length bs"
  by (simp add: rd_def)

lemma only_rejects_rds [simp]: "only_rejects (rds io n bs off) \<longleftrightarrow> off + n \<le> length bs"
  by (simp add: rds_def)

lemma only_rejects_rd16 [simp]: "only_rejects (rd16 io bs off) \<longleftrightarrow> off + 2 \<le> length bs"
  by (simp add: rd16_def only_rejects_bindE)

lemma only_rejects_rd32 [simp]: "only_rejects (rd32 io bs off) \<longleftrightarrow> off + 4 \<le> length bs"
  by (simp add: rd32_def only_rejects_bindE)

lemma rd_ok: "off + n \<le> length bs \<Longrightarrow> rd io n bs off = Inr (ReadBE io n (drop off bs))"
  by (simp add: rd_def)

text \<open>
  The documented behaviour: a read of \<open>n\<close> bytes is the big-endian number of the first \<open>n\<close>
  bytes, a write stores exactly \<open>n\<close> bytes and reads back (signed values in two's complement of
  \<open>n\<close> bytes).
\<close>

locale big_endian_io =
  fixes io :: byte_io
  assumes read_zero: "ReadBE io 0 bs = 0"
    and read_step: "ReadBE io (Suc n) (b # bs) = unat b * 256 ^ n + ReadBE io n bs"
    and write_length [simp]: "length (WriteBE io n v) = n"
    and write_length_s [simp]: "length (WriteBES io n w) = n"
    and read_write: "v < 256 ^ n \<Longrightarrow> ReadBE io n (WriteBE io n v @ rest) = v"
    and read_write_s: "0 < n \<Longrightarrow> - (2 ^ (8 * n - 1)) \<le> w \<Longrightarrow> w < 2 ^ (8 * n - 1) \<Longrightarrow>
      ReadBES io n (WriteBES io n w @ rest) = w"
begin

lemma read_bound: "n \<le> length bs \<Longrightarrow> ReadBE io n bs < 256 ^ n"
proof (induction n arbitrary: bs)
  case 0
  then show ?case by (simp add: read_zero)
next
  case (Suc n)
  then obtain b bs' where bs: "bs = b # bs'" by (cases bs) auto
  with Suc have "ReadBE io n bs' < 256 ^ n" by simp
  moreover have "Suc (unat b) * 256 ^ n \<le> 256 * 256 ^ n"
    using unat_lt [of b] by (intro mult_right_mono) auto
  ultimately have "unat b * 256 ^ n + ReadBE io n bs' < 256 * 256 ^ n"
    unfolding mult_Suc by linarith
  then show ?case by (simp add: bs read_step)
qed

lemma read_two: "ReadBE io 2 (a # b # bs) = unat a * 256 + unat b"
  by (simp add: numeral_2_eq_2 read_step read_zero)

lemma wr16_length [simp]: "length (wr16 io v) = 2"
  by (simp add: wr16_def)

lemma wr32_length [simp]: "length (wr32 io v) = 4"
  by (simp add: wr32_def)

lemma read_wr16 [simp]: "ReadBE io 2 (wr16 io v @ rest) = unat v"
  using unat_lt [of v] by (simp add: wr16_def read_write)

lemma read_wr32 [simp]: "ReadBE io 4 (wr32 io v @ rest) = unat v"
  using unat_lt [of v] by (simp add: wr32_def read_write)

lemma read_wr16_only [simp]: "ReadBE io 2 (wr16 io v) = unat v"
  using read_wr16 [of v "[]"] by simp

lemma read_wr32_only [simp]: "ReadBE io 4 (wr32 io v) = unat v"
  using read_wr32 [of v "[]"] by simp

lemma write_byte: "WriteBE io (Suc 0) (unat (b :: byte)) = [b]"
proof -
  obtain x where x: "WriteBE io (Suc 0) (unat b) = [x]"
    using write_length [of "Suc 0" "unat b"] by (metis Suc_length_conv length_0_conv)
  have "ReadBE io (Suc 0) (WriteBE io (Suc 0) (unat b) @ []) = unat b"
    using unat_lt [of b] by (intro read_write) simp
  then show ?thesis by (simp add: x read_step read_zero word_unat_eq_iff)
qed

lemma rd16_bound: "rd io 2 bs off = Inr v \<Longrightarrow> v < 65536"
  using read_bound [of 2 "drop off bs"] by (auto simp: rd_def split: if_splits)

lemma rd_at_write:
  assumes "length pre = off" and "v < 256 ^ n"
  shows "rd io n (pre @ WriteBE io n v @ rest) off = Inr v"
  using assms by (simp add: rd_def read_write)

lemma rds_at_write:
  assumes "length pre = off" and "0 < n" and "- (2 ^ (8 * n - 1)) \<le> w" and "w < 2 ^ (8 * n - 1)"
  shows "rds io n (pre @ WriteBES io n w @ rest) off = Inr w"
  using assms by (simp add: rds_def read_write_s)

lemma rd16_at_write: "length pre = off \<Longrightarrow> rd16 io (pre @ wr16 io v @ rest) off = Inr v"
  using unat_lt [of v] by (simp add: rd16_def wr16_def rd_at_write)

lemma rd32_at_write: "length pre = off \<Longrightarrow> rd32 io (pre @ wr32 io v @ rest) off = Inr v"
  using unat_lt [of v] by (simp add: rd32_def wr32_def rd_at_write)

end

text \<open>A big-endian reader and writer, so that the interface has an instance that computes.\<close>

fun be_read :: "nat \<Rightarrow> byte list \<Rightarrow> nat" where
  "be_read 0 bs = 0"
| "be_read (Suc n) [] = 0"
| "be_read (Suc n) (b # bs) = unat b * 256 ^ n + be_read n bs"

fun be_write :: "nat \<Rightarrow> nat \<Rightarrow> byte list" where
  "be_write 0 v = []"
| "be_write (Suc n) v = of_nat (v div 256 ^ n) # be_write n (v mod 256 ^ n)"

definition be_io :: byte_io where
  "be_io = \<lparr>ReadBE = be_read, WriteBE = be_write,
     ReadBES = (\<lambda>n bs. if be_read n bs < 2 ^ (8 * n - 1) then int (be_read n bs)
                        else int (be_read n bs) - 256 ^ n),
     WriteBES = (\<lambda>n w. be_write n (nat (w mod 256 ^ n)))\<rparr>"

lemma be_read_numeral [simp]:
  "be_read (numeral k) (b # bs) = unat b * 256 ^ pred_numeral k + be_read (pred_numeral k) bs"
  by (simp add: numeral_eq_Suc)

lemma length_be_write [simp]: "length (be_write n v) = n"
  by (induction n arbitrary: v) auto

lemma be_read_write: "v < 256 ^ n \<Longrightarrow> be_read n (be_write n v @ rest) = v"
proof (induction n arbitrary: v)
  case 0
  then show ?case by simp
next
  case (Suc n)
  have d: "v div 256 ^ n < 256"
    using Suc.prems by (simp add: less_mult_imp_div_less mult.commute)
  then have "unat (of_nat (v div 256 ^ n) :: byte) = v div 256 ^ n"
    by (simp add: unat_of_nat)
  with Suc.IH [of "v mod 256 ^ n"] show ?case by (simp add: div_mult_mod_eq)
qed

lemma be_read_write_s:
  assumes "0 < n" and "- (2 ^ (8 * n - 1)) \<le> w" and "w < 2 ^ (8 * n - 1)"
  shows "ReadBES be_io n (WriteBES be_io n w @ rest) = w"
proof -
  define h where "h = (2::int) ^ (8 * n - 1)"
  have full: "(256::int) ^ n = 2 * h"
  proof -
    have "(256::int) ^ n = 2 ^ (8 * n)" by (simp add: power_mult)
    also have "\<dots> = 2 ^ Suc (8 * n - 1)" using assms(1) by simp
    finally show ?thesis by (simp add: h_def)
  qed
  have h: "0 < h" by (simp add: h_def)
  have m: "nat (w mod 256 ^ n) < 256 ^ n"
    using h full by (simp add: nat_less_iff)
  have r: "int (nat (w mod 256 ^ n)) = w mod (2 * h)"
    using h by (simp add: full)
  have lt: "(nat (w mod 256 ^ n) < 2 ^ (8 * n - 1)) = (w mod (2 * h) < h)"
    using r by (metis h_def of_nat_less_iff of_nat_numeral of_nat_power)
  have eval: "ReadBES be_io n (WriteBES be_io n w @ rest) =
      (if w mod (2 * h) < h then w mod (2 * h) else w mod (2 * h) - 2 * h)"
    by (simp only: be_io_def byte_io.simps be_read_write [OF m] lt r) (simp add: full)
  show ?thesis
  proof (cases "0 \<le> w")
    case True
    then have "w mod (2 * h) = w" using assms(3) h by (simp add: h_def)
    then show ?thesis using assms(3) by (simp add: eval h_def)
  next
    case False
    have "w mod (2 * h) = (w + 2 * h) mod (2 * h)" by simp
    also have "\<dots> = w + 2 * h" using False assms(2) by (intro mod_pos_pos_trivial) (auto simp: h_def)
    finally have w: "w mod (2 * h) = w + 2 * h" .
    with assms(2) have "\<not> w mod (2 * h) < h" by (simp add: h_def)
    then show ?thesis by (simp add: eval w)
  qed
qed

interpretation be: big_endian_io be_io
  by unfold_locales
    (use be_read_write_s in \<open>auto simp: be_io_def be_read_write\<close>)

end
