(* ===== verification/Stun.thy ===== *)
theory Stun
  imports Prelude
begin

text \<open>
  STUN messages (\<open>ice/stun.{h,cpp}\<close>): attributes, the reader and writer of messages, the
  FINGERPRINT check and the MESSAGE-INTEGRITY check of the server. A \<open>std::string\<close> is the list of its
  bytes; the remaining contents of a \<open>rtc::ByteBufferReader\<close> and the bytes appended to a
  \<open>rtc::ByteBufferWriter\<close> are byte lists. \<open>Inl Rejected\<close> stands for a \<open>write\<close> that returns \<open>false\<close>.
\<close>

section \<open>Code outside the repository\<close>

text \<open>
  WebRTC's \<open>GetBE\<close>/\<open>SetBE\<close> and \<open>WriteUInt\<close> (\<open>env_io\<close>), the methods of \<open>rtc::ByteBufferReader\<close> (\<open>None\<close>
  for a return value of \<open>false\<close>), CRC-32 and HMAC-SHA1, whose result is the digest it wrote.
\<close>

record stun_env =
  env_io :: byte_io
  ReadUInt :: "nat \<Rightarrow> byte list \<Rightarrow> (nat \<times> byte list) option"
  ReadBytes :: "nat \<Rightarrow> byte list \<Rightarrow> (byte list \<times> byte list) option"
  Consume :: "nat \<Rightarrow> byte list \<Rightarrow> byte list option"
  ComputeCrc32 :: "byte list \<Rightarrow> u32"
  ComputeHmac :: "byte list \<Rightarrow> byte list \<Rightarrow> byte list"

text \<open>What the code relies on: the reader reads from the front and refuses to read past the end without
  moving, and a SHA-1 digest has 20 bytes.\<close>

locale stun_lib = big_endian_io "env_io env" for env :: stun_env +
  assumes read_uint: "ReadUInt env n bs = (if n \<le> length bs then Some (ReadBE (env_io env) n bs, drop n bs) else None)"
    and read_bytes: "ReadBytes env n bs = (if n \<le> length bs then Some (take n bs, drop n bs) else None)"
    and consume: "Consume env n bs = (if n \<le> length bs then Some (drop n bs) else None)"
    and hmac_length: "length (ComputeHmac env key bs) = 20"

section \<open>Constants and attributes\<close>

definition k_stun_header_size :: nat where
  "k_stun_header_size = 20"

definition k_stun_attribute_header_size :: nat where
  "k_stun_attribute_header_size = 4"

definition k_stun_transaction_id_length :: nat where
  "k_stun_transaction_id_length = 12"

definition k_stun_magic_cookie :: u32 where
  "k_stun_magic_cookie = 0x2112A442"

definition k_stun_message_integrity_size :: nat where
  "k_stun_message_integrity_size = 20"

definition k_stun_type_mask :: int where
  "k_stun_type_mask = 0x0110"

definition STUN_FINGERPRINT_XOR_VALUE :: u32 where
  "STUN_FINGERPRINT_XOR_VALUE = 0x5354554E"

definition STUN_BINDING_REQUEST :: int where
  "STUN_BINDING_REQUEST = 0x0001"

definition STUN_BINDING_RESPONSE :: int where
  "STUN_BINDING_RESPONSE = 0x0101"

definition STUN_BINDING_ERROR_RESPONSE :: int where
  "STUN_BINDING_ERROR_RESPONSE = 0x0111"

definition STUN_ATTR_USERNAME :: u16 where
  "STUN_ATTR_USERNAME = 0x0006"

definition STUN_ATTR_MESSAGE_INTEGRITY :: u16 where
  "STUN_ATTR_MESSAGE_INTEGRITY = 0x0008"

definition STUN_ATTR_ERROR_CODE :: u16 where
  "STUN_ATTR_ERROR_CODE = 0x0009"

definition STUN_ATTR_XOR_MAPPED_ADDRESS :: u16 where
  "STUN_ATTR_XOR_MAPPED_ADDRESS = 0x0020"

definition STUN_ATTR_PRIORITY :: u16 where
  "STUN_ATTR_PRIORITY = 0x0024"

definition STUN_ATTR_USE_CANDIDATE :: u16 where
  "STUN_ATTR_USE_CANDIDATE = 0x0025"

definition STUN_ATTR_FINGERPRINT :: u16 where
  "STUN_ATTR_FINGERPRINT = 0x8028"

definition STUN_ATTR_ICE_CONTROLLED :: u16 where
  "STUN_ATTR_ICE_CONTROLLED = 0x8029"

lemmas stun_constants [simp] =
  k_stun_header_size_def k_stun_attribute_header_size_def k_stun_transaction_id_length_def
  k_stun_message_integrity_size_def

lemmas stun_attr_types =
  STUN_ATTR_USERNAME_def STUN_ATTR_MESSAGE_INTEGRITY_def STUN_ATTR_ERROR_CODE_def
  STUN_ATTR_XOR_MAPPED_ADDRESS_def STUN_ATTR_PRIORITY_def STUN_ATTR_USE_CANDIDATE_def
  STUN_ATTR_FINGERPRINT_def STUN_ATTR_ICE_CONTROLLED_def

datatype StunAttributeValueType = STUN_VALUE_UNKNOWN | STUN_VALUE_UINT32 | STUN_VALUE_BYTE_STRING

datatype StunErrorCode =
    STUN_ERROR_TRY_ALTERNATE
  | STUN_ERROR_BAD_REQUEST
  | STUN_ERROR_UNAUTHORIZED
  | STUN_ERROR_UNKNOWN_ATTRIBUTE
  | STUN_ERROR_STALE_NONCE
  | STUN_ERROR_SERVER_ERROR
  | STUN_ERROR_GLOBAL_FAILURE

fun error_code_value :: "StunErrorCode \<Rightarrow> int" where
  "error_code_value STUN_ERROR_TRY_ALTERNATE = 300"
| "error_code_value STUN_ERROR_BAD_REQUEST = 400"
| "error_code_value STUN_ERROR_UNAUTHORIZED = 401"
| "error_code_value STUN_ERROR_UNKNOWN_ATTRIBUTE = 420"
| "error_code_value STUN_ERROR_STALE_NONCE = 438"
| "error_code_value STUN_ERROR_SERVER_ERROR = 500"
| "error_code_value STUN_ERROR_GLOBAL_FAILURE = 600"

text \<open>\<open>rtc::IPAddress\<close> and \<open>rtc::SocketAddress\<close>: the address as a number (IPv4) or as its 16 bytes.\<close>

datatype ip_address = IPv4 u32 | IPv6 "byte list" | UnspecIP

record socket_address =
  ipaddr :: ip_address
  sock_port :: u16

text \<open>The attribute classes; \<open>attr_type\<close> and \<open>attr_length\<close> are the fields of the base class.\<close>

datatype attr_body =
    UInt32 u32
  | UInt64 "64 word"
  | ByteString "byte list"
  | ErrorCode byte byte "byte list"
  | Address socket_address
  | XorAddress socket_address

record stun_attr =
  attr_type :: u16
  attr_length :: u16
  attr_body :: attr_body

definition padding :: "nat \<Rightarrow> nat" where
  "padding n = (if n mod 4 \<noteq> 0 then 4 - n mod 4 else 0)"

definition consume_padding :: "stun_env \<Rightarrow> u16 \<Rightarrow> byte list \<Rightarrow> byte list" where
  "consume_padding env len bs =
     (let remain = unat len mod 4 in
      if remain > 0 then (case Consume env (4 - remain) bs of None \<Rightarrow> bs | Some bs \<Rightarrow> bs) else bs)"

definition write_padding :: "u16 \<Rightarrow> byte list" where
  "write_padding len = (let remain = unat len mod 4 in if remain > 0 then replicate (4 - remain) 0 else [])"

definition StunUInt32Attribute_new :: "u16 \<Rightarrow> u32 \<Rightarrow> stun_attr" where
  "StunUInt32Attribute_new type value = \<lparr>attr_type = type, attr_length = 4, attr_body = UInt32 value\<rparr>"

definition StunUInt64Attribute_new :: "u16 \<Rightarrow> 64 word \<Rightarrow> stun_attr" where
  "StunUInt64Attribute_new type value = \<lparr>attr_type = type, attr_length = 8, attr_body = UInt64 value\<rparr>"

definition copy_bytes :: "byte list \<Rightarrow> stun_attr \<Rightarrow> stun_attr" where
  "copy_bytes bytes a = a\<lparr>attr_body := ByteString bytes, attr_length := of_nat (length bytes)\<rparr>"

definition StunByteStringAttribute_length :: "u16 \<Rightarrow> u16 \<Rightarrow> stun_attr" where
  "StunByteStringAttribute_length type len = \<lparr>attr_type = type, attr_length = len, attr_body = ByteString []\<rparr>"

definition StunByteStringAttribute_new :: "u16 \<Rightarrow> byte list \<Rightarrow> stun_attr" where
  "StunByteStringAttribute_new type str = copy_bytes str (StunByteStringAttribute_length type 0)"

definition create_error_code :: stun_attr where
  "create_error_code = \<lparr>attr_type = STUN_ATTR_ERROR_CODE, attr_length = 4, attr_body = ErrorCode 0 0 []\<rparr>"

text \<open>\<open>set_code\<close> and \<open>set_reason\<close> are methods of \<open>StunErrorCodeAttribute\<close> only.\<close>

definition set_code :: "int \<Rightarrow> stun_attr \<Rightarrow> stun_attr" where
  "set_code code a = (case attr_body a of
     ErrorCode _ _ reason \<Rightarrow> a\<lparr>attr_body := ErrorCode (of_int (tdiv code 100)) (of_int (code - 100 * tdiv code 100)) reason\<rparr>
   | _ \<Rightarrow> a)"

definition set_reason :: "byte list \<Rightarrow> stun_attr \<Rightarrow> stun_attr" where
  "set_reason reason a = (case attr_body a of
     ErrorCode c n _ \<Rightarrow> a\<lparr>attr_body := ErrorCode c n reason, attr_length := of_nat (4 + length reason)\<rparr>
   | _ \<Rightarrow> a)"

definition error_code :: "stun_attr \<Rightarrow> int" where
  "error_code a = (case attr_body a of ErrorCode c n _ \<Rightarrow> int (unat c) * 100 + int (unat n) | _ \<Rightarrow> 0)"

definition address_length :: "socket_address \<Rightarrow> u16" where
  "address_length addr = (case ipaddr addr of IPv4 _ \<Rightarrow> 8 | IPv6 _ \<Rightarrow> 20 | UnspecIP \<Rightarrow> 0)"

definition StunAddressAttribute_new :: "u16 \<Rightarrow> socket_address \<Rightarrow> stun_attr" where
  "StunAddressAttribute_new type addr = \<lparr>attr_type = type, attr_length = address_length addr, attr_body = Address addr\<rparr>"

definition StunXorAddressAttribute_new :: "u16 \<Rightarrow> socket_address \<Rightarrow> stun_attr" where
  "StunXorAddressAttribute_new type addr =
     \<lparr>attr_type = type, attr_length = address_length addr, attr_body = XorAddress addr\<rparr>"

text \<open>The address family and bytes of \<open>StunAddressAttribute::write\<close>.\<close>

definition address_bytes :: "byte_io \<Rightarrow> ip_address \<Rightarrow> u16 \<Rightarrow> error + byte list" where
  "address_bytes io ip port = (case ip of
     IPv4 a \<Rightarrow> Inr ([0, 1] @ wr16 io port @ wr32 io a)
   | IPv6 a \<Rightarrow> Inr ([0, 2] @ wr16 io port @ a)
   | UnspecIP \<Rightarrow> Inl Rejected)"

definition get_xored_ip :: "socket_address \<Rightarrow> ip_address" where
  "get_xored_ip addr = (case ipaddr addr of IPv4 a \<Rightarrow> IPv4 (a XOR k_stun_magic_cookie) | _ \<Rightarrow> UnspecIP)"

definition xor_address_bytes :: "byte_io \<Rightarrow> socket_address \<Rightarrow> error + byte list" where
  "xor_address_bytes io addr =
     (if ipaddr addr = UnspecIP then Inl Rejected
      else address_bytes io (get_xored_ip addr) (sock_port addr XOR ucast (drop_bit 16 k_stun_magic_cookie)))"

definition StunUInt32Attribute_write :: "stun_env \<Rightarrow> u32 \<Rightarrow> error + byte list" where
  "StunUInt32Attribute_write env v = Inr (wr32 (env_io env) v)"

definition StunUInt64Attribute_write :: "stun_env \<Rightarrow> 64 word \<Rightarrow> error + byte list" where
  "StunUInt64Attribute_write env v = Inr (WriteBE (env_io env) 8 (unat v))"

definition StunByteStringAttribute_write :: "u16 \<Rightarrow> byte list \<Rightarrow> error + byte list" where
  "StunByteStringAttribute_write len bytes = bindE (view bytes 0 (unat len)) (\<lambda>bs. Inr (bs @ write_padding len))"

definition StunErrorCodeAttribute_write :: "stun_env \<Rightarrow> u16 \<Rightarrow> byte \<Rightarrow> byte \<Rightarrow> byte list \<Rightarrow> error + byte list" where
  "StunErrorCodeAttribute_write env len c n reason =
     Inr (wr32 (env_io env) (push_bit 8 (ucast c) OR ucast n) @ reason @ write_padding len)"

text \<open>The virtual \<open>write\<close> and \<open>read\<close> of an attribute.\<close>

definition attr_write :: "stun_env \<Rightarrow> stun_attr \<Rightarrow> error + byte list" where
  "attr_write env a = (case attr_body a of
     UInt32 v \<Rightarrow> StunUInt32Attribute_write env v
   | UInt64 v \<Rightarrow> StunUInt64Attribute_write env v
   | ByteString bytes \<Rightarrow> StunByteStringAttribute_write (attr_length a) bytes
   | ErrorCode c n reason \<Rightarrow> StunErrorCodeAttribute_write env (attr_length a) c n reason
   | Address addr \<Rightarrow> address_bytes (env_io env) (ipaddr addr) (sock_port addr)
   | XorAddress addr \<Rightarrow> xor_address_bytes (env_io env) addr)"

definition StunUInt32Attribute_read :: "stun_env \<Rightarrow> stun_attr \<Rightarrow> byte list \<Rightarrow> (stun_attr \<times> byte list) option" where
  "StunUInt32Attribute_read env a bs =
     (if attr_length a \<noteq> 4 then None
      else map_option (\<lambda>(v, bs). (a\<lparr>attr_body := UInt32 (of_nat v)\<rparr>, bs)) (ReadUInt env 4 bs))"

definition StunUInt64Attribute_read :: "stun_env \<Rightarrow> stun_attr \<Rightarrow> byte list \<Rightarrow> (stun_attr \<times> byte list) option" where
  "StunUInt64Attribute_read env a bs =
     (if attr_length a \<noteq> 8 then None
      else map_option (\<lambda>(v, bs). (a\<lparr>attr_body := UInt64 (of_nat v)\<rparr>, bs)) (ReadUInt env 8 bs))"

definition StunByteStringAttribute_read :: "stun_env \<Rightarrow> stun_attr \<Rightarrow> byte list \<Rightarrow> (stun_attr \<times> byte list) option" where
  "StunByteStringAttribute_read env a bs =
     map_option (\<lambda>(s, bs). (a\<lparr>attr_body := ByteString s\<rparr>, consume_padding env (attr_length a) bs))
       (ReadBytes env (unat (attr_length a)) bs)"

definition StunErrorCodeAttribute_read :: "stun_env \<Rightarrow> stun_attr \<Rightarrow> byte list \<Rightarrow> (stun_attr \<times> byte list) option" where
  "StunErrorCodeAttribute_read env a bs =
     (if attr_length a < 4 then None
      else (case ReadUInt env 4 bs of
          None \<Rightarrow> None
        | Some (v, bs) \<Rightarrow>
            map_option (\<lambda>(s, bs). (a\<lparr>attr_body := ErrorCode (of_nat (v div 256 mod 8)) (of_nat (v mod 256)) s\<rparr>,
                                   consume_padding env (attr_length a) bs))
              (ReadBytes env (unat (attr_length a) - 4) bs)))"

definition StunAddressAttribute_read :: "stun_attr \<Rightarrow> byte list \<Rightarrow> (stun_attr \<times> byte list) option" where
  "StunAddressAttribute_read a bs = Some (a, bs)"

definition attr_read :: "stun_env \<Rightarrow> stun_attr \<Rightarrow> byte list \<Rightarrow> (stun_attr \<times> byte list) option" where
  "attr_read env a bs = (case attr_body a of
     UInt32 _ \<Rightarrow> StunUInt32Attribute_read env a bs
   | UInt64 _ \<Rightarrow> StunUInt64Attribute_read env a bs
   | ByteString _ \<Rightarrow> StunByteStringAttribute_read env a bs
   | ErrorCode _ _ _ \<Rightarrow> StunErrorCodeAttribute_read env a bs
   | Address _ \<Rightarrow> StunAddressAttribute_read a bs
   | XorAddress _ \<Rightarrow> StunAddressAttribute_read a bs)"

lemmas attr_write_defs = attr_write_def StunUInt32Attribute_write_def StunUInt64Attribute_write_def
  StunByteStringAttribute_write_def StunErrorCodeAttribute_write_def

lemmas attr_read_defs = attr_read_def StunUInt32Attribute_read_def StunUInt64Attribute_read_def
  StunByteStringAttribute_read_def StunErrorCodeAttribute_read_def StunAddressAttribute_read_def

section \<open>Messages\<close>

datatype IntegrityStatus = k_not_set | k_no_integrity | k_integrity_ok | k_integrity_bad

record stun_message =
  msg_type :: u16
  msg_length :: u16
  msg_transaction_id :: "byte list"
  msg_attrs :: "stun_attr list"
  msg_integrity :: IntegrityStatus
  msg_password :: "byte list"
  msg_buffer :: "byte list"

definition StunMessage_new :: stun_message where
  "StunMessage_new = \<lparr>msg_type = 0, msg_length = 0, msg_transaction_id = replicate 12 0x30, msg_attrs = [],
     msg_integrity = k_not_set, msg_password = [], msg_buffer = []\<rparr>"

definition message_type :: "stun_message \<Rightarrow> int" where
  "message_type m = int (unat (msg_type m))"

definition set_type :: "int \<Rightarrow> stun_message \<Rightarrow> stun_message" where
  "set_type t m = m\<lparr>msg_type := of_int t\<rparr>"

definition set_transaction_id :: "byte list \<Rightarrow> stun_message \<Rightarrow> stun_message" where
  "set_transaction_id i m = m\<lparr>msg_transaction_id := i\<rparr>"

definition get_attribute_value_type :: "u16 \<Rightarrow> StunAttributeValueType" where
  "get_attribute_value_type type =
     (if type = STUN_ATTR_USERNAME \<or> type = STUN_ATTR_MESSAGE_INTEGRITY then STUN_VALUE_BYTE_STRING
      else if type = STUN_ATTR_PRIORITY then STUN_VALUE_UINT32
      else STUN_VALUE_UNKNOWN)"

definition StunAttribute_create :: "StunAttributeValueType \<Rightarrow> u16 \<Rightarrow> u16 \<Rightarrow> stun_attr option" where
  "StunAttribute_create value_type type len = (case value_type of
     STUN_VALUE_BYTE_STRING \<Rightarrow> Some (StunByteStringAttribute_length type len)
   | STUN_VALUE_UINT32 \<Rightarrow> Some (StunUInt32Attribute_new type 0)
   | STUN_VALUE_UNKNOWN \<Rightarrow> None)"

definition create_attribute :: "u16 \<Rightarrow> u16 \<Rightarrow> stun_attr option" where
  "create_attribute type len =
     (let value_type = get_attribute_value_type type in
      if value_type \<noteq> STUN_VALUE_UNKNOWN then StunAttribute_create value_type type len else None)"

definition get_attribute :: "u16 \<Rightarrow> stun_message \<Rightarrow> stun_attr option" where
  "get_attribute type m = find (\<lambda>a. attr_type a = type) (msg_attrs m)"

definition get_byte_string :: "u16 \<Rightarrow> stun_message \<Rightarrow> stun_attr option" where
  "get_byte_string type m = get_attribute type m"

definition get_string :: "stun_attr \<Rightarrow> byte list" where
  "get_string a = (case attr_body a of ByteString bs \<Rightarrow> take (unat (attr_length a)) bs | _ \<Rightarrow> [])"

definition get_error_code_value :: "stun_message \<Rightarrow> int" where
  "get_error_code_value m = (case get_attribute STUN_ATTR_ERROR_CODE m of
     Some a \<Rightarrow> error_code a | None \<Rightarrow> error_code_value STUN_ERROR_GLOBAL_FAILURE)"

definition add_attribute :: "stun_attr \<Rightarrow> stun_message \<Rightarrow> stun_message" where
  "add_attribute a m =
     (let attr_len = unat (attr_length a); attr_len = attr_len + padding attr_len in
      m\<lparr>msg_length := msg_length m + of_nat (attr_len + k_stun_attribute_header_size), msg_attrs := msg_attrs m @ [a]\<rparr>)"

fun write_attrs :: "stun_env \<Rightarrow> stun_attr list \<Rightarrow> error + byte list" where
  "write_attrs env [] = Inr []"
| "write_attrs env (a # as) =
     bindE (attr_write env a) (\<lambda>bs.
     bindE (write_attrs env as) (\<lambda>rest.
       Inr (wr16 (env_io env) (attr_type a) @ wr16 (env_io env) (attr_length a) @ bs @ rest)))"

definition StunMessage_write :: "stun_env \<Rightarrow> stun_message \<Rightarrow> error + byte list" where
  "StunMessage_write env m =
     bindE (write_attrs env (msg_attrs m)) (\<lambda>bs.
       Inr (wr16 (env_io env) (msg_type m) @ wr16 (env_io env) (msg_length m) @
            wr32 (env_io env) k_stun_magic_cookie @ msg_transaction_id m @ bs))"

text \<open>The attribute loop of \<open>StunMessage::read\<close>. Its number of rounds is bounded by the fuel, which is the
  number of bytes left: a round takes at least four.\<close>

fun read_attrs :: "stun_env \<Rightarrow> nat \<Rightarrow> stun_attr list \<Rightarrow> byte list \<Rightarrow> error + stun_attr list \<times> byte list \<times> bool" where
  "read_attrs env 0 attrs bs = (if bs = [] then Inr (attrs, bs, True) else Inl Diverges)"
| "read_attrs env (Suc fuel) attrs bs =
     (if bs = [] then Inr (attrs, bs, True)
      else (case ReadUInt env 2 bs of
          None \<Rightarrow> Inr (attrs, bs, False)
        | Some (ty, bs) \<Rightarrow>
            (case ReadUInt env 2 bs of
               None \<Rightarrow> Inr (attrs, bs, False)
             | Some (len, bs) \<Rightarrow>
                 (case create_attribute (of_nat ty) (of_nat len) of
                    None \<Rightarrow>
                      (let attr_length = (of_nat len :: u16);
                           attr_length = (if unat attr_length mod 4 \<noteq> 0
                                          then attr_length + of_nat (4 - unat attr_length mod 4) else attr_length) in
                       case Consume env (unat attr_length) bs of
                         None \<Rightarrow> Inr (attrs, bs, False)
                       | Some bs \<Rightarrow> read_attrs env fuel attrs bs)
                  | Some a \<Rightarrow>
                      (case attr_read env a bs of
                         None \<Rightarrow> Inr (attrs, bs, False)
                       | Some (a, bs) \<Rightarrow> read_attrs env fuel (attrs @ [a]) bs)))))"

definition StunMessage_read ::
  "stun_env \<Rightarrow> byte list \<Rightarrow> stun_message \<Rightarrow> error + stun_message \<times> byte list \<times> bool" where
  "StunMessage_read env bs m =
     (let m = m\<lparr>msg_buffer := bs\<rparr> in
      case ReadUInt env 2 bs of None \<Rightarrow> Inr (m, bs, False) | Some (t, bs) \<Rightarrow>
        let m = m\<lparr>msg_type := of_nat t\<rparr> in
        if msg_type m AND 0x0800 \<noteq> 0 then Inr (m, bs, False) else
        (case ReadUInt env 2 bs of None \<Rightarrow> Inr (m, bs, False) | Some (l, bs) \<Rightarrow>
          let m = m\<lparr>msg_length := of_nat l\<rparr> in
          (case ReadBytes env 4 bs of None \<Rightarrow> Inr (m, bs, False) | Some (magic_cookie, bs) \<Rightarrow>
            (case ReadBytes env k_stun_transaction_id_length bs of None \<Rightarrow> Inr (m, bs, False) | Some (transaction_id, bs) \<Rightarrow>
              let transaction_id = (if of_nat (ReadBE (env_io env) 4 magic_cookie) \<noteq> k_stun_magic_cookie
                                    then magic_cookie @ transaction_id else transaction_id);
                  m = m\<lparr>msg_transaction_id := transaction_id\<rparr> in
              if length bs \<noteq> unat (msg_length m) then Inr (m, bs, False)
              else bindE (read_attrs env (length bs) [] bs) (\<lambda>(attrs, bs, ok). Inr (m\<lparr>msg_attrs := attrs\<rparr>, bs, ok))))))"

section \<open>Fingerprint and message integrity\<close>

definition validate_fingerprint :: "stun_env \<Rightarrow> byte list \<Rightarrow> error + bool" where
  "validate_fingerprint env data =
     (let len = length data; fingerprint_attr_size = k_stun_attribute_header_size + 4 in
      if len mod 4 \<noteq> 0 \<or> len < k_stun_header_size + fingerprint_attr_size then Inr False
      else bindE (rd32 (env_io env) data (8 - 4)) (\<lambda>cookie.
        if cookie \<noteq> k_stun_magic_cookie then Inr False
        else bindE (rd16 (env_io env) data (len - fingerprint_attr_size)) (\<lambda>ty.
          bindE (rd16 (env_io env) data (len - fingerprint_attr_size + 2)) (\<lambda>l.
            if ty \<noteq> STUN_ATTR_FINGERPRINT \<or> l \<noteq> 4 then Inr False
            else bindE (rd32 (env_io env) data (len - fingerprint_attr_size + k_stun_attribute_header_size)) (\<lambda>fingerprint.
              Inr (fingerprint XOR STUN_FINGERPRINT_XOR_VALUE =
                   ComputeCrc32 env (take (len - fingerprint_attr_size) data)))))))"

text \<open>The search for the attribute; positions stay far below \<open>2\<^sup>6\<^sup>4\<close>.\<close>

function mi_loop :: "byte_io \<Rightarrow> u16 \<Rightarrow> byte list \<Rightarrow> nat \<Rightarrow> error + nat option" where
  "mi_loop io mi_attr_type data current_pos =
     (if current_pos + k_stun_attribute_header_size \<le> length data then
        (case rd16 io data current_pos of
           Inl e \<Rightarrow> Inl e
         | Inr ty \<Rightarrow>
             (case rd16 io data (current_pos + 2) of
                Inl e \<Rightarrow> Inl e
              | Inr l \<Rightarrow>
                  if ty = mi_attr_type then Inr (Some current_pos)
                  else mi_loop io mi_attr_type data
                         (current_pos + (k_stun_attribute_header_size + unat l) + padding (unat l))))
      else Inr None)"
  by pat_completeness auto
termination
  by (relation "measure (\<lambda>(_, _, data, pos). length data - pos)") auto

declare mi_loop.simps [simp del]

definition validate_message_integrity_of_type ::
  "stun_env \<Rightarrow> u16 \<Rightarrow> nat \<Rightarrow> byte list \<Rightarrow> byte list \<Rightarrow> error + bool" where
  "validate_message_integrity_of_type env mi_attr_type mi_attr_size data password =
     (let size = length data in
      if size mod 4 \<noteq> 0 \<or> size < k_stun_header_size then Inr False
      else bindE (rd16 (env_io env) data 2) (\<lambda>len.
        if unat len + k_stun_header_size \<noteq> size then Inr False
        else bindE (mi_loop (env_io env) mi_attr_type data k_stun_header_size) (\<lambda>found.
          case found of
            None \<Rightarrow> Inr False
          | Some mi_pos \<Rightarrow>
              bindE (view data 0 mi_pos) (\<lambda>temp_data.
              bindE (if size > mi_pos + k_stun_attribute_header_size + mi_attr_size then
                       let extra_pos = mi_pos + k_stun_attribute_header_size + mi_attr_size;
                           extra_size = size - extra_pos;
                           adjust_new_len = size - extra_size - k_stun_header_size in
                       put temp_data 2 (wr16 (env_io env) (of_nat adjust_new_len))
                     else Inr temp_data) (\<lambda>temp_data.
                let hmac = ComputeHmac env password temp_data in
                if length hmac \<noteq> k_stun_message_integrity_size then Inr False
                else bindE (view data (mi_pos + k_stun_attribute_header_size) mi_attr_size) (\<lambda>sent.
                     Inr (sent = hmac)))))))"

definition validate_message_integrity ::
  "stun_env \<Rightarrow> byte list \<Rightarrow> stun_message \<Rightarrow> error + stun_message \<times> IntegrityStatus" where
  "validate_message_integrity env password m =
     (let m = m\<lparr>msg_password := password\<rparr> in
      bindE (if get_byte_string STUN_ATTR_MESSAGE_INTEGRITY m \<noteq> None then
               bindE (validate_message_integrity_of_type env STUN_ATTR_MESSAGE_INTEGRITY
                        k_stun_message_integrity_size (msg_buffer m) password) (\<lambda>ok.
                 Inr (if ok then k_integrity_ok else k_integrity_bad))
             else Inr k_no_integrity) (\<lambda>status. Inr (m\<lparr>msg_integrity := status\<rparr>, status)))"

text \<open>\<open>mi_attr\<close> and \<open>fingerprint_attr\<close> point to the attribute that was added last.\<close>

definition update_last_attr :: "(stun_attr \<Rightarrow> stun_attr) \<Rightarrow> stun_message \<Rightarrow> stun_message" where
  "update_last_attr f m = m\<lparr>msg_attrs := butlast (msg_attrs m) @ [f (last (msg_attrs m))]\<rparr>"

definition add_message_integrity_of_type ::
  "stun_env \<Rightarrow> u16 \<Rightarrow> nat \<Rightarrow> byte list \<Rightarrow> stun_message \<Rightarrow> error + stun_message \<times> bool" where
  "add_message_integrity_of_type env ty sz key m =
     (let mi_attr = StunByteStringAttribute_new ty (replicate sz 0x30);
          m = add_attribute mi_attr m in
      case StunMessage_write env m of
        Inl e \<Rightarrow> if e = Rejected then Inr (m, False) else Inl e
      | Inr buf \<Rightarrow>
          let msg_len_for_hmac = size_sub (size_sub (length buf) k_stun_attribute_header_size) (unat (attr_length mi_attr));
              hmac = ComputeHmac env key (take msg_len_for_hmac buf) in
          if length hmac \<noteq> k_stun_message_integrity_size then Inr (m, False)
          else Inr ((update_last_attr (copy_bytes hmac) m)\<lparr>msg_password := key, msg_integrity := k_integrity_ok\<rparr>, True))"

definition add_message_integrity :: "stun_env \<Rightarrow> byte list \<Rightarrow> stun_message \<Rightarrow> error + stun_message \<times> bool" where
  "add_message_integrity env password m =
     add_message_integrity_of_type env STUN_ATTR_MESSAGE_INTEGRITY k_stun_message_integrity_size password m"

definition add_fingerprint :: "stun_env \<Rightarrow> stun_message \<Rightarrow> error + stun_message \<times> bool" where
  "add_fingerprint env m =
     (let fingerprint_attr = StunUInt32Attribute_new STUN_ATTR_FINGERPRINT 0;
          m = add_attribute fingerprint_attr m in
      case StunMessage_write env m of
        Inl e \<Rightarrow> if e = Rejected then Inr (m, False) else Inl e
      | Inr buf \<Rightarrow>
          let msg_len_for_crc32 = size_sub (size_sub (length buf) k_stun_attribute_header_size) (unat (attr_length fingerprint_attr));
              crc32 = ComputeCrc32 env (take msg_len_for_crc32 buf) in
          Inr (update_last_attr (\<lambda>a. a\<lparr>attr_body := UInt32 (crc32 XOR STUN_FINGERPRINT_XOR_VALUE)\<rparr>) m, True))"

section \<open>Message classes\<close>

definition is_stun_request_type :: "int \<Rightarrow> bool" where
  "is_stun_request_type req_type = (req_type AND k_stun_type_mask = 0)"

definition get_stun_success_response :: "int \<Rightarrow> int" where
  "get_stun_success_response req_type = (if is_stun_request_type req_type then req_type OR 0x100 else - 1)"

definition get_stun_error_response :: "int \<Rightarrow> int" where
  "get_stun_error_response req_type = (if is_stun_request_type req_type then req_type OR 0x110 else - 1)"

end
