(* ===== verification/Stun_Correct.thy ===== *)
theory Stun_Correct
  imports Stun
begin

text \<open>
  Correctness of \<open>ice/stun.cpp\<close>: the reader is total, what the writer produces is read back, and the
  FINGERPRINT and MESSAGE-INTEGRITY of a message built by the server validate.
\<close>

section \<open>Attributes on the wire\<close>

definition known :: "stun_attr \<Rightarrow> bool" where
  "known a \<longleftrightarrow> get_attribute_value_type (attr_type a) \<noteq> STUN_VALUE_UNKNOWN"

text \<open>An attribute as the constructors of the program build it: the length field is that of the value, and
  the types the reader knows have the value class the reader expects.\<close>

definition body_ok :: "stun_attr \<Rightarrow> bool" where
  "body_ok a = (case attr_body a of
     UInt32 _ \<Rightarrow> attr_length a = 4
   | UInt64 _ \<Rightarrow> attr_length a = 8
   | ByteString bs \<Rightarrow> unat (attr_length a) = length bs
   | ErrorCode _ _ reason \<Rightarrow> unat (attr_length a) = 4 + length reason
   | Address addr \<Rightarrow> (case ipaddr addr of IPv4 _ \<Rightarrow> attr_length a = 8
        | IPv6 bs \<Rightarrow> attr_length a = 20 \<and> length bs = 16 | UnspecIP \<Rightarrow> False)
   | XorAddress addr \<Rightarrow> (case ipaddr addr of IPv4 _ \<Rightarrow> attr_length a = 8 | _ \<Rightarrow> False))"

definition class_ok :: "stun_attr \<Rightarrow> bool" where
  "class_ok a = (case get_attribute_value_type (attr_type a) of
     STUN_VALUE_UNKNOWN \<Rightarrow> True
   | STUN_VALUE_UINT32 \<Rightarrow> (case attr_body a of UInt32 _ \<Rightarrow> True | _ \<Rightarrow> False)
   | STUN_VALUE_BYTE_STRING \<Rightarrow> (case attr_body a of ByteString _ \<Rightarrow> True | _ \<Rightarrow> False))"

definition attr_ok :: "stun_attr \<Rightarrow> bool" where
  "attr_ok a \<longleftrightarrow> body_ok a \<and> class_ok a"

definition attr_size :: "stun_attr \<Rightarrow> nat" where
  "attr_size a = unat (attr_length a) + padding (unat (attr_length a))"

definition attrs_size :: "stun_attr list \<Rightarrow> nat" where
  "attrs_size as = sum_list (map (\<lambda>a. 4 + attr_size a) as)"

lemma attrs_size_simps [simp]:
  "attrs_size [] = 0" "attrs_size (a # as) = 4 + attr_size a + attrs_size as"
  "attrs_size (as @ bs) = attrs_size as + attrs_size bs"
  by (simp_all add: attrs_size_def)

lemma padding_multiple: "(n + padding n) mod 4 = 0"
  by (simp add: padding_def) presburger

lemma attrs_size_mod: "attrs_size as mod 4 = 0"
proof (induction as)
  case (Cons a as)
  have "attr_size a mod 4 = 0" by (simp add: attr_size_def padding_multiple)
  with Cons show ?case by simp presburger
qed simp

definition attr_value :: "stun_env \<Rightarrow> stun_attr \<Rightarrow> byte list" where
  "attr_value env a = (case attr_write env a of Inl _ \<Rightarrow> [] | Inr bs \<Rightarrow> bs)"

definition wire :: "stun_env \<Rightarrow> stun_attr \<Rightarrow> byte list" where
  "wire env a = wr16 (env_io env) (attr_type a) @ wr16 (env_io env) (attr_length a) @ attr_value env a"

definition wires :: "stun_env \<Rightarrow> stun_attr list \<Rightarrow> byte list" where
  "wires env as = concat (map (wire env) as)"

lemma wires_simps [simp]:
  "wires env [] = []" "wires env (a # as) = wire env a @ wires env as"
  "wires env (as @ bs) = wires env as @ wires env bs"
  by (simp_all add: wires_def)

definition header :: "stun_env \<Rightarrow> u16 \<Rightarrow> u16 \<Rightarrow> byte list \<Rightarrow> byte list" where
  "header env ty l i = wr16 (env_io env) ty @ wr16 (env_io env) l @ wr32 (env_io env) k_stun_magic_cookie @ i"

definition msg_ok :: "stun_message \<Rightarrow> bool" where
  "msg_ok m \<longleftrightarrow> length (msg_transaction_id m) = 12 \<and> msg_type m AND 0x0800 = 0 \<and>
     list_all attr_ok (msg_attrs m) \<and> unat (msg_length m) = attrs_size (msg_attrs m)"

lemma write_padding_length [simp]: "length (write_padding l) = padding (unat l)"
  by (simp add: write_padding_def padding_def Let_def)

context stun_lib
begin

lemma address_bytes_ok:
  "address_bytes (env_io env) (IPv4 a) p = Inr ([0, 1] @ wr16 (env_io env) p @ wr32 (env_io env) a)"
  by (simp add: address_bytes_def)

lemma attr_write_ok:
  assumes "attr_ok a"
  shows "attr_write env a = Inr (attr_value env a)" and "length (attr_value env a) = attr_size a"
proof -
  have "\<exists>bs. attr_write env a = Inr bs \<and> length bs = attr_size a"
    using assms
    by (auto simp: attr_ok_def body_ok_def attr_write_defs attr_size_def xor_address_bytes_def get_xored_ip_def
        address_bytes_def padding_def wr32_length wr16_length write_length split: attr_body.splits ip_address.splits)
  then show "attr_write env a = Inr (attr_value env a)" "length (attr_value env a) = attr_size a"
    by (auto simp: attr_value_def)
qed

lemma write_attrs_ok:
  assumes "list_all attr_ok as"
  shows "write_attrs env as = Inr (wires env as)" and "length (wires env as) = attrs_size as"
  using assms by (induction as) (auto simp: attr_write_ok wire_def wr16_length)

lemma write_ok:
  assumes "msg_ok m"
  shows "StunMessage_write env m = Inr (header env (msg_type m) (msg_length m) (msg_transaction_id m) @ wires env (msg_attrs m))"
    and "length (header env (msg_type m) l (msg_transaction_id m)) = 20"
    and "length (wires env (msg_attrs m)) = unat (msg_length m)"
  using assms by (auto simp: msg_ok_def StunMessage_write_def header_def write_attrs_ok wr16_length wr32_length)

lemma wr16_ne [simp]: "wr16 (env_io env) v \<noteq> []"
  using wr16_length [of v] by (metis list.size(3) zero_neq_numeral)

lemma wire_ne [simp]: "wire env a \<noteq> []"
  by (simp add: wire_def)

lemma rd16_front: "rd16 (env_io env) (wr16 (env_io env) v @ rest) 0 = Inr v"
  using rd16_at_write [of "[]" 0 v rest] by simp

text \<open>One round of the reader over an attribute the writer wrote.\<close>

lemma read_uint_wr16: "ReadUInt env 2 (wr16 (env_io env) v @ rest) = Some (unat v, rest)"
  by (simp add: read_uint wr16_length)

lemma read_uint_wr32: "ReadUInt env 4 (wr32 (env_io env) v @ rest) = Some (unat v, rest)"
  by (simp add: read_uint wr32_length)

lemma consume_padding_ok: "consume_padding env l (write_padding l @ rest) = rest"
  by (simp add: consume_padding_def write_padding_def consume Let_def)

lemma attr_read_ok:
  assumes "attr_ok a" and "known a"
  obtains a0 where "create_attribute (attr_type a) (attr_length a) = Some a0"
    and "attr_read env a0 (attr_value env a @ rest) = Some (a, rest)"
proof (cases "get_attribute_value_type (attr_type a)")
  case STUN_VALUE_UNKNOWN
  then show ?thesis using assms(2) by (simp add: known_def)
next
  case STUN_VALUE_UINT32
  then obtain v where v: "attr_body a = UInt32 v" "attr_length a = 4"
    using assms(1) by (auto simp: attr_ok_def class_ok_def body_ok_def split: attr_body.splits)
  show ?thesis
  proof (rule that)
    show "create_attribute (attr_type a) (attr_length a) = Some (StunUInt32Attribute_new (attr_type a) 0)"
      using STUN_VALUE_UINT32 by (simp add: create_attribute_def StunAttribute_create_def)
    show "attr_read env (StunUInt32Attribute_new (attr_type a) 0) (attr_value env a @ rest) = Some (a, rest)"
      using v by (simp add: attr_read_defs StunUInt32Attribute_new_def attr_value_def attr_write_defs read_uint_wr32)
  qed
next
  case STUN_VALUE_BYTE_STRING
  then obtain bs where v: "attr_body a = ByteString bs" "unat (attr_length a) = length bs"
    using assms(1) by (auto simp: attr_ok_def class_ok_def body_ok_def split: attr_body.splits)
  show ?thesis
  proof (rule that)
    show "create_attribute (attr_type a) (attr_length a) = Some (StunByteStringAttribute_length (attr_type a) (attr_length a))"
      using STUN_VALUE_BYTE_STRING by (simp add: create_attribute_def StunAttribute_create_def)
    show "attr_read env (StunByteStringAttribute_length (attr_type a) (attr_length a)) (attr_value env a @ rest) = Some (a, rest)"
      using v by (simp add: attr_read_defs StunByteStringAttribute_length_def attr_value_def attr_write_defs
          read_bytes consume_padding_ok)
  qed
qed

lemma read_attrs_known:
  assumes "attr_ok a" and "known a"
  shows "read_attrs env (Suc fuel) acc (wire env a @ rest) = read_attrs env fuel (acc @ [a]) rest"
proof -
  have "wire env a @ rest \<noteq> []" by simp
  moreover obtain a0 where "create_attribute (attr_type a) (attr_length a) = Some a0"
    "attr_read env a0 (attr_value env a @ rest) = Some (a, rest)" using attr_read_ok [OF assms] by blast
  ultimately show ?thesis by (simp add: wire_def read_uint_wr16)
qed

lemma read_attrs_unknown:
  assumes "attr_ok a" and "\<not> known a" and "attr_size a < 65536"
  shows "read_attrs env (Suc fuel) acc (wire env a @ rest) = read_attrs env fuel acc rest"
proof -
  have ne: "wire env a @ rest \<noteq> []" by simp
  have none: "create_attribute (attr_type a) (attr_length a) = None" using assms(2) by (simp add: known_def create_attribute_def)
  define l where "l = (if unat (attr_length a) mod 4 \<noteq> 0
    then attr_length a + of_nat (4 - unat (attr_length a) mod 4) else attr_length a)"
  have "l = of_nat (attr_size a)" by (simp add: l_def attr_size_def padding_def)
  then have "unat l = length (attr_value env a)" using assms by (simp add: attr_write_ok unat_of_nat_small)
  then have "Consume env (unat l) (attr_value env a @ rest) = Some rest" by (simp add: consume)
  then show ?thesis using ne none by (simp add: wire_def read_uint_wr16 l_def Let_def)
qed

lemma read_attrs_wires:
  assumes "list_all attr_ok as" and "attrs_size as < 65536" and "length as \<le> fuel"
  shows "read_attrs env fuel acc (wires env as) = Inr (acc @ filter known as, [], True)"
  using assms
proof (induction as arbitrary: fuel acc)
  case Nil
  then show ?case by (cases fuel) auto
next
  case (Cons a as)
  then obtain fuel' where "fuel = Suc fuel'" "length as \<le> fuel'" by (cases fuel) auto
  with Cons show ?case by (cases "known a") (simp_all add: read_attrs_known read_attrs_unknown del: read_attrs.simps)
qed

lemma length_le_attrs_size: "length as \<le> attrs_size as"
  by (induction as) auto

lemma read_written:
  assumes "msg_ok m"
  shows "StunMessage_read env (header env (msg_type m) (msg_length m) (msg_transaction_id m) @ wires env (msg_attrs m)) m0 =
    Inr (m0\<lparr>msg_buffer := header env (msg_type m) (msg_length m) (msg_transaction_id m) @ wires env (msg_attrs m),
      msg_type := msg_type m, msg_length := msg_length m, msg_transaction_id := msg_transaction_id m,
      msg_attrs := filter known (msg_attrs m)\<rparr>, [], True)"
proof -
  have ok: "list_all attr_ok (msg_attrs m)" "length (msg_transaction_id m) = 12" "msg_type m AND 0x0800 = 0"
    using assms by (simp_all add: msg_ok_def)
  have len: "length (wires env (msg_attrs m)) = unat (msg_length m)" by (rule write_ok(3) [OF assms])
  have "attrs_size (msg_attrs m) < 65536"
    using assms unat_lt [of "msg_length m"] by (simp add: msg_ok_def)
  then have attrs: "read_attrs env (unat (msg_length m)) [] (wires env (msg_attrs m)) = Inr (filter known (msg_attrs m), [], True)"
    using ok(1) assms length_le_attrs_size by (subst read_attrs_wires) (auto simp: msg_ok_def)
  show ?thesis
    unfolding header_def
    using ok attrs len
    by (simp add: StunMessage_read_def read_uint_wr16 read_bytes wr32_length Let_def del: bindE_eq_Inr)
qed

end

section \<open>Building messages\<close>

definition mi_of :: "byte list \<Rightarrow> stun_attr" where
  "mi_of digest = StunByteStringAttribute_new STUN_ATTR_MESSAGE_INTEGRITY digest"

definition fp_of :: "u32 \<Rightarrow> stun_attr" where
  "fp_of crc = StunUInt32Attribute_new STUN_ATTR_FINGERPRINT (crc XOR STUN_FINGERPRINT_XOR_VALUE)"

lemma mi_of_facts [simp]:
  assumes "length digest = 20"
  shows "attr_ok (mi_of digest)" "known (mi_of digest)" "attr_size (mi_of digest) = 20" "attr_type (mi_of digest) = STUN_ATTR_MESSAGE_INTEGRITY"
    "attr_length (mi_of digest) = 20"
  using assms
  by (simp_all add: mi_of_def StunByteStringAttribute_new_def StunByteStringAttribute_length_def copy_bytes_def attr_ok_def body_ok_def
      class_ok_def known_def get_attribute_value_type_def attr_size_def padding_def stun_attr_types)

lemma fp_of_facts [simp]:
  "attr_ok (fp_of crc)" "\<not> known (fp_of crc)" "attr_size (fp_of crc) = 4" "attr_type (fp_of crc) = STUN_ATTR_FINGERPRINT"
  "attr_length (fp_of crc) = 4" "attr_body (fp_of crc) = UInt32 (crc XOR STUN_FINGERPRINT_XOR_VALUE)"
  by (simp_all add: fp_of_def StunUInt32Attribute_new_def attr_ok_def body_ok_def class_ok_def known_def
      get_attribute_value_type_def attr_size_def padding_def stun_attr_types)

lemma add_attribute_ok:
  assumes "msg_ok m" and "attr_ok a" and "attrs_size (msg_attrs m) + (4 + attr_size a) < 65536"
  shows "msg_ok (add_attribute a m)"
proof -
  have "unat (msg_length m + of_nat (attr_size a + 4)) = attrs_size (msg_attrs m) + (4 + attr_size a)"
    using assms by (simp add: unat_word_ariths unat_of_nat msg_ok_def)
  then show ?thesis using assms by (simp add: msg_ok_def add_attribute_def Let_def attr_size_def)
qed

text \<open>The message that \<open>add_message_integrity\<close> and \<open>add_fingerprint\<close> leave behind.\<close>

definition with_integrity :: "stun_env \<Rightarrow> byte list \<Rightarrow> stun_message \<Rightarrow> stun_message" where
  "with_integrity env pw m =
     (let l = msg_length m + 24;
          digest = ComputeHmac env pw (header env (msg_type m) l (msg_transaction_id m) @ wires env (msg_attrs m)) in
      m\<lparr>msg_length := l, msg_attrs := msg_attrs m @ [mi_of digest], msg_password := pw, msg_integrity := k_integrity_ok\<rparr>)"

definition with_fingerprint :: "stun_env \<Rightarrow> stun_message \<Rightarrow> stun_message" where
  "with_fingerprint env m =
     (let l = msg_length m + 8;
          crc = ComputeCrc32 env (header env (msg_type m) l (msg_transaction_id m) @ wires env (msg_attrs m)) in
      m\<lparr>msg_length := l, msg_attrs := msg_attrs m @ [fp_of crc]\<rparr>)"

lemma msg_ok_extend:
  assumes "msg_ok m" and "attr_ok a" and "attrs_size (msg_attrs m) + (4 + attr_size a) < 65536"
    and "l = msg_length m + of_nat (4 + attr_size a)"
  shows "msg_ok (m\<lparr>msg_length := l, msg_attrs := msg_attrs m @ [a]\<rparr>)"
proof -
  have "unat l = attrs_size (msg_attrs m) + (4 + attr_size a)"
    using assms by (simp add: unat_word_ariths unat_of_nat msg_ok_def)
  then show ?thesis using assms by (simp add: msg_ok_def)
qed

lemma msg_ok_update [simp]:
  "msg_ok (m\<lparr>msg_password := p\<rparr>) = msg_ok m" "msg_ok (m\<lparr>msg_integrity := i\<rparr>) = msg_ok m"
  "msg_ok (m\<lparr>msg_buffer := b\<rparr>) = msg_ok m"
  by (simp_all add: msg_ok_def)

context stun_lib
begin

lemma add_message_integrity_ok:
  assumes "msg_ok m" and "attrs_size (msg_attrs m) + 24 < 65536"
  shows "add_message_integrity env pw m = Inr (with_integrity env pw m, True)" and "msg_ok (with_integrity env pw m)"
proof -
  define l where "l = msg_length m + 24"
  define H where "H = header env (msg_type m) l (msg_transaction_id m)"
  define m1 where "m1 = add_attribute (mi_of (replicate 20 0x30)) m"
  have m1: "msg_ok m1" unfolding m1_def using assms by (intro add_attribute_ok) auto
  have m1_eq: "m1 = m\<lparr>msg_length := l, msg_attrs := msg_attrs m @ [mi_of (replicate 20 0x30)]\<rparr>"
    by (simp add: m1_def add_attribute_def l_def padding_def Let_def)
  have w: "StunMessage_write env m1 = Inr (H @ wires env (msg_attrs m) @ wire env (mi_of (replicate 20 0x30)))"
    using write_ok(1) [OF m1] by (simp add: m1_eq H_def)
  have "length (wire env (mi_of (replicate 20 0x30))) = 24"
    by (simp add: wire_def attr_write_ok wr16_length)
  then have t: "take (size_sub (size_sub (length (H @ wires env (msg_attrs m) @ wire env (mi_of (replicate 20 0x30)))) 4) 20)
      (H @ wires env (msg_attrs m) @ wire env (mi_of (replicate 20 0x30))) = H @ wires env (msg_attrs m)"
    by simp
  have "update_last_attr (copy_bytes d) m1 = m\<lparr>msg_length := l, msg_attrs := msg_attrs m @ [mi_of d]\<rparr>" for d
    by (simp add: update_last_attr_def m1_eq mi_of_def StunByteStringAttribute_new_def copy_bytes_def)
  then show "add_message_integrity env pw m = Inr (with_integrity env pw m, True)"
    unfolding add_message_integrity_def add_message_integrity_of_type_def
    using w t
    by (simp add: mi_of_def [symmetric] m1_def [symmetric] hmac_length with_integrity_def H_def l_def Let_def)
  show "msg_ok (with_integrity env pw m)"
    unfolding with_integrity_def Let_def using assms hmac_length by (simp add: msg_ok_extend)
qed

lemma add_fingerprint_ok:
  assumes "msg_ok m" and "attrs_size (msg_attrs m) + 8 < 65536"
  shows "add_fingerprint env m = Inr (with_fingerprint env m, True)" and "msg_ok (with_fingerprint env m)"
proof -
  define l where "l = msg_length m + 8"
  define H where "H = header env (msg_type m) l (msg_transaction_id m)"
  define a0 where "a0 = StunUInt32Attribute_new STUN_ATTR_FINGERPRINT 0"
  have a0: "a0 = fp_of STUN_FINGERPRINT_XOR_VALUE" by (simp add: a0_def fp_of_def)
  define m1 where "m1 = add_attribute a0 m"
  have m1: "msg_ok m1" unfolding m1_def a0 using assms by (intro add_attribute_ok) auto
  have m1_eq: "m1 = m\<lparr>msg_length := l, msg_attrs := msg_attrs m @ [a0]\<rparr>"
    by (simp add: m1_def a0 add_attribute_def l_def padding_def Let_def)
  have w: "StunMessage_write env m1 = Inr (H @ wires env (msg_attrs m) @ wire env a0)"
    using write_ok(1) [OF m1] by (simp add: m1_eq H_def)
  have len_a0: "unat (attr_length a0) = 4" by (simp add: a0)
  have "length (wire env a0) = 8"
    by (simp add: wire_def attr_write_ok a0 wr16_length)
  then have t: "take (size_sub (size_sub (length (H @ wires env (msg_attrs m) @ wire env a0)) 4) 4)
      (H @ wires env (msg_attrs m) @ wire env a0) = H @ wires env (msg_attrs m)"
    by simp
  have "update_last_attr (\<lambda>a. a\<lparr>attr_body := UInt32 (c XOR STUN_FINGERPRINT_XOR_VALUE)\<rparr>) m1 =
      m\<lparr>msg_length := l, msg_attrs := msg_attrs m @ [fp_of c]\<rparr>" for c
    by (simp add: update_last_attr_def m1_eq a0_def fp_of_def StunUInt32Attribute_new_def)
  then show "add_fingerprint env m = Inr (with_fingerprint env m, True)"
    unfolding add_fingerprint_def a0_def [symmetric] m1_def [symmetric] Let_def w sum.case
    using t len_a0 by (simp only: with_fingerprint_def H_def l_def Let_def stun_constants)
  show "msg_ok (with_fingerprint env m)"
    unfolding with_fingerprint_def Let_def using assms by (simp add: msg_ok_extend)
qed

lemma fingerprint_valid:
  assumes "msg_ok m" and "attrs_size (msg_attrs m) + 8 < 65536" and "StunMessage_write env (with_fingerprint env m) = Inr bs"
  shows "validate_fingerprint env bs = Inr True"
proof -
  define l where "l = msg_length m + 8"
  define D where "D = header env (msg_type m) l (msg_transaction_id m) @ wires env (msg_attrs m)"
  define f where "f = fp_of (ComputeCrc32 env D)"
  have bs: "bs = D @ wire env f"
    using write_ok(1) [OF add_fingerprint_ok(2) [OF assms(1,2)]] assms(3)
    by (simp add: with_fingerprint_def Let_def D_def f_def l_def)
  have lenD: "length D = 20 + attrs_size (msg_attrs m)"
    using write_ok(2,3) [OF assms(1)] assms(1) by (simp add: D_def msg_ok_def)
  have wf: "wire env f = wr16 (env_io env) STUN_ATTR_FINGERPRINT @ wr16 (env_io env) 4 @
      wr32 (env_io env) (ComputeCrc32 env D XOR STUN_FINGERPRINT_XOR_VALUE)"
    by (simp add: wire_def f_def attr_value_def attr_write_defs)
  have len: "length bs = length D + 8" by (simp add: bs wf wr16_length wr32_length)
  have "length bs mod 4 = 0" using attrs_size_mod [of "msg_attrs m"] unfolding len lenD by presburger
  moreover have "rd32 (env_io env) bs 4 = Inr k_stun_magic_cookie"
    using rd32_at_write [of "wr16 (env_io env) (msg_type m) @ wr16 (env_io env) l" 4 k_stun_magic_cookie]
    by (simp add: bs D_def header_def wr16_length)
  moreover have "rd16 (env_io env) bs (length D) = Inr STUN_ATTR_FINGERPRINT"
    unfolding bs wf by (rule rd16_at_write) simp
  moreover have "rd16 (env_io env) bs (length D + 2) = Inr 4"
    unfolding bs wf using rd16_at_write [of "D @ wr16 (env_io env) STUN_ATTR_FINGERPRINT" "length D + 2" 4] by (simp add: wr16_length)
  moreover have "rd32 (env_io env) bs (length D + 4) = Inr (ComputeCrc32 env D XOR STUN_FINGERPRINT_XOR_VALUE)"
    unfolding bs wf
    using rd32_at_write [of "D @ wr16 (env_io env) STUN_ATTR_FINGERPRINT @ wr16 (env_io env) 4" "length D + 4" _ "[]"]
    by (simp add: wr16_length)
  moreover have "take (length D) bs = D" by (simp add: bs)
  ultimately show ?thesis
    using len lenD
    by (simp add: validate_fingerprint_def Let_def xor.assoc del: bindE_eq_Inr)
qed

lemma mi_loop_wires:
  assumes "attr_ok mi" and "attr_type mi = t" and "list_all attr_ok as" and "list_all (\<lambda>a. attr_type a \<noteq> t) as"
    and "length pre = pos"
  shows "mi_loop (env_io env) t (pre @ wires env as @ wire env mi @ rest) pos = Inr (Some (pos + attrs_size as))"
  using assms(3-)
proof (induction as arbitrary: pre pos)
  case Nil
  have "rd16 (env_io env) (pre @ wire env mi @ rest) pos = Inr t"
    unfolding wire_def append_assoc assms(2) using Nil.prems(3) by (rule rd16_at_write)
  moreover have "rd16 (env_io env) (pre @ wire env mi @ rest) (pos + 2) = Inr (attr_length mi)"
    using rd16_at_write [of "pre @ wr16 (env_io env) (attr_type mi)" "pos + 2" "attr_length mi"] Nil.prems(3)
    by (simp add: wire_def wr16_length)
  moreover have "pos + 4 \<le> length (pre @ wire env mi @ rest)" using Nil.prems(3) by (simp add: wire_def wr16_length)
  ultimately show ?case by (simp add: mi_loop.simps [of _ t])
next
  case (Cons a as)
  define data where "data = pre @ wires env (a # as) @ wire env mi @ rest"
  have "rd16 (env_io env) data pos = Inr (attr_type a)"
    unfolding data_def wires_simps wire_def append_assoc using Cons.prems(3) by (rule rd16_at_write)
  moreover have "rd16 (env_io env) data (pos + 2) = Inr (attr_length a)"
    using rd16_at_write [of "pre @ wr16 (env_io env) (attr_type a)" "pos + 2" "attr_length a"] Cons.prems(3)
    by (simp add: data_def wire_def wr16_length)
  moreover have "pos + 4 \<le> length data" using Cons.prems(3) by (simp add: data_def wire_def wr16_length)
  moreover have "data = (pre @ wire env a) @ wires env as @ wire env mi @ rest" by (simp add: data_def)
  moreover have "mi_loop (env_io env) t ((pre @ wire env a) @ wires env as @ wire env mi @ rest) (pos + (4 + attr_size a)) =
      Inr (Some (pos + (4 + attr_size a) + attrs_size as))"
    using Cons.prems by (intro Cons.IH) (auto simp: wire_def attr_write_ok wr16_length)
  ultimately have "mi_loop (env_io env) t data pos = Inr (Some (pos + (4 + attr_size a) + attrs_size as))"
    using Cons.prems(2)
    by (subst mi_loop.simps) (simp del: add_2_eq_Suc' add: attr_size_def add.assoc [symmetric])
  then show ?case by (simp add: data_def)
qed

text \<open>A message with the digest in its place, followed by other attributes.\<close>

lemma integrity_valid:
  assumes "msg_ok m" and "attrs_size (msg_attrs m) + 24 + attrs_size later < 65536" and "list_all attr_ok later"
    and "list_all (\<lambda>a. attr_type a \<noteq> STUN_ATTR_MESSAGE_INTEGRITY) (msg_attrs m)"
    and "l = msg_length m + of_nat (24 + attrs_size later)"
    and "digest = ComputeHmac env pw (header env (msg_type m) (msg_length m + 24) (msg_transaction_id m) @ wires env (msg_attrs m))"
    and "bs = header env (msg_type m) l (msg_transaction_id m) @ wires env (msg_attrs m @ mi_of digest # later)"
  shows "validate_message_integrity_of_type env STUN_ATTR_MESSAGE_INTEGRITY 20 bs pw = Inr True"
proof -
  define n where "n = attrs_size (msg_attrs m)"
  have m: "list_all attr_ok (msg_attrs m)" "length (msg_transaction_id m) = 12" "unat (msg_length m) = n"
    using assms(1) by (simp_all add: msg_ok_def n_def)
  have d: "length digest = 20" by (simp add: assms(6) hmac_length)
  define T where "T = wr16 (env_io env) (msg_type m)"
  define C where "C = wr32 (env_io env) k_stun_magic_cookie @ msg_transaction_id m @ wires env (msg_attrs m)"
  define W where "W = wire env (mi_of digest)"
  define R where "R = wires env later"
  have bs: "bs = T @ wr16 (env_io env) l @ C @ W @ R" by (simp add: assms(7) header_def T_def C_def W_def R_def)
  have W: "W = wr16 (env_io env) STUN_ATTR_MESSAGE_INTEGRITY @ wr16 (env_io env) 20 @ digest"
    using d by (simp add: W_def wire_def attr_value_def attr_write_defs mi_of_def StunByteStringAttribute_new_def copy_bytes_def
        StunByteStringAttribute_length_def write_padding_def)
  have lens: "length T = 2" "length C = 16 + n" "length W = 24" "length R = attrs_size later"
    using m d assms(3) by (simp_all add: T_def C_def W R_def write_attrs_ok n_def wr16_length wr32_length)
  have len: "length bs = 20 + n + 24 + attrs_size later" by (simp add: bs lens wr16_length)
  have ul: "unat l = n + 24 + attrs_size later"
    using assms(2,5) m(3) by (simp add: unat_word_ariths unat_of_nat n_def)
  have mod: "length bs mod 4 = 0"
    using attrs_size_mod [of "msg_attrs m"] attrs_size_mod [of later] unfolding len n_def by presburger
  have "rd16 (env_io env) bs 2 = Inr l" unfolding bs using lens(1) by (rule rd16_at_write)
  moreover have "mi_loop (env_io env) STUN_ATTR_MESSAGE_INTEGRITY bs 20 = Inr (Some (20 + n))"
    unfolding n_def assms(7) wires_simps append_assoc using assms(1,4) m d
    by (intro mi_loop_wires) (auto simp: header_def wr16_length wr32_length)
  moreover have v: "view bs 0 (20 + n) = Inr (T @ wr16 (env_io env) l @ C)"
    using lens wr16_length [of l] by (simp add: bs)
  moreover have "view bs (20 + n + 4) 20 = Inr digest"
    using lens wr16_length [of l] d by (simp add: bs W wr16_length)
  moreover have "(if length bs > 20 + n + 4 + 20 then put (T @ wr16 (env_io env) l @ C) 2 (wr16 (env_io env) (of_nat (n + 24)))
      else Inr (T @ wr16 (env_io env) l @ C)) = Inr (T @ wr16 (env_io env) (msg_length m + 24) @ C)"
  proof -
    have c: "of_nat n = msg_length m" unfolding m(3) [symmetric] by simp
    have "overwrite 2 (wr16 (env_io env) (of_nat (n + 24))) (T @ wr16 (env_io env) l @ C) =
        T @ wr16 (env_io env) (msg_length m + 24) @ C"
      using lens(1) wr16_length by (simp add: overwrite_def c)
    moreover have "l = msg_length m + 24" if "attrs_size later = 0" using that assms(5) by simp
    ultimately show ?thesis using lens wr16_length by (auto simp: len)
  qed
  moreover have "size - (size - (20 + n + 4 + 20)) - 20 = n + 24" if "20 + n + 4 + 20 < size" for size :: nat
    using that by simp
  ultimately have "validate_message_integrity_of_type env STUN_ATTR_MESSAGE_INTEGRITY 20 bs pw =
      Inr (digest = ComputeHmac env pw (T @ wr16 (env_io env) (msg_length m + 24) @ C))"
    using len ul mod hmac_length d
    unfolding validate_message_integrity_of_type_def Let_def
    by (cases "attrs_size later = 0") (simp_all add: add.commute [of "24 :: u16"] del: bindE_eq_Inr)
  then show ?thesis by (simp add: assms(6) T_def C_def header_def)
qed

end

section \<open>The reader never faults\<close>

definition read_ok :: "byte list \<Rightarrow> error + stun_message \<times> byte list \<times> bool \<Rightarrow> bool" where
  "read_ok bs r \<longleftrightarrow> (\<exists>m rest ok. r = Inr (m, rest, ok) \<and> (ok \<longrightarrow> rest = [] \<and> msg_buffer m = bs \<and> list_all known (msg_attrs m)))"

lemma create_attribute_known:
  "create_attribute ty l = Some a \<Longrightarrow> attr_type a = ty \<and> get_attribute_value_type ty \<noteq> STUN_VALUE_UNKNOWN"
  by (auto simp: create_attribute_def StunAttribute_create_def StunByteStringAttribute_length_def StunUInt32Attribute_new_def
      Let_def split: if_splits StunAttributeValueType.splits)

lemma attr_read_type: "attr_read env a bs = Some (a', rest) \<Longrightarrow> attr_type a' = attr_type a"
  by (auto simp: attr_read_defs split: attr_body.splits if_splits option.splits)

lemma read_attrs_step:
  assumes "read_attrs env (Suc fuel) acc bs = Inr (as, rest, ok)"
  shows "as = acc \<or> (\<exists>acc' bs'. read_attrs env fuel acc' bs' = Inr (as, rest, ok) \<and>
    (list_all known acc \<longrightarrow> list_all known acc'))"
proof -
  have "known a'" if "create_attribute ty l = Some a" "attr_read env a bs = Some (a', r)" for ty l a bs a' r
    using create_attribute_known [OF that(1)] attr_read_type [OF that(2)] by (simp add: known_def)
  then show ?thesis using assms
    by (simp add: Let_def split: if_split_asm option.split_asm prod.split_asm) (metis list_all_append list.pred_inject)+
qed

lemma read_attrs_known_only:
  assumes "read_attrs env fuel acc bs = Inr (as, rest, ok)" and "list_all known acc"
  shows "list_all known as"
  using assms
proof (induction fuel arbitrary: acc bs)
  case 0
  then show ?case by (simp split: if_splits)
next
  case (Suc fuel)
  then show ?case using read_attrs_step [OF Suc.prems(1)] by blast
qed

context stun_lib
begin

lemma consume_padding_shrinks: "length (consume_padding env l bs) \<le> length bs"
  by (auto simp: consume_padding_def Let_def consume)

lemma attr_read_shrinks: "attr_read env a bs = Some (a', rest) \<Longrightarrow> length rest \<le> length bs"
  by (auto simp: attr_read_defs read_uint read_bytes split: attr_body.splits if_splits
      intro: order_trans [OF consume_padding_shrinks])

lemma read_attrs_total:
  assumes "length bs \<le> fuel"
  shows "\<exists>as rest ok. read_attrs env fuel acc bs = Inr (as, rest, ok) \<and> (ok \<longrightarrow> rest = [])"
  using assms
proof (induction fuel arbitrary: acc bs)
  case 0
  then show ?case by auto
next
  case (Suc fuel)
  show ?case
  proof (cases "4 \<le> length bs")
    case False
    then show ?thesis by (cases "bs = []") (auto simp: read_uint)
  next
    case True
    define ty where "ty = ReadBE (env_io env) 2 bs"
    define l where "l = ReadBE (env_io env) 2 (drop 2 bs)"
    define bs' where "bs' = drop 4 bs"
    have "bs \<noteq> []" and dec: "length bs' \<le> fuel" using True Suc.prems by (auto simp: bs'_def)
    show ?thesis
    proof (cases "create_attribute (of_nat ty) (of_nat l)")
      case None
      then show ?thesis using True \<open>bs \<noteq> []\<close> Suc.IH dec
        by (auto simp: read_uint ty_def [symmetric] l_def [symmetric] bs'_def [symmetric] consume Let_def)
    next
      case (Some a)
      show ?thesis
      proof (cases "attr_read env a bs'")
        case None
        then show ?thesis using True \<open>bs \<noteq> []\<close> Some
          by (auto simp: read_uint ty_def [symmetric] l_def [symmetric] bs'_def [symmetric])
      next
        case (Some r)
        obtain a' rest where r: "r = (a', rest)" by (cases r)
        then have "length rest \<le> fuel" using attr_read_shrinks Some dec order_trans by blast
        then show ?thesis using True \<open>bs \<noteq> []\<close> \<open>create_attribute _ _ = _\<close> Some r Suc.IH
          by (auto simp: read_uint ty_def [symmetric] l_def [symmetric] bs'_def [symmetric])
      qed
    qed
  qed
qed

lemma read_total: "read_ok bs (StunMessage_read env bs m)"
proof -
  have "read_ok bs (bindE (read_attrs env n [] r) (\<lambda>(attrs, bs, ok). Inr (m0\<lparr>msg_attrs := attrs\<rparr>, bs, ok)))"
    if buf: "msg_buffer m0 = bs" and len: "length r \<le> n" for r m0 n
  proof -
    obtain as rest ok where r: "read_attrs env n [] r = Inr (as, rest, ok)" "ok \<longrightarrow> rest = []"
      using read_attrs_total len by blast
    moreover have "list_all known as" using read_attrs_known_only [OF r(1)] by simp
    ultimately show ?thesis using buf by (simp add: read_ok_def del: bindE_eq_Inr)
  qed
  moreover have "read_ok bs (Inr (m0, r, False))" for m0 r by (auto simp: read_ok_def)
  ultimately show ?thesis
    by (simp add: StunMessage_read_def Let_def read_uint read_bytes del: bindE_eq_Inr)
qed

lemma fingerprint_total: "\<exists>ok. validate_fingerprint env bs = Inr ok"
  by (auto simp: validate_fingerprint_def Let_def rd16_def rd32_def rd_def)

end

lemma signed_roundtrip:
  assumes "stun_lib env" and "msg_ok m" and "attrs_size (msg_attrs m) + 32 < 65536"
    and "list_all (\<lambda>a. attr_type a \<noteq> STUN_ATTR_MESSAGE_INTEGRITY) (msg_attrs m)"
  shows "\<exists>m1 m2 bs r r'. add_message_integrity env pw m = Inr (m1, True) \<and> add_fingerprint env m1 = Inr (m2, True) \<and>
    StunMessage_write env m2 = Inr bs \<and> validate_fingerprint env bs = Inr True \<and>
    StunMessage_read env bs m0 = Inr (r, [], True) \<and> msg_type r = msg_type m \<and>
    msg_transaction_id r = msg_transaction_id m \<and>
    (\<exists>digest. msg_attrs r = filter known (msg_attrs m) @ [mi_of digest]) \<and>
    validate_message_integrity env pw r = Inr (r', k_integrity_ok)"
proof -
  define digest where "digest = ComputeHmac env pw (header env (msg_type m) (msg_length m + 24) (msg_transaction_id m) @ wires env (msg_attrs m))"
  define m1 where "m1 = with_integrity env pw m"
  define m2 where "m2 = with_fingerprint env m1"
  have d: "length digest = 20" by (simp add: digest_def stun_lib.hmac_length [OF assms(1)])
  have m1: "add_message_integrity env pw m = Inr (m1, True)" "msg_ok m1"
    using stun_lib.add_message_integrity_ok [OF assms(1,2)] assms(3) by (simp_all add: m1_def)
  have a1: "msg_attrs m1 = msg_attrs m @ [mi_of digest]" "msg_length m1 = msg_length m + 24" "msg_type m1 = msg_type m"
    "msg_transaction_id m1 = msg_transaction_id m"
    by (simp_all add: m1_def with_integrity_def digest_def Let_def)
  have s1: "attrs_size (msg_attrs m1) + 8 < 65536" using assms(3) d by (simp add: a1)
  have m2: "add_fingerprint env m1 = Inr (m2, True)" "msg_ok m2"
    using stun_lib.add_fingerprint_ok [OF assms(1) m1(2) s1] by (simp_all add: m2_def)
  obtain crc where a2: "msg_attrs m2 = msg_attrs m @ [mi_of digest, fp_of crc]" "msg_length m2 = msg_length m + of_nat (24 + attrs_size [fp_of crc])"
    "msg_type m2 = msg_type m" "msg_transaction_id m2 = msg_transaction_id m"
    by (simp add: m2_def with_fingerprint_def a1 Let_def)
  define bs where "bs = header env (msg_type m2) (msg_length m2) (msg_transaction_id m2) @ wires env (msg_attrs m2)"
  have w: "StunMessage_write env m2 = Inr bs" using stun_lib.write_ok(1) [OF assms(1) m2(2)] by (simp add: bs_def)
  have f: "validate_fingerprint env bs = Inr True"
    using stun_lib.fingerprint_valid [OF assms(1) m1(2) s1] w by (simp add: m2_def)
  define r where "r = m0\<lparr>msg_buffer := bs, msg_type := msg_type m, msg_length := msg_length m2,
      msg_transaction_id := msg_transaction_id m, msg_attrs := filter known (msg_attrs m) @ [mi_of digest]\<rparr>"
  have rd: "StunMessage_read env bs m0 = Inr (r, [], True)"
    using stun_lib.read_written [OF assms(1) m2(2), of m0, folded bs_def] d by (simp add: a2 r_def)
  have "validate_message_integrity_of_type env STUN_ATTR_MESSAGE_INTEGRITY 20 bs pw = Inr True"
    using assms(3,4) by (intro stun_lib.integrity_valid [OF assms(1,2), of "[fp_of crc]" _ digest])
      (auto simp: a2 bs_def digest_def)
  moreover have "get_byte_string STUN_ATTR_MESSAGE_INTEGRITY (r\<lparr>msg_password := pw\<rparr>) \<noteq> None"
    using d by (auto simp: get_byte_string_def get_attribute_def r_def find_None_iff)
  ultimately have "validate_message_integrity env pw r = Inr (r\<lparr>msg_password := pw, msg_integrity := k_integrity_ok\<rparr>, k_integrity_ok)"
    by (simp add: validate_message_integrity_def r_def Let_def del: bindE_eq_Inr)
  with m1 m2 w f rd show ?thesis by (auto simp: r_def)
qed

lemma read_error_code:
  assumes "StunMessage_read env bs StunMessage_new = Inr (m, rest, ok)"
  shows "get_error_code_value m = 600"
proof -
  have n: "\<not> known a" if "attr_type a = STUN_ATTR_ERROR_CODE" for a
    using that by (simp add: known_def get_attribute_value_type_def stun_attr_types)
  have "list_all known (msg_attrs m)"
    using assms read_attrs_known_only
    by (auto simp: StunMessage_read_def StunMessage_new_def Let_def split: option.splits if_splits)
  then have "get_attribute STUN_ATTR_ERROR_CODE m = None"
    using n by (auto simp: get_attribute_def find_None_iff list_all_iff)
  then show ?thesis by (simp add: get_error_code_value_def)
qed

lemma mi_of_ok:
  assumes "length d < 65536"
  shows "attr_ok (mi_of d)" "known (mi_of d)" "attr_type (mi_of d) = STUN_ATTR_MESSAGE_INTEGRITY" "unat (attr_length (mi_of d)) = length d"
  using assms
  by (simp_all add: mi_of_def StunByteStringAttribute_new_def StunByteStringAttribute_length_def copy_bytes_def attr_ok_def body_ok_def
      class_ok_def known_def get_attribute_value_type_def stun_attr_types unat_of_nat_small)

section \<open>Properties\<close>

text \<open>C17. Every byte sequence can be given to the STUN reader and to the fingerprint check: both return, the
  attribute loop included, and no byte outside the buffer is read. A message the reader accepts has
  been consumed completely and holds only attributes of the types the reader knows.\<close>

theorem stun_read_total:
  assumes "stun_lib env"
  shows "\<exists>ok m' rest accepted. validate_fingerprint env bs = Inr ok \<and> StunMessage_read env bs m = Inr (m', rest, accepted) \<and>
    (accepted \<longrightarrow> rest = [] \<and> list_all known (msg_attrs m'))"
  using stun_lib.fingerprint_total [OF assms] stun_lib.read_total [OF assms] unfolding read_ok_def by metis

text \<open>C16. The STUN round trip: to a well-formed message without MESSAGE-INTEGRITY, \<open>add_message_integrity\<close> and
  \<open>add_fingerprint\<close> succeed, and so does \<open>write\<close>; of the bytes written, the fingerprint validates, \<open>read\<close>
  gives back the type, the transaction id and all attributes of the types it knows, in order, and the
  message integrity validates under the password.\<close>

theorem stun_message_roundtrip:
  assumes "stun_lib env" and "msg_ok m" and "attrs_size (msg_attrs m) + 32 < 65536"
    and "list_all (\<lambda>a. attr_type a \<noteq> STUN_ATTR_MESSAGE_INTEGRITY) (msg_attrs m)"
  shows "\<exists>m1 m2 bs r r'. add_message_integrity env pw m = Inr (m1, True) \<and> add_fingerprint env m1 = Inr (m2, True) \<and>
    StunMessage_write env m2 = Inr bs \<and> validate_fingerprint env bs = Inr True \<and>
    StunMessage_read env bs m0 = Inr (r, [], True) \<and> msg_type r = msg_type m \<and>
    msg_transaction_id r = msg_transaction_id m \<and>
    (\<exists>digest. msg_attrs r = filter known (msg_attrs m) @ [mi_of digest]) \<and>
    validate_message_integrity env pw r = Inr (r', k_integrity_ok)"
  by (rule signed_roundtrip [OF assms])

text \<open>A received message never yields the code of its ERROR-CODE attribute: the reader skips that
  attribute, and \<open>get_error_code_value\<close> answers 600 (global failure) for every message that was read.\<close>

theorem error_code_never_read:
  assumes "StunMessage_read env bs StunMessage_new = Inr (m, rest, ok)"
  shows "get_error_code_value m = 600"
  by (rule read_error_code [OF assms])

text \<open>C18. A short MESSAGE-INTEGRITY makes the server read past the message: when a well-formed message
  carries the attribute with fewer value bytes than a digest and not enough bytes follow, \<open>read\<close>
  accepts it, and \<open>validate_message_integrity\<close> then compares 20 bytes from a position less than 20
  bytes before the end of the buffer, whatever the password.\<close>

theorem short_integrity_overread:
  assumes "stun_lib env" and "msg_ok m" and "msg_attrs m = as @ mi_of d # later"
    and "list_all (\<lambda>a. attr_type a \<noteq> STUN_ATTR_MESSAGE_INTEGRITY) as" and "attr_size (mi_of d) + attrs_size later < 20"
  shows "\<exists>bs r. StunMessage_write env m = Inr bs \<and> StunMessage_read env bs m0 = Inr (r, [], True) \<and>
    validate_message_integrity env pw r = Inl OutOfBounds"
proof -
  define bs where "bs = header env (msg_type m) (msg_length m) (msg_transaction_id m) @ wires env (msg_attrs m)"
  have w: "StunMessage_write env m = Inr bs" using stun_lib.write_ok(1) [OF assms(1,2)] by (simp add: bs_def)
  define r where "r = m0\<lparr>msg_buffer := bs, msg_type := msg_type m, msg_length := msg_length m,
      msg_transaction_id := msg_transaction_id m, msg_attrs := filter known (msg_attrs m)\<rparr>"
  have rd: "StunMessage_read env bs m0 = Inr (r, [], True)"
    using stun_lib.read_written [OF assms(1,2), of m0, folded bs_def] by (simp add: r_def)
  have oks: "list_all attr_ok as" "attr_ok (mi_of d)" "list_all attr_ok later" using assms(2,3) by (simp_all add: msg_ok_def)
  have known: "known (mi_of d)" "attr_type (mi_of d) = STUN_ATTR_MESSAGE_INTEGRITY"
    by (simp_all add: mi_of_def StunByteStringAttribute_new_def StunByteStringAttribute_length_def copy_bytes_def
        known_def get_attribute_value_type_def)
  have hl: "length (header env (msg_type m) (msg_length m) (msg_transaction_id m)) = 20"
    by (rule stun_lib.write_ok(2) [OF assms(1,2)])
  have len: "length bs = 20 + attrs_size as + 4 + attr_size (mi_of d) + attrs_size later" "unat (msg_length m) + 20 = length bs"
    using stun_lib.write_ok(3) [OF assms(1,2)] assms(2,3) hl by (simp_all add: bs_def msg_ok_def)
  have mod: "length bs mod 4 = 0"
    using attrs_size_mod [of "msg_attrs m"] assms(2) len(2) unfolding msg_ok_def by presburger
  have "rd16 (env_io env) bs 2 = Inr (msg_length m)"
    unfolding bs_def header_def append_assoc
    using big_endian_io.wr16_length [OF stun_lib.axioms(1) [OF assms(1)]]
    by (intro big_endian_io.rd16_at_write [OF stun_lib.axioms(1) [OF assms(1)]])
  moreover have "mi_loop (env_io env) STUN_ATTR_MESSAGE_INTEGRITY bs 20 = Inr (Some (20 + attrs_size as))"
    unfolding bs_def assms(3) wires_simps using oks known(2) assms(4) hl
    by (intro stun_lib.mi_loop_wires [OF assms(1)])
  moreover have "view bs (20 + attrs_size as + 4) 20 = Inl OutOfBounds" using assms(5) len by (simp add: view_def)
  moreover have "\<not> length bs > 20 + attrs_size as + 4 + 20" using assms(5) len by simp
  ultimately have "validate_message_integrity_of_type env STUN_ATTR_MESSAGE_INTEGRITY 20 bs pw = Inl OutOfBounds"
    unfolding validate_message_integrity_of_type_def Let_def
    using mod len stun_lib.hmac_length [OF assms(1)] by (simp del: bindE_eq_Inr)
  moreover have "get_byte_string STUN_ATTR_MESSAGE_INTEGRITY (r\<lparr>msg_password := pw\<rparr>) \<noteq> None"
    using known by (auto simp: get_byte_string_def get_attribute_def r_def find_None_iff assms(3))
  ultimately have "validate_message_integrity env pw r = Inl OutOfBounds"
    by (simp add: validate_message_integrity_def r_def Let_def del: bindE_eq_Inr)
  with w rd show ?thesis by blast
qed

section \<open>An instance of the library\<close>

text \<open>The reader over lists, the CRC-32 of IEEE 802.3 computed bit by bit, and a keyed checksum with the size
  of a SHA-1 digest in the place of the HMAC.\<close>

fun crc_bits :: "nat \<Rightarrow> u32 \<Rightarrow> u32" where
  "crc_bits 0 c = c"
| "crc_bits (Suc n) c = crc_bits n (if bit c 0 then drop_bit 1 c XOR 0xEDB88320 else drop_bit 1 c)"

definition crc32 :: "byte list \<Rightarrow> u32" where
  "crc32 bs = NOT (fold (\<lambda>b c. crc_bits 8 (c XOR ucast b)) bs (NOT 0))"

definition keyed_sum :: "byte list \<Rightarrow> byte list \<Rightarrow> byte list" where
  "keyed_sum key bs = replicate 20 (sum_list key + sum_list bs)"

definition list_env :: stun_env where
  "list_env = \<lparr>env_io = be_io,
     ReadUInt = (\<lambda>n bs. if n \<le> length bs then Some (be_read n bs, drop n bs) else None),
     ReadBytes = (\<lambda>n bs. if n \<le> length bs then Some (take n bs, drop n bs) else None),
     Consume = (\<lambda>n bs. if n \<le> length bs then Some (drop n bs) else None),
     ComputeCrc32 = crc32, ComputeHmac = keyed_sum\<rparr>"

interpretation le: stun_lib list_env
proof -
  have "stun_lib_axioms list_env"
    by unfold_locales (auto simp: list_env_def keyed_sum_def be_io_def)
  then show "stun_lib list_env" using be.big_endian_io_axioms by (simp add: stun_lib_def list_env_def)
qed

definition sample_request :: stun_message where
  "sample_request = add_attribute (StunUInt32Attribute_new STUN_ATTR_PRIORITY 7)
     (add_attribute (StunByteStringAttribute_new STUN_ATTR_USERNAME [0x61, 0x3A, 0x62]) (set_type 1 StunMessage_new))"

lemmas attr_defs = StunByteStringAttribute_new_def StunByteStringAttribute_length_def StunUInt32Attribute_new_def copy_bytes_def
  create_error_code_def set_code_def set_reason_def attr_ok_def body_ok_def class_ok_def known_def get_attribute_value_type_def
  attr_size_def padding_def stun_attr_types

lemma sample_request_facts:
  "msg_ok sample_request" "attrs_size (msg_attrs sample_request) = 16" "msg_type sample_request = 1"
  "list_all (\<lambda>a. attr_type a \<noteq> STUN_ATTR_MESSAGE_INTEGRITY) (msg_attrs sample_request)"
  by (simp_all add: sample_request_def msg_ok_def add_attribute_def set_type_def StunMessage_new_def attr_defs Let_def)

definition sample_error :: stun_message where
  "sample_error = add_attribute (set_reason [0x6E, 0x6F] (set_code 401 create_error_code)) (set_type 0x111 StunMessage_new)"

lemma sample_error_ok: "msg_ok sample_error"
  by (simp add: sample_error_def msg_ok_def add_attribute_def set_type_def StunMessage_new_def attr_defs Let_def)

theorem stun_read_total_witness:
  "\<exists>ok m' rest accepted. validate_fingerprint list_env [1, 2, 3] = Inr ok \<and>
    StunMessage_read list_env [1, 2, 3] StunMessage_new = Inr (m', rest, accepted)"
  using stun_read_total [OF le.stun_lib_axioms, of "[1, 2, 3]" StunMessage_new] by blast

theorem stun_message_roundtrip_witness:
  "\<exists>m1 m2 bs r r'. add_message_integrity list_env [1, 2] sample_request = Inr (m1, True) \<and>
    add_fingerprint list_env m1 = Inr (m2, True) \<and> StunMessage_write list_env m2 = Inr bs \<and>
    validate_fingerprint list_env bs = Inr True \<and> StunMessage_read list_env bs StunMessage_new = Inr (r, [], True) \<and>
    msg_type r = 1 \<and> validate_message_integrity list_env [1, 2] r = Inr (r', k_integrity_ok)"
  using stun_message_roundtrip [OF le.stun_lib_axioms sample_request_facts(1), of "[1, 2]" StunMessage_new] sample_request_facts(2-)
  by auto

theorem error_code_never_read_witness:
  "\<exists>bs m. StunMessage_write list_env sample_error = Inr bs \<and> StunMessage_read list_env bs StunMessage_new = Inr (m, [], True) \<and>
    get_error_code_value m = 600"
  using le.write_ok(1) [OF sample_error_ok] le.read_written [OF sample_error_ok, of StunMessage_new] error_code_never_read
  by blast

theorem short_integrity_overread_witness:
  "\<exists>bs r. StunMessage_write list_env (add_attribute (mi_of []) sample_request) = Inr bs \<and>
    StunMessage_read list_env bs StunMessage_new = Inr (r, [], True) \<and>
    validate_message_integrity list_env [1, 2] r = Inl OutOfBounds"
proof -
  have "msg_ok (add_attribute (mi_of []) sample_request)"
    using sample_request_facts by (intro add_attribute_ok) (auto simp: mi_of_ok attr_size_def padding_def)
  moreover have "msg_attrs (add_attribute (mi_of []) sample_request) = msg_attrs sample_request @ mi_of [] # []"
    by (simp add: add_attribute_def Let_def)
  moreover have "attr_size (mi_of []) + attrs_size [] < 20" by (simp add: mi_of_def attr_defs)
  ultimately show ?thesis
    using short_integrity_overread [OF le.stun_lib_axioms, of _ "msg_attrs sample_request" "[]" "[]" StunMessage_new "[1, 2]"]
      sample_request_facts(4) by blast
qed

end
