(* ===== verification/Ice_Connection.thy ===== *)
theory Ice_Connection
  imports Stun_Correct
begin

text \<open>
  ICE candidates, connections and the UDP port (\<open>ice/candidate\<close>, \<open>ice/ice_connection\<close>, \<open>ice/stun_request\<close>,
  \<open>ice/udp_port\<close>): everything a connection computes from its own state, the STUN requests and responses
  it builds, and the filter through which every received packet passes. The operations of a connection
  that raise signals are in the theory of the transport channel, which is the receiver of the signals.
  Times are milliseconds, kept as \<open>int64_t\<close> values; where the code narrows them to \<open>int\<close>, so does the model.
\<close>

section \<open>Candidate data\<close>

datatype IceCandidateComponent = RTP | RTCP

fun component_id :: "IceCandidateComponent \<Rightarrow> int" where
  "component_id RTP = 1"
| "component_id RTCP = 2"

record ice_parameters =
  ice_ufrag :: "byte list"
  ice_pwd :: "byte list"

record candidate =
  component :: IceCandidateComponent
  protocol :: "byte list"
  address :: socket_address
  cand_port :: int
  cand_priority :: u32
  username :: "byte list"
  password :: "byte list"
  cand_type :: "byte list"
  foundation :: "byte list"

section \<open>Code outside the repository\<close>

text \<open>\<open>rtc::split\<close>, the moving average of \<open>rtc_base\<close>, the address precedence of RFC 3484, the host of an
  address as text, and the result of sending on the UDP socket. \<open>freed_candidate\<close> is what the memory of a destroyed
  candidate is read as: C++ says nothing of it, so it is any candidate at all, or \<open>None\<close> when the access faults.\<close>

record ice_env =
  ice_stun :: stun_env
  Split :: "byte \<Rightarrow> byte list \<Rightarrow> byte list list"
  GetNextMovingAverage :: "int \<Rightarrow> int \<Rightarrow> int \<Rightarrow> int"
  IPAddressPrecedence :: "ip_address \<Rightarrow> int"
  HostAsURIString :: "ip_address \<Rightarrow> byte list"
  socket_send :: "byte list \<Rightarrow> socket_address \<Rightarrow> int"
  freed_candidate :: "candidate \<Rightarrow> candidate option"

section \<open>Candidates\<close>

definition ICE_TYPE_PREFERENCE_PRFLX :: u32 where
  "ICE_TYPE_PREFERENCE_PRFLX = 110"

definition ICE_TYPE_PREFERENCE_HOST :: u32 where
  "ICE_TYPE_PREFERENCE_HOST = 126"

definition get_priority :: "ice_env \<Rightarrow> u32 \<Rightarrow> int \<Rightarrow> int \<Rightarrow> candidate \<Rightarrow> u32" where
  "get_priority ie type_preference network_adapter_preference relay_preference c =
     (let addr_ref = IPAddressPrecedence ie (ipaddr (address c));
          local_pref = ((push_bit 8 network_adapter_preference) OR addr_ref) + relay_preference
      in push_bit 24 type_preference OR of_int (push_bit 8 local_pref) OR of_int (256 - component_id (component c)))"

section \<open>Connections and ports\<close>

datatype WriteState = STATE_WRITABLE | STATE_WRITE_UNRELIABLE | STATE_WRITE_INIT | STATE_WRITE_TIMEOUT

fun write_state_value :: "WriteState \<Rightarrow> nat" where
  "write_state_value STATE_WRITABLE = 0"
| "write_state_value STATE_WRITE_UNRELIABLE = 1"
| "write_state_value STATE_WRITE_INIT = 2"
| "write_state_value STATE_WRITE_TIMEOUT = 3"

datatype IceCandidatePairState = WAITING | IN_PROGRESS | SUCCEEDED | FAILED

record sent_ping =
  ping_id :: "byte list"
  sent_time :: int

record stun_request =
  req_msg :: stun_message
  req_ts :: int

record ice_connection =
  conn_port :: nat
  remote_candidate :: candidate
  write_state :: WriteState
  receiving :: bool
  selected :: bool
  last_ping_sent :: int
  last_ping_received :: int
  last_ping_response_received :: int
  last_data_received :: int
  num_pings_sent :: int
  pings_since_last_response :: "sent_ping list"
  requests :: "byte list \<rightharpoonup> stun_request"
  rtt :: int
  rtt_samples :: int
  pair_state :: IceCandidatePairState

definition IceConnection_new :: "nat \<Rightarrow> candidate \<Rightarrow> ice_connection" where
  "IceConnection_new port c =
     \<lparr>conn_port = port, remote_candidate = c, write_state = STATE_WRITE_INIT, receiving = False, selected = False,
      last_ping_sent = 0, last_ping_received = 0, last_ping_response_received = 0, last_data_received = 0,
      num_pings_sent = 0, pings_since_last_response = [], requests = Map.empty, rtt = 3000, rtt_samples = 0,
      pair_state = WAITING\<rparr>"

text \<open>A port; a connection is named by a number, and the port by its index in the channel. \<open>async_socket\<close> says
  whether the socket has been created.\<close>

record udp_port =
  ice_params :: ice_parameters
  candidates :: "candidate list"
  async_socket :: bool
  connections :: "socket_address \<rightharpoonup> nat"

definition UDPPort_new :: "ice_parameters \<Rightarrow> udp_port" where
  "UDPPort_new params = \<lparr>ice_params = params, candidates = [], async_socket = False, connections = Map.empty\<rparr>"

text \<open>\<open>std::to_string\<close> of an unsigned number.\<close>

fun decimal :: "nat \<Rightarrow> byte list" where
  "decimal n = (if n < 10 then [of_nat (48 + n)] else decimal (n div 10) @ [of_nat (48 + n mod 10)])"

declare decimal.simps [simp del]

definition compute_foundation :: "ice_env \<Rightarrow> byte list \<Rightarrow> byte list \<Rightarrow> byte list \<Rightarrow> socket_address \<Rightarrow> byte list" where
  "compute_foundation ie type prot relay_protocol base =
     decimal (unat (ComputeCrc32 (ice_stun ie) (type @ HostAsURIString ie (ipaddr base) @ prot @ relay_protocol)))"

text \<open>\<open>UDPPort::create_ice_candidate\<close>: \<open>bound\<close> is the port number the operating system gave to the new socket, or
  \<open>None\<close> when creating, configuring or binding it failed; \<open>ip\<close> is the configured address.\<close>

definition create_ice_candidate ::
  "ice_env \<Rightarrow> IceCandidateComponent \<Rightarrow> ip_address \<Rightarrow> nat option \<Rightarrow> udp_port \<Rightarrow> udp_port \<times> candidate option" where
  "create_ice_candidate ie cmp ip bound port = (case bound of
     None \<Rightarrow> (port, None)
   | Some n \<Rightarrow>
       let local_addr = \<lparr>ipaddr = ip, sock_port = of_nat n\<rparr>;
           c = \<lparr>component = cmp, protocol = map of_char ''udp'', address = local_addr, cand_port = int n,
                cand_priority = 0, username = ice_ufrag (ice_params port), password = ice_pwd (ice_params port),
                cand_type = map of_char ''host'', foundation = []\<rparr>;
           c = c\<lparr>cand_priority := get_priority ie ICE_TYPE_PREFERENCE_HOST 0 0 c,
                  foundation := compute_foundation ie (cand_type c) (protocol c) [] (address c)\<rparr>
       in (port\<lparr>async_socket := True, candidates := candidates port @ [c]\<rparr>, Some c))"

text \<open>The datagrams handed to the socket.\<close>

type_synonym datagram = "socket_address \<times> byte list"

definition send_to :: "ice_env \<Rightarrow> udp_port \<Rightarrow> byte list \<Rightarrow> socket_address \<Rightarrow> datagram list \<times> int" where
  "send_to ie port buf addr = (if \<not> async_socket port then ([], - 1) else ([(addr, buf)], socket_send ie buf addr))"

subsection \<open>Queries of a connection\<close>

definition RTT_RATIO :: int where
  "RTT_RATIO = 3"

definition MIN_RTT :: int where
  "MIN_RTT = 100"

definition MAX_RTT :: int where
  "MAX_RTT = 60000"

definition WEAK_CONNECTION_RECEIVE_TIMEOUT :: int where
  "WEAK_CONNECTION_RECEIVE_TIMEOUT = 2500"

definition CONNECTION_WRITE_CONNECT_FAILS :: nat where
  "CONNECTION_WRITE_CONNECT_FAILS = 5"

definition CONNECTION_WRITE_CONNECT_TIMEOUT :: int where
  "CONNECTION_WRITE_CONNECT_TIMEOUT = 5000"

definition CONNECTION_WRITE_TIMEOUT :: int where
  "CONNECTION_WRITE_TIMEOUT = 15000"

definition writable :: "ice_connection \<Rightarrow> bool" where
  "writable c = (write_state c = STATE_WRITABLE)"

definition conn_weak :: "ice_connection \<Rightarrow> bool" where
  "conn_weak c = (\<not> (writable c \<and> receiving c))"

definition active :: "ice_connection \<Rightarrow> bool" where
  "active c = (write_state c \<noteq> STATE_WRITE_TIMEOUT)"

text \<open>\<open>local_candidate\<close> returns a reference to the first element of \<open>port_->candidates()\<close>. \<open>UDPPort::candidates\<close> returns a copy of the
  vector, which is destroyed before the function returns, so the reference dangles: whoever uses it reads freed memory. The
  model gives what that read gives.\<close>

definition local_candidate :: "ice_env \<Rightarrow> udp_port \<Rightarrow> error + candidate" where
  "local_candidate ie port =
     bindE (byte_at (candidates port) 0) (\<lambda>destroyed. case freed_candidate ie destroyed of None \<Rightarrow> Inl UseAfterFree | Some l \<Rightarrow> Inr l)"

definition pair_priority :: "u32 \<Rightarrow> u32 \<Rightarrow> 64 word" where
  "pair_priority g d =
     (let priority = push_bit 32 (ucast (min g d) :: 64 word)
      in priority + ucast (2 * max g d) + (if g > d then 1 else 0))"

definition priority :: "ice_env \<Rightarrow> udp_port \<Rightarrow> ice_connection \<Rightarrow> error + 64 word" where
  "priority ie port c = bindE (local_candidate ie port) (\<lambda>l.
     Inr (pair_priority (cand_priority l) (cand_priority (remote_candidate c))))"

text \<open>\<open>2 * rtt_\<close> is an \<open>int\<close> product in the sources and overflows from \<open>rtt_ = 2\<^sup>3\<^sup>0\<close> ms, twelve days, on; here and in \<open>rtt_bound\<close> it is the
  exact product, which is the same for every shorter round-trip time.\<close>

definition miss_response :: "int \<Rightarrow> ice_connection \<Rightarrow> bool" where
  "miss_response now c = (case pings_since_last_response c of
     [] \<Rightarrow> False
   | p # _ \<Rightarrow> to_i32 (now - sent_time p) > 2 * rtt c)"

definition stable :: "int \<Rightarrow> ice_connection \<Rightarrow> bool" where
  "stable now c = (rtt_samples c > RTT_RATIO + 1 \<and> \<not> miss_response now c)"

definition last_received :: "ice_connection \<Rightarrow> int" where
  "last_received c = max (max (last_ping_received c) (last_ping_response_received c)) (last_data_received c)"

definition too_many_ping_fails :: "nat \<Rightarrow> int \<Rightarrow> int \<Rightarrow> ice_connection \<Rightarrow> bool" where
  "too_many_ping_fails max_pings rtt_bound now c =
     (let pings = pings_since_last_response c in
      if length pings < max_pings then False
      else now > to_i32 (sent_time (pings ! (max_pings - 1)) + rtt_bound))"

definition too_long_without_response :: "int \<Rightarrow> int \<Rightarrow> ice_connection \<Rightarrow> bool" where
  "too_long_without_response min_time now c = (case pings_since_last_response c of
     [] \<Rightarrow> False
   | p # _ \<Rightarrow> now > sent_time p + min_time)"

text \<open>The value \<open>update_receiving\<close> gives to \<open>receiving_\<close>.\<close>

definition compute_receiving :: "int \<Rightarrow> ice_connection \<Rightarrow> bool" where
  "compute_receiving now c =
     (if last_ping_sent c < last_ping_response_received c then True
      else last_received c > 0 \<and> now < last_received c + WEAK_CONNECTION_RECEIVE_TIMEOUT)"

definition set_state :: "IceCandidatePairState \<Rightarrow> ice_connection \<Rightarrow> ice_connection" where
  "set_state st c = c\<lparr>pair_state := st\<rparr>"

definition maybe_set_remote_ice_params :: "ice_parameters \<Rightarrow> ice_connection \<Rightarrow> ice_connection" where
  "maybe_set_remote_ice_params params c =
     (if username (remote_candidate c) = ice_ufrag params \<and> password (remote_candidate c) = []
      then c\<lparr>remote_candidate := (remote_candidate c)\<lparr>password := ice_pwd params\<rparr>\<rparr>
      else c)"

subsection \<open>Connection requests\<close>

definition create_stun_username :: "udp_port \<Rightarrow> byte list \<Rightarrow> byte list" where
  "create_stun_username port remote_username = remote_username @ [0x3A] @ ice_ufrag (ice_params port)"

text \<open>\<open>ConnectionRequest::prepare\<close>; the results of \<open>add_message_integrity\<close> and \<open>add_fingerprint\<close> are ignored.\<close>

definition prepare :: "ice_env \<Rightarrow> udp_port \<Rightarrow> ice_connection \<Rightarrow> 64 word \<Rightarrow> stun_message \<Rightarrow> error + stun_message" where
  "prepare ie port c ice_tiebreaker m =
     bindE (local_candidate ie port) (\<lambda>l.
     let m = set_type STUN_BINDING_REQUEST m;
         m = add_attribute (StunByteStringAttribute_new STUN_ATTR_USERNAME
               (create_stun_username port (username (remote_candidate c)))) m;
         m = add_attribute (StunUInt64Attribute_new STUN_ATTR_ICE_CONTROLLED ice_tiebreaker) m;
         m = add_attribute (StunByteStringAttribute_length STUN_ATTR_USE_CANDIDATE 0) m;
         prflx_priority = push_bit 24 ICE_TYPE_PREFERENCE_PRFLX OR (cand_priority l AND 0x00FFFFFF);
         m = add_attribute (StunUInt32Attribute_new STUN_ATTR_PRIORITY prflx_priority) m in
     bindE (add_message_integrity (ice_stun ie) (password (remote_candidate c)) m) (\<lambda>(m, _).
     bindE (add_fingerprint (ice_stun ie) m) (\<lambda>(m, _). Inr m)))"

text \<open>\<open>StunRequest::send\<close> at time \<open>ts\<close>: the request with its time stamp, and what goes out.\<close>

definition StunRequest_send :: "ice_env \<Rightarrow> udp_port \<Rightarrow> socket_address \<Rightarrow> int \<Rightarrow> stun_message \<Rightarrow> error + stun_request \<times> datagram list" where
  "StunRequest_send ie port addr ts m =
     (case StunMessage_write (ice_stun ie) m of
        Inl e \<Rightarrow> if e = Rejected then Inr (\<lparr>req_msg = m, req_ts = ts\<rparr>, []) else Inl e
      | Inr buf \<Rightarrow> Inr (\<lparr>req_msg = m, req_ts = ts\<rparr>, fst (send_to ie port buf addr)))"

text \<open>\<open>IceConnection::ping\<close>: \<open>tid\<close> and \<open>ice_tiebreaker\<close> are the random values of the new request, \<open>ts\<close> is the
  clock when it is sent. The request is entered in the table before it is sent.\<close>

definition ping :: "ice_env \<Rightarrow> udp_port \<Rightarrow> byte list \<Rightarrow> 64 word \<Rightarrow> int \<Rightarrow> int \<Rightarrow> ice_connection \<Rightarrow> error + ice_connection \<times> datagram list" where
  "ping ie port tid ice_tiebreaker now ts c =
     (let c = c\<lparr>last_ping_sent := now,
                pings_since_last_response := pings_since_last_response c @ [\<lparr>ping_id = tid, sent_time = now\<rparr>]\<rparr> in
      bindE (prepare ie port c ice_tiebreaker (set_transaction_id tid StunMessage_new)) (\<lambda>m.
      bindE (StunRequest_send ie port (address (remote_candidate c)) ts m) (\<lambda>(req, sent).
        let c = c\<lparr>requests := (requests c)(tid \<mapsto> req)\<rparr>;
            c = set_state IN_PROGRESS c in
        Inr (c\<lparr>num_pings_sent := num_pings_sent c + 1\<rparr>, sent))))"

subsection \<open>Responses\<close>

text \<open>\<open>send_stun_binding_response\<close> with \<open>_send_response_message\<close>.\<close>

definition binding_response :: "ice_env \<Rightarrow> udp_port \<Rightarrow> ice_connection \<Rightarrow> stun_message \<Rightarrow> error + stun_message" where
  "binding_response ie port c stun_msg =
     (let response = set_transaction_id (msg_transaction_id stun_msg) (set_type STUN_BINDING_RESPONSE StunMessage_new);
          response = add_attribute (StunXorAddressAttribute_new STUN_ATTR_XOR_MAPPED_ADDRESS (address (remote_candidate c))) response in
      bindE (add_message_integrity (ice_stun ie) (ice_pwd (ice_params port)) response) (\<lambda>(response, _).
      bindE (add_fingerprint (ice_stun ie) response) (\<lambda>(response, _). Inr response)))"

definition send_response_message :: "ice_env \<Rightarrow> udp_port \<Rightarrow> ice_connection \<Rightarrow> stun_message \<Rightarrow> error + datagram list" where
  "send_response_message ie port c response =
     (case StunMessage_write (ice_stun ie) response of
        Inl e \<Rightarrow> if e = Rejected then Inr [] else Inl e
      | Inr buf \<Rightarrow> Inr (fst (send_to ie port buf (address (remote_candidate c)))))"

definition send_stun_binding_response :: "ice_env \<Rightarrow> udp_port \<Rightarrow> ice_connection \<Rightarrow> stun_message \<Rightarrow> error + datagram list" where
  "send_stun_binding_response ie port c stun_msg =
     (if get_byte_string STUN_ATTR_USERNAME stun_msg = None then Inr []
      else bindE (binding_response ie port c stun_msg) (\<lambda>response. send_response_message ie port c response))"

definition handle_stun_binding_request :: "ice_env \<Rightarrow> udp_port \<Rightarrow> ice_connection \<Rightarrow> stun_message \<Rightarrow> error + datagram list" where
  "handle_stun_binding_request ie port c stun_msg = send_stun_binding_response ie port c stun_msg"

definition STUN_ERROR_REASON_BAD_REQUEST :: "byte list" where
  "STUN_ERROR_REASON_BAD_REQUEST = map of_char ''Bad request''"

definition STUN_ERROR_REASON_UNAUTHORIZED :: "byte list" where
  "STUN_ERROR_REASON_UNAUTHORIZED = map of_char ''Unauthorized''"

definition STUN_ERROR_REASON_SERVER_ERROR :: "byte list" where
  "STUN_ERROR_REASON_SERVER_ERROR = map of_char ''Server error''"

definition send_binding_error_response ::
  "ice_env \<Rightarrow> udp_port \<Rightarrow> stun_message \<Rightarrow> socket_address \<Rightarrow> StunErrorCode \<Rightarrow> byte list \<Rightarrow> error + datagram list" where
  "send_binding_error_response ie port stun_msg addr err_code reason =
     (if \<not> async_socket port then Inr []
      else
        let response = set_transaction_id (msg_transaction_id stun_msg) (set_type STUN_BINDING_ERROR_RESPONSE StunMessage_new);
            response = add_attribute (set_reason reason (set_code (error_code_value err_code) create_error_code)) response in
        bindE (if err_code \<noteq> STUN_ERROR_BAD_REQUEST \<and> err_code \<noteq> STUN_ERROR_UNAUTHORIZED
               then bindE (add_message_integrity (ice_stun ie) (ice_pwd (ice_params port)) response) (\<lambda>(response, _). Inr response)
               else Inr response) (\<lambda>response.
        bindE (add_fingerprint (ice_stun ie) response) (\<lambda>(response, _).
          case StunMessage_write (ice_stun ie) response of
            Inl e \<Rightarrow> if e = Rejected then Inr [] else Inl e
          | Inr buf \<Rightarrow> Inr [(addr, buf)])))"

section \<open>Received packets\<close>

definition parse_stun_username :: "ice_env \<Rightarrow> stun_message \<Rightarrow> (byte list \<times> byte list) option" where
  "parse_stun_username ie stun_msg =
     (case get_byte_string STUN_ATTR_USERNAME stun_msg of
        None \<Rightarrow> None
      | Some a \<Rightarrow>
          (let fields = Split ie 0x3A (get_string a) in
           if length fields \<noteq> 2 then None else Some (fields ! 0, fields ! 1)))"

text \<open>\<open>UDPPort::get_stun_message\<close>: the return value, the message with the remote fragment, and the error
  responses sent on the way.\<close>

record stun_result =
  is_stun :: bool
  out_msg :: "stun_message option"
  out_username :: "byte list"
  replies :: "datagram list"

definition stun_refused :: "datagram list \<Rightarrow> stun_result" where
  "stun_refused sent = \<lparr>is_stun = True, out_msg = None, out_username = [], replies = sent\<rparr>"

text \<open>The part for binding requests: both attributes present, the user name, the integrity.\<close>

definition authenticate_request :: "ice_env \<Rightarrow> udp_port \<Rightarrow> stun_message \<Rightarrow> socket_address \<Rightarrow> error + stun_result" where
  "authenticate_request ie port stun_msg addr =
     (if get_byte_string STUN_ATTR_USERNAME stun_msg = None \<or> get_byte_string STUN_ATTR_MESSAGE_INTEGRITY stun_msg = None then
        bindE (send_binding_error_response ie port stun_msg addr STUN_ERROR_BAD_REQUEST STUN_ERROR_REASON_BAD_REQUEST)
          (\<lambda>sent. Inr (stun_refused sent))
      else
        (case parse_stun_username ie stun_msg of
           None \<Rightarrow>
             bindE (send_binding_error_response ie port stun_msg addr STUN_ERROR_UNAUTHORIZED STUN_ERROR_REASON_UNAUTHORIZED)
               (\<lambda>sent. Inr (stun_refused sent))
         | Some (local_ufrag, remote_ufrag) \<Rightarrow>
             if local_ufrag \<noteq> ice_ufrag (ice_params port) then
               bindE (send_binding_error_response ie port stun_msg addr STUN_ERROR_UNAUTHORIZED STUN_ERROR_REASON_UNAUTHORIZED)
                 (\<lambda>sent. Inr (stun_refused sent))
             else bindE (validate_message_integrity (ice_stun ie) (ice_pwd (ice_params port)) stun_msg) (\<lambda>(stun_msg, status).
               if status \<noteq> k_integrity_ok then
                 bindE (send_binding_error_response ie port stun_msg addr STUN_ERROR_UNAUTHORIZED STUN_ERROR_REASON_UNAUTHORIZED)
                   (\<lambda>sent. Inr (stun_refused sent))
               else Inr \<lparr>is_stun = True, out_msg = Some stun_msg, out_username = remote_ufrag, replies = []\<rparr>)))"

definition not_stun :: stun_result where
  "not_stun = \<lparr>is_stun = False, out_msg = None, out_username = [], replies = []\<rparr>"

definition get_stun_message :: "ice_env \<Rightarrow> udp_port \<Rightarrow> byte list \<Rightarrow> socket_address \<Rightarrow> error + stun_result" where
  "get_stun_message ie port data addr =
     bindE (validate_fingerprint (ice_stun ie) data) (\<lambda>fp.
     if \<not> fp then Inr not_stun
     else bindE (StunMessage_read (ice_stun ie) data StunMessage_new) (\<lambda>(stun_msg, rest, ok).
       if \<not> ok \<or> length rest \<noteq> 0 then Inr not_stun
       else if message_type stun_msg = STUN_BINDING_REQUEST then authenticate_request ie port stun_msg addr
       else Inr \<lparr>is_stun = True, out_msg = Some stun_msg, out_username = [], replies = []\<rparr>))"

end
