(* ===== verification/Session_Description.thy ===== *)
theory Session_Description
  imports Ice_Connection
begin

text \<open>
  \<open>pc/session_description.{h,cpp}\<close>, \<open>pc/codec_info.h\<close>, \<open>pc/stream_params.{h,cpp}\<close>: the data of a session description and its
  text. Fingerprints and certificates are WebRTC's; the functions used of them, and the text of an address, are in \<open>sdp_env\<close>. The stream operators of
  numbers print in decimal. The keys of a codec's parameters are in the order of the \<open>std::map\<close>. A content is built completely before it is added to a
  description, where the sources keep a shared pointer to it.
\<close>

section \<open>Decimal numbers\<close>

fun dec_nat :: "nat \<Rightarrow> string" where
  "dec_nat n = (if n < 10 then [char_of (48 + n)] else dec_nat (n div 10) @ [char_of (48 + n mod 10)])"

declare dec_nat.simps [simp del]

definition dec :: "int \<Rightarrow> string" where
  "dec i = (if i < 0 then ''-'' @ dec_nat (nat (- i)) else dec_nat (nat i))"

text \<open>The characters of a byte string, and the end of a line.\<close>

definition text_of :: "byte list \<Rightarrow> string" where
  "text_of bs = map (\<lambda>b. char_of (unat b)) bs"

definition crlf :: string where
  "crlf = [CHR 0x0D, CHR 0x0A]"

section \<open>Data\<close>

datatype SdpType = k_offer | k_answer

datatype MediaType = MEDIA_TYPE_AUDIO | MEDIA_TYPE_VIDEO

datatype RtpDirection = k_send_recv | k_send_only | k_recv_only | k_inactive

datatype ConnectionRole = NONE | ACTIVE | PASSIVE | ACTPASS | HOLDCONN

record feedback_param =
  fb_id :: string
  fb_param :: string

text \<open>\<open>channels\<close> is the member of \<open>AudioCodecInfo\<close>; a video codec has none and the value is not read.\<close>

record codec_info =
  codec_id :: int
  codec_name :: string
  samplerate :: int
  codec_feedback :: "feedback_param list"
  codec_param :: "(string \<times> string) list"
  channels :: int

record ssrc_group =
  semantics :: string
  group_ssrcs :: "u32 list"

record stream_params =
  track_name :: string
  stream_ssrcs :: "u32 list"
  ssrc_groups :: "ssrc_group list"
  stream_cname :: string
  stream_name :: string

definition has_ssrc :: "u32 \<Rightarrow> stream_params \<Rightarrow> bool" where
  "has_ssrc ssrc s \<longleftrightarrow> list_ex (\<lambda>x. x = ssrc) (stream_ssrcs s)"

record media_content =
  content_type :: MediaType
  content_codecs :: "codec_info list"
  content_direction :: RtpDirection
  use_rtcp_mux :: bool
  content_candidates :: "candidate list"
  send_streams :: "stream_params list"

definition mid :: "media_content \<Rightarrow> string" where
  "mid c = (case content_type c of MEDIA_TYPE_AUDIO \<Rightarrow> ''audio'' | MEDIA_TYPE_VIDEO \<Rightarrow> ''video'')"

text \<open>The constructors leave the direction uninitialised: \<open>dir\<close> is its indeterminate value.\<close>

definition AudioContentDescription :: "RtpDirection \<Rightarrow> media_content" where
  "AudioContentDescription dir = \<lparr>content_type = MEDIA_TYPE_AUDIO,
     content_codecs = [\<lparr>codec_id = 111, codec_name = ''opus'', samplerate = 48000, codec_feedback = [\<lparr>fb_id = ''transport-cc'', fb_param = []\<rparr>],
       codec_param = [(''minptime'', ''10''), (''useinbandfec'', ''1'')], channels = 2\<rparr>],
     content_direction = dir, use_rtcp_mux = True, content_candidates = [], send_streams = []\<rparr>"

definition VideoContentDescription :: "int \<Rightarrow> int \<Rightarrow> RtpDirection \<Rightarrow> media_content" where
  "VideoContentDescription h264_codec_id rtx_codec_id dir = \<lparr>content_type = MEDIA_TYPE_VIDEO,
     content_codecs =
      [\<lparr>codec_id = h264_codec_id, codec_name = ''H264'', samplerate = 90000,
        codec_feedback = [\<lparr>fb_id = ''goog-remb'', fb_param = []\<rparr>, \<lparr>fb_id = ''transport-cc'', fb_param = []\<rparr>, \<lparr>fb_id = ''ccm'', fb_param = ''fir''\<rparr>,
          \<lparr>fb_id = ''nack'', fb_param = []\<rparr>, \<lparr>fb_id = ''nack'', fb_param = ''pli''\<rparr>],
        codec_param = [(''level-asymmetry-allowed'', ''1''), (''packetization-mode'', ''1''), (''profile-level-id'', ''42e01f'')], channels = 0\<rparr>,
       \<lparr>codec_id = rtx_codec_id, codec_name = ''rtx'', samplerate = 90000, codec_feedback = [], codec_param = [(''apt'', dec h264_codec_id)], channels = 0\<rparr>],
     content_direction = dir, use_rtcp_mux = True, content_candidates = [], send_streams = []\<rparr>"

record content_group =
  group_semantics :: string
  content_names :: "string list"

definition has_content_name :: "string \<Rightarrow> content_group \<Rightarrow> bool" where
  "has_content_name n g \<longleftrightarrow> list_ex (\<lambda>x. x = n) (content_names g)"

definition add_content_name :: "string \<Rightarrow> content_group \<Rightarrow> content_group" where
  "add_content_name n g = (if has_content_name n g then g else g\<lparr>content_names := content_names g @ [n]\<rparr>)"

record 'fp transport_description =
  td_mid :: string
  td_ufrag :: string
  td_pwd :: string
  identity_fingerprint :: "'fp option"
  connection_role :: ConnectionRole

definition TransportDescription_new :: "'fp transport_description" where
  "TransportDescription_new = \<lparr>td_mid = [], td_ufrag = [], td_pwd = [], identity_fingerprint = None, connection_role = NONE\<rparr>"

record 'fp session_description =
  sdp_type :: SdpType
  contents :: "media_content list"
  content_groups :: "content_group list"
  transport_infos :: "'fp transport_description list"

definition SessionDescription_new :: "SdpType \<Rightarrow> 'fp session_description" where
  "SessionDescription_new t = \<lparr>sdp_type = t, contents = [], content_groups = [], transport_infos = []\<rparr>"

record ('fp, 'c) sdp_env =
  HostAsURIString :: "socket_address \<Rightarrow> string"
  algorithm :: "'fp \<Rightarrow> string"
  GetRfc4572Fingerprint :: "'fp \<Rightarrow> string"
  CreateFromCertificate :: "'c \<Rightarrow> 'fp option"

section \<open>Operations\<close>

definition get_content :: "string \<Rightarrow> 'fp session_description \<Rightarrow> media_content option" where
  "get_content m d = find (\<lambda>c. m = mid c) (contents d)"

definition add_content :: "media_content \<Rightarrow> 'fp session_description \<Rightarrow> 'fp session_description" where
  "add_content c d = d\<lparr>contents := contents d @ [c]\<rparr>"

definition add_group :: "content_group \<Rightarrow> 'fp session_description \<Rightarrow> 'fp session_description" where
  "add_group g d = d\<lparr>content_groups := content_groups d @ [g]\<rparr>"

definition get_group_by_name :: "string \<Rightarrow> 'fp session_description \<Rightarrow> content_group list" where
  "get_group_by_name n d = filter (\<lambda>g. group_semantics g = n) (content_groups d)"

definition connection_role_to_string :: "ConnectionRole \<Rightarrow> string" where
  "connection_role_to_string role =
     (case role of ACTIVE \<Rightarrow> ''active'' | PASSIVE \<Rightarrow> ''passive'' | ACTPASS \<Rightarrow> ''actpass'' | HOLDCONN \<Rightarrow> ''holdconn'' | NONE \<Rightarrow> ''none'')"

definition add_transport_info ::
  "('fp, 'c) sdp_env \<Rightarrow> string \<Rightarrow> string \<times> string \<Rightarrow> 'c option \<Rightarrow> 'fp session_description \<Rightarrow> 'fp session_description \<times> bool" where
  "add_transport_info env m ice_param certificate d =
     (let desc = TransportDescription_new\<lparr>td_mid := m, td_ufrag := fst ice_param, td_pwd := snd ice_param\<rparr>;
          fp = (case certificate of None \<Rightarrow> None | Some c \<Rightarrow> CreateFromCertificate env c) in
      if certificate \<noteq> None \<and> fp = None then (d, False)
      else
        let desc = desc\<lparr>identity_fingerprint := fp, connection_role := if sdp_type d = k_offer then ACTPASS else PASSIVE\<rparr> in
        (d\<lparr>transport_infos := transport_infos d @ [desc]\<rparr>, True))"

definition add_transport_description :: "'fp transport_description \<Rightarrow> 'fp session_description \<Rightarrow> 'fp session_description" where
  "add_transport_description td d = d\<lparr>transport_infos := transport_infos d @ [td]\<rparr>"

definition get_transport_info :: "string \<Rightarrow> 'fp session_description \<Rightarrow> 'fp transport_description option" where
  "get_transport_info m d = find (\<lambda>t. td_mid t = m) (transport_infos d)"

definition is_bundle :: "string \<Rightarrow> 'fp session_description \<Rightarrow> bool" where
  "is_bundle m d \<longleftrightarrow> list_ex (\<lambda>g. list_ex (\<lambda>n. n = m) (content_names g)) (get_group_by_name ''BUNDLE'' d)"

definition get_first_bundle_mid :: "'fp session_description \<Rightarrow> error + string" where
  "get_first_bundle_mid d =
     (case get_group_by_name ''BUNDLE'' d of
        [] \<Rightarrow> Inr []
      | g # _ \<Rightarrow> (case content_names g of [] \<Rightarrow> Inl OutOfBounds | n # _ \<Rightarrow> Inr n))"

section \<open>Text\<close>

definition add_fmtp_line :: "codec_info \<Rightarrow> string" where
  "add_fmtp_line codec =
     (if codec_param codec \<noteq> []
      then ''a=fmtp:'' @ dec (codec_id codec) @ '' '' @ drop 1 (concat (map (\<lambda>(k, v). '';'' @ k @ ''='' @ v) (codec_param codec))) @ crlf
      else [])"

definition add_rtcp_fb_line :: "codec_info \<Rightarrow> string" where
  "add_rtcp_fb_line codec =
     concat (map (\<lambda>p. ''a=rtcp-fb:'' @ dec (codec_id codec) @ '' '' @ fb_id p @ (if fb_param p \<noteq> [] then '' '' @ fb_param p else []) @ crlf)
       (codec_feedback codec))"

definition build_rtp_map :: "media_content \<Rightarrow> string" where
  "build_rtp_map c =
     concat (map (\<lambda>codec. ''a=rtpmap:'' @ dec (codec_id codec) @ '' '' @ codec_name codec @ ''/'' @ dec (samplerate codec) @
       (if content_type c = MEDIA_TYPE_AUDIO then ''/'' @ dec (channels codec) else []) @ crlf @ add_rtcp_fb_line codec @ add_fmtp_line codec)
       (content_codecs c))"

definition build_rtp_direction :: "media_content \<Rightarrow> string" where
  "build_rtp_direction c =
     (case content_direction c of k_send_recv \<Rightarrow> ''a=sendrecv'' | k_send_only \<Rightarrow> ''a=sendonly'' | k_recv_only \<Rightarrow> ''a=recvonly'' | k_inactive \<Rightarrow> ''a=inactive'') @ crlf"

definition component_number :: "IceCandidateComponent \<Rightarrow> int" where
  "component_number c = (case c of RTP \<Rightarrow> 1 | RTCP \<Rightarrow> 2)"

definition build_candidates :: "('fp, 'c) sdp_env \<Rightarrow> media_content \<Rightarrow> string" where
  "build_candidates env content =
     concat (map (\<lambda>c. ''a=candidate:'' @ text_of (foundation c) @ '' '' @ dec (component_number (component c)) @ '' '' @ text_of (protocol c) @ '' '' @
       dec (uint (cand_priority c)) @ '' '' @ HostAsURIString env (address c) @ '' '' @ dec (cand_port c) @ '' typ '' @ text_of (cand_type c) @ crlf)
       (content_candidates content))"

definition add_ssrc_line :: "u32 \<Rightarrow> string \<Rightarrow> string \<Rightarrow> string" where
  "add_ssrc_line ssrc attribute val = ''a=ssrc:'' @ dec (uint ssrc) @ '' '' @ attribute @ '':'' @ val @ crlf"

definition build_ssrc_track :: "stream_params \<Rightarrow> string" where
  "build_ssrc_track track =
     concat (map (\<lambda>g. if group_ssrcs g = [] then []
         else ''a=ssrc-group:'' @ semantics g @ concat (map (\<lambda>ssrc. '' '' @ dec (uint ssrc)) (group_ssrcs g)) @ crlf) (ssrc_groups track)) @
     concat (map (\<lambda>ssrc. add_ssrc_line ssrc ''cname'' (stream_cname track) @ add_ssrc_line ssrc ''msid'' (stream_name track @ '' '' @ track_name track) @
         add_ssrc_line ssrc ''mslabel'' (stream_name track) @ add_ssrc_line ssrc ''lable'' (track_name track)) (stream_ssrcs track))"

definition build_ssrc :: "media_content \<Rightarrow> string" where
  "build_ssrc c = concat (map build_ssrc_track (send_streams c))"

definition k_media_protocol_dtls_savpf :: string where
  "k_media_protocol_dtls_savpf = ''UDP/TLS/RTP/SAVPF''"

definition k_meida_protocol_savpf :: string where
  "k_meida_protocol_savpf = ''RTP/SAVPF''"

definition content_to_string :: "('fp, 'c) sdp_env \<Rightarrow> bool \<Rightarrow> 'fp session_description \<Rightarrow> media_content \<Rightarrow> string" where
  "content_to_string env dtls_on d content =
     (let fmt = concat (map (\<lambda>codec. '' '' @ dec (codec_id codec)) (content_codecs content));
          meida_protocol = (if dtls_on then k_media_protocol_dtls_savpf else k_meida_protocol_savpf) in
      ''m='' @ mid content @ '' 9 '' @ meida_protocol @ fmt @ crlf @
      ''c=IN IP4 0.0.0.0'' @ crlf @
      (case get_transport_info (mid content) d of
         None \<Rightarrow> []
       | Some info \<Rightarrow>
           ''a=ice-ufrag:'' @ td_ufrag info @ crlf @
           ''a=ice-pwd:'' @ td_pwd info @ crlf @
           (case identity_fingerprint info of
              None \<Rightarrow> []
            | Some fp \<Rightarrow>
                ''a=fingerprint:'' @ algorithm env fp @ '' '' @ GetRfc4572Fingerprint env fp @ crlf @
                ''a=setup:'' @ connection_role_to_string (connection_role info) @ crlf)) @
      (if mid content = ''audio'' then ''a=mid:0'' @ crlf else if mid content = ''video'' then ''a=mid:1'' @ crlf else []) @
      ''a=extmap:3 http://www.ietf.org/id/draft-holmer-rmcat-transport-wide-cc-extensions-01'' @ crlf @
      build_rtp_direction content @
      (if use_rtcp_mux content then ''a=rtcp-mux'' @ crlf else []) @
      ''a=rtcp-rsize'' @ crlf @
      build_rtp_map content @
      build_ssrc content @
      build_candidates env content)"

definition to_string :: "('fp, 'c) sdp_env \<Rightarrow> bool \<Rightarrow> 'fp session_description \<Rightarrow> string" where
  "to_string env dtls_on d =
     ''v=0'' @ crlf @
     ''o=XRTC/1.0 0 2 IN IP4 127.0.0.1'' @ crlf @
     ''s=XrtcPublishSession '' @ crlf @
     ''t=0 0'' @ crlf @
     (let content_group = get_group_by_name ''BUNDLE'' d in
      if content_group \<noteq> []
      then ''a=group:BUNDLE'' @ concat (map (\<lambda>g. concat (map (\<lambda>n. if n = ''audio'' then '' 0'' else if n = ''video'' then '' 1'' else []) (content_names g)))
             content_group) @ crlf
      else []) @
     ''a=msid-semantic: WMS  live/xrtc '' @ crlf @
     concat (map (content_to_string env dtls_on d) (contents d))"

end
