(* ===== verification/Sdp_Parser.thy ===== *)
theory Sdp_Parser
  imports Session_Description
begin

text \<open>
  The part of \<open>pc/peer_connection.cpp\<close> that reads the session description of the peer. \<open>tokenize\<close>, \<open>split\<close>, \<open>tokenize_first\<close>,
  \<open>FromString\<close> and the making of a fingerprint are WebRTC's and arguments (\<open>text_env\<close>). \<open>substr\<close> beyond the end throws, \<open>atoi\<close> of a number that is
  no \<open>int\<close> is undefined; both are errors of the model. Of a result \<open>(x, ok)\<close> the second component is false where the source returns -1.
\<close>

section \<open>Strings\<close>

text \<open>\<open>std::string::find\<close>, compared with \<open>npos\<close>.\<close>

fun prefix_of :: "string \<Rightarrow> string \<Rightarrow> bool" where
  "prefix_of [] s = True"
| "prefix_of (x # xs) [] = False"
| "prefix_of (x # xs) (y # ys) = (x = y \<and> prefix_of xs ys)"

fun contains :: "string \<Rightarrow> string \<Rightarrow> bool" where
  "contains needle [] = (needle = [])"
| "contains needle (c # s) = (prefix_of needle (c # s) \<or> contains needle s)"

definition substr :: "nat \<Rightarrow> string \<Rightarrow> error + string" where
  "substr pos s = (if pos \<le> length s then Inr (drop pos s) else Inl OutOfBounds)"

definition tolower :: "char \<Rightarrow> char" where
  "tolower c = (let n = of_char c :: nat in if 65 \<le> n \<and> n \<le> 90 then char_of (n + 32) else c)"

definition is_space :: "char \<Rightarrow> bool" where
  "is_space c = (let n = of_char c :: nat in n = 32 \<or> 9 \<le> n \<and> n \<le> 13)"

definition is_digit :: "char \<Rightarrow> bool" where
  "is_digit c = (let n = of_char c :: nat in 48 \<le> n \<and> n \<le> 57)"

definition digits_value :: "string \<Rightarrow> int" where
  "digits_value s = fold (\<lambda>c v. 10 * v + (int (of_char c) - 48)) (takeWhile is_digit s) 0"

definition atoi :: "string \<Rightarrow> error + int" where
  "atoi s =
     (let s = dropWhile is_space s;
          v = (case s of c # t \<Rightarrow> if c = CHR ''-'' then - digits_value t else if c = CHR ''+'' then digits_value t else digits_value s | [] \<Rightarrow> 0) in
      if - (2 ^ 31) \<le> v \<and> v < 2 ^ 31 then Inr v else Inl Overflow)"

record 'fp text_env =
  tokenize :: "char \<Rightarrow> string \<Rightarrow> string list"
  split_at :: "char \<Rightarrow> string \<Rightarrow> string list"
  tokenize_first :: "char \<Rightarrow> string \<Rightarrow> (string \<times> string) option"
  FromString :: "string \<Rightarrow> u32 option"
  CreateUniqueFromRfc4572 :: "string \<Rightarrow> string \<Rightarrow> 'fp option"

section \<open>Lines\<close>

definition get_attribute :: "'fp text_env \<Rightarrow> string \<Rightarrow> string" where
  "get_attribute env line = (case tokenize env CHR '':'' line of [_, v] \<Rightarrow> v | _ \<Rightarrow> [])"

definition parse_transport_info :: "'fp text_env \<Rightarrow> string \<Rightarrow> 'fp transport_description \<Rightarrow> error + 'fp transport_description \<times> bool" where
  "parse_transport_info env line td =
     (if contains ''a=ice-ufrag'' line then
        let td = td\<lparr>td_ufrag := get_attribute env line\<rparr> in Inr (td, td_ufrag td \<noteq> [])
      else if contains ''a=ice-pwd'' line then
        let td = td\<lparr>td_pwd := get_attribute env line\<rparr> in Inr (td, td_pwd td \<noteq> [])
      else if contains ''a=fingerprint'' line then
        (case tokenize env CHR '' '' line of
           [item0, item1] \<Rightarrow>
             bindE (substr 14 item0) (\<lambda>alg.
               let td = td\<lparr>identity_fingerprint := CreateUniqueFromRfc4572 env (map tolower alg) item1\<rparr> in
               Inr (td, identity_fingerprint td \<noteq> None))
         | _ \<Rightarrow> Inr (td, False))
      else Inr (td, True))"

record ssrc_info =
  ssrc_id :: u32
  info_cname :: string
  info_stream_id :: string
  info_track_id :: string

text \<open>The entry of an ssrc, found or appended, is changed by \<open>f\<close>.\<close>

fun update_ssrc_info :: "u32 \<Rightarrow> (ssrc_info \<Rightarrow> ssrc_info) \<Rightarrow> ssrc_info list \<Rightarrow> ssrc_info list" where
  "update_ssrc_info ssrc f [] = [f \<lparr>ssrc_id = ssrc, info_cname = [], info_stream_id = [], info_track_id = []\<rparr>]"
| "update_ssrc_info ssrc f (i # is) = (if ssrc_id i = ssrc then f i # is else i # update_ssrc_info ssrc f is)"

definition parse_ssrc_info :: "'fp text_env \<Rightarrow> string \<Rightarrow> ssrc_info list \<Rightarrow> error + ssrc_info list \<times> bool" where
  "parse_ssrc_info env line infos =
     (if \<not> contains ''a=ssrc:'' line then Inr (infos, True)
      else bindE (substr 2 line) (\<lambda>rest.
        case tokenize_first env CHR '' '' rest of
          None \<Rightarrow> Inr (infos, False)
        | Some (field1, field2) \<Rightarrow>
            bindE (substr 5 field1) (\<lambda>ssrc_id_s.
            case FromString env ssrc_id_s of
              None \<Rightarrow> Inr (infos, False)
            | Some ssrc \<Rightarrow>
                (case tokenize_first env CHR '':'' field2 of
                   None \<Rightarrow> Inr (infos, False)
                 | Some (attribute, val) \<Rightarrow>
                     if attribute = ''cname'' then Inr (update_ssrc_info ssrc (\<lambda>i. i\<lparr>info_cname := val\<rparr>) infos, True)
                     else if attribute = ''msid'' then
                       (case split_at env CHR '' '' val of
                          [s] \<Rightarrow> Inr (update_ssrc_info ssrc (\<lambda>i. i\<lparr>info_stream_id := s\<rparr>) infos, True)
                        | [s, t] \<Rightarrow> Inr (update_ssrc_info ssrc (\<lambda>i. i\<lparr>info_stream_id := s, info_track_id := t\<rparr>) infos, True)
                        | _ \<Rightarrow> Inr (update_ssrc_info ssrc (\<lambda>i. i) infos, False))
                     else Inr (update_ssrc_info ssrc (\<lambda>i. i) infos, True)))))"

fun parse_ssrcs :: "'fp text_env \<Rightarrow> string list \<Rightarrow> u32 list option" where
  "parse_ssrcs env [] = Some []"
| "parse_ssrcs env (f # fs) =
     (case FromString env f of None \<Rightarrow> None | Some ssrc \<Rightarrow> map_option (\<lambda>ssrcs. ssrc # ssrcs) (parse_ssrcs env fs))"

definition parse_ssrc_group_info :: "'fp text_env \<Rightarrow> string \<Rightarrow> ssrc_group list \<Rightarrow> error + ssrc_group list \<times> bool" where
  "parse_ssrc_group_info env line groups =
     (if \<not> contains ''a=ssrc-group:'' line then Inr (groups, True)
      else bindE (substr 2 line) (\<lambda>rest.
        case split_at env CHR '' '' rest of
          field0 # field1 # more_fields \<Rightarrow>
            let sem = get_attribute env field0 in
            if sem = [] then Inr (groups, False)
            else (case parse_ssrcs env (field1 # more_fields) of
                    None \<Rightarrow> Inr (groups, False)
                  | Some ssrcs \<Rightarrow> Inr (groups @ [\<lparr>semantics = sem, group_ssrcs = ssrcs\<rparr>], True))
        | _ \<Rightarrow> Inr (groups, False)))"

text \<open>The number before the first blank of an attribute line.\<close>

definition parse_codec_id :: "'fp text_env \<Rightarrow> string \<Rightarrow> int \<Rightarrow> error + int \<times> bool" where
  "parse_codec_id env line old =
     bindE (substr 2 line) (\<lambda>rest.
       case split_at env CHR '' '' rest of
         field0 # _ # _ \<Rightarrow>
           let code_id = get_attribute env field0 in
           if code_id = [] then Inr (old, False) else bindE (atoi code_id) (\<lambda>v. Inr (v, True))
       | _ \<Rightarrow> Inr (old, False))"

definition parse_fmtp_info :: "'fp text_env \<Rightarrow> string \<Rightarrow> int \<Rightarrow> error + int \<times> bool" where
  "parse_fmtp_info env line h264_codec_id =
     (if h264_codec_id \<noteq> 0 then Inr (h264_codec_id, True)
      else if \<not> contains ''42e01f'' line then Inr (h264_codec_id, True)
      else if \<not> contains ''level-asymmetry-allowed=1'' line then Inr (h264_codec_id, True)
      else if \<not> contains ''packetization-mode=1'' line then Inr (h264_codec_id, True)
      else parse_codec_id env line h264_codec_id)"

definition parse_rtpmap_info :: "'fp text_env \<Rightarrow> string \<Rightarrow> int \<Rightarrow> error + int \<times> bool" where
  "parse_rtpmap_info env line rtx_codec_id =
     (if rtx_codec_id \<noteq> 0 then Inr (rtx_codec_id, True)
      else if \<not> contains ''rtx/90000'' line then Inr (rtx_codec_id, True)
      else parse_codec_id env line rtx_codec_id)"

text \<open>The track of an id, found or appended, is changed by \<open>f\<close>.\<close>

fun update_track :: "string \<Rightarrow> (stream_params \<Rightarrow> stream_params) \<Rightarrow> stream_params list \<Rightarrow> stream_params list" where
  "update_track t f [] = [f \<lparr>track_name = t, stream_ssrcs = [], ssrc_groups = [], stream_cname = [], stream_name = []\<rparr>]"
| "update_track t f (s # ss) = (if track_name s = t then f s # ss else s # update_track t f ss)"

fun create_track_from_ssrc_info :: "ssrc_info list \<Rightarrow> stream_params list \<Rightarrow> stream_params list" where
  "create_track_from_ssrc_info [] tracks = tracks"
| "create_track_from_ssrc_info (i # is) tracks =
     create_track_from_ssrc_info is (update_track (info_track_id i)
       (\<lambda>s. s\<lparr>stream_cname := info_cname i, stream_name := info_stream_id i, stream_ssrcs := stream_ssrcs s @ [ssrc_id i]\<rparr>) tracks)"

section \<open>The loop over the lines\<close>

record 'fp sdp_state =
  media_type :: string
  audio_td :: "'fp transport_description"
  video_td :: "'fp transport_description"
  audio_ssrc_info :: "ssrc_info list"
  video_ssrc_info :: "ssrc_info list"
  video_ssrc_groups :: "ssrc_group list"
  remote_groups :: "content_group list"
  exist_audio :: bool
  exist_video :: bool
  h264_id :: int
  rtx_id :: int

text \<open>The first part of the body: bundles and media lines.\<close>

definition parse_media :: "'fp text_env \<Rightarrow> string \<Rightarrow> 'fp sdp_state \<Rightarrow> error + 'fp sdp_state \<times> bool" where
  "parse_media env field st =
     (if contains ''m=group:BUNDLE'' field then
        (case split_at env CHR '' '' field of
           _ # name # names \<Rightarrow>
             Inr (st\<lparr>remote_groups := remote_groups st @
               [fold add_content_name (name # names) \<lparr>group_semantics = ''BUNDLE'', content_names = []\<rparr>]\<rparr>, True)
         | _ \<Rightarrow> Inr (st, True))
      else if contains ''m='' field then
        (case split_at env CHR '' '' field of
           item0 # _ # _ # _ \<Rightarrow>
             bindE (substr 2 item0) (\<lambda>mt.
               let st = st\<lparr>media_type := mt\<rparr> in
               if mt = ''audio'' then Inr (st\<lparr>audio_td := (audio_td st)\<lparr>td_mid := ''audio''\<rparr>, exist_audio := True\<rparr>, True)
               else if mt = ''video'' then Inr (st\<lparr>video_td := (video_td st)\<lparr>td_mid := ''video''\<rparr>, exist_video := True\<rparr>, True)
               else Inr (st, True))
         | _ \<Rightarrow> Inr (st, False))
      else Inr (st, True))"

definition parse_attributes :: "'fp text_env \<Rightarrow> string \<Rightarrow> 'fp sdp_state \<Rightarrow> error + 'fp sdp_state \<times> bool" where
  "parse_attributes env field st =
     (if media_type st = ''audio'' then
        bindE (parse_transport_info env field (audio_td st)) (\<lambda>(td, ok).
        let st = st\<lparr>audio_td := td\<rparr> in
        if \<not> ok then Inr (st, False) else
        bindE (parse_ssrc_info env field (audio_ssrc_info st)) (\<lambda>(infos, ok). Inr (st\<lparr>audio_ssrc_info := infos\<rparr>, ok)))
      else if media_type st = ''video'' then
        bindE (parse_transport_info env field (video_td st)) (\<lambda>(td, ok).
        let st = st\<lparr>video_td := td\<rparr> in
        if \<not> ok then Inr (st, False) else
        bindE (parse_ssrc_info env field (video_ssrc_info st)) (\<lambda>(infos, ok).
        let st = st\<lparr>video_ssrc_info := infos\<rparr> in
        if \<not> ok then Inr (st, False) else
        bindE (parse_ssrc_group_info env field (video_ssrc_groups st)) (\<lambda>(groups, ok).
        let st = st\<lparr>video_ssrc_groups := groups\<rparr> in
        if \<not> ok then Inr (st, False) else
        bindE (parse_fmtp_info env field (h264_id st)) (\<lambda>(v, ok).
        let st = st\<lparr>h264_id := v\<rparr> in
        if \<not> ok then Inr (st, False) else
        if h264_id st \<noteq> 0 then bindE (parse_rtpmap_info env field (rtx_id st)) (\<lambda>(v, ok). Inr (st\<lparr>rtx_id := v\<rparr>, ok))
        else Inr (st, True)))))
      else Inr (st, True))"

fun parse_fields :: "'fp text_env \<Rightarrow> bool \<Rightarrow> string list \<Rightarrow> 'fp sdp_state \<Rightarrow> error + 'fp sdp_state \<times> bool" where
  "parse_fields env is_rn [] st = Inr (st, True)"
| "parse_fields env is_rn (field # rest) st =
     (let field = (if is_rn then butlast field else field) in
      bindE (parse_media env field st) (\<lambda>(st, ok).
      if \<not> ok then Inr (st, False) else
      bindE (parse_attributes env field st) (\<lambda>(st, ok).
      if \<not> ok then Inr (st, False) else parse_fields env is_rn rest st)))"

text \<open>The ssrc groups are given to the tracks that have their first ssrc.\<close>

definition assign_group :: "ssrc_group \<Rightarrow> stream_params list \<Rightarrow> stream_params list" where
  "assign_group g tracks =
     (case group_ssrcs g of [] \<Rightarrow> tracks | ssrc # _ \<Rightarrow> map (\<lambda>t. if has_ssrc ssrc t then t\<lparr>ssrc_groups := ssrc_groups t @ [g]\<rparr> else t) tracks)"

text \<open>The description at the end of the loop; \<open>dir\<close> is the direction that is never set.\<close>

definition remote_description :: "RtpDirection \<Rightarrow> 'fp sdp_state \<Rightarrow> 'fp session_description" where
  "remote_description dir st =
     (let audio_tracks = create_track_from_ssrc_info (audio_ssrc_info st) [];
          video_tracks = fold assign_group (video_ssrc_groups st) (create_track_from_ssrc_info (video_ssrc_info st) []);
          audio = (AudioContentDescription dir)\<lparr>send_streams := if audio_ssrc_info st \<noteq> [] then audio_tracks else []\<rparr>;
          video = (VideoContentDescription (h264_id st) (rtx_id st) dir)\<lparr>send_streams := if video_ssrc_info st \<noteq> [] then video_tracks else []\<rparr>;
          d = (SessionDescription_new k_offer)\<lparr>content_groups := remote_groups st\<rparr>;
          d = (if exist_audio st then add_content audio d else d);
          d = (if exist_video st then add_content video d else d) in
      add_transport_description (video_td st) (add_transport_description (audio_td st) d))"

text \<open>The loop on the text of a description.\<close>

definition parse_sdp :: "'fp text_env \<Rightarrow> string \<Rightarrow> 'fp sdp_state \<Rightarrow> error + 'fp sdp_state \<times> bool" where
  "parse_sdp env sdp st =
     (let lines = tokenize env CHR 0x0A sdp in
      if lines = [] then Inr (st, False) else parse_fields env (contains crlf sdp) lines st)"

end
