(* ===== verification/Sdp_Reading.thy ===== *)
theory Sdp_Reading
  imports Sdp_Parser
begin

text \<open>
  How the lines of a session description are read: the string functions of WebRTC as the locale \<open>text_lib\<close>, decimal numbers, and for every kind of line that
  \<open>to_string\<close> writes the effect of \<open>parse_media\<close> and \<open>parse_attributes\<close> on the state (\<open>reads\<close>). A line that is of none of
  the kinds is \<open>quiet\<close> and has no effect.
\<close>

section \<open>Substrings\<close>

lemma prefix_of_append: "prefix_of xs (xs @ ys)"
  by (induction xs) auto

lemma prefix_of_iff: "prefix_of xs ys \<longleftrightarrow> (\<exists>zs. ys = xs @ zs)"
  by (induction xs ys rule: prefix_of.induct) auto

lemma contains_iff: "contains n s \<longleftrightarrow> (\<exists>a b. s = a @ n @ b)"
proof (induction s)
  case (Cons c s)
  have "(\<exists>a b. c # s = a @ n @ b) \<longleftrightarrow> (\<exists>b. c # s = n @ b) \<or> (\<exists>a b. s = a @ n @ b)"
    by (metis append_Cons append_Nil list.inject neq_Nil_conv)
  then show ?case using Cons by (simp add: prefix_of_iff)
qed simp

lemma contains_later: "contains n s \<Longrightarrow> contains n (a @ s)"
  by (metis append.assoc contains_iff)

lemma contains_part: "contains (a @ b) s \<Longrightarrow> contains a s"
  by (auto simp: contains_iff)

lemma contains_missing: "x \<in> set n \<Longrightarrow> x \<notin> set s \<Longrightarrow> \<not> contains n s"
  by (auto simp: contains_iff)

lemma contains_skip: "x \<notin> set a \<Longrightarrow> contains (x # n) (a @ s) \<longleftrightarrow> contains (x # n) s"
  by (induction a) auto

lemma contains_skip_all: "x \<notin> set s \<Longrightarrow> \<not> contains (x # n) s"
  using contains_missing[of x "x # n" s] by simp

section \<open>Splitting\<close>

fun split_chars :: "char \<Rightarrow> string \<Rightarrow> string list" where
  "split_chars c [] = [[]]"
| "split_chars c (x # xs) = (if x = c then [] # split_chars c xs else (case split_chars c xs of [] \<Rightarrow> [[x]] | y # ys \<Rightarrow> (x # y) # ys))"

lemma split_chars_none: "c \<notin> set s \<Longrightarrow> split_chars c s = [s]"
  by (induction s) auto

lemma split_chars_sep: "c \<notin> set a \<Longrightarrow> split_chars c (a @ c # s) = a # split_chars c s"
  by (induction a) auto

lemma split_chars_not_Nil: "split_chars c s \<noteq> []"
  by (induction s) (auto split: list.splits)

section \<open>Decimal numbers\<close>

lemma is_digit_char: "(n :: nat) < 10 \<Longrightarrow> is_digit (char_of (48 + n))"
  by (simp add: is_digit_def Let_def)

lemma dec_nat_digits: "list_all is_digit (dec_nat n)"
proof (induction n rule: dec_nat.induct)
  case (1 n)
  show ?case using 1 is_digit_char[of n] is_digit_char[of "n mod 10"] by (subst dec_nat.simps) auto
qed

lemma dec_nat_not_Nil: "dec_nat n \<noteq> []"
  by (subst dec_nat.simps) simp

lemma dec_nat_chars: "\<not> is_digit c \<Longrightarrow> c \<notin> set (dec_nat n)"
  using dec_nat_digits[of n] by (auto simp: list_all_iff)

lemma digits_value_dec: "digits_value (dec_nat n) = int n"
proof (induction n rule: dec_nat.induct)
  case (1 n)
  have all: "digits_value (dec_nat m) = fold (\<lambda>c v. 10 * v + (int (of_char c) - 48)) (dec_nat m) 0" for m
    using dec_nat_digits[of m] by (simp add: digits_value_def takeWhile_eq_all_conv[THEN iffD2] list_all_iff)
  show ?case
  proof (cases "n < 10")
    case True
    then show ?thesis using is_digit_char[of n] by (subst dec_nat.simps) (simp add: digits_value_def)
  next
    case False
    then have "dec_nat n = dec_nat (n div 10) @ [char_of (48 + n mod 10)]" by (subst dec_nat.simps) simp
    then have "digits_value (dec_nat n) = 10 * digits_value (dec_nat (n div 10)) + int (n mod 10)"
      unfolding all by simp
    then show ?thesis using 1 False by simp presburger
  qed
qed

lemma atoi_dec: "0 \<le> i \<Longrightarrow> i < 2 ^ 31 \<Longrightarrow> atoi (dec i) = Inr i"
proof -
  assume i: "0 \<le> i" "i < 2 ^ 31"
  obtain c t where s: "dec_nat (nat i) = c # t" using dec_nat_not_Nil by (meson neq_Nil_conv)
  then have c: "is_digit c" using dec_nat_digits[of "nat i"] by simp
  then have "\<not> is_space c" "c \<noteq> CHR ''-''" "c \<noteq> CHR ''+''" by (auto simp: is_digit_def is_space_def Let_def)
  then show ?thesis using i s digits_value_dec[of "nat i"] by (simp add: atoi_def dec_def Let_def)
qed

lemma dec_nonneg: "0 \<le> i \<Longrightarrow> dec i = dec_nat (nat i)"
  by (simp add: dec_def)

section \<open>The string functions of WebRTC\<close>

locale text_lib =
  fixes env :: "'fp text_env"
  assumes split_at: "split_at env c s = split_chars c s"
    and tokenize: "tokenize env c s = filter (\<lambda>f. f \<noteq> []) (split_chars c s)"
    and tokenize_first: "c \<notin> set a \<Longrightarrow> b = [] \<or> hd b \<noteq> c \<Longrightarrow> tokenize_first env c (a @ c # b) = Some (a, b)"
    and FromString_dec: "n < 2 ^ 32 \<Longrightarrow> FromString env (dec_nat n) = Some (of_nat n)"
begin

lemma attribute_value:
  assumes "CHR '':'' \<notin> set k" "k \<noteq> []" "CHR '':'' \<notin> set v" "v \<noteq> []"
  shows "get_attribute env (k @ CHR '':'' # v) = v"
  using assms by (simp add: get_attribute_def tokenize split_chars_sep split_chars_none)

end

section \<open>Reading lines\<close>

definition reads :: "'fp text_env \<Rightarrow> string list \<Rightarrow> 'fp sdp_state \<Rightarrow> 'fp sdp_state \<Rightarrow> bool" where
  "reads env ls st st' \<longleftrightarrow> parse_fields env False ls st = Inr (st', True)"

lemma reads_Nil [simp]: "reads env [] st st"
  by (simp add: reads_def)

lemma reads_Cons_iff:
  "reads env (l # ls) st st'' \<longleftrightarrow>
     (\<exists>s st'. parse_media env l st = Inr (s, True) \<and> parse_attributes env l s = Inr (st', True) \<and> reads env ls st' st'')"
  by (cases "parse_media env l st"; auto simp: reads_def Let_def split: if_splits; cases "parse_attributes env l (fst (projr (parse_media env l st)))";
      auto split: if_splits)

lemma reads_Cons: "reads env [l] st st' \<Longrightarrow> reads env ls st' st'' \<Longrightarrow> reads env (l # ls) st st''"
  by (auto simp: reads_Cons_iff reads_def[of env "[]"])

lemma reads_append: "reads env ls st st' \<Longrightarrow> reads env ls' st' st'' \<Longrightarrow> reads env (ls @ ls') st st''"
proof (induction ls arbitrary: st)
  case (Cons l ls)
  then show ?case by (auto simp: reads_Cons_iff)
qed (simp add: reads_def)

lemma parse_fields_cr: "parse_fields env True (map (\<lambda>l. l @ [c]) ls) st = parse_fields env False ls st"
proof (induction ls arbitrary: st)
  case (Cons l ls)
  then show ?case by (simp add: Let_def cong: if_cong)
qed simp

text \<open>A line that says nothing to the parser.\<close>

definition quiet :: "string \<Rightarrow> bool" where
  "quiet l \<longleftrightarrow> \<not> contains ''m='' l \<and> \<not> contains ''a=ice-ufrag'' l \<and> \<not> contains ''a=ice-pwd'' l \<and> \<not> contains ''a=fingerprint'' l \<and>
     \<not> contains ''a=ssrc:'' l \<and> \<not> contains ''a=ssrc-group:'' l \<and> \<not> contains ''level-asymmetry-allowed=1'' l"

definition no_rtx :: "string \<Rightarrow> 'fp sdp_state \<Rightarrow> bool" where
  "no_rtx l st \<longleftrightarrow> h264_id st = 0 \<or> rtx_id st \<noteq> 0 \<or> \<not> contains ''rtx/90000'' l"

lemma parse_media_other: "\<not> contains ''m='' l \<Longrightarrow> parse_media env l st = Inr (st, True)"
  using contains_part[of "''m=''" "''group:BUNDLE''" l] by (auto simp: parse_media_def)

lemma fmtp_other: "\<not> contains ''level-asymmetry-allowed=1'' l \<Longrightarrow> parse_fmtp_info env l v = Inr (v, True)"
  by (simp add: parse_fmtp_info_def)

lemma rtpmap_other: "no_rtx l st \<Longrightarrow> h264_id st \<noteq> 0 \<Longrightarrow> parse_rtpmap_info env l (rtx_id st) = Inr (rtx_id st, True)"
  by (auto simp: no_rtx_def parse_rtpmap_info_def)

lemma reads_quiet:
  assumes "quiet l" "no_rtx l st"
  shows "reads env [l] st st"
proof -
  have "parse_attributes env l st = Inr (st, True)"
    using assms rtpmap_other[OF assms(2), of env]
    by (auto simp: quiet_def parse_attributes_def parse_transport_info_def parse_ssrc_info_def parse_ssrc_group_info_def fmtp_other Let_def)
  then show ?thesis using assms(1) by (simp add: reads_def parse_media_other quiet_def)
qed

lemma reads_quiets: "list_all (\<lambda>l. quiet l \<and> no_rtx l st) ls \<Longrightarrow> reads env ls st st"
  by (induction ls) (auto intro: reads_Cons reads_quiet)

text \<open>A line of attributes changes the description of the current medium only.\<close>

lemma reads_attributes:
  assumes "\<not> contains ''m='' l" "parse_attributes env l st = Inr (st', True)"
  shows "reads env [l] st st'"
  using assms by (simp add: reads_def parse_media_other)

definition on_td :: "('fp transport_description \<Rightarrow> 'fp transport_description) \<Rightarrow> 'fp sdp_state \<Rightarrow> 'fp sdp_state" where
  "on_td f st = (if media_type st = ''audio'' then st\<lparr>audio_td := f (audio_td st)\<rparr>
     else if media_type st = ''video'' then st\<lparr>video_td := f (video_td st)\<rparr> else st)"

definition current_td :: "'fp sdp_state \<Rightarrow> 'fp transport_description" where
  "current_td st = (if media_type st = ''audio'' then audio_td st else video_td st)"

lemma reads_transport:
  assumes "media_type st = ''audio'' \<or> media_type st = ''video''" "\<not> contains ''m='' l" "\<not> contains ''a=ssrc:'' l" "\<not> contains ''a=ssrc-group:'' l"
    and "\<not> contains ''level-asymmetry-allowed=1'' l" "no_rtx l st"
    and "parse_transport_info env l (current_td st) = Inr (f (current_td st), True)"
  shows "reads env [l] st (on_td f st)"
proof (rule reads_attributes[OF assms(2)])
  show "parse_attributes env l st = Inr (on_td f st, True)"
    using assms(1,3-7) rtpmap_other[OF assms(6), of env]
    by (auto simp: parse_attributes_def on_td_def current_td_def parse_ssrc_info_def parse_ssrc_group_info_def fmtp_other Let_def simp del: bindE_eq_Inr)
qed

context text_lib
begin

lemma reads_ufrag:
  assumes "media_type st = ''audio'' \<or> media_type st = ''video''" "no_rtx (''a=ice-ufrag:'' @ u) st" "u \<noteq> []"
    and "CHR '':'' \<notin> set u" "CHR ''='' \<notin> set u"
  shows "reads env [''a=ice-ufrag:'' @ u] st (on_td (\<lambda>td. td\<lparr>td_ufrag := u\<rparr>) st)"
proof (rule reads_transport[OF assms(1) _ _ _ _ assms(2)])
  have "get_attribute env (''a=ice-ufrag:'' @ u) = u" using attribute_value[of "''a=ice-ufrag''" u] assms by simp
  then show "parse_transport_info env (''a=ice-ufrag:'' @ u) (current_td st) = Inr ((current_td st)\<lparr>td_ufrag := u\<rparr>, True)"
    using assms(3) by (simp add: parse_transport_info_def)
qed (use assms(5) contains_missing[of "CHR ''=''" _ u] in simp_all)

lemma reads_pwd:
  assumes "media_type st = ''audio'' \<or> media_type st = ''video''" "no_rtx (''a=ice-pwd:'' @ u) st" "u \<noteq> []"
    and "CHR '':'' \<notin> set u" "CHR ''='' \<notin> set u"
  shows "reads env [''a=ice-pwd:'' @ u] st (on_td (\<lambda>td. td\<lparr>td_pwd := u\<rparr>) st)"
proof (rule reads_transport[OF assms(1) _ _ _ _ assms(2)])
  have "get_attribute env (''a=ice-pwd:'' @ u) = u" using attribute_value[of "''a=ice-pwd''" u] assms by simp
  then show "parse_transport_info env (''a=ice-pwd:'' @ u) (current_td st) = Inr ((current_td st)\<lparr>td_pwd := u\<rparr>, True)"
    using assms(3,5) contains_missing[of "CHR ''=''" _ u] by (simp add: parse_transport_info_def)
qed (use assms(5) contains_missing[of "CHR ''=''" _ u] in simp_all)

lemma reads_fingerprint:
  assumes "media_type st = ''audio'' \<or> media_type st = ''video''" "no_rtx (''a=fingerprint:'' @ alg @ '' '' @ fp) st"
    and "CreateUniqueFromRfc4572 env alg fp = Some f" "map tolower alg = alg" "CHR '' '' \<notin> set alg" "CHR ''='' \<notin> set alg"
    and "fp \<noteq> []" "CHR '' '' \<notin> set fp" "CHR ''='' \<notin> set fp"
  shows "reads env [''a=fingerprint:'' @ alg @ '' '' @ fp] st (on_td (\<lambda>td. td\<lparr>identity_fingerprint := Some f\<rparr>) st)"
proof (rule reads_transport[OF assms(1) _ _ _ _ assms(2)])
  let ?l = "''a=fingerprint:'' @ alg @ '' '' @ fp"
  have eq: "CHR ''='' \<notin> set (alg @ '' '' @ fp)" using assms by simp
  have "tokenize env CHR '' '' ?l = [''a=fingerprint:'' @ alg, fp]"
    using split_chars_sep[of "CHR '' ''" "''a=fingerprint:'' @ alg" fp] assms by (simp add: tokenize split_chars_none)
  then show "parse_transport_info env ?l (current_td st) = Inr ((current_td st)\<lparr>identity_fingerprint := Some f\<rparr>, True)"
    using assms(3,4) contains_missing[OF _ eq] by (simp add: parse_transport_info_def substr_def)
  show "\<not> contains ''m='' ?l" "\<not> contains ''a=ssrc:'' ?l" "\<not> contains ''a=ssrc-group:'' ?l" "\<not> contains ''level-asymmetry-allowed=1'' ?l"
    using contains_missing[OF _ eq] by simp_all
qed

end

section \<open>Lines of numbers\<close>

lemma dec_chars [simp]: "0 \<le> i \<Longrightarrow> \<not> is_digit c \<Longrightarrow> c \<notin> set (dec i)"
  by (simp add: dec_nonneg dec_nat_chars)

lemma not_digits [simp]:
  "\<not> is_digit CHR ''a''" "\<not> is_digit CHR ''m''" "\<not> is_digit CHR ''l''" "\<not> is_digit CHR ''r''" "\<not> is_digit CHR ''p''" "\<not> is_digit CHR '' ''"
  "\<not> is_digit CHR '':''" "\<not> is_digit CHR ''=''" "\<not> is_digit CHR 0x0A" "\<not> is_digit CHR 0x0D"
  by code_simp+

lemma dec_not_Nil [simp]: "dec i \<noteq> []"
  by (simp add: dec_def dec_nat_not_Nil)

text \<open>Under the medium video the numbers of the codecs are found.\<close>

context text_lib
begin

lemma parse_codec_id_line:
  assumes "0 \<le> i" "i < 2 ^ 31" "CHR '' '' \<notin> set k" "CHR '':'' \<notin> set k" "k \<noteq> []"
  shows "parse_codec_id env (a # b # k @ CHR '':'' # dec i @ CHR '' '' # rest) v = Inr (i, True)"
proof -
  have "split_at env CHR '' '' ((k @ CHR '':'' # dec i) @ CHR '' '' # rest) = (k @ CHR '':'' # dec i) # split_chars CHR '' '' rest"
    using assms by (subst split_at, intro split_chars_sep) simp
  moreover obtain y ys where "split_chars CHR '' '' rest = y # ys" using split_chars_not_Nil by (meson neq_Nil_conv)
  moreover have "get_attribute env (k @ CHR '':'' # dec i) = dec i" using assms by (intro attribute_value) simp_all
  ultimately show ?thesis using atoi_dec[OF assms(1,2)] by (simp add: parse_codec_id_def substr_def)
qed

lemma reads_fmtp:
  assumes "media_type st = ''video''" "h264_id st = 0" "0 < i" "i < 2 ^ 31"
  shows "reads env [''a=fmtp:'' @ dec i @ '' level-asymmetry-allowed=1;packetization-mode=1;profile-level-id=42e01f''] st (st\<lparr>h264_id := i\<rparr>)"
    (is "reads env [?l] st _")
proof (rule reads_attributes)
  note skip = contains_skip[OF dec_chars[of i]]
  have q: "\<not> contains ''m='' ?l" "\<not> contains ''a=ice-ufrag'' ?l" "\<not> contains ''a=ice-pwd'' ?l" "\<not> contains ''a=fingerprint'' ?l" "\<not> contains ''a=ssrc:'' ?l"
    "\<not> contains ''a=ssrc-group:'' ?l" "\<not> contains ''rtx/90000'' ?l"
    using assms(3) by (simp_all add: skip)
  have "contains ''42e01f'' ?l"
    by (rule contains_later[of _ _ "''a=fmtp:''"], rule contains_later[of _ _ "dec i"]) code_simp
  moreover have "contains ''level-asymmetry-allowed=1'' ?l" "contains ''packetization-mode=1'' ?l" using assms(3) by (simp_all add: skip)
  moreover have "parse_codec_id env ?l 0 = Inr (i, True)"
    using parse_codec_id_line[of i "''fmtp''" "CHR ''a''" "CHR ''=''" "''level-asymmetry-allowed=1;packetization-mode=1;profile-level-id=42e01f''" 0] assms(3,4)
    by simp
  ultimately have "parse_fmtp_info env ?l 0 = Inr (i, True)" by (simp only: parse_fmtp_info_def) simp
  then show "parse_attributes env ?l st = Inr (st\<lparr>h264_id := i\<rparr>, True)"
    using assms(1-3) q(2-7) by (simp add: parse_attributes_def parse_transport_info_def parse_ssrc_info_def parse_ssrc_group_info_def parse_rtpmap_info_def
        Let_def del: bindE_eq_Inr contains.simps)
  show "\<not> contains ''m='' ?l" by (rule q(1))
qed

lemma reads_rtpmap_rtx:
  assumes "media_type st = ''video''" "h264_id st \<noteq> 0" "rtx_id st = 0" "0 \<le> i" "i < 2 ^ 31"
  shows "reads env [''a=rtpmap:'' @ dec i @ '' rtx/90000''] st (st\<lparr>rtx_id := i\<rparr>)" (is "reads env [?l] st _")
proof (rule reads_attributes)
  note skip = contains_skip[OF dec_chars[of i]]
  have q: "\<not> contains ''m='' ?l" "\<not> contains ''a=ice-ufrag'' ?l" "\<not> contains ''a=ice-pwd'' ?l" "\<not> contains ''a=fingerprint'' ?l" "\<not> contains ''a=ssrc:'' ?l"
    "\<not> contains ''a=ssrc-group:'' ?l" "contains ''rtx/90000'' ?l"
    using assms(4) by (simp_all add: skip)
  have "parse_codec_id env ?l 0 = Inr (i, True)"
    using parse_codec_id_line[of i "''rtpmap''" "CHR ''a''" "CHR ''=''" "''rtx/90000''" 0] assms(4,5) by simp
  then have "parse_rtpmap_info env ?l 0 = Inr (i, True)" using q(7) by (simp only: parse_rtpmap_info_def) simp
  then show "parse_attributes env ?l st = Inr (st\<lparr>rtx_id := i\<rparr>, True)"
    using assms(1-3) q(2-6) by (simp add: parse_attributes_def parse_transport_info_def parse_ssrc_info_def parse_ssrc_group_info_def parse_fmtp_info_def
        Let_def del: bindE_eq_Inr contains.simps)
  show "\<not> contains ''m='' ?l" by (rule q(1))
qed

end

section \<open>Media lines\<close>

definition enter_audio :: "'fp sdp_state \<Rightarrow> 'fp sdp_state" where
  "enter_audio st = st\<lparr>media_type := ''audio'', audio_td := (audio_td st)\<lparr>td_mid := ''audio''\<rparr>, exist_audio := True\<rparr>"

definition enter_video :: "'fp sdp_state \<Rightarrow> 'fp sdp_state" where
  "enter_video st = st\<lparr>media_type := ''video'', video_td := (video_td st)\<lparr>td_mid := ''video''\<rparr>, exist_video := True\<rparr>"

text \<open>The formats of a media line.\<close>

definition formats :: "int list \<Rightarrow> string" where
  "formats is = concat (map (\<lambda>i. '' '' @ dec i) is)"

lemma formats_chars: "list_all (\<lambda>i. 0 \<le> i) is \<Longrightarrow> \<not> is_digit c \<Longrightarrow> c \<noteq> CHR '' '' \<Longrightarrow> c \<notin> set (formats is)"
  by (auto simp: formats_def list_all_iff)

definition media_protocol :: "bool \<Rightarrow> string" where
  "media_protocol dtls_on = (if dtls_on then k_media_protocol_dtls_savpf else k_meida_protocol_savpf)"

lemma media_protocol_cases: "media_protocol b = ''UDP/TLS/RTP/SAVPF'' \<or> media_protocol b = ''RTP/SAVPF''"
  by (simp add: media_protocol_def k_media_protocol_dtls_savpf_def k_meida_protocol_savpf_def)

context text_lib
begin

lemma split_media_line:
  "\<exists>w ws. split_at env CHR '' '' (''m='' @ mt @ '' 9 '' @ media_protocol b @ formats is) = (''m='' @ mt) # ''9'' # w # ws" if "CHR '' '' \<notin> set mt"
proof -
  have "split_at env CHR '' '' ((''m='' @ mt) @ CHR '' '' # ''9'' @ CHR '' '' # media_protocol b @ formats is) =
      (''m='' @ mt) # ''9'' # split_chars CHR '' '' (media_protocol b @ formats is)"
    using that by (subst split_at, subst split_chars_sep, simp, subst split_chars_sep) simp_all
  moreover obtain w ws where "split_chars CHR '' '' (media_protocol b @ formats is) = w # ws" using split_chars_not_Nil by (meson neq_Nil_conv)
  ultimately show ?thesis by simp
qed

lemma reads_media:
  assumes "list_all (\<lambda>i. 0 \<le> i) is" "h264_id st = 0"
  shows "reads env [''m=audio 9 '' @ media_protocol b @ formats is] st (enter_audio st)"
    and "reads env [''m=video 9 '' @ media_protocol b @ formats is] st (enter_video st)"
proof -
  have f: "CHR ''a'' \<notin> set (formats is)" "CHR ''m'' \<notin> set (formats is)" "CHR ''l'' \<notin> set (formats is)" using formats_chars[OF assms(1)] by auto
  have p: "\<not> contains (x # n) (media_protocol b @ formats is)" if "x \<in> {CHR ''a'', CHR ''m'', CHR ''l''}" for x n
    using media_protocol_cases[of b] f that by (auto simp: contains_skip_all)
  have a: "parse_attributes env (''m=audio 9 '' @ media_protocol b @ formats is) st' = Inr (st', True)"
    and v: "parse_attributes env (''m=video 9 '' @ media_protocol b @ formats is) st' = Inr (st', True)" if "h264_id st' = 0" for st'
    using that p by (simp_all add: parse_attributes_def parse_transport_info_def parse_ssrc_info_def parse_ssrc_group_info_def fmtp_other Let_def del: bindE_eq_Inr)
  obtain wa wsa where sa: "split_at env CHR '' '' (''m=audio 9 '' @ media_protocol b @ formats is) = ''m=audio'' # ''9'' # wa # wsa"
    using split_media_line[of "''audio''" b "is"] by (simp only: append_Cons append_Nil) auto
  have "parse_media env (''m=audio 9 '' @ media_protocol b @ formats is) st = Inr (enter_audio st, True)"
    unfolding parse_media_def sa using p by (simp add: substr_def enter_audio_def)
  then show "reads env [''m=audio 9 '' @ media_protocol b @ formats is] st (enter_audio st)"
    using a[of "enter_audio st"] assms(2) by (simp add: reads_Cons_iff enter_audio_def)
  obtain wv wsv where sv: "split_at env CHR '' '' (''m=video 9 '' @ media_protocol b @ formats is) = ''m=video'' # ''9'' # wv # wsv"
    using split_media_line[of "''video''" b "is"] by (simp only: append_Cons append_Nil) auto
  have "parse_media env (''m=video 9 '' @ media_protocol b @ formats is) st = Inr (enter_video st, True)"
    unfolding parse_media_def sv using p by (simp add: substr_def enter_video_def)
  then show "reads env [''m=video 9 '' @ media_protocol b @ formats is] st (enter_video st)"
    using v[of "enter_video st"] assms(2) by (simp add: reads_Cons_iff enter_video_def)
qed

end

section \<open>Lines of sources\<close>

text \<open>Names that the formats of the lines cannot be confused by.\<close>

definition plain :: "string \<Rightarrow> bool" where
  "plain s \<longleftrightarrow> s \<noteq> [] \<and> set s \<inter> {CHR '' '', CHR '':'', CHR ''='', CHR 0x0A, CHR 0x0D} = {}"

lemma plainD: "plain s \<Longrightarrow> s \<noteq> []" "plain s \<Longrightarrow> CHR '' '' \<notin> set s" "plain s \<Longrightarrow> CHR '':'' \<notin> set s" "plain s \<Longrightarrow> CHR ''='' \<notin> set s"
  "plain s \<Longrightarrow> CHR 0x0A \<notin> set s" "plain s \<Longrightarrow> CHR 0x0D \<notin> set s"
  by (auto simp: plain_def)

lemma plain_hd: "plain s \<Longrightarrow> hd (s @ t) \<noteq> CHR '':''" "plain s \<Longrightarrow> hd (s @ t) \<noteq> CHR '' ''"
  by (cases s; auto simp: plain_def)+

definition on_infos :: "(ssrc_info list \<Rightarrow> ssrc_info list) \<Rightarrow> 'fp sdp_state \<Rightarrow> 'fp sdp_state" where
  "on_infos f st = (if media_type st = ''audio'' then st\<lparr>audio_ssrc_info := f (audio_ssrc_info st)\<rparr>
     else if media_type st = ''video'' then st\<lparr>video_ssrc_info := f (video_ssrc_info st)\<rparr> else st)"

definition current_infos :: "'fp sdp_state \<Rightarrow> ssrc_info list" where
  "current_infos st = (if media_type st = ''audio'' then audio_ssrc_info st else video_ssrc_info st)"

lemma on_infos_simps [simp]: "media_type (on_infos f st) = media_type st" "h264_id (on_infos f st) = h264_id st" "rtx_id (on_infos f st) = rtx_id st"
  by (simp_all add: on_infos_def)

lemma on_infos_compose: "on_infos g (on_infos f st) = on_infos (\<lambda>i. g (f i)) st"
  by (simp add: on_infos_def)

lemma on_infos_cong: "f (current_infos st) = g (current_infos st) \<Longrightarrow> on_infos f st = on_infos g st"
  by (auto simp: on_infos_def current_infos_def split: if_splits)

lemma current_on_infos: "media_type st = ''audio'' \<or> media_type st = ''video'' \<Longrightarrow> current_infos (on_infos f st) = f (current_infos st)"
  by (auto simp: on_infos_def current_infos_def)

definition ssrc_line :: "u32 \<Rightarrow> string \<Rightarrow> string \<Rightarrow> string" where
  "ssrc_line ssrc attribute val = ''a=ssrc:'' @ dec (uint ssrc) @ '' '' @ attribute @ '':'' @ val"

lemma eq_free:
  assumes "CHR ''='' \<notin> set s"
  shows "\<not> contains ''m='' (''a='' @ s)" "\<not> contains ''level-asymmetry-allowed=1'' (''a='' @ s)"
    "contains (''a='' @ n) (''a='' @ s) \<longleftrightarrow> prefix_of n s"
  using assms contains_missing[of "CHR ''=''" _ s] by simp_all

lemma prefix_of_same: "prefix_of (a @ b) (a @ c) \<longleftrightarrow> prefix_of b c"
  by (induction a) auto

context text_lib
begin

lemma parse_ssrc_line:
  assumes "attribute \<noteq> []" "hd attribute \<noteq> CHR '' ''" "CHR '':'' \<notin> set attribute" "val = [] \<or> hd val \<noteq> CHR '':''"
  shows "parse_ssrc_info env (ssrc_line ssrc attribute val) infos =
    (if attribute = ''cname'' then Inr (update_ssrc_info ssrc (\<lambda>i. i\<lparr>info_cname := val\<rparr>) infos, True)
     else if attribute = ''msid'' then
       (case split_chars CHR '' '' val of
          [s] \<Rightarrow> Inr (update_ssrc_info ssrc (\<lambda>i. i\<lparr>info_stream_id := s\<rparr>) infos, True)
        | [s, t] \<Rightarrow> Inr (update_ssrc_info ssrc (\<lambda>i. i\<lparr>info_stream_id := s, info_track_id := t\<rparr>) infos, True)
        | _ \<Rightarrow> Inr (update_ssrc_info ssrc (\<lambda>i. i) infos, False))
     else Inr (update_ssrc_info ssrc (\<lambda>i. i) infos, True))"
proof -
  let ?d = "dec (uint ssrc)"
  have d: "?d = dec_nat (unat ssrc)" by (simp add: dec_nonneg)
  have c: "contains ''a=ssrc:'' (ssrc_line ssrc attribute val)" by (simp add: ssrc_line_def)
  have "hd (attribute @ '':'' @ val) \<noteq> CHR '' ''" using assms(1,2) by simp
  then have "tokenize_first env CHR '' '' ((''ssrc:'' @ ?d) @ CHR '' '' # attribute @ '':'' @ val) = Some (''ssrc:'' @ ?d, attribute @ '':'' @ val)"
    by (intro tokenize_first) simp_all
  moreover have "FromString env ?d = Some ssrc" unfolding d using FromString_dec[of "unat ssrc"] unat_lt[of ssrc] by simp
  moreover have "tokenize_first env CHR '':'' (attribute @ CHR '':'' # val) = Some (attribute, val)" using assms(3,4) by (rule tokenize_first)
  ultimately show ?thesis using c
    by (simp add: parse_ssrc_info_def ssrc_line_def substr_def split_at del: bindE_eq_Inr contains.simps)
qed

lemma reads_ssrc:
  assumes "media_type st = ''audio'' \<or> media_type st = ''video''" "no_rtx (ssrc_line ssrc attribute val) st"
    and "CHR ''='' \<notin> set attribute" "CHR ''='' \<notin> set val"
    and "parse_ssrc_info env (ssrc_line ssrc attribute val) (current_infos st) = Inr (f (current_infos st), True)"
  shows "reads env [ssrc_line ssrc attribute val] st (on_infos f st)"
proof (rule reads_attributes)
  let ?s = "''ssrc:'' @ dec (uint ssrc) @ '' '' @ attribute @ '':'' @ val"
  have l: "ssrc_line ssrc attribute val = ''a='' @ ?s" by (simp add: ssrc_line_def)
  have "CHR ''='' \<notin> set ?s" using assms(3,4) by simp
  note e = eq_free[OF this, folded l]
  show "\<not> contains ''m='' (ssrc_line ssrc attribute val)" by (rule e(1))
  have "\<not> contains ''a=ice-ufrag'' (ssrc_line ssrc attribute val)" "\<not> contains ''a=ice-pwd'' (ssrc_line ssrc attribute val)"
    "\<not> contains ''a=fingerprint'' (ssrc_line ssrc attribute val)" "\<not> contains ''a=ssrc-group:'' (ssrc_line ssrc attribute val)"
    using e(3)[of "''ice-ufrag''"] e(3)[of "''ice-pwd''"] e(3)[of "''fingerprint''"] e(3)[of "''ssrc-group:''"] by simp_all
  then show "parse_attributes env (ssrc_line ssrc attribute val) st = Inr (on_infos f st, True)"
    using assms(1,5) e(2) rtpmap_other[OF assms(2), of env]
    by (auto simp: parse_attributes_def on_infos_def current_infos_def parse_transport_info_def parse_ssrc_group_info_def fmtp_other Let_def simp del: bindE_eq_Inr)
qed

text \<open>The four lines of a source.\<close>

lemma update_new: "ssrc \<notin> ssrc_id ` set is \<Longrightarrow> update_ssrc_info ssrc f (is @ js) = is @ update_ssrc_info ssrc f js"
  by (induction "is") auto

end

definition ssrc_lines :: "stream_params \<Rightarrow> u32 \<Rightarrow> string list" where
  "ssrc_lines t ssrc = [ssrc_line ssrc ''cname'' (stream_cname t), ssrc_line ssrc ''msid'' (stream_name t @ '' '' @ track_name t),
     ssrc_line ssrc ''mslabel'' (stream_name t), ssrc_line ssrc ''lable'' (track_name t)]"

definition info_of :: "stream_params \<Rightarrow> u32 \<Rightarrow> ssrc_info" where
  "info_of t ssrc = \<lparr>ssrc_id = ssrc, info_cname = stream_cname t, info_stream_id = stream_name t, info_track_id = track_name t\<rparr>"

definition names_plain :: "stream_params \<Rightarrow> bool" where
  "names_plain t \<longleftrightarrow> plain (stream_cname t) \<and> plain (stream_name t) \<and> plain (track_name t)"

context text_lib
begin

lemma reads_ssrc_lines:
  assumes "media_type st = ''audio'' \<or> media_type st = ''video''" "h264_id st = 0 \<or> rtx_id st \<noteq> 0" "names_plain t" "ssrc \<notin> ssrc_id ` set (current_infos st)"
  shows "reads env (ssrc_lines t ssrc) st (on_infos (\<lambda>is. is @ [info_of t ssrc]) st)"
proof -
  note p = assms(3)[unfolded names_plain_def, THEN conjunct1] assms(3)[unfolded names_plain_def, THEN conjunct2, THEN conjunct1]
    assms(3)[unfolded names_plain_def, THEN conjunct2, THEN conjunct2]
  have h: "hd (stream_cname t) \<noteq> CHR '':''" "hd (stream_name t) \<noteq> CHR '':''" "hd (track_name t) \<noteq> CHR '':''"
    using plain_hd(1)[OF p(1), of "[]"] plain_hd(1)[OF p(2), of "[]"] plain_hd(1)[OF p(3), of "[]"] by simp_all
  have rtx: "no_rtx l st'" if "h264_id st' = h264_id st" "rtx_id st' = rtx_id st" for l st' using that assms(2) by (auto simp: no_rtx_def)
  let ?f = "\<lambda>is. is @ [(\<lparr>ssrc_id = ssrc, info_cname = stream_cname t, info_stream_id = [], info_track_id = []\<rparr>)]"
  let ?g = "\<lambda>is. is @ [info_of t ssrc]"
  have m: "media_type (on_infos f st) = ''audio'' \<or> media_type (on_infos f st) = ''video''" for f using assms(1) by simp
  have 1: "reads env [ssrc_line ssrc ''cname'' (stream_cname t)] st (on_infos ?f st)"
    by (rule reads_ssrc[OF assms(1) rtx]) (use p plainD h assms(4) in \<open>simp_all add: parse_ssrc_line update_new[of ssrc _ _ "[]", simplified]\<close>)
  have "split_chars CHR '' '' (stream_name t @ CHR '' '' # track_name t) = [stream_name t, track_name t]"
    using p plainD by (simp add: split_chars_sep split_chars_none)
  then have 2: "reads env [ssrc_line ssrc ''msid'' (stream_name t @ '' '' @ track_name t)] (on_infos ?f st) (on_infos (\<lambda>_. ?g (current_infos st)) (on_infos ?f st))"
    by (intro reads_ssrc[OF m rtx]) (use p plainD plain_hd assms(1,4) in \<open>simp_all add: parse_ssrc_line update_new current_on_infos info_of_def\<close>)
  have eq: "on_infos (\<lambda>_. ?g (current_infos st)) (on_infos ?f st) = on_infos ?g st" by (auto simp: on_infos_compose intro: on_infos_cong)
  have id: "on_infos (\<lambda>is. is) (on_infos ?g st) = on_infos ?g st" by (simp add: on_infos_compose)
  have 3: "reads env [ssrc_line ssrc a v] (on_infos ?g st) (on_infos (\<lambda>is. is) (on_infos ?g st))"
    if "a \<in> {''mslabel'', ''lable''}" "v \<in> {stream_name t, track_name t}" for a v
    by (rule reads_ssrc[OF m rtx]) (use that p plainD h assms(1,4) in \<open>auto simp: parse_ssrc_line update_new current_on_infos info_of_def\<close>)
  show ?thesis unfolding ssrc_lines_def
    using reads_Cons[OF 1 reads_Cons[OF 2[unfolded eq] reads_Cons[OF 3[unfolded id] 3[unfolded id]]]] by simp
qed

end

section \<open>Tracks\<close>

definition group_line :: "ssrc_group \<Rightarrow> string" where
  "group_line g = ''a=ssrc-group:'' @ semantics g @ concat (map (\<lambda>ssrc. '' '' @ dec (uint ssrc)) (group_ssrcs g))"

lemma split_words:
  "c \<notin> set w \<Longrightarrow> list_all (\<lambda>x. c \<notin> set x) ws \<Longrightarrow> split_chars c (w @ concat (map (\<lambda>x. c # x) ws)) = w # ws"
proof (induction ws arbitrary: w)
  case (Cons x ws)
  then show ?case using split_chars_sep[of c w "x @ concat (map (\<lambda>x. c # x) ws)"] by simp
qed (simp add: split_chars_none)

definition settled :: "'fp sdp_state \<Rightarrow> bool" where
  "settled st \<longleftrightarrow> h264_id st = 0 \<or> rtx_id st \<noteq> 0"

lemma settled_no_rtx: "settled st \<Longrightarrow> no_rtx l st"
  by (auto simp: settled_def no_rtx_def)

context text_lib
begin

lemma parse_ssrcs_dec: "parse_ssrcs env (map (\<lambda>s. dec (uint s)) ssrcs) = Some ssrcs"
proof (induction ssrcs)
  case (Cons s ssrcs)
  have "FromString env (dec (uint s)) = Some s" using FromString_dec[of "unat s"] unat_lt[of s] by (simp add: dec_nonneg)
  then show ?case using Cons by simp
qed simp

lemma reads_group:
  assumes "media_type st = ''video''" "settled st" "plain (semantics g)" "group_ssrcs g \<noteq> []"
  shows "reads env [group_line g] st (st\<lparr>video_ssrc_groups := video_ssrc_groups st @ [g]\<rparr>)"
proof (rule reads_attributes)
  let ?w = "concat (map (\<lambda>ssrc. '' '' @ dec (uint ssrc)) (group_ssrcs g))"
  let ?s = "''ssrc-group:'' @ semantics g @ ?w"
  have l: "group_line g = ''a='' @ ?s" by (simp add: group_line_def)
  have "CHR ''='' \<notin> set ?s" using plainD[OF assms(3)] by auto
  note e = eq_free[OF this, folded l]
  show "\<not> contains ''m='' (group_line g)" by (rule e(1))
  have n: "\<not> contains ''a=ice-ufrag'' (group_line g)" "\<not> contains ''a=ice-pwd'' (group_line g)"
    "\<not> contains ''a=fingerprint'' (group_line g)" "\<not> contains ''a=ssrc:'' (group_line g)" "contains ''a=ssrc-group:'' (group_line g)"
    using e(3)[of "''ice-ufrag''"] e(3)[of "''ice-pwd''"] e(3)[of "''fingerprint''"] e(3)[of "''ssrc:''"] e(3)[of "''ssrc-group:''"] by simp_all
  have "?w = concat (map (\<lambda>x. CHR '' '' # x) (map (\<lambda>s. dec (uint s)) (group_ssrcs g)))" by (simp add: comp_def)
  then have "split_at env CHR '' '' ?s = (''ssrc-group:'' @ semantics g) # map (\<lambda>s. dec (uint s)) (group_ssrcs g)"
    unfolding split_at using split_words[of "CHR '' ''" "''ssrc-group:'' @ semantics g" "map (\<lambda>s. dec (uint s)) (group_ssrcs g)"] plainD[OF assms(3)]
    by (simp add: list_all_iff)
  moreover have "get_attribute env (''ssrc-group:'' @ semantics g) = semantics g" using attribute_value[of "''ssrc-group''" "semantics g"] plainD[OF assms(3)] by simp
  moreover obtain x xs where "group_ssrcs g = x # xs" using assms(4) by (meson neq_Nil_conv)
  moreover have "parse_ssrcs env (map (\<lambda>s. dec (uint s)) (group_ssrcs g)) = Some (group_ssrcs g)" by (rule parse_ssrcs_dec)
  ultimately have "parse_ssrc_group_info env (group_line g) (video_ssrc_groups st) = Inr (video_ssrc_groups st @ [g], True)"
    unfolding parse_ssrc_group_info_def using n(5) plainD(1)[OF assms(3)] by (simp add: l substr_def del: contains.simps parse_ssrcs.simps)
  then show "parse_attributes env (group_line g) st = Inr (st\<lparr>video_ssrc_groups := video_ssrc_groups st @ [g]\<rparr>, True)"
    using assms(1) n e(2) rtpmap_other[OF settled_no_rtx[OF assms(2), of "group_line g"], of env]
    by (auto simp: parse_attributes_def parse_transport_info_def parse_ssrc_info_def fmtp_other Let_def simp del: bindE_eq_Inr)
qed

lemma reads_groups:
  assumes "media_type st = ''video''" "settled st" "list_all (\<lambda>g. plain (semantics g) \<and> group_ssrcs g \<noteq> []) gs"
  shows "reads env (map group_line gs) st (st\<lparr>video_ssrc_groups := video_ssrc_groups st @ gs\<rparr>)"
  using assms
proof (induction gs arbitrary: st)
  case (Cons g gs)
  let ?st = "st\<lparr>video_ssrc_groups := video_ssrc_groups st @ [g]\<rparr>"
  have "reads env [group_line g] st ?st" using Cons.prems by (intro reads_group) simp_all
  moreover have "reads env (map group_line gs) ?st (st\<lparr>video_ssrc_groups := video_ssrc_groups st @ g # gs\<rparr>)"
    using Cons.IH[of ?st] Cons.prems by (simp add: settled_def)
  ultimately show ?case using reads_Cons by fastforce
qed simp

lemma reads_sources:
  assumes "media_type st = ''audio'' \<or> media_type st = ''video''" "settled st" "names_plain t" "distinct ssrcs" "set ssrcs \<inter> ssrc_id ` set (current_infos st) = {}"
  shows "reads env (concat (map (ssrc_lines t) ssrcs)) st (on_infos (\<lambda>is. is @ map (info_of t) ssrcs) st)"
  using assms
proof (induction ssrcs arbitrary: st)
  case Nil
  then show ?case by (auto simp: on_infos_def)
next
  case (Cons s ssrcs)
  let ?st = "on_infos (\<lambda>is. is @ [info_of t s]) st"
  have "reads env (ssrc_lines t s) st ?st" using Cons.prems by (intro reads_ssrc_lines) (auto simp: settled_def)
  moreover have "reads env (concat (map (ssrc_lines t) ssrcs)) ?st (on_infos (\<lambda>is. is @ map (info_of t) ssrcs) ?st)"
    using Cons.prems by (intro Cons.IH) (auto simp: settled_def current_on_infos info_of_def)
  ultimately show ?case using reads_append by (fastforce simp: on_infos_compose)
qed

end

definition track_lines :: "stream_params \<Rightarrow> string list" where
  "track_lines t = map group_line (ssrc_groups t) @ concat (map (ssrc_lines t) (stream_ssrcs t))"

definition tracks_infos :: "stream_params list \<Rightarrow> ssrc_info list" where
  "tracks_infos ts = concat (map (\<lambda>t. map (info_of t) (stream_ssrcs t)) ts)"

definition groups_ok :: "stream_params \<Rightarrow> bool" where
  "groups_ok t \<longleftrightarrow> list_all (\<lambda>g. plain (semantics g) \<and> group_ssrcs g \<noteq> []) (ssrc_groups t)"

context text_lib
begin

lemma reads_tracks_video:
  assumes "media_type st = ''video''" "settled st" "list_all (\<lambda>t. names_plain t \<and> groups_ok t) ts"
    and "distinct (concat (map stream_ssrcs ts))" "set (concat (map stream_ssrcs ts)) \<inter> ssrc_id ` set (video_ssrc_info st) = {}"
  shows "reads env (concat (map track_lines ts)) st
    (st\<lparr>video_ssrc_info := video_ssrc_info st @ tracks_infos ts, video_ssrc_groups := video_ssrc_groups st @ concat (map ssrc_groups ts)\<rparr>)"
  using assms
proof (induction ts arbitrary: st)
  case Nil
  then show ?case by (simp add: tracks_infos_def)
next
  case (Cons t ts)
  let ?s1 = "st\<lparr>video_ssrc_groups := video_ssrc_groups st @ ssrc_groups t\<rparr>"
  let ?s2 = "?s1\<lparr>video_ssrc_info := video_ssrc_info st @ map (info_of t) (stream_ssrcs t)\<rparr>"
  have "reads env (map group_line (ssrc_groups t)) st ?s1" using Cons.prems by (intro reads_groups) (simp_all add: groups_ok_def)
  moreover have "reads env (concat (map (ssrc_lines t) (stream_ssrcs t))) ?s1 (on_infos (\<lambda>is. is @ map (info_of t) (stream_ssrcs t)) ?s1)"
    using Cons.prems by (intro reads_sources) (auto simp: settled_def current_infos_def)
  moreover have "on_infos (\<lambda>is. is @ map (info_of t) (stream_ssrcs t)) ?s1 = ?s2" using Cons.prems(1) by (simp add: on_infos_def)
  ultimately have "reads env (track_lines t) st ?s2" using reads_append by (fastforce simp: track_lines_def)
  moreover have "reads env (concat (map track_lines ts)) ?s2 (?s2\<lparr>video_ssrc_info := video_ssrc_info ?s2 @ tracks_infos ts,
      video_ssrc_groups := video_ssrc_groups ?s2 @ concat (map ssrc_groups ts)\<rparr>)"
    using Cons.prems by (intro Cons.IH) (auto simp: settled_def info_of_def disjoint_iff)
  ultimately show ?case using reads_append by (fastforce simp: tracks_infos_def)
qed

lemma reads_tracks_audio:
  assumes "media_type st = ''audio''" "settled st" "list_all (\<lambda>t. names_plain t \<and> ssrc_groups t = []) ts"
    and "distinct (concat (map stream_ssrcs ts))" "set (concat (map stream_ssrcs ts)) \<inter> ssrc_id ` set (audio_ssrc_info st) = {}"
  shows "reads env (concat (map track_lines ts)) st (st\<lparr>audio_ssrc_info := audio_ssrc_info st @ tracks_infos ts\<rparr>)"
  using assms
proof (induction ts arbitrary: st)
  case Nil
  then show ?case by (simp add: tracks_infos_def)
next
  case (Cons t ts)
  let ?s2 = "st\<lparr>audio_ssrc_info := audio_ssrc_info st @ map (info_of t) (stream_ssrcs t)\<rparr>"
  have "reads env (concat (map (ssrc_lines t) (stream_ssrcs t))) st (on_infos (\<lambda>is. is @ map (info_of t) (stream_ssrcs t)) st)"
    using Cons.prems by (intro reads_sources) (auto simp: settled_def current_infos_def)
  moreover have "on_infos (\<lambda>is. is @ map (info_of t) (stream_ssrcs t)) st = ?s2" using Cons.prems(1) by (simp add: on_infos_def)
  ultimately have "reads env (track_lines t) st ?s2" using Cons.prems(3) by (simp add: track_lines_def)
  moreover have "reads env (concat (map track_lines ts)) ?s2 (?s2\<lparr>audio_ssrc_info := audio_ssrc_info ?s2 @ tracks_infos ts\<rparr>)"
    using Cons.prems by (intro Cons.IH) (auto simp: settled_def info_of_def disjoint_iff)
  ultimately show ?case using reads_append by (fastforce simp: tracks_infos_def)
qed

end

end
