(* ===== verification/Sdp_Correct.thy ===== *)
theory Sdp_Correct
  imports Sdp_Reading
begin

text \<open>
  The text of a session description is its lines (\<open>content_lines\<close>, \<open>session_lines\<close>), each of them is read back, and the sources and groups that are read make
  the tracks that were written: \<open>sdp_roundtrip\<close>.
\<close>

section \<open>From sources to tracks\<close>

lemma update_track_later: "t \<notin> track_name ` set ss \<Longrightarrow> update_track t f (ss @ us) = ss @ update_track t f us"
  by (induction ss) auto

lemma create_track_append: "create_track_from_ssrc_info (xs @ ys) acc = create_track_from_ssrc_info ys (create_track_from_ssrc_info xs acc)"
  by (induction xs arbitrary: acc) auto

lemma create_track_more:
  assumes "track_name t \<notin> track_name ` set acc"
  shows "create_track_from_ssrc_info (map (info_of t) ssrcs) (acc @ [t\<lparr>ssrc_groups := [], stream_ssrcs := us\<rparr>]) =
    acc @ [t\<lparr>ssrc_groups := [], stream_ssrcs := us @ ssrcs\<rparr>]"
  using assms by (induction ssrcs arbitrary: us) (auto simp: update_track_later info_of_def)

lemma create_track_one:
  assumes "track_name t \<notin> track_name ` set acc" "stream_ssrcs t \<noteq> []"
  shows "create_track_from_ssrc_info (map (info_of t) (stream_ssrcs t)) acc = acc @ [t\<lparr>ssrc_groups := []\<rparr>]"
proof -
  obtain s ss where s: "stream_ssrcs t = s # ss" using assms(2) by (meson neq_Nil_conv)
  have "update_track (track_name t) (\<lambda>u. u\<lparr>stream_cname := stream_cname t, stream_name := stream_name t, stream_ssrcs := stream_ssrcs u @ [s]\<rparr>) acc =
      acc @ [t\<lparr>ssrc_groups := [], stream_ssrcs := [s]\<rparr>]"
    using update_track_later[OF assms(1), of _ "[]"] by (cases t) simp
  then show ?thesis using create_track_more[OF assms(1), of ss "[s]"] s by (cases t) (simp add: info_of_def)
qed

lemma create_tracks:
  assumes "distinct (map track_name ts)" "track_name ` set ts \<inter> track_name ` set acc = {}" "list_all (\<lambda>t. stream_ssrcs t \<noteq> []) ts"
  shows "create_track_from_ssrc_info (tracks_infos ts) acc = acc @ map (\<lambda>t. t\<lparr>ssrc_groups := []\<rparr>) ts"
  using assms
proof (induction ts arbitrary: acc)
  case (Cons t ts)
  have "create_track_from_ssrc_info (tracks_infos (t # ts)) acc = create_track_from_ssrc_info (tracks_infos ts) (acc @ [t\<lparr>ssrc_groups := []\<rparr>])"
    using Cons.prems create_track_one[of t acc] by (simp add: tracks_infos_def create_track_append)
  also have "\<dots> = (acc @ [t\<lparr>ssrc_groups := []\<rparr>]) @ map (\<lambda>t. t\<lparr>ssrc_groups := []\<rparr>) ts"
    using Cons.prems by (intro Cons.IH) (auto simp: disjoint_iff)
  finally show ?case by simp
qed (simp add: tracks_infos_def)

lemma assign_groups:
  assumes "list_all (\<lambda>g. group_ssrcs g \<noteq> []) gs"
  shows "fold assign_group gs ts = map (\<lambda>t. t\<lparr>ssrc_groups := ssrc_groups t @ filter (\<lambda>g. hd (group_ssrcs g) \<in> set (stream_ssrcs t)) gs\<rparr>) ts"
  using assms
proof (induction gs arbitrary: ts)
  case (Cons g gs)
  then have "assign_group g ts = map (\<lambda>t. if hd (group_ssrcs g) \<in> set (stream_ssrcs t) then t\<lparr>ssrc_groups := ssrc_groups t @ [g]\<rparr> else t) ts"
    by (auto simp: assign_group_def has_ssrc_def list_ex_iff split: list.splits)
  then show ?case using Cons by (auto simp: comp_def)
qed simp

definition groups_own :: "stream_params \<Rightarrow> bool" where
  "groups_own t \<longleftrightarrow> list_all (\<lambda>g. hd (group_ssrcs g) \<in> set (stream_ssrcs t)) (ssrc_groups t)"

lemma concat_own: "distinct ts \<Longrightarrow> t \<in> set ts \<Longrightarrow> concat (map (\<lambda>u. if u = t then f u else []) ts) = f t"
proof (induction ts)
  case (Cons u ts)
  have "concat (map (\<lambda>u. if u = t then f u else []) ts) = []" if "t \<notin> set ts" using that by auto
  then show ?case using Cons by (cases "u = t") auto
qed simp

lemma disjoint_ssrcs:
  assumes "distinct (concat (map stream_ssrcs ts))" "t \<in> set ts" "u \<in> set ts" "t \<noteq> u"
  shows "set (stream_ssrcs t) \<inter> set (stream_ssrcs u) = {}"
  using assms by (induction ts) (auto simp: disjoint_iff)

lemma own_groups:
  assumes "distinct (concat (map stream_ssrcs ts))" "distinct ts" "list_all groups_own ts" "t \<in> set ts"
  shows "filter (\<lambda>g. hd (group_ssrcs g) \<in> set (stream_ssrcs t)) (concat (map ssrc_groups ts)) = ssrc_groups t"
proof -
  let ?P = "\<lambda>g. hd (group_ssrcs g) \<in> set (stream_ssrcs t)"
  have "filter ?P (ssrc_groups u) = (if u = t then ssrc_groups u else [])" if "u \<in> set ts" for u
    using that assms disjoint_ssrcs[OF assms(1,4) that]
    by (auto simp: list_all_iff groups_own_def filter_empty_conv disjoint_iff intro!: filter_True)
  then have "concat (map (\<lambda>u. filter ?P (ssrc_groups u)) ts) = concat (map (\<lambda>u. if u = t then ssrc_groups u else []) ts)"
    by (intro arg_cong[where f = concat] map_cong) auto
  then show ?thesis using concat_own[OF assms(2,4)] by (simp add: filter_concat comp_def)
qed

lemma tracks_restored:
  assumes "distinct (map track_name ts)" "distinct (concat (map stream_ssrcs ts))" "list_all (\<lambda>t. stream_ssrcs t \<noteq> [] \<and> groups_ok t \<and> groups_own t) ts"
  shows "fold assign_group (concat (map ssrc_groups ts)) (create_track_from_ssrc_info (tracks_infos ts) []) = ts"
proof -
  have "create_track_from_ssrc_info (tracks_infos ts) [] = map (\<lambda>t. t\<lparr>ssrc_groups := []\<rparr>) ts"
    using create_tracks[OF assms(1), of "[]"] assms(3) by (simp add: list_all_iff)
  moreover have "list_all (\<lambda>g. group_ssrcs g \<noteq> []) (concat (map ssrc_groups ts))" using assms(3) by (auto simp: list_all_iff groups_ok_def)
  ultimately have "fold assign_group (concat (map ssrc_groups ts)) (create_track_from_ssrc_info (tracks_infos ts) []) =
      map (\<lambda>t. t\<lparr>ssrc_groups := filter (\<lambda>g. hd (group_ssrcs g) \<in> set (stream_ssrcs t)) (concat (map ssrc_groups ts))\<rparr>) ts"
    by (simp add: assign_groups comp_def)
  also have "\<dots> = map (\<lambda>t. t) ts"
    using own_groups[OF assms(2)] assms(1,3) by (intro map_cong) (auto simp: distinct_map list_all_iff)
  finally show ?thesis by simp
qed

lemma tracks_infos_Nil: "list_all (\<lambda>t. stream_ssrcs t \<noteq> []) ts \<Longrightarrow> tracks_infos ts = [] \<longleftrightarrow> ts = []"
  by (cases ts) (auto simp: tracks_infos_def)

section \<open>The lines of a description\<close>

definition unlines :: "string list \<Rightarrow> string" where
  "unlines ls = concat (map (\<lambda>l. l @ crlf) ls)"

lemma unlines_simps [simp]: "unlines [] = []" "unlines (l # ls) = l @ crlf @ unlines ls" "unlines (ls @ ls') = unlines ls @ unlines ls'"
  by (simp_all add: unlines_def)

lemma unlines_concat: "unlines (concat (map f xs)) = concat (map (\<lambda>x. unlines (f x)) xs)"
  by (induction xs) auto

lemma unlines_map: "unlines (map f xs) = concat (map (\<lambda>x. f x @ crlf) xs)"
  by (induction xs) auto

definition transport_lines :: "('fp, 'c) sdp_env \<Rightarrow> 'fp transport_description \<Rightarrow> string list" where
  "transport_lines senv t = [''a=ice-ufrag:'' @ td_ufrag t, ''a=ice-pwd:'' @ td_pwd t] @
     (case identity_fingerprint t of
        None \<Rightarrow> []
      | Some fp \<Rightarrow> [''a=fingerprint:'' @ algorithm senv fp @ '' '' @ GetRfc4572Fingerprint senv fp,
                    ''a=setup:'' @ connection_role_to_string (connection_role t)])"

definition candidate_line :: "('fp, 'c) sdp_env \<Rightarrow> candidate \<Rightarrow> string" where
  "candidate_line env c = ''a=candidate:'' @ text_of (foundation c) @ '' '' @ dec (component_number (component c)) @ '' '' @ text_of (protocol c) @ '' '' @
       dec (uint (cand_priority c)) @ '' '' @ HostAsURIString env (address c) @ '' '' @ dec (cand_port c) @ '' typ '' @ text_of (cand_type c)"

definition direction_line :: "media_content \<Rightarrow> string" where
  "direction_line c = (case content_direction c of k_send_recv \<Rightarrow> ''a=sendrecv'' | k_send_only \<Rightarrow> ''a=sendonly'' | k_recv_only \<Rightarrow> ''a=recvonly'' | k_inactive \<Rightarrow> ''a=inactive'')"

definition fb_line :: "int \<Rightarrow> feedback_param \<Rightarrow> string" where
  "fb_line i p = ''a=rtcp-fb:'' @ dec i @ '' '' @ fb_id p @ (if fb_param p \<noteq> [] then '' '' @ fb_param p else [])"

definition codec_lines :: "MediaType \<Rightarrow> codec_info \<Rightarrow> string list" where
  "codec_lines mt codec = [''a=rtpmap:'' @ dec (codec_id codec) @ '' '' @ codec_name codec @ ''/'' @ dec (samplerate codec) @
       (if mt = MEDIA_TYPE_AUDIO then ''/'' @ dec (channels codec) else [])] @ map (fb_line (codec_id codec)) (codec_feedback codec) @
     (if codec_param codec \<noteq> []
      then [''a=fmtp:'' @ dec (codec_id codec) @ '' '' @ drop 1 (concat (map (\<lambda>(k, v). '';'' @ k @ ''='' @ v) (codec_param codec)))] else [])"

definition fixed_lines :: "media_content \<Rightarrow> string list" where
  "fixed_lines c = [case content_type c of MEDIA_TYPE_AUDIO \<Rightarrow> ''a=mid:0'' | MEDIA_TYPE_VIDEO \<Rightarrow> ''a=mid:1'',
     ''a=extmap:3 http://www.ietf.org/id/draft-holmer-rmcat-transport-wide-cc-extensions-01'', direction_line c] @
     (if use_rtcp_mux c then [''a=rtcp-mux''] else []) @ [''a=rtcp-rsize'']"

definition content_lines :: "('fp, 'c) sdp_env \<Rightarrow> bool \<Rightarrow> 'fp session_description \<Rightarrow> media_content \<Rightarrow> string list" where
  "content_lines senv b d c =
     [''m='' @ mid c @ '' 9 '' @ media_protocol b @ formats (map codec_id (content_codecs c)), ''c=IN IP4 0.0.0.0''] @
     (case get_transport_info (mid c) d of None \<Rightarrow> [] | Some t \<Rightarrow> transport_lines senv t) @ fixed_lines c @
     concat (map (codec_lines (content_type c)) (content_codecs c)) @ concat (map track_lines (send_streams c)) @
     map (candidate_line senv) (content_candidates c)"

definition bundle_lines :: "'fp session_description \<Rightarrow> string list" where
  "bundle_lines d = (let gs = get_group_by_name ''BUNDLE'' d in
     if gs \<noteq> [] then [''a=group:BUNDLE'' @ concat (map (\<lambda>g. concat (map (\<lambda>n. if n = ''audio'' then '' 0'' else if n = ''video'' then '' 1'' else [])
       (content_names g))) gs)] else [])"

definition session_lines :: "'fp session_description \<Rightarrow> string list" where
  "session_lines d = [''v=0'', ''o=XRTC/1.0 0 2 IN IP4 127.0.0.1'', ''s=XrtcPublishSession '', ''t=0 0''] @ bundle_lines d @ [''a=msid-semantic: WMS  live/xrtc '']"

lemma track_text: "list_all (\<lambda>g. group_ssrcs g \<noteq> []) (ssrc_groups t) \<Longrightarrow> build_ssrc_track t = unlines (track_lines t)"
proof -
  assume "list_all (\<lambda>g. group_ssrcs g \<noteq> []) (ssrc_groups t)"
  then have "map (\<lambda>g. if group_ssrcs g = [] then [] else ''a=ssrc-group:'' @ semantics g @ concat (map (\<lambda>ssrc. '' '' @ dec (uint ssrc)) (group_ssrcs g)) @ crlf)
      (ssrc_groups t) = map (\<lambda>g. group_line g @ crlf) (ssrc_groups t)"
    by (intro map_cong) (auto simp: list_all_iff group_line_def)
  then show ?thesis unfolding build_ssrc_track_def
    by (simp only:) (simp add: track_lines_def unlines_map unlines_concat ssrc_lines_def add_ssrc_line_def ssrc_line_def)
qed

lemma codec_text:
  "build_rtp_map c = unlines (concat (map (codec_lines (content_type c)) (content_codecs c)))"
  by (simp add: build_rtp_map_def unlines_concat codec_lines_def unlines_map add_rtcp_fb_line_def add_fmtp_line_def fb_line_def cong: if_cong)
     (auto intro!: arg_cong[where f = concat] map_cong)

lemma content_text:
  assumes "list_all (\<lambda>t. list_all (\<lambda>g. group_ssrcs g \<noteq> []) (ssrc_groups t)) (send_streams c)"
  shows "content_to_string senv b d c = unlines (content_lines senv b d c)"
proof -
  have ssrc: "build_ssrc c = unlines (concat (map track_lines (send_streams c)))"
    using assms by (auto simp: build_ssrc_def unlines_concat list_all_iff track_text intro!: arg_cong[where f = concat] map_cong)
  have cand: "build_candidates senv c = unlines (map (candidate_line senv) (content_candidates c))"
    by (simp add: build_candidates_def unlines_map candidate_line_def)
  have dir: "build_rtp_direction c = direction_line c @ crlf" by (simp add: build_rtp_direction_def direction_line_def)
  have fmt: "concat (map (\<lambda>codec. '' '' @ dec (codec_id codec)) (content_codecs c)) = formats (map codec_id (content_codecs c))"
    by (simp add: formats_def comp_def)
  show ?thesis
    unfolding content_to_string_def content_lines_def Let_def ssrc cand dir fmt codec_text
    by (cases "content_type c"; cases "get_transport_info (mid c) d"; cases "use_rtcp_mux c")
       (simp_all add: mid_def media_protocol_def fixed_lines_def transport_lines_def split: option.split)
qed

lemma sdp_text:
  assumes "list_all (\<lambda>c. list_all (\<lambda>t. list_all (\<lambda>g. group_ssrcs g \<noteq> []) (ssrc_groups t)) (send_streams c)) (contents d)"
  shows "to_string senv b d = unlines (session_lines d @ concat (map (content_lines senv b d) (contents d)))"
proof -
  have "concat (map (content_to_string senv b d) (contents d)) = unlines (concat (map (content_lines senv b d) (contents d)))"
    unfolding unlines_concat using assms by (intro arg_cong[where f = concat] map_cong refl content_text) (auto simp: list_all_iff)
  then show ?thesis by (simp add: to_string_def session_lines_def bundle_lines_def Let_def)
qed

section \<open>From text to lines\<close>

lemma split_unlines:
  "list_all (\<lambda>l. CHR 0x0A \<notin> set l) ls \<Longrightarrow> split_chars CHR 0x0A (unlines ls) = map (\<lambda>l. l @ [CHR 0x0D]) ls @ [[]]"
proof (induction ls)
  case (Cons l ls)
  then show ?case using split_chars_sep[of "CHR 0x0A" "l @ [CHR 0x0D]" "unlines ls"] by (simp add: crlf_def)
qed simp

lemma contains_crlf: "ls \<noteq> [] \<Longrightarrow> contains crlf (unlines ls)"
  by (cases ls) (auto simp: contains_iff)

section \<open>Reading the lines of a description\<close>

definition fingerprint_ok :: "'fp text_env \<Rightarrow> ('fp, 'c) sdp_env \<Rightarrow> 'fp \<Rightarrow> bool" where
  "fingerprint_ok env senv fp \<longleftrightarrow> CreateUniqueFromRfc4572 env (algorithm senv fp) (GetRfc4572Fingerprint senv fp) = Some fp \<and>
     map tolower (algorithm senv fp) = algorithm senv fp \<and> plain (algorithm senv fp) \<and> GetRfc4572Fingerprint senv fp \<noteq> [] \<and>
     set (GetRfc4572Fingerprint senv fp) \<inter> {CHR '' '', CHR ''='', CHR 0x0A} = {}"

definition transport_ok :: "'fp text_env \<Rightarrow> ('fp, 'c) sdp_env \<Rightarrow> 'fp transport_description \<Rightarrow> bool" where
  "transport_ok env senv t \<longleftrightarrow> plain (td_ufrag t) \<and> plain (td_pwd t) \<and> (case identity_fingerprint t of None \<Rightarrow> True | Some fp \<Rightarrow> fingerprint_ok env senv fp)"

definition candidate_ok :: "('fp, 'c) sdp_env \<Rightarrow> candidate \<Rightarrow> bool" where
  "candidate_ok senv c \<longleftrightarrow> list_all (\<lambda>s. CHR ''='' \<notin> set s \<and> CHR 0x0A \<notin> set s)
     [text_of (foundation c), text_of (protocol c), HostAsURIString senv (address c), text_of (cand_type c)]"

definition read_td :: "string \<Rightarrow> 'fp transport_description \<Rightarrow> 'fp transport_description \<Rightarrow> 'fp transport_description" where
  "read_td m t td = td\<lparr>td_mid := m, td_ufrag := td_ufrag t, td_pwd := td_pwd t,
     identity_fingerprint := case identity_fingerprint t of None \<Rightarrow> identity_fingerprint td | Some fp \<Rightarrow> Some fp\<rparr>"

lemma dec_any_chars: "\<not> is_digit c \<Longrightarrow> c \<noteq> CHR ''-'' \<Longrightarrow> c \<notin> set (dec i)"
  by (simp add: dec_def dec_nat_chars)

lemma quiet_attribute:
  assumes "CHR ''='' \<notin> set s" "\<not> prefix_of ''ice-ufrag'' s" "\<not> prefix_of ''ice-pwd'' s" "\<not> prefix_of ''fingerprint'' s" "\<not> prefix_of ''ssrc:'' s"
    "\<not> prefix_of ''ssrc-group:'' s"
  shows "quiet (''a='' @ s)"
  using eq_free(1,2)[OF assms(1)] eq_free(3)[OF assms(1), of "''ice-ufrag''"] eq_free(3)[OF assms(1), of "''ice-pwd''"]
    eq_free(3)[OF assms(1), of "''fingerprint''"] eq_free(3)[OF assms(1), of "''ssrc:''"] eq_free(3)[OF assms(1), of "''ssrc-group:''"] assms(2-6)
  by (simp add: quiet_def del: contains.simps)

lemma reads_settled: "settled st \<Longrightarrow> list_all quiet ls \<Longrightarrow> reads env ls st st"
  by (rule reads_quiets) (auto simp: list_all_iff settled_no_rtx)

lemma on_td_simps [simp]: "media_type (on_td f st) = media_type st" "h264_id (on_td f st) = h264_id st" "rtx_id (on_td f st) = rtx_id st"
  by (simp_all add: on_td_def)

lemma on_td_compose: "on_td g (on_td f st) = on_td (\<lambda>td. g (f td)) st"
  by (simp add: on_td_def)

lemma quiet_fixed: "list_all quiet (fixed_lines c)"
proof -
  have "quiet ''a=mid:0'' \<and> quiet ''a=mid:1'' \<and> quiet ''a=rtcp-mux'' \<and> quiet ''a=rtcp-rsize'' \<and> quiet ''a=sendrecv'' \<and> quiet ''a=sendonly'' \<and>
    quiet ''a=recvonly'' \<and> quiet ''a=inactive'' \<and>
    quiet ''a=extmap:3 http://www.ietf.org/id/draft-holmer-rmcat-transport-wide-cc-extensions-01''" by code_simp
  then show ?thesis by (simp add: fixed_lines_def direction_line_def split: MediaType.split RtpDirection.split)
qed

lemma quiet_setup: "quiet (''a=setup:'' @ connection_role_to_string r)"
proof -
  have "quiet ''a=setup:active'' \<and> quiet ''a=setup:passive'' \<and> quiet ''a=setup:actpass'' \<and> quiet ''a=setup:holdconn'' \<and> quiet ''a=setup:none''" by code_simp
  then show ?thesis by (simp add: connection_role_to_string_def split: ConnectionRole.split)
qed

lemma quiet_candidate:
  assumes "candidate_ok senv c"
  shows "quiet (candidate_line senv c)"
proof -
  have "candidate_line senv c = ''a='' @ drop 2 (candidate_line senv c)" by (simp add: candidate_line_def)
  moreover have "quiet (''a='' @ drop 2 (candidate_line senv c))"
    using assms by (intro quiet_attribute) (simp_all add: candidate_line_def candidate_ok_def dec_any_chars)
  ultimately show ?thesis by simp
qed

lemma quiet_session: "list_all quiet (session_lines d)"
proof -
  have "CHR ''='' \<notin> set (concat (map (\<lambda>g. concat (map (\<lambda>n. if n = ''audio'' then '' 0'' else if n = ''video'' then '' 1'' else []) (content_names g))) gs))"
    for gs :: "content_group list" by auto
  then have "list_all quiet (bundle_lines d)"
    using quiet_attribute[of "''group:BUNDLE'' @ concat (map (\<lambda>g. concat (map (\<lambda>n. if n = ''audio'' then '' 0'' else if n = ''video'' then '' 1'' else [])
      (content_names g))) (get_group_by_name ''BUNDLE'' d))"] by (simp add: bundle_lines_def Let_def)
  moreover have "quiet ''v=0'' \<and> quiet ''o=XRTC/1.0 0 2 IN IP4 127.0.0.1'' \<and> quiet ''s=XrtcPublishSession '' \<and> quiet ''t=0 0'' \<and>
      quiet ''a=msid-semantic: WMS  live/xrtc ''" by code_simp
  ultimately show ?thesis by (simp add: session_lines_def)
qed

context text_lib
begin

lemma reads_transport_lines:
  assumes "media_type st = ''audio'' \<or> media_type st = ''video''" "settled st" "transport_ok env senv t"
  shows "reads env (transport_lines senv t) st (on_td (\<lambda>td. (read_td (td_mid td) t td)) st)"
proof -
  note p = assms(3)[unfolded transport_ok_def]
  let ?f = "\<lambda>td. td\<lparr>td_ufrag := td_ufrag t\<rparr>" and ?g = "\<lambda>td. td\<lparr>td_pwd := td_pwd t\<rparr>"
  let ?s2 = "on_td (\<lambda>td. ?g (?f td)) st"
  have m: "media_type (on_td f st) = ''audio'' \<or> media_type (on_td f st) = ''video''" for f using assms(1) by simp
  have rtx: "no_rtx l (on_td f st)" for l f using assms(2) by (auto simp: settled_def no_rtx_def)
  have "reads env [''a=ice-ufrag:'' @ td_ufrag t] st (on_td ?f st)"
    using p plainD[of "td_ufrag t"] by (intro reads_ufrag[OF assms(1) settled_no_rtx[OF assms(2)]]) auto
  moreover have "reads env [''a=ice-pwd:'' @ td_pwd t] (on_td ?f st) ?s2"
    using reads_pwd[OF m rtx, of "td_pwd t" ?f] p plainD[of "td_pwd t"] by (simp add: on_td_compose)
  ultimately have two: "reads env [''a=ice-ufrag:'' @ td_ufrag t, ''a=ice-pwd:'' @ td_pwd t] st ?s2" using reads_Cons by blast
  show ?thesis
  proof (cases "identity_fingerprint t")
    case None
    have "on_td (\<lambda>td. read_td (td_mid td) t td) st = ?s2" using None by (simp add: on_td_def read_td_def)
    then show ?thesis using two None by (simp add: transport_lines_def)
  next
    case (Some fp)
    then have fp: "fingerprint_ok env senv fp" using p by simp
    have "reads env [''a=fingerprint:'' @ algorithm senv fp @ '' '' @ GetRfc4572Fingerprint senv fp] ?s2
        (on_td (\<lambda>td. td\<lparr>identity_fingerprint := Some fp\<rparr>) ?s2)"
      using fp plainD[of "algorithm senv fp"] by (intro reads_fingerprint[OF m rtx]) (auto simp: fingerprint_ok_def)
    moreover have "on_td (\<lambda>td. td\<lparr>identity_fingerprint := Some fp\<rparr>) ?s2 = on_td (\<lambda>td. read_td (td_mid td) t td) st"
      using Some by (simp add: on_td_def read_td_def)
    moreover have "reads env [''a=setup:'' @ connection_role_to_string (connection_role t)] (on_td (\<lambda>td. read_td (td_mid td) t td) st)
        (on_td (\<lambda>td. read_td (td_mid td) t td) st)" using quiet_setup rtx by (rule reads_quiet)
    ultimately show ?thesis using reads_append[OF two reads_Cons] Some by (simp add: transport_lines_def)
  qed
qed

end

lemma dec_consts: "dec 111 = ''111''" "dec 48000 = ''48000''" "dec 90000 = ''90000''" "dec 2 = ''2''"
  by (simp_all add: dec_def dec_nat.simps char_of_def bit_numeral_simps bit_0)

lemma audio_codec_lines:
  "concat (map (codec_lines MEDIA_TYPE_AUDIO) (content_codecs (AudioContentDescription dir))) =
     [''a=rtpmap:111 opus/48000/2'', ''a=rtcp-fb:111 transport-cc'', ''a=fmtp:111 minptime=10;useinbandfec=1'']"
  by (simp add: AudioContentDescription_def codec_lines_def fb_line_def dec_consts)

lemma video_codec_lines:
  "concat (map (codec_lines MEDIA_TYPE_VIDEO) (content_codecs (VideoContentDescription h r dir))) =
     (''a=rtpmap:'' @ dec h @ '' H264/90000'') # map (\<lambda>s. ''a=rtcp-fb:'' @ dec h @ s) ['' goog-remb'', '' transport-cc'', '' ccm fir'', '' nack'', '' nack pli''] @
     [''a=fmtp:'' @ dec h @ '' level-asymmetry-allowed=1;packetization-mode=1;profile-level-id=42e01f'',
      ''a=rtpmap:'' @ dec r @ '' rtx/90000'', ''a=fmtp:'' @ dec r @ '' apt='' @ dec h]"
  by (simp add: VideoContentDescription_def codec_lines_def fb_line_def dec_consts)

lemma quiet_audio_codecs: "list_all quiet (concat (map (codec_lines MEDIA_TYPE_AUDIO) (content_codecs (AudioContentDescription dir))))"
  unfolding audio_codec_lines by code_simp

lemma quiet_video_codecs:
  assumes "0 \<le> h" "0 \<le> r"
  shows "quiet (''a=rtpmap:'' @ dec h @ '' H264/90000'')"
    and "list_all quiet (map (\<lambda>s. ''a=rtcp-fb:'' @ dec h @ s) ['' goog-remb'', '' transport-cc'', '' ccm fir'', '' nack'', '' nack pli''])"
    and "quiet (''a=fmtp:'' @ dec r @ '' apt='' @ dec h)"
proof -
  show "quiet (''a=rtpmap:'' @ dec h @ '' H264/90000'')"
    using quiet_attribute[of "''rtpmap:'' @ dec h @ '' H264/90000''"] assms by simp
  have "quiet (''a=rtcp-fb:'' @ dec h @ s)" if "CHR ''='' \<notin> set s" for s
    using quiet_attribute[of "''rtcp-fb:'' @ dec h @ s"] assms that by simp
  then show "list_all quiet (map (\<lambda>s. ''a=rtcp-fb:'' @ dec h @ s) ['' goog-remb'', '' transport-cc'', '' ccm fir'', '' nack'', '' nack pli''])" by simp
  have skip: "contains (x # n) (dec i @ s) = contains (x # n) s" "\<not> contains (x # n) (dec i)" if "0 \<le> i" "\<not> is_digit x" for x n i s
    using that by (simp_all add: contains_skip contains_skip_all)
  show "quiet (''a=fmtp:'' @ dec r @ '' apt='' @ dec h)" using assms by (simp add: quiet_def skip)
qed

definition audio_ok :: "('fp, 'c) sdp_env \<Rightarrow> media_content \<Rightarrow> bool" where
  "audio_ok senv a \<longleftrightarrow> content_type a = MEDIA_TYPE_AUDIO \<and> (\<exists>dir. content_codecs a = content_codecs (AudioContentDescription dir)) \<and>
     list_all (\<lambda>t. names_plain t \<and> ssrc_groups t = [] \<and> stream_ssrcs t \<noteq> []) (send_streams a) \<and> distinct (map track_name (send_streams a)) \<and>
     distinct (concat (map stream_ssrcs (send_streams a))) \<and> list_all (candidate_ok senv) (content_candidates a)"

definition video_ok :: "('fp, 'c) sdp_env \<Rightarrow> int \<Rightarrow> int \<Rightarrow> media_content \<Rightarrow> bool" where
  "video_ok senv h r v \<longleftrightarrow> content_type v = MEDIA_TYPE_VIDEO \<and> (\<exists>dir. content_codecs v = content_codecs (VideoContentDescription h r dir)) \<and>
     0 < h \<and> h < 2 ^ 31 \<and> 0 < r \<and> r < 2 ^ 31 \<and>
     list_all (\<lambda>t. names_plain t \<and> groups_ok t \<and> groups_own t \<and> stream_ssrcs t \<noteq> []) (send_streams v) \<and> distinct (map track_name (send_streams v)) \<and>
     distinct (concat (map stream_ssrcs (send_streams v))) \<and> list_all (candidate_ok senv) (content_candidates v)"

definition read_audio :: "'fp transport_description \<Rightarrow> media_content \<Rightarrow> 'fp sdp_state \<Rightarrow> 'fp sdp_state" where
  "read_audio t a st = st\<lparr>media_type := ''audio'', audio_td := read_td ''audio'' t (audio_td st), exist_audio := True,
     audio_ssrc_info := audio_ssrc_info st @ tracks_infos (send_streams a)\<rparr>"

definition read_video :: "'fp transport_description \<Rightarrow> int \<Rightarrow> int \<Rightarrow> media_content \<Rightarrow> 'fp sdp_state \<Rightarrow> 'fp sdp_state" where
  "read_video t h r v st = st\<lparr>media_type := ''video'', video_td := read_td ''video'' t (video_td st), exist_video := True, h264_id := h, rtx_id := r,
     video_ssrc_info := video_ssrc_info st @ tracks_infos (send_streams v),
     video_ssrc_groups := video_ssrc_groups st @ concat (map ssrc_groups (send_streams v))\<rparr>"

lemma quiet_connection: "quiet ''c=IN IP4 0.0.0.0''"
  by code_simp

lemma quiet_candidates: "list_all (candidate_ok senv) cs \<Longrightarrow> list_all quiet (map (candidate_line senv) cs)"
  by (auto simp: list_all_iff quiet_candidate)

context text_lib
begin

lemma reads_audio:
  assumes "audio_ok senv a" "get_transport_info ''audio'' d = Some t" "transport_ok env senv t" "h264_id st = 0" "audio_ssrc_info st = []"
  shows "reads env (content_lines senv b d a) st (read_audio t a st)"
proof -
  note A = assms(1)[unfolded audio_ok_def]
  obtain dir where dir: "content_codecs a = content_codecs (AudioContentDescription dir)" using A by blast
  let ?s1 = "enter_audio st" and ?s2 = "on_td (\<lambda>td. read_td (td_mid td) t td) (enter_audio st)"
  have mid: "mid a = ''audio''" using A by (simp add: mid_def)
  have s1: "media_type ?s1 = ''audio''" "settled ?s1" "h264_id ?s1 = 0" and s2: "media_type ?s2 = ''audio''" "settled ?s2" "audio_ssrc_info ?s2 = []"
    using assms(4,5) by (simp_all add: enter_audio_def settled_def on_td_def)
  have "map codec_id (content_codecs a) = [111]" by (simp add: dir AudioContentDescription_def)
  then have "reads env [''m=audio 9 '' @ media_protocol b @ formats (map codec_id (content_codecs a))] st ?s1" using reads_media(1)[of "[111]" st b] assms(4) by simp
  moreover have "reads env [''c=IN IP4 0.0.0.0''] ?s1 ?s1" using s1 quiet_connection by (intro reads_settled) auto
  ultimately have "reads env [''m=audio 9 '' @ media_protocol b @ formats (map codec_id (content_codecs a)), ''c=IN IP4 0.0.0.0''] st ?s1" using reads_Cons by blast
  moreover have "reads env (transport_lines senv t) ?s1 ?s2" using s1 assms(3) by (intro reads_transport_lines) auto
  moreover have "reads env (fixed_lines a @ concat (map (codec_lines (content_type a)) (content_codecs a))) ?s2 ?s2"
    using s2(2) quiet_fixed[of a] quiet_audio_codecs[of dir] A dir by (intro reads_settled) auto
  moreover have "reads env (concat (map track_lines (send_streams a))) ?s2 (read_audio t a st)"
  proof -
    have "reads env (concat (map track_lines (send_streams a))) ?s2 (?s2\<lparr>audio_ssrc_info := audio_ssrc_info ?s2 @ tracks_infos (send_streams a)\<rparr>)"
      using A s2 by (intro reads_tracks_audio) (auto simp: list_all_iff)
    moreover have "?s2\<lparr>audio_ssrc_info := audio_ssrc_info ?s2 @ tracks_infos (send_streams a)\<rparr> = read_audio t a st"
      by (simp add: read_audio_def on_td_def enter_audio_def read_td_def cong: option.case_cong)
    ultimately show ?thesis by simp
  qed
  moreover have "reads env (map (candidate_line senv) (content_candidates a)) (read_audio t a st) (read_audio t a st)"
    using A quiet_candidates assms(4) by (intro reads_settled) (auto simp: settled_def read_audio_def)
  ultimately have "reads env ([''m=audio 9 '' @ media_protocol b @ formats (map codec_id (content_codecs a)), ''c=IN IP4 0.0.0.0''] @ transport_lines senv t @
     (fixed_lines a @ concat (map (codec_lines (content_type a)) (content_codecs a))) @ concat (map track_lines (send_streams a)) @
     map (candidate_line senv) (content_candidates a)) st (read_audio t a st)" by (meson reads_append)
  then show ?thesis using mid assms(2) by (simp add: content_lines_def)
qed

lemma reads_codecs:
  assumes "media_type st = ''video''" "h264_id st = 0" "rtx_id st = 0" "0 < h" "h < 2 ^ 31" "0 < r" "r < 2 ^ 31"
  shows "reads env (concat (map (codec_lines MEDIA_TYPE_VIDEO) (content_codecs (VideoContentDescription h r dir)))) st (st\<lparr>h264_id := h, rtx_id := r\<rparr>)"
proof -
  have q: "quiet (''a=rtpmap:'' @ dec h @ '' H264/90000'')"
    "list_all quiet (map (\<lambda>s. ''a=rtcp-fb:'' @ dec h @ s) ['' goog-remb'', '' transport-cc'', '' ccm fir'', '' nack'', '' nack pli''])"
    "quiet (''a=fmtp:'' @ dec r @ '' apt='' @ dec h)" using quiet_video_codecs[of h r] assms(4,6) by simp_all
  have "reads env ((''a=rtpmap:'' @ dec h @ '' H264/90000'') # map (\<lambda>s. ''a=rtcp-fb:'' @ dec h @ s) ['' goog-remb'', '' transport-cc'', '' ccm fir'', '' nack'', '' nack pli'']) st st"
    using q(1,2) assms(2) by (intro reads_settled) (simp_all add: settled_def)
  moreover have "reads env [''a=fmtp:'' @ dec h @ '' level-asymmetry-allowed=1;packetization-mode=1;profile-level-id=42e01f''] st (st\<lparr>h264_id := h\<rparr>)"
    using assms by (intro reads_fmtp) simp_all
  moreover have "reads env [''a=rtpmap:'' @ dec r @ '' rtx/90000''] (st\<lparr>h264_id := h\<rparr>) (st\<lparr>h264_id := h, rtx_id := r\<rparr>)"
    using reads_rtpmap_rtx[of "st\<lparr>h264_id := h\<rparr>" r] assms by simp
  moreover have "reads env [''a=fmtp:'' @ dec r @ '' apt='' @ dec h] (st\<lparr>h264_id := h, rtx_id := r\<rparr>) (st\<lparr>h264_id := h, rtx_id := r\<rparr>)"
    using q(3) assms(6) by (intro reads_settled) (simp_all add: settled_def)
  ultimately have "reads env (((''a=rtpmap:'' @ dec h @ '' H264/90000'') #
       map (\<lambda>s. ''a=rtcp-fb:'' @ dec h @ s) ['' goog-remb'', '' transport-cc'', '' ccm fir'', '' nack'', '' nack pli'']) @
       [''a=fmtp:'' @ dec h @ '' level-asymmetry-allowed=1;packetization-mode=1;profile-level-id=42e01f''] @ [''a=rtpmap:'' @ dec r @ '' rtx/90000''] @
       [''a=fmtp:'' @ dec r @ '' apt='' @ dec h]) st (st\<lparr>h264_id := h, rtx_id := r\<rparr>)" by (meson reads_append)
  then show ?thesis unfolding video_codec_lines by simp
qed

lemma reads_video:
  assumes "video_ok senv h r v" "get_transport_info ''video'' d = Some t" "transport_ok env senv t" "h264_id st = 0" "rtx_id st = 0" "video_ssrc_info st = []"
  shows "reads env (content_lines senv b d v) st (read_video t h r v st)"
proof -
  note V = assms(1)[unfolded video_ok_def]
  obtain dir where dir: "content_codecs v = content_codecs (VideoContentDescription h r dir)" using V by blast
  let ?s1 = "enter_video st" and ?s2 = "on_td (\<lambda>td. read_td (td_mid td) t td) (enter_video st)"
  let ?s3 = "?s2\<lparr>h264_id := h, rtx_id := r\<rparr>"
  have mid: "mid v = ''video''" using V by (simp add: mid_def)
  have s1: "media_type ?s1 = ''video''" "settled ?s1" "h264_id ?s1 = 0"
    and s2: "media_type ?s2 = ''video''" "settled ?s2" "video_ssrc_info ?s2 = []" "h264_id ?s2 = 0" "rtx_id ?s2 = 0"
    using assms(4-6) by (simp_all add: enter_video_def settled_def on_td_def)
  have "map codec_id (content_codecs v) = [h, r]" by (simp add: dir VideoContentDescription_def)
  then have "reads env [''m=video 9 '' @ media_protocol b @ formats (map codec_id (content_codecs v))] st ?s1"
    using reads_media(2)[of "[h, r]" st b] assms(4) V by simp
  moreover have "reads env [''c=IN IP4 0.0.0.0''] ?s1 ?s1" using s1 quiet_connection by (intro reads_settled) auto
  ultimately have "reads env [''m=video 9 '' @ media_protocol b @ formats (map codec_id (content_codecs v)), ''c=IN IP4 0.0.0.0''] st ?s1" using reads_Cons by blast
  moreover have "reads env (transport_lines senv t) ?s1 ?s2" using s1 assms(3) by (intro reads_transport_lines) auto
  moreover have "reads env (fixed_lines v) ?s2 ?s2" using s2(2) quiet_fixed by (rule reads_settled)
  moreover have "reads env (concat (map (codec_lines (content_type v)) (content_codecs v))) ?s2 ?s3"
    using reads_codecs[of ?s2 h r dir] s2 V dir by simp
  moreover have "reads env (concat (map track_lines (send_streams v))) ?s3 (read_video t h r v st)"
  proof -
    have "reads env (concat (map track_lines (send_streams v))) ?s3 (?s3\<lparr>video_ssrc_info := video_ssrc_info ?s3 @ tracks_infos (send_streams v),
        video_ssrc_groups := video_ssrc_groups ?s3 @ concat (map ssrc_groups (send_streams v))\<rparr>)"
      using V s2 by (intro reads_tracks_video) (auto simp: list_all_iff settled_def)
    moreover have "?s3\<lparr>video_ssrc_info := video_ssrc_info ?s3 @ tracks_infos (send_streams v),
        video_ssrc_groups := video_ssrc_groups ?s3 @ concat (map ssrc_groups (send_streams v))\<rparr> = read_video t h r v st"
      by (simp add: read_video_def on_td_def enter_video_def read_td_def cong: option.case_cong)
    ultimately show ?thesis by simp
  qed
  moreover have "reads env (map (candidate_line senv) (content_candidates v)) (read_video t h r v st) (read_video t h r v st)"
    using V quiet_candidates by (intro reads_settled) (auto simp: settled_def read_video_def)
  ultimately have "reads env ([''m=video 9 '' @ media_protocol b @ formats (map codec_id (content_codecs v)), ''c=IN IP4 0.0.0.0''] @ transport_lines senv t @
     fixed_lines v @ concat (map (codec_lines (content_type v)) (content_codecs v)) @ concat (map track_lines (send_streams v)) @
     map (candidate_line senv) (content_candidates v)) st (read_video t h r v st)" by (meson reads_append)
  then show ?thesis using mid assms(2) by (simp add: content_lines_def)
qed

end

section \<open>Every line is one line\<close>

definition one_line :: "string \<Rightarrow> bool" where
  "one_line l \<longleftrightarrow> CHR 0x0A \<notin> set l"

lemma one_line_dec [simp]: "CHR 0x0A \<notin> set (dec i)"
  by (simp add: dec_any_chars)

lemma one_line_fixed: "list_all one_line (fixed_lines c)"
  by (simp add: fixed_lines_def direction_line_def one_line_def split: MediaType.split RtpDirection.split)

lemma one_line_session: "list_all one_line (session_lines d)"
  by (auto simp: session_lines_def bundle_lines_def one_line_def Let_def)

lemma one_line_transport: "transport_ok env senv t \<Longrightarrow> list_all one_line (transport_lines senv t)"
  by (auto simp: transport_ok_def transport_lines_def one_line_def fingerprint_ok_def connection_role_to_string_def plainD
      split: option.splits ConnectionRole.splits)

lemma one_line_tracks:
  assumes "list_all (\<lambda>t. names_plain t \<and> groups_ok t) ts"
  shows "list_all one_line (concat (map track_lines ts))"
  using assms by (auto simp: list_all_iff track_lines_def one_line_def group_line_def groups_ok_def names_plain_def ssrc_lines_def ssrc_line_def plainD)

lemma one_line_candidates: "list_all (candidate_ok senv) cs \<Longrightarrow> list_all one_line (map (candidate_line senv) cs)"
  by (auto simp: list_all_iff one_line_def candidate_line_def candidate_ok_def)

lemma one_line_media: "CHR 0x0A \<notin> set (media_protocol b @ formats is)"
  using media_protocol_cases[of b] by (auto simp: formats_def)

lemma one_line_audio_codecs: "list_all one_line (concat (map (codec_lines MEDIA_TYPE_AUDIO) (content_codecs (AudioContentDescription dir))))"
  unfolding audio_codec_lines by (simp add: one_line_def)

lemma one_line_video_codecs: "list_all one_line (concat (map (codec_lines MEDIA_TYPE_VIDEO) (content_codecs (VideoContentDescription h r dir))))"
  unfolding video_codec_lines by (simp add: one_line_def)

lemma one_line_content:
  assumes "transport_ok env senv t" "get_transport_info (mid c) d = Some t" "list_all (\<lambda>t. names_plain t \<and> groups_ok t) (send_streams c)"
    and "list_all (candidate_ok senv) (content_candidates c)" "list_all one_line (concat (map (codec_lines (content_type c)) (content_codecs c)))"
  shows "list_all one_line (content_lines senv b d c)"
proof -
  have "one_line (''m='' @ mid c @ '' 9 '' @ media_protocol b @ formats (map codec_id (content_codecs c)))" "one_line ''c=IN IP4 0.0.0.0''"
    using one_line_media by (auto simp: one_line_def mid_def split: MediaType.split)
  then show ?thesis unfolding content_lines_def assms(2)
    using one_line_transport[OF assms(1)] one_line_fixed[of c] one_line_tracks[OF assms(3)] one_line_candidates[OF assms(4)] assms(5)
    by (simp only: list_all_append list.pred_inject option.case)
qed

section \<open>The description is read back\<close>

definition sdp_start :: "'fp sdp_state" where
  "sdp_start = \<lparr>media_type = [], audio_td = TransportDescription_new, video_td = TransportDescription_new, audio_ssrc_info = [], video_ssrc_info = [],
     video_ssrc_groups = [], remote_groups = [], exist_audio = False, exist_video = False, h264_id = 0, rtx_id = 0\<rparr>"

lemma audio_tracks_restored:
  assumes "audio_ok senv a"
  shows "create_track_from_ssrc_info (tracks_infos (send_streams a)) [] = send_streams a"
proof -
  have "create_track_from_ssrc_info (tracks_infos (send_streams a)) [] = map (\<lambda>t. t\<lparr>ssrc_groups := []\<rparr>) (send_streams a)"
    using create_tracks[of "send_streams a" "[]"] assms by (auto simp: audio_ok_def list_all_iff)
  also have "\<dots> = map (\<lambda>t. t) (send_streams a)" using assms by (intro map_cong) (auto simp: audio_ok_def list_all_iff)
  finally show ?thesis by simp
qed

context text_lib
begin

lemma parse_sdp_lines:
  assumes "list_all one_line ls" "ls \<noteq> []"
  shows "parse_sdp env (unlines ls) st = parse_fields env False ls st"
proof -
  have "tokenize env CHR 0x0A (unlines ls) = map (\<lambda>l. l @ [CHR 0x0D]) ls"
    using split_unlines[of ls] assms(1) by (simp add: tokenize one_line_def[abs_def])
  then show ?thesis using contains_crlf[OF assms(2)] parse_fields_cr[of env "CHR 0x0D" ls st] assms(2) by (simp add: parse_sdp_def)
qed

end

text \<open>C40. What \<open>to_string\<close> writes of an offer with one audio and one video content, \<open>set_remote_sdp\<close> reads back: the parser accepts the text, and the
  description it makes has both contents with all their tracks, sources, names and FID groups, the H.264 and RTX payload types and the ICE credentials and
  fingerprints. What is lost is the direction (never parsed), the connection role, the candidates, and the BUNDLE group, since the parser looks for
  \<open>m=group:BUNDLE\<close>. The assumptions are the documented behaviour of the string functions (\<open>text_lib\<close>) and that no name has a blank, a colon, an equals sign or a line
  end in it (\<open>audio_ok\<close>, \<open>video_ok\<close>, \<open>transport_ok\<close>).\<close>

theorem sdp_roundtrip:
  assumes "text_lib env" "contents d = [a, v]" "audio_ok senv a" "video_ok senv h r v"
    and "get_transport_info ''audio'' d = Some ta" "transport_ok env senv ta" "get_transport_info ''video'' d = Some tv" "transport_ok env senv tv"
  shows "\<exists>st. parse_sdp env (to_string senv dtls_on d) sdp_start = Inr (st, True) \<and> remote_description dir st =
    \<lparr>sdp_type = k_offer, contents = [(AudioContentDescription dir)\<lparr>send_streams := send_streams a\<rparr>, (VideoContentDescription h r dir)\<lparr>send_streams := send_streams v\<rparr>],
     content_groups = [], transport_infos = [read_td ''audio'' ta TransportDescription_new, read_td ''video'' tv TransportDescription_new]\<rparr>"
proof -
  let ?ls = "session_lines d @ content_lines senv dtls_on d a @ content_lines senv dtls_on d v"
  let ?s1 = "read_audio ta a sdp_start" and ?s2 = "read_video tv h r v (read_audio ta a sdp_start)"
  have types: "content_type a = MEDIA_TYPE_AUDIO" "content_type v = MEDIA_TYPE_VIDEO" using assms(3,4) by (simp_all add: audio_ok_def video_ok_def)
  have tracks: "list_all (\<lambda>t. names_plain t \<and> groups_ok t) (send_streams a)" "list_all (\<lambda>t. names_plain t \<and> groups_ok t) (send_streams v)"
    using assms(3,4) by (auto simp: audio_ok_def video_ok_def list_all_iff groups_ok_def)
  have "list_all one_line (content_lines senv dtls_on d a)"
    using one_line_content[OF assms(6) _ tracks(1), of d] assms(3,5) types one_line_audio_codecs by (auto simp: audio_ok_def mid_def)
  moreover have "list_all one_line (content_lines senv dtls_on d v)"
    using one_line_content[OF assms(8) _ tracks(2), of d] assms(4,7) types one_line_video_codecs by (auto simp: video_ok_def mid_def)
  ultimately have one: "list_all one_line ?ls" using one_line_session[of d] by simp
  have printed: "to_string senv dtls_on d = unlines ?ls"
    using sdp_text[of d senv dtls_on] tracks by (auto simp: assms(2) list_all_iff groups_ok_def)
  have "reads env (session_lines d) sdp_start sdp_start" using quiet_session by (intro reads_settled) (simp_all add: settled_def sdp_start_def)
  moreover have "reads env (content_lines senv dtls_on d a) sdp_start ?s1"
    by (rule text_lib.reads_audio[OF assms(1,3,5,6)]) (simp_all add: sdp_start_def)
  moreover have "reads env (content_lines senv dtls_on d v) ?s1 ?s2"
    by (rule text_lib.reads_video[OF assms(1,4,7,8)]) (simp_all add: sdp_start_def read_audio_def)
  ultimately have "reads env ?ls sdp_start ?s2" by (meson reads_append)
  then have parsed: "parse_sdp env (to_string senv dtls_on d) sdp_start = Inr (?s2, True)"
    using text_lib.parse_sdp_lines[OF assms(1) one, of sdp_start] printed by (simp add: reads_def session_lines_def)
  have "create_track_from_ssrc_info (tracks_infos (send_streams a)) [] = send_streams a" by (rule audio_tracks_restored[OF assms(3)])
  moreover have "fold assign_group (concat (map ssrc_groups (send_streams v))) (create_track_from_ssrc_info (tracks_infos (send_streams v)) []) = send_streams v"
    using assms(4) by (intro tracks_restored) (auto simp: video_ok_def list_all_iff)
  moreover have "tracks_infos (send_streams a) = [] \<longleftrightarrow> send_streams a = []" "tracks_infos (send_streams v) = [] \<longleftrightarrow> send_streams v = []"
    using assms(3,4) by (auto intro!: tracks_infos_Nil simp: audio_ok_def video_ok_def list_all_iff)
  ultimately have "remote_description dir ?s2 =
    \<lparr>sdp_type = k_offer, contents = [(AudioContentDescription dir)\<lparr>send_streams := send_streams a\<rparr>, (VideoContentDescription h r dir)\<lparr>send_streams := send_streams v\<rparr>],
     content_groups = [], transport_infos = [read_td ''audio'' ta TransportDescription_new, read_td ''video'' tv TransportDescription_new]\<rparr>"
    by (simp add: remote_description_def read_video_def read_audio_def sdp_start_def SessionDescription_new_def add_content_def add_transport_description_def Let_def)
  with parsed show ?thesis by blast
qed

section \<open>A reference implementation of the string functions\<close>

text \<open>
  \<open>text_ref\<close> has the documented behaviour of \<open>rtc::split\<close>, \<open>rtc::tokenize\<close>, \<open>rtc::tokenize_first\<close> and \<open>rtc::FromString\<close>; a fingerprint
  is the pair of its two texts.
\<close>

definition tokenize_first_ref :: "char \<Rightarrow> string \<Rightarrow> (string \<times> string) option" where
  "tokenize_first_ref c s =
     (if c \<in> set s then Some (takeWhile (\<lambda>x. x \<noteq> c) s, dropWhile (\<lambda>x. x = c) (dropWhile (\<lambda>x. x \<noteq> c) s)) else None)"

definition from_string_ref :: "string \<Rightarrow> u32 option" where
  "from_string_ref s = (if s \<noteq> [] \<and> list_all is_digit s \<and> digits_value s < 2 ^ 32 then Some (of_int (digits_value s)) else None)"

definition text_ref :: "(string \<times> string) text_env" where
  "text_ref = \<lparr>tokenize = (\<lambda>c s. filter (\<lambda>f. f \<noteq> []) (split_chars c s)), split_at = split_chars, tokenize_first = tokenize_first_ref,
     FromString = from_string_ref, CreateUniqueFromRfc4572 = (\<lambda>alg fp. Some (alg, fp))\<rparr>"

definition sdp_ref :: "(string \<times> string, unit) sdp_env" where
  "sdp_ref = \<lparr>HostAsURIString = (\<lambda>a. ''10.0.0.1''), algorithm = fst, GetRfc4572Fingerprint = snd, CreateFromCertificate = (\<lambda>_. None)\<rparr>"

lemma tokenize_first_ref_split:
  assumes "c \<notin> set a" "b = [] \<or> hd b \<noteq> c"
  shows "tokenize_first_ref c (a @ c # b) = Some (a, b)"
proof -
  have "takeWhile (\<lambda>x. x \<noteq> c) (a @ c # b) = a \<and> dropWhile (\<lambda>x. x \<noteq> c) (a @ c # b) = c # b" using assms(1) by (induction a) auto
  then show ?thesis using assms(2) by (cases b) (auto simp: tokenize_first_ref_def)
qed

lemma from_string_ref_dec: "n < 2 ^ 32 \<Longrightarrow> from_string_ref (dec_nat n) = Some (of_nat n)"
  using digits_value_dec[of n] by (simp add: from_string_ref_def dec_nat_not_Nil dec_nat_digits)

interpretation text_ref: text_lib text_ref
  by unfold_locales (simp_all add: text_ref_def tokenize_first_ref_split from_string_ref_dec)

definition sample_track :: stream_params where
  "sample_track = \<lparr>track_name = ''v0'', stream_ssrcs = [1111, 2222], ssrc_groups = [\<lparr>semantics = ''FID'', group_ssrcs = [1111, 2222]\<rparr>],
     stream_cname = ''cn'', stream_name = ''live''\<rparr>"

definition sample_transport :: "string \<Rightarrow> (string \<times> string) transport_description" where
  "sample_transport m = \<lparr>td_mid = m, td_ufrag = ''w/W3'', td_pwd = ''l8PkVNND'', identity_fingerprint = Some (''sha-256'', ''A0:C5''), connection_role = ACTPASS\<rparr>"

definition sample_description :: "(string \<times> string) session_description" where
  "sample_description = \<lparr>sdp_type = k_offer,
     contents = [(AudioContentDescription k_send_only)\<lparr>send_streams := [sample_track\<lparr>track_name := ''a0'', stream_ssrcs := [3333], ssrc_groups := []\<rparr>]\<rparr>,
       (VideoContentDescription 107 99 k_send_only)\<lparr>send_streams := [sample_track]\<rparr>],
     content_groups = [\<lparr>group_semantics = ''BUNDLE'', content_names = [''audio'', ''video'']\<rparr>],
     transport_infos = [sample_transport ''audio'', sample_transport ''video'']\<rparr>"

lemma sample_transport_ok: "transport_ok text_ref sdp_ref (sample_transport m)"
  by (simp add: transport_ok_def sample_transport_def fingerprint_ok_def text_ref_def sdp_ref_def plain_def tolower_def Let_def)

lemma sample_contents:
  obtains a v where "contents sample_description = [a, v]" "audio_ok sdp_ref a" "video_ok sdp_ref 107 99 v"
    "send_streams a = [sample_track\<lparr>track_name := ''a0'', stream_ssrcs := [3333], ssrc_groups := []\<rparr>]" "send_streams v = [sample_track]"
proof
  let ?a = "(AudioContentDescription k_send_only)\<lparr>send_streams := [sample_track\<lparr>track_name := ''a0'', stream_ssrcs := [3333], ssrc_groups := []\<rparr>]\<rparr>"
  let ?v = "(VideoContentDescription 107 99 k_send_only)\<lparr>send_streams := [sample_track]\<rparr>"
  show "contents sample_description = [?a, ?v]" by (simp add: sample_description_def)
  show "audio_ok sdp_ref ?a" by (simp add: audio_ok_def AudioContentDescription_def sample_track_def names_plain_def plain_def)
  show "video_ok sdp_ref 107 99 ?v"
    by (simp add: video_ok_def VideoContentDescription_def sample_track_def names_plain_def plain_def groups_ok_def groups_own_def)
qed (simp_all add: AudioContentDescription_def VideoContentDescription_def)

theorem sdp_roundtrip_witness:
  "\<exists>st. parse_sdp text_ref (to_string sdp_ref True sample_description) sdp_start = Inr (st, True) \<and>
     map send_streams (contents (remote_description k_inactive st)) =
       [[sample_track\<lparr>track_name := ''a0'', stream_ssrcs := [3333], ssrc_groups := []\<rparr>], [sample_track]] \<and>
     content_groups (remote_description k_inactive st) = []"
proof -
  obtain a v where c: "contents sample_description = [a, v]" "audio_ok sdp_ref a" "video_ok sdp_ref 107 99 v"
    "send_streams a = [sample_track\<lparr>track_name := ''a0'', stream_ssrcs := [3333], ssrc_groups := []\<rparr>]" "send_streams v = [sample_track]"
    by (rule sample_contents)
  have t: "get_transport_info ''audio'' sample_description = Some (sample_transport ''audio'')"
    "get_transport_info ''video'' sample_description = Some (sample_transport ''video'')"
    by (simp_all add: get_transport_info_def sample_description_def sample_transport_def)
  show ?thesis
    using sdp_roundtrip[OF text_ref.text_lib_axioms c(1-3) t(1) sample_transport_ok t(2) sample_transport_ok, of True k_inactive] c(4,5) by force
qed

end
