(* ===== verification/Rtcp_Packets.thy ===== *)
theory Rtcp_Packets
  imports Prelude
begin

text \<open>
  The RTCP packet classes of \<open>xrtcserver/src/modules/rtp_rtcp\<close>: \<open>RtcpPacket\<close> (the common header
  writer and the buffer-full protocol), \<open>CommonHeader\<close>, \<open>ReportBlock\<close>, \<open>ReceiverReport\<close>,
  \<open>SenderReport\<close>, \<open>Rtpfb\<close> and \<open>Nack\<close>. A pointer into a packet is the suffix of the packet that
  starts at it; a \<open>Create\<close> method works on a triple of the packet buffer, the write index and
  the list of packets handed to the callback so far.
\<close>

section \<open>RtcpPacket\<close>

type_synonym out_state = "byte list \<times> nat \<times> byte list list"

definition kHeaderSize :: nat where
  "kHeaderSize = 4"

definition header_bytes :: "nat \<Rightarrow> byte \<Rightarrow> u16 \<Rightarrow> bool \<Rightarrow> byte list" where
  "header_bytes count_or_fmt packet_type block_length padding =
     [push_bit 6 2 OR (if padding then push_bit 5 1 else 0) OR of_nat count_or_fmt,
      packet_type,
      ucast (drop_bit 8 block_length AND 0xFF),
      ucast (block_length AND 0xFF)]"

definition CreateHeader ::
  "nat \<Rightarrow> byte \<Rightarrow> u16 \<Rightarrow> bool \<Rightarrow> byte list \<Rightarrow> nat \<Rightarrow> error + byte list \<times> nat" where
  "CreateHeader count_or_fmt packet_type block_length padding buffer pos =
     bindE (put buffer pos (header_bytes count_or_fmt packet_type block_length padding))
       (\<lambda>buffer. Inr (buffer, pos + kHeaderSize))"

definition OnBufferFull :: "out_state \<Rightarrow> error + out_state" where
  "OnBufferFull st = (case st of (packet, index, sent) \<Rightarrow>
     if index = 0 then Inl Rejected
     else bindE (view packet 0 index) (\<lambda>v. Inr (packet, 0, sent @ [v])))"

text \<open>The loop \<open>while (*index + BlockLength() > max_length)\<close> of the report classes.\<close>

function reserve :: "nat \<Rightarrow> nat \<Rightarrow> out_state \<Rightarrow> error + out_state" where
  "reserve block_length max_length (packet, index, sent) =
     (if index + block_length > max_length
      then case OnBufferFull (packet, index, sent) of
             Inl e \<Rightarrow> Inl e
           | Inr st \<Rightarrow> reserve block_length max_length st
      else Inr (packet, index, sent))"
  by pat_completeness auto
termination
  by (relation "measure (\<lambda>(_, _, _, index, _). index)")
    (auto simp: OnBufferFull_def split: if_splits)

declare reserve.simps [simp del]

definition HeaderLength :: "nat \<Rightarrow> nat" where
  "HeaderLength block_length = (block_length - kHeaderSize) div 4"

section \<open>CommonHeader\<close>

record common_header =
  count_or_fmt :: byte
  packet_type :: byte
  padding_size :: u32
  payload_size :: u32
  payload :: "byte list"

definition CommonHeader_Parse :: "byte_io \<Rightarrow> byte list \<Rightarrow> error + common_header" where
  "CommonHeader_Parse io buffer =
     (if length buffer < 4 then Inl Rejected
      else bindE (byte_at buffer 0) (\<lambda>b0.
        if drop_bit 6 b0 \<noteq> 2 then Inl Rejected
        else
          let has_padding = (b0 AND 0x20 = 1) in
          bindE (byte_at buffer 1) (\<lambda>b1.
          bindE (rd io 2 buffer 2) (\<lambda>len.
            let psize = (of_nat (len * 4) :: u32); pl = drop 4 buffer in
            if length buffer < unat psize + 4 then Inl Rejected
            else if has_padding then
              if psize = 0 then Inl Rejected
              else bindE (byte_at pl (unat (psize - 1))) (\<lambda>pad.
                if pad = 0 then Inl Rejected
                else Inr \<lparr>count_or_fmt = b0 AND 0x1F, packet_type = b1, padding_size = ucast pad,
                          payload_size = psize - ucast pad, payload = pl\<rparr>)
            else Inr \<lparr>count_or_fmt = b0 AND 0x1F, packet_type = b1, padding_size = 0,
                      payload_size = psize, payload = pl\<rparr>))))"

text \<open>The pointer \<open>payload_ + padding_size_ + payload_size_\<close>, as an offset from the payload.\<close>

definition NextPacket :: "common_header \<Rightarrow> nat" where
  "NextPacket h = unat (padding_size h) + unat (payload_size h)"

section \<open>ReportBlock\<close>

record report_block =
  source_ssrc :: u32
  fraction_lost :: byte
  cumulative_packets_lost :: int
  extended_high_seq_num :: u32
  jitter :: u32
  last_sr :: u32
  delay_since_last_sr :: u32

definition kReportBlockLength :: nat where
  "kReportBlockLength = 24"

definition ReportBlock_Parse :: "byte_io \<Rightarrow> byte list \<Rightarrow> nat \<Rightarrow> error + report_block" where
  "ReportBlock_Parse io buffer len =
     (if len < kReportBlockLength then Inl Rejected
      else bindE (rd32 io buffer 0) (\<lambda>ssrc.
           bindE (byte_at buffer 4) (\<lambda>fl.
           bindE (rds io 3 buffer 5) (\<lambda>cl.
           bindE (rd32 io buffer 8) (\<lambda>eh.
           bindE (rd32 io buffer 12) (\<lambda>j.
           bindE (rd32 io buffer 16) (\<lambda>ls.
           bindE (rd32 io buffer 20) (\<lambda>dl.
             Inr \<lparr>source_ssrc = ssrc, fraction_lost = fl, cumulative_packets_lost = cl,
                  extended_high_seq_num = eh, jitter = j, last_sr = ls,
                  delay_since_last_sr = dl\<rparr>))))))))"

definition ReportBlock_Create :: "byte_io \<Rightarrow> report_block \<Rightarrow> byte list \<Rightarrow> nat \<Rightarrow> error + byte list" where
  "ReportBlock_Create io b buffer off =
     bindE (put buffer off (wr32 io (source_ssrc b))) (\<lambda>buffer.
     bindE (put buffer (off + 4) (WriteBE io 1 (unat (fraction_lost b)))) (\<lambda>buffer.
     bindE (put buffer (off + 5) (WriteBES io 3 (cumulative_packets_lost b))) (\<lambda>buffer.
     bindE (put buffer (off + 8) (wr32 io (extended_high_seq_num b))) (\<lambda>buffer.
     bindE (put buffer (off + 12) (wr32 io (jitter b))) (\<lambda>buffer.
     bindE (put buffer (off + 16) (wr32 io (last_sr b))) (\<lambda>buffer.
     put buffer (off + 20) (wr32 io (delay_since_last_sr b))))))))"

definition SetCumulativeLost :: "report_block \<Rightarrow> int \<Rightarrow> error + report_block" where
  "SetCumulativeLost b cumulative_lost =
     (if cumulative_lost \<ge> 2 ^ 23 \<or> cumulative_lost < - (2 ^ 23) then Inl Rejected
      else Inr (b\<lparr>cumulative_packets_lost := cumulative_lost\<rparr>))"

definition cumulative_lost :: "report_block \<Rightarrow> u32" where
  "cumulative_lost b = (if cumulative_packets_lost b < 0 then 0 else of_int (cumulative_packets_lost b))"

text \<open>The loops over \<open>report_blocks_\<close> that the two report classes share: parse \<open>n\<close> blocks from
  an offset, write the blocks from an offset.\<close>

fun parse_blocks :: "byte_io \<Rightarrow> nat \<Rightarrow> byte list \<Rightarrow> nat \<Rightarrow> error + report_block list" where
  "parse_blocks io 0 buffer off = Inr []"
| "parse_blocks io (Suc n) buffer off =
     bindE (ReportBlock_Parse io (drop off buffer) kReportBlockLength) (\<lambda>b.
     bindE (parse_blocks io n buffer (off + kReportBlockLength)) (\<lambda>bs. Inr (b # bs)))"

fun create_blocks ::
  "byte_io \<Rightarrow> report_block list \<Rightarrow> byte list \<Rightarrow> nat \<Rightarrow> error + byte list \<times> nat" where
  "create_blocks io [] buffer off = Inr (buffer, off)"
| "create_blocks io (b # bs) buffer off =
     bindE (ReportBlock_Create io b buffer off) (\<lambda>buffer.
     create_blocks io bs buffer (off + kReportBlockLength))"

section \<open>ReceiverReport\<close>

record receiver_report =
  rr_sender_ssrc :: u32
  rr_report_blocks :: "report_block list"

definition kRrBaseLength :: nat where
  "kRrBaseLength = 4"

definition kMaxNumberOfReportBlocks :: nat where
  "kMaxNumberOfReportBlocks = 0x1f"

definition ReceiverReport_BlockLength :: "receiver_report \<Rightarrow> nat" where
  "ReceiverReport_BlockLength rr =
     kHeaderSize + kRrBaseLength + length (rr_report_blocks rr) * kReportBlockLength"

definition ReceiverReport_Create ::
  "byte_io \<Rightarrow> receiver_report \<Rightarrow> nat \<Rightarrow> out_state \<Rightarrow> error + out_state" where
  "ReceiverReport_Create io rr max_length st =
     bindE (reserve (ReceiverReport_BlockLength rr) max_length st) (\<lambda>(packet, index, sent).
     bindE (CreateHeader (length (rr_report_blocks rr)) 201
              (of_nat (HeaderLength (ReceiverReport_BlockLength rr))) False packet index)
       (\<lambda>(packet, index).
     bindE (put packet index (wr32 io (rr_sender_ssrc rr))) (\<lambda>packet.
     bindE (create_blocks io (rr_report_blocks rr) packet (index + kRrBaseLength))
       (\<lambda>(packet, index). Inr (packet, index, sent)))))"

definition ReceiverReport_Parse ::
  "byte_io \<Rightarrow> receiver_report \<Rightarrow> common_header \<Rightarrow> error + receiver_report" where
  "ReceiverReport_Parse io rr h =
     (let report_count = unat (count_or_fmt h) in
      if unat (payload_size h) < kRrBaseLength + report_count * kReportBlockLength then Inl Rejected
      else bindE (rd32 io (payload h) 0) (\<lambda>ssrc.
           bindE (parse_blocks io report_count (payload h) kRrBaseLength) (\<lambda>blocks.
             Inr (rr\<lparr>rr_sender_ssrc := ssrc, rr_report_blocks := blocks\<rparr>))))"

definition AddReportBlock :: "receiver_report \<Rightarrow> report_block \<Rightarrow> error + receiver_report" where
  "AddReportBlock rr block =
     (if length (rr_report_blocks rr) \<ge> kMaxNumberOfReportBlocks then Inl Rejected
      else Inr (rr\<lparr>rr_report_blocks := rr_report_blocks rr @ [block]\<rparr>))"

definition SetReportBlocks :: "receiver_report \<Rightarrow> report_block list \<Rightarrow> error + receiver_report" where
  "SetReportBlocks rr blocks =
     (if length blocks > kMaxNumberOfReportBlocks then Inl Rejected
      else Inr (rr\<lparr>rr_report_blocks := blocks\<rparr>))"

section \<open>SenderReport\<close>

record sender_report =
  sr_sender_ssrc :: u32
  ntp_seconds :: u32
  ntp_fractions :: u32
  rtp_timestamp :: u32
  sender_packet_count :: u32
  sender_octet_count :: u32
  sr_report_blocks :: "report_block list"

definition kSenderBaseLength :: nat where
  "kSenderBaseLength = 24"

definition SenderReport_BlockLength :: "sender_report \<Rightarrow> nat" where
  "SenderReport_BlockLength sr =
     kHeaderSize + kSenderBaseLength + length (sr_report_blocks sr) * kReportBlockLength"

text \<open>\<open>Parse\<close> fills the object it is called on: a field it does not assign keeps its value.\<close>

definition SenderReport_Parse ::
  "byte_io \<Rightarrow> sender_report \<Rightarrow> common_header \<Rightarrow> error + sender_report" where
  "SenderReport_Parse io sr h =
     (let report_block_count = unat (count_or_fmt h) in
      if unat (payload_size h) < kSenderBaseLength + report_block_count * kReportBlockLength
      then Inl Rejected
      else bindE (rd32 io (payload h) 0) (\<lambda>ssrc.
           bindE (rd32 io (payload h) 4) (\<lambda>secs.
           bindE (rd32 io (payload h) 8) (\<lambda>frac.
           bindE (rd32 io (payload h) 12) (\<lambda>ts.
           bindE (rd32 io (payload h) 16) (\<lambda>pc.
           bindE (rd32 io (payload h) 20) (\<lambda>oc.
           bindE (parse_blocks io report_block_count (payload h) kSenderBaseLength) (\<lambda>blocks.
             let sr = sr\<lparr>sr_sender_ssrc := ssrc, ntp_seconds := secs, ntp_fractions := frac,
                        rtp_timestamp := ts, sender_packet_count := pc\<rparr>;
                 sr = sr\<lparr>sender_packet_count := oc\<rparr>
             in Inr (sr\<lparr>sr_report_blocks := blocks\<rparr>)))))))))"

definition SenderReport_Create ::
  "byte_io \<Rightarrow> sender_report \<Rightarrow> nat \<Rightarrow> out_state \<Rightarrow> error + out_state" where
  "SenderReport_Create io sr max_length st =
     bindE (reserve (SenderReport_BlockLength sr) max_length st) (\<lambda>(packet, index, sent).
     bindE (CreateHeader (length (sr_report_blocks sr)) 200
              (of_nat (HeaderLength (SenderReport_BlockLength sr))) False packet index)
       (\<lambda>(packet, index).
     bindE (put packet index (wr32 io (sr_sender_ssrc sr))) (\<lambda>packet.
     bindE (put packet (index + 4) (wr32 io (ntp_seconds sr))) (\<lambda>packet.
     bindE (put packet (index + 8) (wr32 io (ntp_fractions sr))) (\<lambda>packet.
     bindE (put packet (index + 12) (wr32 io (rtp_timestamp sr))) (\<lambda>packet.
     bindE (put packet (index + 16) (wr32 io (sender_packet_count sr))) (\<lambda>packet.
     bindE (put packet (index + 20) (wr32 io (sender_packet_count sr))) (\<lambda>packet.
     bindE (create_blocks io (sr_report_blocks sr) packet (index + kSenderBaseLength))
       (\<lambda>(packet, index). Inr (packet, index, sent))))))))))"

section \<open>Reading back what was written\<close>

text \<open>The serialised form of each class, as the bytes a \<open>Create\<close> writes at the index.\<close>

definition report_block_bytes :: "byte_io \<Rightarrow> report_block \<Rightarrow> byte list" where
  "report_block_bytes io b =
     wr32 io (source_ssrc b) @ WriteBE io 1 (unat (fraction_lost b)) @
     WriteBES io 3 (cumulative_packets_lost b) @ wr32 io (extended_high_seq_num b) @
     wr32 io (jitter b) @ wr32 io (last_sr b) @ wr32 io (delay_since_last_sr b)"

definition report_block_ok :: "report_block \<Rightarrow> bool" where
  "report_block_ok b \<longleftrightarrow> - (2 ^ 23) \<le> cumulative_packets_lost b \<and> cumulative_packets_lost b < 2 ^ 23"

lemmas rtcp_consts =
  kHeaderSize_def kReportBlockLength_def kRrBaseLength_def kSenderBaseLength_def
  kMaxNumberOfReportBlocks_def

lemma length_header_bytes [simp]: "length (header_bytes c t l p) = 4"
  by (simp add: header_bytes_def)

lemma CreateHeader_ok:
  "pos + 4 \<le> length buffer \<Longrightarrow>
   CreateHeader c t l p buffer pos = Inr (overwrite pos (header_bytes c t l p) buffer, pos + 4)"
  by (simp add: CreateHeader_def kHeaderSize_def)

text \<open>The first byte of a header carries the version and, below it, a five-bit count.\<close>

lemma first_byte_table:
  "list_all (\<lambda>c. drop_bit 6 (push_bit 6 2 OR 0 OR (of_nat c :: byte)) = 2 \<and>
     (push_bit 6 2 OR 0 OR (of_nat c :: byte)) AND 0x1F = of_nat c) [0..<32]"
  by code_simp

lemma first_byte:
  assumes "c < 32"
  shows "drop_bit 6 (push_bit 6 2 OR 0 OR (of_nat c :: byte)) = 2"
    and "(push_bit 6 2 OR 0 OR (of_nat c :: byte)) AND 0x1F = of_nat c"
  using first_byte_table assms by (auto simp: list_all_iff)

text \<open>The padding test of \<open>CommonHeader::Parse\<close> compares a masked bit with 1: it never holds.\<close>

lemma padding_test_false: "(b :: byte) AND 0x20 \<noteq> 1"
proof
  assume "b AND 0x20 = 1"
  then have "bit (b AND 0x20) 0 = bit (1 :: byte) 0" by simp
  then show False by (simp add: bit_simps)
qed

lemma five_bits: "unat ((b :: byte) AND 0x1F) < 32"
  using word_and_le1 [of b "0x1F"] by (simp add: word_le_nat_alt)

lemma CommonHeader_ParseD:
  assumes "CommonHeader_Parse io buffer = Inr h"
  shows "padding_size h = 0" and "payload h = drop 4 buffer" and "4 \<le> length buffer"
    and "unat (payload_size h) \<le> length (payload h)" and "unat (count_or_fmt h) < 32"
  using assms five_bits
  by (auto simp: CommonHeader_Parse_def padding_test_false Let_def split: if_splits)

lemma only_rejects_CommonHeader_Parse: "only_rejects (CommonHeader_Parse io buffer)"
  by (auto simp: CommonHeader_Parse_def padding_test_false Let_def only_rejects_bindE)

lemma only_rejects_ReportBlock_Parse: "24 \<le> length buffer \<Longrightarrow> only_rejects (ReportBlock_Parse io buffer len)"
  by (simp add: ReportBlock_Parse_def only_rejects_bindE)

lemma only_rejects_parse_blocks:
  "off + n * 24 \<le> length buffer \<Longrightarrow> only_rejects (parse_blocks io n buffer off)"
  by (induction n arbitrary: off)
    (auto simp: only_rejects_bindE only_rejects_ReportBlock_Parse kReportBlockLength_def)

lemma reserve_fits: "index + bl \<le> max_length \<Longrightarrow>
   reserve bl max_length (packet, index, sent) = Inr (packet, index, sent)"
  by (simp add: reserve.simps)

lemma reserve_flush:
  assumes "max_length < index + bl" and "bl \<le> max_length" and "index \<le> length packet"
  shows "reserve bl max_length (packet, index, sent) = Inr (packet, 0, sent @ [take index packet])"
proof -
  from assms have "index \<noteq> 0" by auto
  with assms show ?thesis
    by (simp add: reserve.simps [of bl max_length packet index] OnBufferFull_def reserve_fits)
qed

lemma reserve_full:
  assumes "max_length < bl" and "index \<le> length packet"
  shows "reserve bl max_length (packet, index, sent) = Inl Rejected"
proof (cases "index = 0")
  case True
  with assms show ?thesis by (simp add: reserve.simps OnBufferFull_def)
next
  case False
  with assms show ?thesis
    by (simp add: reserve.simps [of bl max_length packet index] OnBufferFull_def
        reserve.simps [of bl max_length packet 0])
qed

context big_endian_io
begin

lemma read_header_length:
  "rd io 2 (header_bytes c t l p @ body) 2 = Inr (unat l)"
proof -
  have "rd io 2 (header_bytes c t l p @ body) 2 =
    Inr (unat (ucast (drop_bit 8 l AND 0xFF) :: byte) * 256 + unat (ucast (l AND 0xFF) :: byte))"
    by (simp add: rd_def header_bytes_def read_two)
  also have "\<dots> = Inr (unat l)"
    by (rule arg_cong [OF unat_two_bytes])
  finally show ?thesis .
qed

lemma CommonHeader_Parse_header:
  assumes "c < 32" and "unat l * 4 \<le> length body"
  shows "CommonHeader_Parse io (header_bytes c t l False @ body) =
    Inr \<lparr>count_or_fmt = of_nat c, packet_type = t, padding_size = 0,
         payload_size = of_nat (unat l * 4), payload = body\<rparr>"
proof -
  have "unat l * 4 < 2 ^ 32" using unat_lt [of l] by simp
  then have "unat (of_nat (unat l * 4) :: u32) = unat l * 4"
    by (intro unat_of_nat_small) simp
  with assms first_byte [OF assms(1)] show ?thesis
    unfolding CommonHeader_Parse_def read_header_length
    by (simp add: header_bytes_def padding_test_false Let_def)
qed

lemma length_report_block_bytes [simp]: "length (report_block_bytes io b) = 24"
  by (simp add: report_block_bytes_def)

lemma ReportBlock_Create_ok:
  "off + 24 \<le> length buffer \<Longrightarrow>
   ReportBlock_Create io b buffer off = Inr (overwrite off (report_block_bytes io b) buffer)"
  by (simp add: ReportBlock_Create_def report_block_bytes_def overwrite_adjacent)

lemma create_blocks_ok:
  "off + 24 * length bs \<le> length buffer \<Longrightarrow>
   create_blocks io bs buffer off =
     Inr (overwrite off (concat (map (report_block_bytes io) bs)) buffer, off + 24 * length bs)"
proof (induction bs arbitrary: buffer off)
  case Nil
  then show ?case by simp
next
  case (Cons b bs)
  have len: "length (concat (map (report_block_bytes io) bs)) = 24 * length bs"
    by (induction bs) auto
  from Cons.prems show ?case
    by (simp add: ReportBlock_Create_ok Cons.IH kReportBlockLength_def overwrite_adjacent len)
qed

lemma ReportBlock_Parse_bytes:
  assumes "report_block_ok b"
  shows "ReportBlock_Parse io (report_block_bytes io b @ rest) 24 = Inr b"
proof -
  have "ReadBES io 3 (WriteBES io 3 (cumulative_packets_lost b) @ r) = cumulative_packets_lost b" for r
    using assms by (intro read_write_s) (auto simp: report_block_ok_def)
  then show ?thesis
    by (simp add: ReportBlock_Parse_def report_block_bytes_def rd32_def rd_def rds_def byte_at_def
        kReportBlockLength_def write_byte nth_append)
qed

lemma parse_blocks_bytes:
  assumes "length pre = off" and "list_all report_block_ok bs"
  shows "parse_blocks io (length bs) (pre @ concat (map (report_block_bytes io) bs) @ rest) off = Inr bs"
  using assms
proof (induction bs arbitrary: pre off)
  case Nil
  then show ?case by simp
next
  case (Cons b bs)
  have "parse_blocks io (length bs)
      ((pre @ report_block_bytes io b) @ concat (map (report_block_bytes io) bs) @ rest) (off + 24) = Inr bs"
    using Cons.prems by (intro Cons.IH) auto
  with Cons.prems show ?case
    by (simp add: ReportBlock_Parse_bytes kReportBlockLength_def)
qed

lemma length_blocks [simp]: "length (concat (map (report_block_bytes io) bs)) = 24 * length bs"
  by (induction bs) auto

end

text \<open>The bytes of a whole report.\<close>

definition rr_bytes :: "byte_io \<Rightarrow> receiver_report \<Rightarrow> byte list" where
  "rr_bytes io rr =
     header_bytes (length (rr_report_blocks rr)) 201
       (of_nat (HeaderLength (ReceiverReport_BlockLength rr))) False @
     wr32 io (rr_sender_ssrc rr) @ concat (map (report_block_bytes io) (rr_report_blocks rr))"

definition sr_bytes :: "byte_io \<Rightarrow> sender_report \<Rightarrow> byte list" where
  "sr_bytes io sr =
     header_bytes (length (sr_report_blocks sr)) 200
       (of_nat (HeaderLength (SenderReport_BlockLength sr))) False @
     wr32 io (sr_sender_ssrc sr) @ wr32 io (ntp_seconds sr) @ wr32 io (ntp_fractions sr) @
     wr32 io (rtp_timestamp sr) @ wr32 io (sender_packet_count sr) @
     wr32 io (sender_packet_count sr) @ concat (map (report_block_bytes io) (sr_report_blocks sr))"

text \<open>
  The interface \<open>RtcpPacket::Create\<close> offers to \<open>RTCPSender::PacketSender\<close>: a packet of known
  bytes is written at the index when it fits below the limit; otherwise the bytes assembled so
  far go to the callback and the packet starts a new buffer.
\<close>

locale rtcp_serializer =
  fixes Create :: "nat \<Rightarrow> out_state \<Rightarrow> error + out_state"
    and bytes :: "byte list"
  assumes create_fits: "index + length bytes \<le> max_length \<Longrightarrow> max_length \<le> length packet \<Longrightarrow>
      Create max_length (packet, index, sent) =
        Inr (overwrite index bytes packet, index + length bytes, sent)"
    and create_flush: "max_length < index + length bytes \<Longrightarrow> length bytes \<le> max_length \<Longrightarrow>
      index \<le> max_length \<Longrightarrow> max_length \<le> length packet \<Longrightarrow>
      Create max_length (packet, index, sent) =
        Inr (overwrite 0 bytes packet, length bytes, sent @ [take index packet])"
    and create_full: "max_length < length bytes \<Longrightarrow> index \<le> length packet \<Longrightarrow>
      Create max_length (packet, index, sent) = Inl Rejected"
begin

text \<open>Whatever the index, the bytes handed to the callback followed by the bytes still in the
  buffer grow by exactly the bytes of the packet.\<close>

lemma create_appends:
  assumes "length bytes \<le> max_length" and "index \<le> max_length" and "max_length \<le> length packet"
  shows "\<exists>packet' index' sent'. Create max_length (packet, index, sent) = Inr (packet', index', sent') \<and>
     length packet' = length packet \<and> index' \<le> max_length \<and>
     concat sent' @ take index' packet' = concat sent @ take index packet @ bytes \<and>
     (\<forall>p\<in>set sent'. p \<in> set sent \<or> p \<noteq> [] \<and> length p \<le> max_length)"
proof (cases "index + length bytes \<le> max_length")
  case True
  with assms show ?thesis by (simp add: create_fits overwrite_def)
next
  case False
  with assms show ?thesis by (auto simp: create_flush overwrite_def)
qed

end

context big_endian_io
begin

lemma length_rr_bytes: "length (rr_bytes io rr) = ReceiverReport_BlockLength rr"
  by (simp add: rr_bytes_def ReceiverReport_BlockLength_def rtcp_consts)

lemma length_sr_bytes: "length (sr_bytes io sr) = SenderReport_BlockLength sr"
  by (simp add: sr_bytes_def SenderReport_BlockLength_def rtcp_consts)

text \<open>Once the room is reserved, a report is one write of its bytes.\<close>

lemma ReceiverReport_Create_reserved:
  assumes "reserve (ReceiverReport_BlockLength rr) max_length st = Inr (packet, index, sent)"
    and "index + ReceiverReport_BlockLength rr \<le> length packet"
  shows "ReceiverReport_Create io rr max_length st =
    Inr (overwrite index (rr_bytes io rr) packet, index + ReceiverReport_BlockLength rr, sent)"
  using assms
  by (simp add: ReceiverReport_Create_def CreateHeader_ok create_blocks_ok overwrite_adjacent
      rr_bytes_def ReceiverReport_BlockLength_def rtcp_consts)

lemma SenderReport_Create_reserved:
  assumes "reserve (SenderReport_BlockLength sr) max_length st = Inr (packet, index, sent)"
    and "index + SenderReport_BlockLength sr \<le> length packet"
  shows "SenderReport_Create io sr max_length st =
    Inr (overwrite index (sr_bytes io sr) packet, index + SenderReport_BlockLength sr, sent)"
  using assms
  by (simp add: SenderReport_Create_def CreateHeader_ok create_blocks_ok overwrite_adjacent
      sr_bytes_def SenderReport_BlockLength_def rtcp_consts)

end

sublocale big_endian_io \<subseteq> rr: rtcp_serializer "ReceiverReport_Create io rr" "rr_bytes io rr" for rr
proof
  show "ReceiverReport_Create io rr max_length (packet, index, sent) =
      Inr (overwrite index (rr_bytes io rr) packet, index + length (rr_bytes io rr), sent)"
    if "index + length (rr_bytes io rr) \<le> max_length" and "max_length \<le> length packet"
    for index max_length packet sent
    using that by (subst ReceiverReport_Create_reserved [OF reserve_fits]) (auto simp: length_rr_bytes)
  show "ReceiverReport_Create io rr max_length (packet, index, sent) =
      Inr (overwrite 0 (rr_bytes io rr) packet, length (rr_bytes io rr), sent @ [take index packet])"
    if "max_length < index + length (rr_bytes io rr)" and "length (rr_bytes io rr) \<le> max_length"
      and "index \<le> max_length" and "max_length \<le> length packet"
    for index max_length packet sent
    using that by (subst ReceiverReport_Create_reserved [OF reserve_flush]) (auto simp: length_rr_bytes)
  show "ReceiverReport_Create io rr max_length (packet, index, sent) = Inl Rejected"
    if "max_length < length (rr_bytes io rr)" and "index \<le> length packet"
    for index max_length packet sent
    using that by (simp add: ReceiverReport_Create_def reserve_full length_rr_bytes)
qed

sublocale big_endian_io \<subseteq> sr: rtcp_serializer "SenderReport_Create io sr" "sr_bytes io sr" for sr
proof
  show "SenderReport_Create io sr max_length (packet, index, sent) =
      Inr (overwrite index (sr_bytes io sr) packet, index + length (sr_bytes io sr), sent)"
    if "index + length (sr_bytes io sr) \<le> max_length" and "max_length \<le> length packet"
    for index max_length packet sent
    using that by (subst SenderReport_Create_reserved [OF reserve_fits]) (auto simp: length_sr_bytes)
  show "SenderReport_Create io sr max_length (packet, index, sent) =
      Inr (overwrite 0 (sr_bytes io sr) packet, length (sr_bytes io sr), sent @ [take index packet])"
    if "max_length < index + length (sr_bytes io sr)" and "length (sr_bytes io sr) \<le> max_length"
      and "index \<le> max_length" and "max_length \<le> length packet"
    for index max_length packet sent
    using that by (subst SenderReport_Create_reserved [OF reserve_flush]) (auto simp: length_sr_bytes)
  show "SenderReport_Create io sr max_length (packet, index, sent) = Inl Rejected"
    if "max_length < length (sr_bytes io sr)" and "index \<le> length packet"
    for index max_length packet sent
    using that by (simp add: SenderReport_Create_def reserve_full length_sr_bytes)
qed

context big_endian_io
begin

lemmas rr_create_appends = rr.create_appends [unfolded length_rr_bytes]
lemmas rr_create_fits = rr.create_fits
lemmas sr_create_appends = sr.create_appends [unfolded length_sr_bytes]

lemma CommonHeader_Parse_report:
  assumes "n \<le> 31" and "length body = 4 * k" and "k < 65536"
  shows "CommonHeader_Parse io (header_bytes n t (of_nat k) False @ body @ rest) =
    Inr \<lparr>count_or_fmt = of_nat n, packet_type = t, padding_size = 0,
         payload_size = of_nat (4 * k), payload = body @ rest\<rparr>"
proof -
  have k: "unat (of_nat k :: u16) = k" using assms(3) by (intro unat_of_nat_small) simp
  have "CommonHeader_Parse io (header_bytes n t (of_nat k) False @ body @ rest) =
    Inr \<lparr>count_or_fmt = of_nat n, packet_type = t, padding_size = 0,
         payload_size = of_nat (unat (of_nat k :: u16) * 4), payload = body @ rest\<rparr>"
    using assms k by (intro CommonHeader_Parse_header) auto
  then show ?thesis by (simp add: k mult.commute)
qed

lemma rr_bytes_parse:
  assumes "length (rr_report_blocks rr) \<le> 31" and "list_all report_block_ok (rr_report_blocks rr)"
  shows "\<exists>h. CommonHeader_Parse io (rr_bytes io rr @ rest) = Inr h \<and> packet_type h = 201 \<and>
     ReceiverReport_Parse io rr0 h = Inr rr \<and> drop (NextPacket h) (payload h) = rest"
proof -
  let ?n = "length (rr_report_blocks rr)"
  let ?body = "wr32 io (rr_sender_ssrc rr) @ concat (map (report_block_bytes io) (rr_report_blocks rr))"
  let ?h = "\<lparr>count_or_fmt = of_nat ?n, packet_type = 201, padding_size = 0,
     payload_size = of_nat (4 * (1 + 6 * ?n)), payload = ?body @ rest\<rparr>"
  have len: "HeaderLength (ReceiverReport_BlockLength rr) = 1 + 6 * ?n"
    by (simp add: HeaderLength_def ReceiverReport_BlockLength_def rtcp_consts)
  have "rr_bytes io rr @ rest = header_bytes ?n 201 (of_nat (1 + 6 * ?n)) False @ ?body @ rest"
    by (simp add: rr_bytes_def len)
  then have "CommonHeader_Parse io (rr_bytes io rr @ rest) = Inr ?h"
    using assms(1) by (simp only:) (rule CommonHeader_Parse_report, auto)
  moreover have ps: "unat (of_nat (4 * (1 + 6 * ?n)) :: u32) = 4 * (1 + 6 * ?n)"
    using assms(1) by (intro unat_of_nat_small) simp
  moreover have "unat (of_nat ?n :: byte) = ?n"
    using assms(1) by (intro unat_of_nat_small) simp
  moreover have "parse_blocks io ?n (?body @ rest) 4 = Inr (rr_report_blocks rr)"
    using parse_blocks_bytes [of "wr32 io (rr_sender_ssrc rr)" 4 "rr_report_blocks rr" rest] assms(2)
    by simp
  ultimately show ?thesis
    by (intro exI [of _ ?h]) (simp add: ReceiverReport_Parse_def NextPacket_def rtcp_consts rd32_def rd_def)
qed

lemma sr_bytes_parse:
  assumes "length (sr_report_blocks sr) \<le> 31" and "list_all report_block_ok (sr_report_blocks sr)"
  shows "\<exists>h. CommonHeader_Parse io (sr_bytes io sr @ rest) = Inr h \<and> packet_type h = 200 \<and>
     SenderReport_Parse io sr0 h = Inr (sr\<lparr>sender_octet_count := sender_octet_count sr0\<rparr>) \<and>
     drop (NextPacket h) (payload h) = rest"
proof -
  let ?n = "length (sr_report_blocks sr)"
  let ?base = "wr32 io (sr_sender_ssrc sr) @ wr32 io (ntp_seconds sr) @ wr32 io (ntp_fractions sr) @
     wr32 io (rtp_timestamp sr) @ wr32 io (sender_packet_count sr) @ wr32 io (sender_packet_count sr)"
  let ?body = "?base @ concat (map (report_block_bytes io) (sr_report_blocks sr))"
  let ?h = "\<lparr>count_or_fmt = of_nat ?n, packet_type = 200, padding_size = 0,
     payload_size = of_nat (4 * (6 + 6 * ?n)), payload = ?body @ rest\<rparr>"
  have len: "HeaderLength (SenderReport_BlockLength sr) = 6 + 6 * ?n"
    by (simp add: HeaderLength_def SenderReport_BlockLength_def rtcp_consts)
  have "sr_bytes io sr @ rest = header_bytes ?n 200 (of_nat (6 + 6 * ?n)) False @ ?body @ rest"
    by (simp add: sr_bytes_def len)
  then have "CommonHeader_Parse io (sr_bytes io sr @ rest) = Inr ?h"
    using assms(1) by (simp only:) (rule CommonHeader_Parse_report, auto)
  moreover have ps: "unat (of_nat (4 * (6 + 6 * ?n)) :: u32) = 4 * (6 + 6 * ?n)"
    using assms(1) by (intro unat_of_nat_small) simp
  moreover have "unat (of_nat ?n :: byte) = ?n"
    using assms(1) by (intro unat_of_nat_small) simp
  moreover have "parse_blocks io ?n (?body @ rest) 24 = Inr (sr_report_blocks sr)"
    using parse_blocks_bytes [of ?base 24 "sr_report_blocks sr" rest] assms(2) by simp
  ultimately show ?thesis
    by (intro exI [of _ ?h]) (simp add: SenderReport_Parse_def NextPacket_def rtcp_consts rd32_def rd_def)
qed

end

section \<open>Properties\<close>

lemma only_rejects_ReceiverReport_Parse:
  "unat (payload_size h) \<le> length (payload h) \<Longrightarrow> only_rejects (ReceiverReport_Parse io rr h)"
  by (auto simp: ReceiverReport_Parse_def only_rejects_bindE rtcp_consts Let_def
      intro!: only_rejects_parse_blocks)

lemma only_rejects_SenderReport_Parse:
  "unat (payload_size h) \<le> length (payload h) \<Longrightarrow> only_rejects (SenderReport_Parse io sr h)"
  by (auto simp: SenderReport_Parse_def only_rejects_bindE rtcp_consts Let_def
      intro!: only_rejects_parse_blocks)

text \<open>C2. Receiver reports round-trip. With at most 31 report blocks whose loss counts fit 24 bits,
  \<open>ReceiverReport::Create\<close> succeeds whatever the fill level of the buffer, appends exactly one
  packet, and \<open>CommonHeader::Parse\<close> followed by \<open>ReceiverReport::Parse\<close> on the bytes written
  returns the same report.\<close>

theorem receiver_report_roundtrip:
  assumes "big_endian_io io" and "length (rr_report_blocks rr) \<le> 31"
    and "list_all report_block_ok (rr_report_blocks rr)"
    and "ReceiverReport_BlockLength rr \<le> max_length" and "index \<le> max_length"
    and "max_length \<le> length packet"
  shows "\<exists>packet' index' sent' bytes h.
     ReceiverReport_Create io rr max_length (packet, index, sent) = Inr (packet', index', sent') \<and>
     concat sent' @ take index' packet' = concat sent @ take index packet @ bytes \<and>
     length bytes = ReceiverReport_BlockLength rr \<and>
     CommonHeader_Parse io bytes = Inr h \<and> packet_type h = 201 \<and>
     ReceiverReport_Parse io rr0 h = Inr rr"
  using big_endian_io.rr_create_appends [OF assms(1), of rr max_length index packet sent]
    big_endian_io.rr_bytes_parse [OF assms(1-3), of "[]" rr0] assms(4-6)
  by (auto simp: big_endian_io.length_rr_bytes [OF assms(1)])

theorem receiver_report_roundtrip_witness:
  "\<exists>packet' index' sent' bytes h.
     ReceiverReport_Create be_io
       \<lparr>rr_sender_ssrc = 7, rr_report_blocks = [\<lparr>source_ssrc = 1, fraction_lost = 2,
          cumulative_packets_lost = -3, extended_high_seq_num = 4, jitter = 5, last_sr = 6,
          delay_since_last_sr = 7\<rparr>]\<rparr> 40 (replicate 40 0, 12, []) = Inr (packet', index', sent') \<and>
     concat sent' @ take index' packet' = replicate 12 0 @ bytes \<and> length bytes = 32 \<and>
     CommonHeader_Parse be_io bytes = Inr h \<and> packet_type h = 201 \<and>
     ReceiverReport_Parse be_io \<lparr>rr_sender_ssrc = 0, rr_report_blocks = []\<rparr> h =
       Inr \<lparr>rr_sender_ssrc = 7, rr_report_blocks = [\<lparr>source_ssrc = 1, fraction_lost = 2,
          cumulative_packets_lost = -3, extended_high_seq_num = 4, jitter = 5, last_sr = 6,
          delay_since_last_sr = 7\<rparr>]\<rparr>"
  using receiver_report_roundtrip [OF be.big_endian_io_axioms, of
      "\<lparr>rr_sender_ssrc = 7, rr_report_blocks = [\<lparr>source_ssrc = 1, fraction_lost = 2,
          cumulative_packets_lost = -3, extended_high_seq_num = 4, jitter = 5, last_sr = 6,
          delay_since_last_sr = 7\<rparr>]\<rparr>" 40 12 "replicate 40 0" "[]"
      "\<lparr>rr_sender_ssrc = 0, rr_report_blocks = []\<rparr>"]
  by (simp add: report_block_ok_def ReceiverReport_BlockLength_def rtcp_consts)

text \<open>C3. Sender reports. \<open>SenderReport::Create\<close> followed by the parsers returns every field of the
  report but the octet count: the code writes the packet count into the octet-count slot, and
  \<open>SenderReport::Parse\<close> stores that slot in the packet count, so the octet count of the parsed object is
  whatever it was before.\<close>

theorem sender_report_roundtrip:
  assumes "big_endian_io io" and "length (sr_report_blocks sr) \<le> 31"
    and "list_all report_block_ok (sr_report_blocks sr)"
    and "SenderReport_BlockLength sr \<le> max_length" and "index \<le> max_length"
    and "max_length \<le> length packet"
  shows "\<exists>packet' index' sent' bytes h.
     SenderReport_Create io sr max_length (packet, index, sent) = Inr (packet', index', sent') \<and>
     concat sent' @ take index' packet' = concat sent @ take index packet @ bytes \<and>
     length bytes = SenderReport_BlockLength sr \<and>
     CommonHeader_Parse io bytes = Inr h \<and> packet_type h = 200 \<and>
     SenderReport_Parse io sr0 h = Inr (sr\<lparr>sender_octet_count := sender_octet_count sr0\<rparr>)"
  using big_endian_io.sr_create_appends [OF assms(1), of sr max_length index packet sent]
    big_endian_io.sr_bytes_parse [OF assms(1-3), of "[]" sr0] assms(4-6)
  by (auto simp: big_endian_io.length_sr_bytes [OF assms(1)])

theorem sender_report_roundtrip_witness:
  "\<exists>packet' index' sent' bytes h.
     SenderReport_Create be_io
       \<lparr>sr_sender_ssrc = 7, ntp_seconds = 1, ntp_fractions = 2, rtp_timestamp = 3,
        sender_packet_count = 4, sender_octet_count = 5, sr_report_blocks = []\<rparr>
       40 (replicate 40 0, 20, []) = Inr (packet', index', sent') \<and>
     concat sent' @ take index' packet' = replicate 20 0 @ bytes \<and> length bytes = 28 \<and>
     CommonHeader_Parse be_io bytes = Inr h \<and> packet_type h = 200 \<and>
     SenderReport_Parse be_io
       \<lparr>sr_sender_ssrc = 0, ntp_seconds = 0, ntp_fractions = 0, rtp_timestamp = 0,
        sender_packet_count = 0, sender_octet_count = 99, sr_report_blocks = []\<rparr> h =
       Inr \<lparr>sr_sender_ssrc = 7, ntp_seconds = 1, ntp_fractions = 2, rtp_timestamp = 3,
        sender_packet_count = 4, sender_octet_count = 99, sr_report_blocks = []\<rparr>"
  using sender_report_roundtrip [OF be.big_endian_io_axioms, of
      "\<lparr>sr_sender_ssrc = 7, ntp_seconds = 1, ntp_fractions = 2, rtp_timestamp = 3,
        sender_packet_count = 4, sender_octet_count = 5, sr_report_blocks = []\<rparr>"
      40 20 "replicate 40 0" "[]"
      "\<lparr>sr_sender_ssrc = 0, ntp_seconds = 0, ntp_fractions = 0, rtp_timestamp = 0,
        sender_packet_count = 0, sender_octet_count = 99, sr_report_blocks = []\<rparr>"]
  by (simp add: SenderReport_BlockLength_def rtcp_consts)

text \<open>\<open>CommonHeader::Parse\<close> never recognises padding: the test \<open>(buffer[0] & 0x20) == 1\<close> compares a
  value that is 0 or 32 with 1. A padded packet is accepted with a padding size of 0, and its
  payload size still counts the padding bytes.\<close>

theorem common_header_padding_ignored:
  assumes "big_endian_io io" and "4 \<le> length buffer" and "drop_bit 6 (buffer ! 0) = 2"
    and "4 + 4 * (unat (buffer ! 2) * 256 + unat (buffer ! 3)) \<le> length buffer"
  shows "CommonHeader_Parse io buffer =
    Inr \<lparr>count_or_fmt = (buffer ! 0) AND 0x1F, packet_type = buffer ! 1, padding_size = 0,
         payload_size = of_nat (4 * (unat (buffer ! 2) * 256 + unat (buffer ! 3))),
         payload = drop 4 buffer\<rparr>"
proof -
  let ?l = "unat (buffer ! 2) * 256 + unat (buffer ! 3)"
  have "drop 2 buffer = buffer ! 2 # buffer ! 3 # drop 4 buffer"
    using assms(2) by (simp add: Cons_nth_drop_Suc numeral_eq_Suc)
  then have "rd io 2 buffer 2 = Inr ?l"
    using assms(1,2) by (simp add: rd_def big_endian_io.read_two)
  moreover have "unat (of_nat (?l * 4) :: u32) = ?l * 4"
    using unat_lt [of "buffer ! 2"] unat_lt [of "buffer ! 3"] by (intro unat_of_nat_small) simp
  moreover have "byte_at buffer 0 = Inr (buffer ! 0)" and "byte_at buffer 1 = Inr (buffer ! 1)"
    using assms(2) by (auto simp: byte_at_def)
  ultimately show ?thesis
    using assms(2-4)
    by (simp add: CommonHeader_Parse_def padding_test_false Let_def mult.commute
        del: of_nat_mult of_nat_add)
qed

theorem common_header_padding_ignored_witness:
  "CommonHeader_Parse be_io [0xA0, 201, 0, 1, 0, 0, 0, 4] =
    Inr \<lparr>count_or_fmt = 0, packet_type = 201, padding_size = 0, payload_size = 4,
         payload = [0, 0, 0, 4]\<rparr>"
  using common_header_padding_ignored [OF be.big_endian_io_axioms, of "[0xA0, 201, 0, 1, 0, 0, 0, 4]"]
  by simp

end
