(* ===== verification/Rtcp_Nack.thy ===== *)
theory Rtcp_Nack
  imports Rtcp_Packets
begin

text \<open>
  The transport feedback packet \<open>Nack\<close> (\<open>rtcp_packet/nack.cpp\<close>) and its base \<open>Rtpfb\<close>
  (\<open>rtcp_packet/rtpfb.cpp\<close>): packing a list of lost sequence numbers into pairs of a first number
  and a bitmask of the sixteen that follow, the fragmenting writer, and the parser.
\<close>

section \<open>Data and operations\<close>

record packed_nack =
  first_pid :: u16
  bitmask :: u16

record nack =
  nack_sender_ssrc :: u32
  nack_media_ssrc :: u32
  packed :: "packed_nack list"
  packet_ids :: "u16 list"

definition kCommonFeedbackLength :: nat where
  "kCommonFeedbackLength = 8"

definition kNackItemLength :: nat where
  "kNackItemLength = 4"

definition CreateCommonFeedback :: "byte_io \<Rightarrow> nack \<Rightarrow> byte list \<Rightarrow> nat \<Rightarrow> error + byte list" where
  "CreateCommonFeedback io n packet off =
     bindE (put packet off (wr32 io (nack_sender_ssrc n))) (\<lambda>packet.
     put packet (off + 4) (wr32 io (nack_media_ssrc n)))"

definition ParseCommonFeedback :: "byte_io \<Rightarrow> nack \<Rightarrow> byte list \<Rightarrow> error + nack" where
  "ParseCommonFeedback io n pl =
     bindE (rd32 io pl 0) (\<lambda>s. bindE (rd32 io pl 4) (\<lambda>m.
       Inr (n\<lparr>nack_sender_ssrc := s, nack_media_ssrc := m\<rparr>)))"

text \<open>\<open>Pack\<close>: the inner loop extends the bitmask while the next number is within the window.\<close>

fun pack_mask :: "u16 \<Rightarrow> u16 \<Rightarrow> u16 list \<Rightarrow> u16 \<times> u16 list" where
  "pack_mask first bm [] = (bm, [])"
| "pack_mask first bm (x # xs) =
     (let shift = x - first - 1 in
      if shift \<le> 15 then pack_mask first (bm OR push_bit (unat shift) 1) xs
      else (bm, x # xs))"

lemma length_pack_mask: "length (snd (pack_mask first bm xs)) \<le> length xs"
  by (induction first bm xs rule: pack_mask.induct) (auto simp: Let_def)

function Pack :: "u16 list \<Rightarrow> packed_nack list" where
  "Pack [] = []"
| "Pack (x # xs) =
     \<lparr>first_pid = x, bitmask = fst (pack_mask x 0 xs)\<rparr> # Pack (snd (pack_mask x 0 xs))"
  by pat_completeness auto
termination
  by (relation "measure length") (auto simp: le_imp_less_Suc length_pack_mask)

text \<open>\<open>Unpack\<close>: the inner loop shifts the bitmask to the right until it is 0.\<close>

function unpack_mask :: "u16 \<Rightarrow> u16 \<Rightarrow> u16 list" where
  "unpack_mask pid nack_item =
     (if nack_item = 0 then []
      else (if nack_item AND 1 \<noteq> 0 then [pid] else []) @ unpack_mask (pid + 1) (drop_bit 1 nack_item))"
  by pat_completeness auto
termination
proof (relation "measure (\<lambda>(_, nack_item). unat nack_item)")
  fix pid nack_item :: u16
  assume "nack_item \<noteq> 0"
  then have "0 < unat nack_item" by (simp add: unat_gt_0)
  then show "((pid + 1, drop_bit 1 nack_item), (pid, nack_item)) \<in> measure (\<lambda>(_, nack_item). unat nack_item)"
    by (simp add: drop_bit_eq_div unat_div)
qed simp

declare unpack_mask.simps [simp del]

definition Unpack :: "packed_nack list \<Rightarrow> u16 list" where
  "Unpack ps = concat (map (\<lambda>p. first_pid p # unpack_mask (first_pid p + 1) (bitmask p)) ps)"

definition SetPacketIds :: "nack \<Rightarrow> u16 list \<Rightarrow> nack" where
  "SetPacketIds n nack_list = n\<lparr>packet_ids := nack_list, packed := packed n @ Pack nack_list\<rparr>"

definition Nack_BlockLength :: "nack \<Rightarrow> nat" where
  "Nack_BlockLength n = kHeaderSize + kCommonFeedbackLength + length (packed n) * kNackItemLength"

fun write_items :: "byte_io \<Rightarrow> packed_nack list \<Rightarrow> byte list \<Rightarrow> nat \<Rightarrow> error + byte list \<times> nat" where
  "write_items io [] packet index = Inr (packet, index)"
| "write_items io (item # items) packet index =
     bindE (put packet index (wr16 io (first_pid item))) (\<lambda>packet.
     bindE (put packet (index + 2) (wr16 io (bitmask item))) (\<lambda>packet.
     write_items io items packet (index + kNackItemLength)))"

text \<open>One pass of the loop body that writes a block: header, common feedback, the items.\<close>

definition write_nack_block ::
  "byte_io \<Rightarrow> nack \<Rightarrow> packed_nack list \<Rightarrow> byte list \<Rightarrow> nat \<Rightarrow> error + byte list \<times> nat" where
  "write_nack_block io n items packet index =
     (let payload_size_bytes = kCommonFeedbackLength + length items * kNackItemLength;
          payload_size_32bits = payload_size_bytes div 4 in
      bindE (CreateHeader 1 205 (of_nat payload_size_32bits) False packet index) (\<lambda>(packet, index).
      bindE (CreateCommonFeedback io n packet index) (\<lambda>packet.
      write_items io items packet (index + kCommonFeedbackLength))))"

text \<open>The loop of \<open>Create\<close>; its argument \<open>items\<close> is what is left of \<open>packed_\<close> at \<open>nack_index\<close>.\<close>

function create_loop ::
  "byte_io \<Rightarrow> nack \<Rightarrow> nat \<Rightarrow> packed_nack list \<Rightarrow> out_state \<Rightarrow> error + out_state" where
  "create_loop io n max_length items (packet, index, sent) =
     (if items = [] then Inr (packet, index, sent)
      else
        let bytes_left_in_buffer = size_sub max_length index;
            kNackHeaderLength = kHeaderSize + kCommonFeedbackLength in
        if bytes_left_in_buffer < kNackHeaderLength + kNackItemLength
        then case OnBufferFull (packet, index, sent) of
               Inl e \<Rightarrow> Inl e
             | Inr st \<Rightarrow> create_loop io n max_length items st
        else
          let num_nack_fields = min ((bytes_left_in_buffer - kNackHeaderLength) div kNackItemLength)
                                    (length items) in
          case write_nack_block io n (take num_nack_fields items) packet index of
            Inl e \<Rightarrow> Inl e
          | Inr (packet, index) \<Rightarrow>
              create_loop io n max_length (drop num_nack_fields items) (packet, index, sent))"
  by pat_completeness auto
termination
  by (relation "measures [\<lambda>(_, _, _, items, _). length items, \<lambda>(_, _, _, _, _, index, _). index]")
    (auto simp: OnBufferFull_def kHeaderSize_def kCommonFeedbackLength_def kNackItemLength_def
      split: if_splits)

declare create_loop.simps [simp del]

definition Nack_Create :: "byte_io \<Rightarrow> nack \<Rightarrow> nat \<Rightarrow> out_state \<Rightarrow> error + out_state" where
  "Nack_Create io n max_length st = create_loop io n max_length (packed n) st"

fun read_items :: "byte_io \<Rightarrow> nat \<Rightarrow> byte list \<Rightarrow> nat \<Rightarrow> error + packed_nack list" where
  "read_items io 0 pl off = Inr []"
| "read_items io (Suc k) pl off =
     bindE (rd16 io pl off) (\<lambda>f.
     bindE (rd16 io pl (off + 2)) (\<lambda>m.
     bindE (read_items io k pl (off + kNackItemLength)) (\<lambda>items.
       Inr (\<lparr>first_pid = f, bitmask = m\<rparr> # items))))"

definition Nack_Parse :: "byte_io \<Rightarrow> nack \<Rightarrow> common_header \<Rightarrow> error + nack" where
  "Nack_Parse io n h =
     (if unat (payload_size h) < kCommonFeedbackLength + kNackItemLength then Inl Rejected
      else bindE (ParseCommonFeedback io n (payload h)) (\<lambda>n.
        let nack_items = (unat (payload_size h) - kCommonFeedbackLength) div kNackItemLength in
        bindE (read_items io nack_items (payload h) kCommonFeedbackLength) (\<lambda>items.
          Inr (n\<lparr>packed := items, packet_ids := Unpack items\<rparr>))))"

section \<open>Packing and unpacking\<close>

lemma drop_bit_one_less:
  assumes "unat (m :: u16) < 2 ^ Suc n"
  shows "unat (drop_bit 1 m) < 2 ^ n"
  using assms by (simp add: drop_bit_eq_div unat_div)

lemma and_one_odd: "(m :: 'a::len word) AND 1 \<noteq> 0 \<longleftrightarrow> bit m 0"
  by (simp add: and_one_eq odd_iff_mod_2_eq_one bit_0)

text \<open>The bits of a mask, as offsets from the number after the first one.\<close>

lemma unpack_mask_bits:
  "unat m < 2 ^ n \<Longrightarrow> unpack_mask pid m = map (\<lambda>k. pid + of_nat k) (filter (bit m) [0..<n])"
proof (induction n arbitrary: pid m)
  case 0
  then have "m = 0" by (simp add: unat_eq_0)
  then show ?case by (simp add: unpack_mask.simps)
next
  case (Suc n)
  show ?case
  proof (cases "m = 0")
    case True
    then show ?thesis by (simp add: unpack_mask.simps)
  next
    case False
    have shift: "bit (drop_bit (Suc 0) m) = (\<lambda>k. bit m (Suc k))"
      by (simp add: fun_eq_iff bit_drop_bit_eq)
    have "unpack_mask (pid + 1) (drop_bit 1 m) =
        map (\<lambda>k. pid + 1 + of_nat k) (filter (bit (drop_bit 1 m)) [0..<n])"
      by (rule Suc.IH [OF drop_bit_one_less [OF Suc.prems]])
    also have "\<dots> = map (\<lambda>k. pid + of_nat k) (filter (bit m) (map Suc [0..<n]))"
      by (simp add: filter_map o_def shift add.assoc)
    finally have rest: "unpack_mask (pid + 1) (drop_bit 1 m) =
        map (\<lambda>k. pid + of_nat k) (filter (bit m) (map Suc [0..<n]))" .
    have "[0..<Suc n] = 0 # map Suc [0..<n]"
      by (simp only: map_Suc_upt upt_conv_Cons zero_less_Suc)
    with False rest show ?thesis
      by (simp add: unpack_mask.simps [of pid m] and_one_odd del: upt_Suc)
  qed
qed

lemma unpack_mask_16: "unpack_mask pid m = map (\<lambda>k. pid + of_nat k) (filter (bit m) [0..<16])"
  using unat_lt [of m] by (intro unpack_mask_bits) simp

lemma shift_lt_16: "(s :: u16) \<le> 15 \<Longrightarrow> unat s < 16"
  by (simp add: word_le_nat_alt)

text \<open>What the inner loop of \<open>Pack\<close> takes from the list, and the mask it builds.\<close>

lemma pack_mask_spec:
  assumes "pack_mask first bm xs = (m, rest)"
  shows "\<exists>taken. xs = taken @ rest \<and> (\<forall>x\<in>set taken. x - first - 1 \<le> 15) \<and>
     (\<forall>k<16. bit m k \<longleftrightarrow> bit bm k \<or> (\<exists>x\<in>set taken. unat (x - first - 1) = k))"
  using assms
proof (induction first bm xs rule: pack_mask.induct)
  case (1 first bm)
  then show ?case by simp
next
  case (2 first bm x xs)
  let ?s = "x - first - 1"
  show ?case
  proof (cases "?s \<le> 15")
    case True
    with 2 obtain taken where t: "xs = taken @ rest" "\<forall>x\<in>set taken. x - first - 1 \<le> 15"
      "\<forall>k<16. bit m k \<longleftrightarrow> bit (bm OR push_bit (unat ?s) 1) k \<or> (\<exists>x\<in>set taken. unat (x - first - 1) = k)"
      by (auto simp: Let_def)
    have "bit (bm OR push_bit (unat ?s) 1) k \<longleftrightarrow> bit bm k \<or> unat ?s = k" if "k < 16" for k
      using that shift_lt_16 [OF True] by (auto simp: bit_simps)
    with t True show ?thesis
      by (intro exI [of _ "x # taken"]) auto
  next
    case False
    with 2 show ?thesis by (intro exI [of _ "[]"]) (auto simp: Let_def)
  qed
qed

lemma set_unpack_pack_mask:
  assumes "pack_mask first 0 xs = (m, rest)"
  shows "\<exists>taken. xs = taken @ rest \<and> set (unpack_mask (first + 1) m) = set taken"
proof -
  from pack_mask_spec [OF assms] obtain taken where t: "xs = taken @ rest"
    and window: "\<forall>x\<in>set taken. x - first - 1 \<le> 15"
    and bits: "\<forall>k<16. bit m k \<longleftrightarrow> (\<exists>x\<in>set taken. unat (x - first - 1) = k)"
    by auto
  have "set (unpack_mask (first + 1) m) = {first + 1 + of_nat k | k. k < 16 \<and> bit m k}"
    by (auto simp: unpack_mask_16)
  also have "\<dots> = set taken"
  proof
    show "{first + 1 + of_nat k | k. k < 16 \<and> bit m k} \<subseteq> set taken"
      using bits by auto
    have "x = first + 1 + of_nat (unat (x - first - 1)) \<and> unat (x - first - 1) < 16 \<and>
        bit m (unat (x - first - 1))" if "x \<in> set taken" for x
      using that bits window by (auto dest: shift_lt_16)
    then show "set taken \<subseteq> {first + 1 + of_nat k | k. k < 16 \<and> bit m k}"
      by blast
  qed
  finally show ?thesis using t by blast
qed

lemma set_Unpack_Pack: "set (Unpack (Pack ids)) = set ids"
proof (induction ids rule: Pack.induct)
  case 1
  then show ?case by (simp add: Unpack_def)
next
  case (2 x xs)
  obtain m rest where p: "pack_mask x 0 xs = (m, rest)" by (cases "pack_mask x 0 xs")
  from set_unpack_pack_mask [OF p] obtain taken
    where "xs = taken @ rest" "set (unpack_mask (x + 1) m) = set taken" by blast
  with 2 p show ?case by (auto simp: Unpack_def)
qed

text \<open>A list in sequence-number order, counted from its first number, keeps its order too.\<close>

definition seq_ascending :: "u16 list \<Rightarrow> bool" where
  "seq_ascending ids \<longleftrightarrow> sorted_wrt (<) (map (\<lambda>x. x - hd ids) ids)"

lemma window_offset:
  assumes "x - h < y - (h :: u16)"
  shows "unat (y - x - 1) = unat (y - h) - unat (x - h) - 1"
proof -
  have le: "x - h \<le> y - h" using assms by simp
  have "y - x = (y - h) - (x - h)" by simp
  then have d: "unat (y - x) = unat (y - h) - unat (x - h)"
    using unat_sub [OF le] by simp
  with assms have "y - x \<noteq> 0" by (auto simp: word_less_nat_alt)
  then have "1 \<le> y - x" by (simp add: word_le_nat_alt unat_gt_0 Suc_le_eq)
  then show ?thesis using d unat_sub [of 1 "y - x"] by simp
qed

lemma unpack_group_ordered:
  assumes p: "pack_mask x 0 xs = (m, rest)" and asc: "sorted_wrt (<) (map (\<lambda>y. y - h) (x # xs))"
  shows "xs = unpack_mask (x + 1) m @ rest"
proof -
  from pack_mask_spec [OF p] obtain taken where t: "xs = taken @ rest"
    and window: "\<forall>y\<in>set taken. y - x - 1 \<le> 15"
    and bits: "\<forall>k<16. bit m k \<longleftrightarrow> (\<exists>y\<in>set taken. unat (y - x - 1) = k)"
    by auto
  let ?f = "\<lambda>y. unat (y - x - 1)"
  from asc t have lt: "\<forall>y\<in>set taken. x - h < y - h"
    and srt: "sorted_wrt (\<lambda>a b. a - h < b - h) taken"
    by (auto simp: sorted_wrt_append sorted_wrt_map)
  have "sorted_wrt (<) (map ?f taken)"
    unfolding sorted_wrt_map
  proof (rule sorted_wrt_mono_rel [OF _ srt])
    fix a b assume "a \<in> set taken" "b \<in> set taken" "a - h < b - h"
    with lt show "?f a < ?f b"
      by (auto simp: window_offset [of x h a] window_offset [of x h b] word_less_nat_alt)
  qed
  moreover have "sorted_wrt (<) (filter (bit m) [0..<16])"
    by (simp add: sorted_wrt_filter)
  moreover have "set (map ?f taken) = set (filter (bit m) [0..<16])"
    using bits window by (auto dest: shift_lt_16)
  ultimately have "filter (bit m) [0..<16] = map ?f taken"
    by (metis strict_sorted_equal)
  then have "unpack_mask (x + 1) m = taken"
    by (simp add: unpack_mask_16 o_def)
  with t show ?thesis by simp
qed

lemma Unpack_Pack_ordered:
  "sorted_wrt (<) (map (\<lambda>y. y - h) ids) \<Longrightarrow> Unpack (Pack ids) = ids"
proof (induction ids rule: Pack.induct)
  case 1
  then show ?case by (simp add: Unpack_def)
next
  case (2 x xs)
  obtain m rest where p: "pack_mask x 0 xs = (m, rest)" by (cases "pack_mask x 0 xs")
  have xs: "xs = unpack_mask (x + 1) m @ rest"
    by (rule unpack_group_ordered [OF p "2.prems"])
  have "sorted_wrt (<) (map (\<lambda>y. y - h) rest)"
    using "2.prems" by (subst (asm) xs) (auto simp: sorted_wrt_append sorted_wrt_map)
  with "2.IH" p have "Unpack (Pack rest) = rest" by simp
  with xs p show ?case by (simp add: Unpack_def)
qed

section \<open>Writing and parsing\<close>

lemmas nack_consts = kHeaderSize_def kCommonFeedbackLength_def kNackItemLength_def

definition nack_item_bytes :: "byte_io \<Rightarrow> packed_nack \<Rightarrow> byte list" where
  "nack_item_bytes io item = wr16 io (first_pid item) @ wr16 io (bitmask item)"

definition nack_block_bytes :: "byte_io \<Rightarrow> nack \<Rightarrow> packed_nack list \<Rightarrow> byte list" where
  "nack_block_bytes io n items =
     header_bytes 1 205 (of_nat (2 + length items)) False @
     wr32 io (nack_sender_ssrc n) @ wr32 io (nack_media_ssrc n) @
     concat (map (nack_item_bytes io) items)"

lemma only_rejects_read_items: "off + 4 * k \<le> length pl \<Longrightarrow> only_rejects (read_items io k pl off)"
  by (induction k arbitrary: off) (auto simp: only_rejects_bindE kNackItemLength_def)

lemma only_rejects_Nack_Parse:
  assumes "unat (payload_size h) \<le> length (payload h)"
  shows "only_rejects (Nack_Parse io n h)"
  using assms
  by (auto simp: Nack_Parse_def ParseCommonFeedback_def only_rejects_bindE nack_consts Let_def
      intro!: only_rejects_read_items)

text \<open>The outcome of a run of the loop: all the items are written, in order, as blocks of at least
  one item each. The first group of blocks completes the buffer as it was, every further group
  fills a buffer of its own; all but the last are handed to the callback.\<close>

definition nack_blocks :: "byte_io \<Rightarrow> nack \<Rightarrow> packed_nack list list \<Rightarrow> byte list" where
  "nack_blocks io n chunks = concat (map (nack_block_bytes io n) chunks)"

definition nack_written ::
  "byte_io \<Rightarrow> nack \<Rightarrow> nat \<Rightarrow> packed_nack list \<Rightarrow> out_state \<Rightarrow> error + out_state \<Rightarrow> bool" where
  "nack_written io n max_length items st r \<longleftrightarrow> (case st of (packet, index, sent) \<Rightarrow>
     \<exists>packet' index' sent' first more. r = Inr (packet', index', sent') \<and>
       length packet' = length packet \<and> index' \<le> max_length \<and>
       (\<forall>p\<in>set sent'. p \<in> set sent \<or> p \<noteq> [] \<and> length p \<le> max_length) \<and>
       concat (concat (first # more)) = items \<and>
       (\<forall>c\<in>set (concat (first # more)). c \<noteq> [] \<and> length c < 65000) \<and>
       sent' @ [take index' packet'] =
         sent @ (take index packet @ nack_blocks io n first) # map (nack_blocks io n) more)"

context big_endian_io
begin

lemma length_item_bytes [simp]: "length (nack_item_bytes io item) = 4"
  by (simp add: nack_item_bytes_def)

lemma length_items_bytes [simp]: "length (concat (map (nack_item_bytes io) items)) = 4 * length items"
  by (induction items) auto

lemma length_nack_block [simp]: "length (nack_block_bytes io n items) = 12 + 4 * length items"
  by (simp add: nack_block_bytes_def)

lemma write_items_ok:
  "index + 4 * length items \<le> length packet \<Longrightarrow>
   write_items io items packet index =
     Inr (overwrite index (concat (map (nack_item_bytes io) items)) packet, index + 4 * length items)"
proof (induction items arbitrary: packet index)
  case Nil
  then show ?case by simp
next
  case (Cons item items)
  then show ?case
    by (simp add: overwrite_adjacent nack_item_bytes_def [of io item] kNackItemLength_def)
qed

lemma write_nack_block_ok:
  assumes "index + 12 + 4 * length items \<le> length packet"
  shows "write_nack_block io n items packet index =
    Inr (overwrite index (nack_block_bytes io n items) packet, index + 12 + 4 * length items)"
proof -
  have "(8 + length items * 4) div 4 = 2 + length items" by simp
  then show ?thesis
    using assms
    by (simp add: write_nack_block_def CreateHeader_ok CreateCommonFeedback_def write_items_ok
        overwrite_adjacent nack_block_bytes_def nack_consts)
qed

lemma read_items_bytes:
  assumes "length pre = off"
  shows "read_items io (length items) (pre @ concat (map (nack_item_bytes io) items) @ rest) off = Inr items"
  using assms
proof (induction items arbitrary: pre off)
  case Nil
  then show ?case by simp
next
  case (Cons item items)
  have "read_items io (length items)
      ((pre @ nack_item_bytes io item) @ concat (map (nack_item_bytes io) items) @ rest) (off + 4) = Inr items"
    using Cons.prems by (intro Cons.IH) simp
  with Cons.prems show ?case
    by (simp add: kNackItemLength_def nack_item_bytes_def [of io item] rd16_def rd_def)
qed

lemma nack_block_parse:
  assumes "items \<noteq> []" and "length items < 65000"
  shows "\<exists>h. CommonHeader_Parse io (nack_block_bytes io n items @ rest) = Inr h \<and>
     packet_type h = 205 \<and> count_or_fmt h = 1 \<and> drop (NextPacket h) (payload h) = rest \<and>
     Nack_Parse io n0 h = Inr (n0\<lparr>nack_sender_ssrc := nack_sender_ssrc n,
       nack_media_ssrc := nack_media_ssrc n, packed := items, packet_ids := Unpack items\<rparr>)"
proof -
  let ?pre = "wr32 io (nack_sender_ssrc n) @ wr32 io (nack_media_ssrc n)"
  let ?body = "?pre @ concat (map (nack_item_bytes io) items)"
  let ?k = "2 + length items"
  let ?h = "\<lparr>count_or_fmt = of_nat 1, packet_type = 205, padding_size = 0,
     payload_size = of_nat (4 * ?k), payload = ?body @ rest\<rparr>"
  have "CommonHeader_Parse io (header_bytes 1 205 (of_nat ?k) False @ ?body @ rest) = Inr ?h"
    using assms by (intro CommonHeader_Parse_report) auto
  moreover have ps: "unat (of_nat (4 * ?k) :: u32) = 4 * ?k"
    using assms by (intro unat_of_nat_small) simp
  moreover have "read_items io (length items) (?body @ rest) 8 = Inr items"
    using read_items_bytes [of ?pre 8 items rest] by simp
  moreover have "(4 * ?k - 8) div 4 = length items" by simp
  moreover have "\<not> 4 * ?k < 12" using assms(1) by (cases items) auto
  ultimately show ?thesis
    by (intro exI [of _ ?h])
      (simp add: nack_block_bytes_def Nack_Parse_def ParseCommonFeedback_def NextPacket_def
        nack_consts rd32_def rd_def Let_def del: of_nat_mult of_nat_add)
qed

lemma create_loop_block:
  assumes "items \<noteq> []" and "index + 16 \<le> max_length" and "max_length \<le> length packet"
    and "k = min ((max_length - index - 12) div 4) (length items)"
  shows "create_loop io n max_length items (packet, index, sent) =
    create_loop io n max_length (drop k items)
      (overwrite index (nack_block_bytes io n (take k items)) packet, index + 12 + 4 * k, sent)"
    and "0 < k" and "k \<le> length items" and "index + 12 + 4 * k \<le> max_length"
proof -
  have left: "size_sub max_length index = max_length - index" using assms(2) by (simp add: size_sub_def)
  from assms(1) have "0 < length items" by simp
  moreover have "1 \<le> (max_length - index - 12) div 4" using assms(2) by simp
  ultimately show "0 < k" using assms(4) by simp
  show len: "k \<le> length items" using assms(4) by simp
  have "k \<le> (max_length - index - 12) div 4" using assms(4) by simp
  then show fit: "index + 12 + 4 * k \<le> max_length" using assms(2) by simp
  have "write_nack_block io n (take k items) packet index =
      Inr (overwrite index (nack_block_bytes io n (take k items)) packet, index + 12 + 4 * k)"
    using fit assms(3) len by (subst write_nack_block_ok) auto
  moreover have "\<not> max_length - index < 16" using assms(2) by simp
  moreover have "min ((max_length - index - (4 + 8)) div 4) (length items) = k" using assms(4) by simp
  ultimately show "create_loop io n max_length items (packet, index, sent) =
    create_loop io n max_length (drop k items)
      (overwrite index (nack_block_bytes io n (take k items)) packet, index + 12 + 4 * k, sent)"
    using assms(1) left
    by (simp add: create_loop.simps [of io n max_length items] nack_consts Let_def del: diff_diff_left)
qed

lemma create_loop_flush:
  assumes "items \<noteq> []" and "max_length < index + 16" and "index \<le> max_length" and "0 < index"
    and "max_length \<le> length packet"
  shows "create_loop io n max_length items (packet, index, sent) =
    create_loop io n max_length items (packet, 0, sent @ [take index packet])"
proof -
  have "size_sub max_length index < 16" using assms(2,3) by (auto simp: size_sub_def)
  with assms show ?thesis
    by (simp add: create_loop.simps [of io n max_length items packet index] OnBufferFull_def
        nack_consts Let_def)
qed

lemma nack_written_block:
  assumes "nack_written io n max_length (drop k items)
      (overwrite index (nack_block_bytes io n (take k items)) packet, index + 12 + 4 * k, sent) r"
    and "0 < k" and "k \<le> length items" and "k < 65000" and "index + 12 + 4 * k \<le> length packet"
  shows "nack_written io n max_length items (packet, index, sent) r"
proof -
  let ?b = "nack_block_bytes io n (take k items)"
  have len: "length ?b = 12 + 4 * k" using assms(3) by simp
  have "take (index + 12 + 4 * k) (overwrite index ?b packet) = take index packet @ ?b"
    using assms(5) len by (simp add: overwrite_def)
  moreover from assms(1) obtain packet' index' sent' first more where
    "r = Inr (packet', index', sent')" "length packet' = length (overwrite index ?b packet)"
    "index' \<le> max_length" "\<forall>p\<in>set sent'. p \<in> set sent \<or> p \<noteq> [] \<and> length p \<le> max_length"
    "concat (concat (first # more)) = drop k items"
    "\<forall>c\<in>set (concat (first # more)). c \<noteq> [] \<and> length c < 65000"
    "sent' @ [take index' packet'] = sent @
       (take (index + 12 + 4 * k) (overwrite index ?b packet) @ nack_blocks io n first) #
       map (nack_blocks io n) more"
    unfolding nack_written_def by auto
  ultimately show ?thesis
    using assms(2-5) len unfolding nack_written_def prod.case
    by (intro exI [of _ packet'] exI [of _ index'] exI [of _ sent']
        exI [of _ "take k items # first"] exI [of _ more])
      (auto simp: nack_blocks_def)
qed

lemma nack_written_flush:
  assumes "nack_written io n max_length items (packet, 0, sent @ [take index packet]) r"
    and "0 < index" and "index \<le> max_length" and "max_length \<le> length packet"
  shows "nack_written io n max_length items (packet, index, sent) r"
proof -
  from assms obtain packet' index' sent' first more where
    "r = Inr (packet', index', sent')" "length packet' = length packet"
    "index' \<le> max_length" "\<forall>p\<in>set sent'. p \<in> set (sent @ [take index packet]) \<or> p \<noteq> [] \<and> length p \<le> max_length"
    "concat (concat (first # more)) = items"
    "\<forall>c\<in>set (concat (first # more)). c \<noteq> [] \<and> length c < 65000"
    "sent' @ [take index' packet'] =
       (sent @ [take index packet]) @ nack_blocks io n first # map (nack_blocks io n) more"
    unfolding nack_written_def by auto
  with assms(2-4) show ?thesis
    unfolding nack_written_def prod.case
    by (intro exI [of _ packet'] exI [of _ index'] exI [of _ sent'] exI [of _ "[]"]
        exI [of _ "first # more"])
      (auto simp: nack_blocks_def)
qed

lemma create_loop_spec:
  assumes "16 \<le> max_length" and "max_length \<le> 65536" and "max_length \<le> length packet"
    and "index \<le> max_length"
  shows "nack_written io n max_length items (packet, index, sent)
     (create_loop io n max_length items (packet, index, sent))"
  using assms
proof (induction items arbitrary: packet index sent rule: length_induct)
  case (1 items)
  show ?case
  proof (cases "items = []")
    case True
    with "1.prems" show ?thesis
      unfolding nack_written_def prod.case
      by (intro exI [of _ packet] exI [of _ index] exI [of _ sent] exI [of _ "[]"] exI [of _ "[]"])
        (simp add: create_loop.simps nack_blocks_def)
  next
    case items: False
    have room: "nack_written io n max_length items (packet, index, sent)
        (create_loop io n max_length items (packet, index, sent))"
      if fits: "index + 16 \<le> max_length" and len: "max_length \<le> length packet"
      for packet index sent
    proof -
      define k where "k = min ((max_length - index - 12) div 4) (length items)"
      note step = create_loop_block [OF items fits len k_def]
      have "(max_length - index - 12) div 4 \<le> 65536 div 4"
        using "1.prems"(2) by (intro div_le_mono) simp
      then have k: "k < 65000" by (simp add: k_def)
      have "length (drop k items) < length items" using step(2) items by simp
      moreover have "max_length \<le> length (overwrite index (nack_block_bytes io n (take k items)) packet)"
        using len step(3,4) by simp
      ultimately have "nack_written io n max_length (drop k items)
          (overwrite index (nack_block_bytes io n (take k items)) packet, index + 12 + 4 * k, sent)
          (create_loop io n max_length (drop k items)
            (overwrite index (nack_block_bytes io n (take k items)) packet, index + 12 + 4 * k, sent))"
        using "1.IH" "1.prems"(1,2) step(4) by blast
      from nack_written_block [OF this step(2,3) k] step(1,4) len show ?thesis by simp
    qed
    show ?thesis
    proof (cases "index + 16 \<le> max_length")
      case True
      with "1.prems" show ?thesis by (intro room)
    next
      case False
      then have "nack_written io n max_length items (packet, 0, sent @ [take index packet])
          (create_loop io n max_length items (packet, 0, sent @ [take index packet]))"
        using "1.prems" by (intro room) auto
      with False "1.prems" items show ?thesis
        by (simp add: create_loop_flush nack_written_flush)
    qed
  qed
qed

end

section \<open>Properties\<close>

text \<open>The numbers a receiver reads from the bytes of one block.\<close>

definition read_nack_block :: "byte_io \<Rightarrow> nack \<Rightarrow> byte list \<Rightarrow> error + u16 list" where
  "read_nack_block io n0 block =
     bindE (CommonHeader_Parse io block) (\<lambda>h. bindE (Nack_Parse io n0 h) (\<lambda>n. Inr (packet_ids n)))"

lemma concat_concat_map: "concat (map (\<lambda>cs. concat (map f cs)) css) = concat (map f (concat css))"
  by (induction css) auto

lemma Unpack_concat: "Unpack (concat chunks) = concat (map Unpack chunks)"
  by (induction chunks) (auto simp: Unpack_def)

lemma Unpack_Pack_ascending: "seq_ascending ids \<Longrightarrow> Unpack (Pack ids) = ids"
  by (rule Unpack_Pack_ordered) (simp add: seq_ascending_def)

text \<open>C1. Fragmentation and delivery of NACKs. For any list of lost sequence numbers, any fill level
  of the output buffer and any packet limit from 16 to 65536 bytes, \<open>Nack::Create\<close> succeeds; what it
  hands to the callback followed by what stays in the buffer is the earlier content followed by
  RTCP blocks, each of which \<open>CommonHeader::Parse\<close> and \<open>Nack::Parse\<close> accept; together the blocks
  carry the same set of numbers that was requested. A list that ascends in sequence-number order (\<open>seq_ascending\<close>,
  also across the wrap-around at 65535) comes back as the same list. Another list need not: its order may change, and
  a number that it repeats may come back once. Above the limit the 16-bit length of a block could wrap.\<close>

theorem nack_create_parse:
  assumes "big_endian_io io" and "16 \<le> max_length" and "max_length \<le> 65536"
    and "max_length \<le> length packet" and "index \<le> max_length" and "packed n = []"
  shows "\<exists>packet' index' sent' blocks idss.
     Nack_Create io (SetPacketIds n ids) max_length (packet, index, sent) = Inr (packet', index', sent') \<and>
     index' \<le> max_length \<and>
     concat sent' @ take index' packet' = concat sent @ take index packet @ concat blocks \<and>
     map (read_nack_block io n0) blocks = map Inr idss \<and>
     set (concat idss) = set ids \<and> (seq_ascending ids \<longrightarrow> concat idss = ids)"
proof -
  let ?n = "SetPacketIds n ids"
  have packed: "packed ?n = Pack ids" using assms(6) by (simp add: SetPacketIds_def)
  from big_endian_io.create_loop_spec [OF assms(1-5), of ?n "packed ?n" sent]
  obtain packet' index' sent' first more where
    create: "Nack_Create io ?n max_length (packet, index, sent) = Inr (packet', index', sent')"
    and index': "index' \<le> max_length" and items: "concat (concat (first # more)) = Pack ids"
    and nonempty: "\<forall>c\<in>set (concat (first # more)). c \<noteq> [] \<and> length c < 65000"
    and pkts: "sent' @ [take index' packet'] =
      sent @ (take index packet @ nack_blocks io ?n first) # map (nack_blocks io ?n) more"
    unfolding nack_written_def Nack_Create_def packed by auto
  define chunks where "chunks = concat (first # more)"
  have chunks: "concat chunks = Pack ids" using items by (simp only: chunks_def)
  have "concat sent' @ take index' packet' = concat (sent' @ [take index' packet'])" by simp
  also have "\<dots> = concat sent @ take index packet @ concat (map (nack_block_bytes io ?n) chunks)"
    unfolding pkts by (simp add: chunks_def nack_blocks_def [abs_def] concat_concat_map [symmetric])
  finally have bytes: "concat sent' @ take index' packet' =
      concat sent @ take index packet @ concat (map (nack_block_bytes io ?n) chunks)" .
  have "read_nack_block io n0 (nack_block_bytes io ?n c) = Inr (Unpack c)" if "c \<in> set chunks" for c
    using big_endian_io.nack_block_parse [OF assms(1), of c ?n "[]" n0] nonempty that [unfolded chunks_def]
    by (auto simp: read_nack_block_def)
  then have "map (read_nack_block io n0) (map (nack_block_bytes io ?n) chunks) =
      map Inr (map Unpack chunks)"
    by simp
  moreover have "concat (map Unpack chunks) = Unpack (Pack ids)"
    by (simp flip: Unpack_concat add: chunks)
  ultimately show ?thesis
    using create index' bytes set_Unpack_Pack Unpack_Pack_ascending by metis
qed

theorem nack_create_parse_witness:
  "\<exists>packet' index' sent' blocks idss.
     Nack_Create be_io (SetPacketIds \<lparr>nack_sender_ssrc = 1, nack_media_ssrc = 2, packed = [], packet_ids = []\<rparr>
       [65535, 0, 40]) 20 (replicate 20 0, 0, []) = Inr (packet', index', sent') \<and>
     index' \<le> 20 \<and>
     concat sent' @ take index' packet' = concat [] @ take 0 (replicate 20 0) @ concat blocks \<and>
     map (read_nack_block be_io \<lparr>nack_sender_ssrc = 0, nack_media_ssrc = 0, packed = [], packet_ids = []\<rparr>)
       blocks = map Inr idss \<and>
     concat idss = [65535, 0, 40]"
proof -
  have "seq_ascending [65535, 0, 40]" by code_simp
  then show ?thesis
    using nack_create_parse [OF be.big_endian_io_axioms, of 20 "replicate 20 0" 0
        "\<lparr>nack_sender_ssrc = 1, nack_media_ssrc = 2, packed = [], packet_ids = []\<rparr>" "[65535, 0, 40]" "[]"
        "\<lparr>nack_sender_ssrc = 0, nack_media_ssrc = 0, packed = [], packet_ids = []\<rparr>"]
    by simp blast
qed

end
