(* ===== verification/Rtp_Utils.thy ===== *)
theory Rtp_Utils
  imports Prelude
begin

text \<open>
  The packet classification and time helpers of \<open>modules/rtp_rtcp/rtp_utils.cpp\<close> and
  \<open>rtp_utils.h\<close>, and the NACK statistics of \<open>rtcp_nack_stats.cpp\<close>. WebRTC's
  \<open>DivideRoundToNearest\<close> and \<open>IsNewerSequenceNumber\<close> are arguments.
\<close>

datatype RtpPacketType = k_rtp | k_rtcp | k_unknown

definition k_min_rtp_packet_len :: nat where
  "k_min_rtp_packet_len = 12"

definition k_min_rtcp_packet_len :: nat where
  "k_min_rtcp_packet_len = 4"

definition has_correct_rtp_version :: "byte list \<Rightarrow> error + bool" where
  "has_correct_rtp_version packet = bindE (byte_at packet 0) (\<lambda>b. Inr (drop_bit 6 b = 2))"

definition payload_type_is_reserved_for_rtcp :: "byte \<Rightarrow> bool" where
  "payload_type_is_reserved_for_rtcp payload_type \<longleftrightarrow> 64 \<le> payload_type \<and> payload_type < 96"

definition is_rtp_packet :: "byte list \<Rightarrow> error + bool" where
  "is_rtp_packet packet =
     (if length packet \<ge> k_min_rtp_packet_len
      then bindE (has_correct_rtp_version packet) (\<lambda>ok.
             if ok then bindE (byte_at packet 1) (\<lambda>b. Inr (\<not> payload_type_is_reserved_for_rtcp (b AND 0x7F)))
             else Inr False)
      else Inr False)"

definition is_rtcp_packet :: "byte list \<Rightarrow> error + bool" where
  "is_rtcp_packet packet =
     (if length packet \<ge> k_min_rtcp_packet_len
      then bindE (has_correct_rtp_version packet) (\<lambda>ok.
             if ok then bindE (byte_at packet 1) (\<lambda>b. Inr (payload_type_is_reserved_for_rtcp (b AND 0x7F)))
             else Inr False)
      else Inr False)"

definition infer_rtp_packet_type :: "byte list \<Rightarrow> error + RtpPacketType" where
  "infer_rtp_packet_type packet =
     bindE (is_rtp_packet packet) (\<lambda>rtp.
       if rtp then Inr k_rtp
       else bindE (is_rtcp_packet packet) (\<lambda>rtcp. if rtcp then Inr k_rtcp else Inr k_unknown))"

definition parse_rtp_sequence_number :: "byte_io \<Rightarrow> byte list \<Rightarrow> error + u16" where
  "parse_rtp_sequence_number io packet = rd16 io packet 2"

definition parse_rtp_ssrc :: "byte_io \<Rightarrow> byte list \<Rightarrow> error + u32" where
  "parse_rtp_ssrc io packet = rd32 io packet 8"

definition get_rtcp_type :: "byte list \<Rightarrow> error + int" where
  "get_rtcp_type data =
     (if length data < k_min_rtcp_packet_len then Inl Rejected
      else bindE (byte_at data 1) (\<lambda>b. Inr (uint b)))"

text \<open>NTP times are pairs of seconds and fractions.\<close>

definition compact_ntp :: "u32 \<times> u32 \<Rightarrow> u32" where
  "compact_ntp ntp_time = push_bit 16 (fst ntp_time) OR drop_bit 16 (snd ntp_time)"

definition compact_ntp_rtt_to_ms :: "(int \<Rightarrow> int \<Rightarrow> int) \<Rightarrow> u32 \<Rightarrow> int" where
  "compact_ntp_rtt_to_ms DivideRoundToNearest compact_ntp_interval =
     (if compact_ntp_interval > 0x80000000 then 1
      else max (DivideRoundToNearest (uint compact_ntp_interval * 1000) (2 ^ 16)) 1)"

section \<open>RtcpNackStats\<close>

record nack_stats =
  max_sequence_number :: u16
  requests :: u32
  unique_requests :: u32

definition RtcpNackStats_init :: nack_stats where
  "RtcpNackStats_init = \<lparr>max_sequence_number = 0, requests = 0, unique_requests = 0\<rparr>"

definition ReportRequest :: "(u16 \<Rightarrow> u16 \<Rightarrow> bool) \<Rightarrow> nack_stats \<Rightarrow> u16 \<Rightarrow> nack_stats" where
  "ReportRequest IsNewerSequenceNumber st sequence_number =
     (let st = (if requests st = 0 \<or> IsNewerSequenceNumber sequence_number (max_sequence_number st)
                then st\<lparr>max_sequence_number := sequence_number, unique_requests := unique_requests st + 1\<rparr>
                else st)
      in st\<lparr>requests := requests st + 1\<rparr>)"

section \<open>Properties\<close>

lemma in_bounds_infer: "in_bounds (infer_rtp_packet_type packet)"
  by (auto simp: infer_rtp_packet_type_def is_rtp_packet_def is_rtcp_packet_def
      has_correct_rtp_version_def in_bounds_bindE k_min_rtp_packet_len_def k_min_rtcp_packet_len_def)

lemma infer_rtp_iff:
  "infer_rtp_packet_type packet = Inr k_rtp \<longleftrightarrow>
     12 \<le> length packet \<and> drop_bit 6 (packet ! 0) = 2 \<and>
     \<not> (64 \<le> packet ! 1 AND 0x7F \<and> packet ! 1 AND 0x7F < 96)"
  by (auto simp: infer_rtp_packet_type_def is_rtp_packet_def is_rtcp_packet_def byte_at_def
      has_correct_rtp_version_def k_min_rtp_packet_len_def k_min_rtcp_packet_len_def
      payload_type_is_reserved_for_rtcp_def split: if_splits)

lemma infer_rtcp_iff:
  "infer_rtp_packet_type packet = Inr k_rtcp \<longleftrightarrow>
     4 \<le> length packet \<and> drop_bit 6 (packet ! 0) = 2 \<and>
     64 \<le> packet ! 1 AND 0x7F \<and> packet ! 1 AND 0x7F < 96"
  by (auto simp: infer_rtp_packet_type_def is_rtp_packet_def is_rtcp_packet_def byte_at_def
      has_correct_rtp_version_def k_min_rtp_packet_len_def k_min_rtcp_packet_len_def
      payload_type_is_reserved_for_rtcp_def split: if_splits)

end
