(* ===== verification/Rtcp_Receiver.thy ===== *)
theory Rtcp_Receiver
  imports Rtcp_Nack Rtp_Utils
begin

text \<open>
  \<open>RTCPReceiver\<close> (\<open>modules/rtp_rtcp/rtcp_receiver.cpp\<close>): the loop over the blocks of a compound
  packet and the handlers it dispatches to. The clock and \<open>DivideRoundToNearest\<close> of WebRTC are
  the environment of a call; calls of the observer are events appended to a list.
\<close>

section \<open>State and environment\<close>

record rtcp_env =
  env_io :: byte_io
  CurrentTime :: int
  CurrentNtpTime :: "u32 \<times> u32"
  ConvertTimestampToNtpTime :: "int \<Rightarrow> u32 \<times> u32"
  DivideRoundToNearest :: "int \<Rightarrow> int \<Rightarrow> int"

datatype observer_event =
    OnLocalRtcpPacket bool "byte list"
  | OnNetworkInfo int int byte u32
  | OnNackReceived bool "u16 list"

record rtcp_receiver =
  audio :: bool
  has_observer :: bool
  num_skipped_packets :: u32
  registered_ssrcs :: "u32 list"
  last_received_rb :: "int option"
  remote_ssrc :: u32
  remote_sender_ntp_time :: "u32 \<times> u32"
  remote_sender_rtp_time :: u32
  last_received_sr_ntp :: "u32 \<times> u32"
  remote_sender_packet_count :: u32
  remote_sender_octet_count :: u64
  remote_sender_reports_count :: u64
  events :: "observer_event list"

record packet_information =
  packet_type_flags :: u32
  info_remote_ssrc :: u32
  nack_sequence_numbers :: "u16 list"
  info_rtt_ms :: int
  receiver_estimated_max_bitrate_bps :: u32

text \<open>The constructor: \<open>last_received_rb_\<close> starts at plus infinity (\<open>None\<close>), the NTP times at 0.\<close>

definition RTCPReceiver_init :: "bool \<Rightarrow> bool \<Rightarrow> u32 \<Rightarrow> u32 \<Rightarrow> rtcp_receiver" where
  "RTCPReceiver_init config_audio config_observer config_remote_ssrc config_local_ssrc =
     \<lparr>audio = config_audio, has_observer = config_observer, num_skipped_packets = 0,
      registered_ssrcs = [config_local_ssrc], last_received_rb = None,
      remote_ssrc = config_remote_ssrc, remote_sender_ntp_time = (0, 0), remote_sender_rtp_time = 0,
      last_received_sr_ntp = (0, 0), remote_sender_packet_count = 0, remote_sender_octet_count = 0,
      remote_sender_reports_count = 0, events = []\<rparr>"

section \<open>Handlers\<close>

definition skip_packet :: "rtcp_receiver \<Rightarrow> rtcp_receiver" where
  "skip_packet r = r\<lparr>num_skipped_packets := num_skipped_packets r + 1\<rparr>"

definition notify :: "observer_event \<Rightarrow> rtcp_receiver \<Rightarrow> rtcp_receiver" where
  "notify e r = (if has_observer r then r\<lparr>events := events r @ [e]\<rparr> else r)"

definition IsRegisteredSsrc :: "rtcp_receiver \<Rightarrow> u32 \<Rightarrow> bool" where
  "IsRegisteredSsrc r ssrc \<longleftrightarrow> list_ex (\<lambda>rssrc. rssrc = ssrc) (registered_ssrcs r)"

definition HandleReportBlock :: "rtcp_env \<Rightarrow> report_block \<Rightarrow> rtcp_receiver \<Rightarrow> rtcp_receiver" where
  "HandleReportBlock env b r =
     (if \<not> IsRegisteredSsrc r (source_ssrc b) then r
      else
        let now = CurrentTime env;
            r = r\<lparr>last_received_rb := Some now\<rparr>;
            send_ntp_time = last_sr b in
        if send_ntp_time \<noteq> 0 then
          let delay_ntp = delay_since_last_sr b;
              receive_ntp_time = compact_ntp (ConvertTimestampToNtpTime env now);
              rtt_ntp = receive_ntp_time - send_ntp_time - delay_ntp;
              rtt_ms = compact_ntp_rtt_to_ms (DivideRoundToNearest env) rtt_ntp in
          notify (OnNetworkInfo rtt_ms (cumulative_packets_lost b) (fraction_lost b) (jitter b)) r
        else r)"

text \<open>A report class parses into a fresh object; its fields without an initialiser start with
  indeterminate values, the argument \<open>sr0\<close>.\<close>

definition HandleSenderReport ::
  "rtcp_env \<Rightarrow> sender_report \<Rightarrow> common_header \<Rightarrow> rtcp_receiver \<times> packet_information \<Rightarrow>
   error + rtcp_receiver \<times> packet_information" where
  "HandleSenderReport env sr0 h s = (case s of (r, info) \<Rightarrow>
     case SenderReport_Parse (env_io env) sr0 h of
       Inl Rejected \<Rightarrow> Inr (skip_packet r, info)
     | Inl e \<Rightarrow> Inl e
     | Inr sr \<Rightarrow>
         let ssrc = sr_sender_ssrc sr;
             info = info\<lparr>info_remote_ssrc := ssrc\<rparr>;
             r = (if remote_ssrc r = 0 then r\<lparr>remote_ssrc := ssrc\<rparr> else r);
             (r, info) =
               (if remote_ssrc r = ssrc then
                  (r\<lparr>remote_sender_ntp_time := (ntp_seconds sr, ntp_fractions sr),
                     remote_sender_rtp_time := rtp_timestamp sr,
                     last_received_sr_ntp := CurrentNtpTime env,
                     remote_sender_packet_count := sender_packet_count sr,
                     remote_sender_octet_count := ucast (sender_octet_count sr),
                     remote_sender_reports_count := remote_sender_reports_count r + 1\<rparr>,
                   info\<lparr>packet_type_flags := packet_type_flags info OR 0x0002\<rparr>)
                else (r, info\<lparr>packet_type_flags := packet_type_flags info OR 0x0004\<rparr>))
         in Inr (fold (HandleReportBlock env) (sr_report_blocks sr) r, info))"

definition HandleReceiverReport ::
  "rtcp_env \<Rightarrow> receiver_report \<Rightarrow> common_header \<Rightarrow> rtcp_receiver \<times> packet_information \<Rightarrow>
   error + rtcp_receiver \<times> packet_information" where
  "HandleReceiverReport env rr0 h s = (case s of (r, info) \<Rightarrow>
     case ReceiverReport_Parse (env_io env) rr0 h of
       Inl Rejected \<Rightarrow> Inr (skip_packet r, info)
     | Inl e \<Rightarrow> Inl e
     | Inr rr \<Rightarrow>
         let info = info\<lparr>info_remote_ssrc := rr_sender_ssrc rr,
                        packet_type_flags := packet_type_flags info OR 0x0004\<rparr>
         in Inr (fold (HandleReportBlock env) (rr_report_blocks rr) r, info))"

definition HandleNack ::
  "rtcp_env \<Rightarrow> nack \<Rightarrow> common_header \<Rightarrow> rtcp_receiver \<times> packet_information \<Rightarrow>
   error + rtcp_receiver \<times> packet_information" where
  "HandleNack env n0 h s = (case s of (r, info) \<Rightarrow>
     case Nack_Parse (env_io env) n0 h of
       Inl Rejected \<Rightarrow> Inr (skip_packet r, info)
     | Inl e \<Rightarrow> Inl e
     | Inr n \<Rightarrow> Inr (notify (OnNackReceived (audio r) (packet_ids n)) r, info))"

text \<open>The two nested \<open>switch\<close> statements of the loop.\<close>

definition dispatch ::
  "rtcp_env \<Rightarrow> sender_report \<Rightarrow> nack \<Rightarrow> common_header \<Rightarrow> rtcp_receiver \<times> packet_information \<Rightarrow>
   error + rtcp_receiver \<times> packet_information" where
  "dispatch env sr0 n0 h s =
     (if packet_type h = 200 then HandleSenderReport env sr0 h s
      else if packet_type h = 205 then
        if count_or_fmt h = 1 then HandleNack env n0 h s
        else Inr (skip_packet (fst s), snd s)
      else Inr s)"

section \<open>The loop over a compound packet\<close>

text \<open>
  \<open>parse_loop\<close> runs the \<open>for\<close> loop from an offset; a block that ends past the packet would leave the
  loop condition \<open>next_block != packet.end()\<close> true forever, which the model reports as an access
  out of bounds.
\<close>

function parse_loop ::
  "rtcp_env \<Rightarrow> sender_report \<Rightarrow> nack \<Rightarrow> byte list \<Rightarrow> nat \<Rightarrow> rtcp_receiver \<times> packet_information \<Rightarrow>
   error + rtcp_receiver \<times> packet_information" where
  "parse_loop env sr0 n0 pkt next_block s =
     (if next_block = length pkt then Inr s
      else if next_block > length pkt then Inl OutOfBounds
      else case CommonHeader_Parse (env_io env) (drop next_block pkt) of
        Inl Rejected \<Rightarrow>
          if next_block = 0 then Inl Rejected else Inr (skip_packet (fst s), snd s)
      | Inl e \<Rightarrow> Inl e
      | Inr h \<Rightarrow>
          (case dispatch env sr0 n0 h s of
             Inl e \<Rightarrow> Inl e
           | Inr s \<Rightarrow> parse_loop env sr0 n0 pkt (next_block + 4 + NextPacket h) s))"
  by pat_completeness auto
termination
  by (relation "measure (\<lambda>(_, _, _, pkt, next_block, _). Suc (length pkt) - next_block)") auto

declare parse_loop.simps [simp del]

text \<open>\<open>ParseCompoundPacket\<close> returns \<open>false\<close> on every path; its effect is on the receiver.\<close>

definition ParseCompoundPacket ::
  "rtcp_env \<Rightarrow> sender_report \<Rightarrow> nack \<Rightarrow> byte list \<Rightarrow> rtcp_receiver \<Rightarrow> packet_information \<Rightarrow>
   error + rtcp_receiver \<times> packet_information \<times> bool" where
  "ParseCompoundPacket env sr0 n0 pkt r info =
     (case parse_loop env sr0 n0 pkt 0 (r, info) of
        Inl Rejected \<Rightarrow> Inr (r, info, False)
      | Inl e \<Rightarrow> Inl e
      | Inr (r, info) \<Rightarrow> Inr (r, info, False))"

definition PacketInformation_init :: packet_information where
  "PacketInformation_init =
     \<lparr>packet_type_flags = 0, info_remote_ssrc = 0, nack_sequence_numbers = [], info_rtt_ms = 0,
      receiver_estimated_max_bitrate_bps = 0\<rparr>"

definition IncomingRtcpPacket ::
  "rtcp_env \<Rightarrow> sender_report \<Rightarrow> nack \<Rightarrow> byte list \<Rightarrow> rtcp_receiver \<Rightarrow> error + rtcp_receiver" where
  "IncomingRtcpPacket env sr0 n0 pkt r =
     (if pkt = [] then Inr r
      else bindE (ParseCompoundPacket env sr0 n0 pkt r PacketInformation_init)
        (\<lambda>(r, _, _). Inr r))"

text \<open>\<open>NTP\<close>: the values it stores through its out-parameters; \<open>NtpTime::Valid\<close> (a non-zero time) is an
  argument.\<close>

definition NTP ::
  "(u32 \<times> u32 \<Rightarrow> bool) \<Rightarrow> rtcp_receiver \<Rightarrow>
   ((u32 \<times> u32) \<times> (u32 \<times> u32) \<times> u32 \<times> u32 \<times> u64 \<times> u64) option" where
  "NTP Valid r =
     (if \<not> Valid (last_received_sr_ntp r) then None
      else Some (remote_sender_ntp_time r, last_received_sr_ntp r, remote_sender_rtp_time r,
                 remote_sender_packet_count r, remote_sender_octet_count r,
                 remote_sender_reports_count r))"

section \<open>Properties\<close>

text \<open>No handler goes wrong on a header that was parsed from the packet.\<close>

lemma HandleSenderReport_returns:
  assumes "unat (payload_size h) \<le> length (payload h)"
  shows "\<exists>s'. HandleSenderReport env sr0 h s = Inr s'"
  using only_rejects_SenderReport_Parse [OF assms, of "env_io env" sr0]
  by (cases s) (auto simp: HandleSenderReport_def Let_def elim!: only_rejectsE)

lemma HandleNack_returns:
  assumes "unat (payload_size h) \<le> length (payload h)"
  shows "\<exists>s'. HandleNack env n0 h s = Inr s'"
  using only_rejects_Nack_Parse [OF assms, of "env_io env" n0]
  by (cases s) (auto simp: HandleNack_def elim!: only_rejectsE)

lemma dispatch_returns:
  assumes "CommonHeader_Parse (env_io env) buffer = Inr h"
  shows "\<exists>s'. dispatch env sr0 n0 h s = Inr s'"
  using HandleSenderReport_returns HandleNack_returns CommonHeader_ParseD(4) [OF assms]
  by (simp add: dispatch_def)

lemma NextPacket_within:
  assumes "CommonHeader_Parse io buffer = Inr h"
  shows "4 + NextPacket h \<le> length buffer"
  using CommonHeader_ParseD [OF assms] by (simp add: NextPacket_def)

lemma parse_loop_only_rejects:
  "next_block \<le> length pkt \<Longrightarrow> only_rejects (parse_loop env sr0 n0 pkt next_block s)"
proof (induction env sr0 n0 pkt next_block s rule: parse_loop.induct)
  case (1 env sr0 n0 pkt next_block s)
  show ?case
  proof (cases "next_block = length pkt")
    case True
    then show ?thesis by (simp add: parse_loop.simps)
  next
    case False
    then have lt: "next_block < length pkt" using "1.prems" by simp
    from only_rejects_CommonHeader_Parse [of "env_io env" "drop next_block pkt"] show ?thesis
    proof (rule only_rejectsE)
      assume "CommonHeader_Parse (env_io env) (drop next_block pkt) = Inl Rejected"
      with lt show ?thesis by (simp add: parse_loop.simps)
    next
      fix h assume h: "CommonHeader_Parse (env_io env) (drop next_block pkt) = Inr h"
      obtain s' where d: "dispatch env sr0 n0 h s = Inr s'" using dispatch_returns [OF h] by blast
      have "next_block + 4 + NextPacket h \<le> length pkt"
        using NextPacket_within [OF h] lt by simp
      with "1.IH" [OF False _ h d] lt
      have "only_rejects (parse_loop env sr0 n0 pkt (next_block + 4 + NextPacket h) s')" by simp
      with h d lt show ?thesis by (simp add: parse_loop.simps [of env sr0 n0 pkt next_block])
    qed
  qed
qed

lemma Incoming_returns:
  "\<exists>r'. IncomingRtcpPacket env sr0 n0 pkt r = Inr r'"
proof (cases "pkt = []")
  case True
  then show ?thesis by (simp add: IncomingRtcpPacket_def)
next
  case False
  have "only_rejects (parse_loop env sr0 n0 pkt 0 (r, PacketInformation_init))"
    by (rule parse_loop_only_rejects) simp
  then show ?thesis
    using False by (auto simp: IncomingRtcpPacket_def ParseCompoundPacket_def elim!: only_rejectsE)
qed

text \<open>C4. Robustness of the RTCP receive path. Whatever bytes arrive, in whatever state the receiver is,
  \<open>IncomingRtcpPacket\<close> returns normally: the loop over the compound packet ends, and no read of a
  header, a report, a report block or a NACK item leaves the packet.\<close>

theorem incoming_rtcp_never_faults:
  "\<exists>r'. IncomingRtcpPacket env sr0 n0 pkt r = Inr r'"
  by (rule Incoming_returns)

subsection \<open>From the sender of a NACK to the receiver's observer\<close>

lemma parse_loop_nack_blocks:
  assumes "big_endian_io (env_io env)" and "\<forall>c\<in>set chunks. c \<noteq> [] \<and> length c < 65000"
    and "has_observer r"
  shows "parse_loop env sr0 n0 (pre @ nack_blocks (env_io env) n chunks) (length pre) (r, info) =
    Inr (r\<lparr>events := events r @ map (\<lambda>c. OnNackReceived (audio r) (Unpack c)) chunks\<rparr>, info)"
  using assms(2,3)
proof (induction chunks arbitrary: pre r)
  case Nil
  then show ?case by (simp add: nack_blocks_def parse_loop.simps)
next
  case (Cons c chunks)
  let ?io = "env_io env"
  let ?b = "nack_block_bytes ?io n c" and ?rest = "nack_blocks ?io n chunks"
  from Cons.prems big_endian_io.nack_block_parse [OF assms(1), of c n ?rest n0]
  obtain h where h: "CommonHeader_Parse ?io (?b @ ?rest) = Inr h" "packet_type h = 205"
      "count_or_fmt h = 1" "drop (NextPacket h) (payload h) = ?rest"
    and parse: "Nack_Parse ?io n0 h = Inr (n0\<lparr>nack_sender_ssrc := nack_sender_ssrc n,
       nack_media_ssrc := nack_media_ssrc n, packed := c, packet_ids := Unpack c\<rparr>)"
    by auto
  let ?r = "r\<lparr>events := events r @ [OnNackReceived (audio r) (Unpack c)]\<rparr>"
  have step: "dispatch env sr0 n0 h (r, info) = Inr (?r, info)"
    using h parse Cons.prems by (simp add: dispatch_def HandleNack_def notify_def)
  have "length (drop (NextPacket h) (payload h)) = length ?rest" by (simp only: h(4))
  moreover have "NextPacket h \<le> length (payload h)" and "length (payload h) + 4 = length (?b @ ?rest)"
    using NextPacket_within [OF h(1)] CommonHeader_ParseD(2,3) [OF h(1)] by auto
  ultimately have next': "4 + NextPacket h = length ?b" by simp
  have "parse_loop env sr0 n0 ((pre @ ?b) @ ?rest) (length (pre @ ?b)) (?r, info) =
    Inr (?r\<lparr>events := events ?r @ map (\<lambda>c. OnNackReceived (audio ?r) (Unpack c)) chunks\<rparr>, info)"
    using Cons.prems by (intro Cons.IH) auto
  moreover have "0 < length ?b"
    unfolding big_endian_io.length_nack_block [OF assms(1)] by simp
  ultimately show ?case
    using h(1) step next'
    by (simp add: parse_loop.simps [of env sr0 n0 _ "length pre"] nack_blocks_def add.assoc)
qed

lemma Incoming_nack_blocks:
  assumes "big_endian_io (env_io env)" and "\<forall>c\<in>set chunks. c \<noteq> [] \<and> length c < 65000"
    and "has_observer r"
  shows "IncomingRtcpPacket env sr0 n0 (nack_blocks (env_io env) n chunks) r =
    Inr (r\<lparr>events := events r @ map (\<lambda>c. OnNackReceived (audio r) (Unpack c)) chunks\<rparr>)"
proof (cases "chunks = []")
  case True
  then show ?thesis by (simp add: IncomingRtcpPacket_def nack_blocks_def)
next
  case False
  then obtain c cs where c: "chunks = c # cs" by (cases chunks) auto
  have "nack_blocks (env_io env) n chunks \<noteq> []"
    by (simp add: c nack_blocks_def nack_block_bytes_def header_bytes_def)
  then show ?thesis
    using parse_loop_nack_blocks [OF assms, of sr0 n0 "[]" n]
    by (simp add: IncomingRtcpPacket_def ParseCompoundPacket_def)
qed

text \<open>The packets of a burst, delivered one after the other.\<close>

fun receive_all ::
  "rtcp_env \<Rightarrow> sender_report \<Rightarrow> nack \<Rightarrow> byte list list \<Rightarrow> rtcp_receiver \<Rightarrow> error + rtcp_receiver" where
  "receive_all env sr0 n0 [] r = Inr r"
| "receive_all env sr0 n0 (pkt # pkts) r =
     bindE (IncomingRtcpPacket env sr0 n0 pkt r) (receive_all env sr0 n0 pkts)"

lemma receive_all_nack_blocks:
  assumes "big_endian_io (env_io env)" and "\<forall>c\<in>set (concat groups). c \<noteq> [] \<and> length c < 65000"
    and "has_observer r"
  shows "receive_all env sr0 n0 (map (nack_blocks (env_io env) n) groups) r =
    Inr (r\<lparr>events := events r @ map (\<lambda>c. OnNackReceived (audio r) (Unpack c)) (concat groups)\<rparr>)"
  using assms(2,3)
  by (induction groups arbitrary: r) (auto simp: Incoming_nack_blocks [OF assms(1)])

text \<open>A NACK request reaches the sender of the media. The packets that \<open>Nack::Create\<close> produces for a list
  of lost sequence numbers (those handed to the callback, then the rest of the buffer), fed to
  \<open>RTCPReceiver::IncomingRtcpPacket\<close> on the other side, raise \<open>OnNackReceived\<close> with exactly the
  requested numbers, in the requested order when that is sequence-number order, and change nothing
  else in the receiver.\<close>

theorem nack_end_to_end:
  assumes "big_endian_io (env_io env)" and "16 \<le> max_length" and "max_length \<le> 65536"
    and "max_length \<le> length packet" and "packed n = []" and "has_observer r"
  shows "\<exists>packet' index' sent' idss.
     Nack_Create (env_io env) (SetPacketIds n ids) max_length (packet, 0, []) = Inr (packet', index', sent') \<and>
     receive_all env sr0 n0 (sent' @ [take index' packet']) r =
       Inr (r\<lparr>events := events r @ map (OnNackReceived (audio r)) idss\<rparr>) \<and>
     set (concat idss) = set ids \<and> (seq_ascending ids \<longrightarrow> concat idss = ids)"
proof -
  let ?n = "SetPacketIds n ids" and ?io = "env_io env"
  have packed: "packed ?n = Pack ids" using assms(5) by (simp add: SetPacketIds_def)
  from big_endian_io.create_loop_spec [OF assms(1-4), of 0 ?n "packed ?n" "[]"]
  obtain packet' index' sent' first more where
    create: "Nack_Create ?io ?n max_length (packet, 0, []) = Inr (packet', index', sent')"
    and items: "concat (concat (first # more)) = Pack ids"
    and nonempty: "\<forall>c\<in>set (concat (first # more)). c \<noteq> [] \<and> length c < 65000"
    and pkts: "sent' @ [take index' packet'] = map (nack_blocks ?io ?n) (first # more)"
    unfolding nack_written_def Nack_Create_def packed by auto
  let ?idss = "map Unpack (concat (first # more))"
  have "receive_all env sr0 n0 (sent' @ [take index' packet']) r =
      Inr (r\<lparr>events := events r @ map (OnNackReceived (audio r)) ?idss\<rparr>)"
    unfolding pkts by (subst receive_all_nack_blocks [OF assms(1) nonempty assms(6)]) (simp add: o_def)
  moreover have "concat ?idss = Unpack (Pack ids)"
    by (simp only: Unpack_concat [symmetric] items)
  ultimately show ?thesis
    using create set_Unpack_Pack Unpack_Pack_ascending by metis
qed

theorem nack_end_to_end_witness:
  "\<exists>packet' index' sent' idss.
     Nack_Create be_io (SetPacketIds \<lparr>nack_sender_ssrc = 1, nack_media_ssrc = 2, packed = [], packet_ids = []\<rparr>
       [7, 9]) 1472 (replicate 1500 0, 0, []) = Inr (packet', index', sent') \<and>
     receive_all \<lparr>env_io = be_io, CurrentTime = 0, CurrentNtpTime = (0, 0),
         ConvertTimestampToNtpTime = (\<lambda>_. (0, 0)), DivideRoundToNearest = (div)\<rparr>
       \<lparr>sr_sender_ssrc = 0, ntp_seconds = 0, ntp_fractions = 0, rtp_timestamp = 0,
        sender_packet_count = 0, sender_octet_count = 0, sr_report_blocks = []\<rparr>
       \<lparr>nack_sender_ssrc = 0, nack_media_ssrc = 0, packed = [], packet_ids = []\<rparr>
       (sent' @ [take index' packet']) (RTCPReceiver_init False True 5 6) =
       Inr ((RTCPReceiver_init False True 5 6)\<lparr>events := map (OnNackReceived False) idss\<rparr>) \<and>
     concat idss = [7, 9]"
proof -
  have "seq_ascending [7, 9]" by code_simp
  then show ?thesis
    using nack_end_to_end [of "\<lparr>env_io = be_io, CurrentTime = 0, CurrentNtpTime = (0, 0),
         ConvertTimestampToNtpTime = (\<lambda>_. (0, 0)), DivideRoundToNearest = (div)\<rparr>" 1472
       "replicate 1500 0" "\<lparr>nack_sender_ssrc = 1, nack_media_ssrc = 2, packed = [], packet_ids = []\<rparr>"
       "RTCPReceiver_init False True 5 6" "[7, 9]"
       "\<lparr>sr_sender_ssrc = 0, ntp_seconds = 0, ntp_fractions = 0, rtp_timestamp = 0,
        sender_packet_count = 0, sender_octet_count = 0, sr_report_blocks = []\<rparr>"
       "\<lparr>nack_sender_ssrc = 0, nack_media_ssrc = 0, packed = [], packet_ids = []\<rparr>"]
      be.big_endian_io_axioms
    by (simp add: RTCPReceiver_init_def) blast
qed

text \<open>Receiver reports are dropped: whatever its contents, a compound packet that consists of one
  block of type 201 leaves the receiver, its statistics and its observer exactly as they were. The
  handler \<open>HandleReceiverReport\<close> exists, but the switch over the packet type never reaches it.\<close>

theorem receiver_report_ignored:
  assumes "CommonHeader_Parse (env_io env) pkt = Inr h" and "packet_type h = 201"
    and "4 + NextPacket h = length pkt"
  shows "IncomingRtcpPacket env sr0 n0 pkt r = Inr r"
proof -
  have "pkt \<noteq> []" using assms(3) by auto
  moreover have "parse_loop env sr0 n0 pkt 0 s = Inr s" for s
    using assms calculation by (simp add: parse_loop.simps [of _ _ _ _ 0] dispatch_def)
      (simp add: parse_loop.simps)
  ultimately show ?thesis by (simp add: IncomingRtcpPacket_def ParseCompoundPacket_def)
qed

theorem receiver_report_ignored_witness:
  "IncomingRtcpPacket \<lparr>env_io = be_io, CurrentTime = 0, CurrentNtpTime = (0, 0),
       ConvertTimestampToNtpTime = (\<lambda>_. (0, 0)), DivideRoundToNearest = (div)\<rparr>
     \<lparr>sr_sender_ssrc = 0, ntp_seconds = 0, ntp_fractions = 0, rtp_timestamp = 0,
      sender_packet_count = 0, sender_octet_count = 0, sr_report_blocks = []\<rparr>
     \<lparr>nack_sender_ssrc = 0, nack_media_ssrc = 0, packed = [], packet_ids = []\<rparr>
     [0x80, 201, 0, 1, 0, 0, 0, 9] (RTCPReceiver_init False True 5 6) = Inr (RTCPReceiver_init False True 5 6)"
proof (rule receiver_report_ignored)
  show "CommonHeader_Parse (env_io \<lparr>env_io = be_io, CurrentTime = 0, CurrentNtpTime = (0, 0),
       ConvertTimestampToNtpTime = (\<lambda>_. (0, 0)), DivideRoundToNearest = (div)\<rparr>)
     [0x80, 201, 0, 1, 0, 0, 0, 9] =
     Inr \<lparr>count_or_fmt = 0, packet_type = 201, padding_size = 0, payload_size = 4, payload = [0, 0, 0, 9]\<rparr>"
    by code_simp
qed (simp_all add: NextPacket_def)

end
