(* ===== verification/Extension_Map.thy ===== *)
theory Extension_Map
  imports Prelude
begin

text \<open>
  \<open>RtpHeaderExtensionMap\<close> (\<open>modules/rtp_rtcp/include/rtp_header_extension_map.{h,cpp}\<close>): the table
  from extension types to the ids negotiated for them. The array \<open>ids_\<close> is a function of the
  type. The bounds \<open>webrtc::RtpExtension::kMinId\<close>, \<open>kMaxId\<close> and the URIs are constants of WebRTC and
  form the argument \<open>cfg\<close>; what the code relies on is the locale \<open>extension_ids\<close>.
\<close>

section \<open>Data\<close>

datatype RTPExtensionType =
    kRtpExtensionNone
  | kRtpExtensionTransmissionTimeOffset
  | kRtpExtensionAudioLevel
  | kRtpExtensionCsrcAudioLevel
  | kRtpExtensionInbandComfortNoise
  | kRtpExtensionAbsoluteSendTime
  | kRtpExtensionAbsoluteCaptureTime
  | kRtpExtensionVideoRotation
  | kRtpExtensionTransportSequenceNumber
  | kRtpExtensionTransportSequenceNumber02
  | kRtpExtensionPlayoutDelay
  | kRtpExtensionVideoContentType
  | kRtpExtensionVideoLayersAllocation
  | kRtpExtensionVideoTiming
  | kRtpExtensionRtpStreamId
  | kRtpExtensionRepairedRtpStreamId
  | kRtpExtensionMid
  | kRtpExtensionGenericFrameDescriptor00
  | kRtpExtensionGenericFrameDescriptor02
  | kRtpExtensionColorSpace
  | kRtpExtensionVideoFrameTrackingId

text \<open>The types after \<open>kRtpExtensionNone\<close>, in the order of the enumeration.\<close>

definition extension_types :: "RTPExtensionType list" where
  "extension_types =
     [kRtpExtensionTransmissionTimeOffset, kRtpExtensionAudioLevel, kRtpExtensionCsrcAudioLevel,
      kRtpExtensionInbandComfortNoise, kRtpExtensionAbsoluteSendTime, kRtpExtensionAbsoluteCaptureTime,
      kRtpExtensionVideoRotation, kRtpExtensionTransportSequenceNumber,
      kRtpExtensionTransportSequenceNumber02, kRtpExtensionPlayoutDelay, kRtpExtensionVideoContentType,
      kRtpExtensionVideoLayersAllocation, kRtpExtensionVideoTiming, kRtpExtensionRtpStreamId,
      kRtpExtensionRepairedRtpStreamId, kRtpExtensionMid, kRtpExtensionGenericFrameDescriptor00,
      kRtpExtensionGenericFrameDescriptor02, kRtpExtensionColorSpace,
      kRtpExtensionVideoFrameTrackingId]"

record ext_config =
  kMinId :: int
  kMaxId :: int
  Uri :: "RTPExtensionType \<Rightarrow> string"

record ext_map =
  ids :: "RTPExtensionType \<Rightarrow> byte"
  extmap_allow_mixed :: bool

definition kInvalidId :: byte where
  "kInvalidId = 0"

text \<open>The table \<open>kExtensions\<close>, in its own order.\<close>

definition kExtensions :: "ext_config \<Rightarrow> (RTPExtensionType \<times> string) list" where
  "kExtensions cfg = map (\<lambda>t. (t, Uri cfg t))
     [kRtpExtensionTransmissionTimeOffset, kRtpExtensionAudioLevel, kRtpExtensionCsrcAudioLevel,
      kRtpExtensionAbsoluteSendTime, kRtpExtensionAbsoluteCaptureTime, kRtpExtensionVideoRotation,
      kRtpExtensionTransportSequenceNumber, kRtpExtensionTransportSequenceNumber02,
      kRtpExtensionPlayoutDelay, kRtpExtensionVideoContentType, kRtpExtensionVideoLayersAllocation,
      kRtpExtensionVideoTiming, kRtpExtensionRtpStreamId, kRtpExtensionRepairedRtpStreamId,
      kRtpExtensionMid, kRtpExtensionGenericFrameDescriptor00, kRtpExtensionGenericFrameDescriptor02,
      kRtpExtensionColorSpace, kRtpExtensionInbandComfortNoise, kRtpExtensionVideoFrameTrackingId]"

section \<open>Operations\<close>

definition RtpHeaderExtensionMap_init :: "bool \<Rightarrow> ext_map" where
  "RtpHeaderExtensionMap_init allow_mixed = \<lparr>ids = (\<lambda>_. kInvalidId), extmap_allow_mixed = allow_mixed\<rparr>"

definition GetId :: "ext_map \<Rightarrow> RTPExtensionType \<Rightarrow> byte" where
  "GetId m type = ids m type"

definition IsRegistered :: "ext_map \<Rightarrow> RTPExtensionType \<Rightarrow> bool" where
  "IsRegistered m type \<longleftrightarrow> GetId m type \<noteq> kInvalidId"

definition GetType :: "ext_map \<Rightarrow> int \<Rightarrow> RTPExtensionType" where
  "GetType m ext_id = (case find (\<lambda>type. uint (ids m type) = ext_id) extension_types of
     Some type \<Rightarrow> type | None \<Rightarrow> kRtpExtensionNone)"

text \<open>\<open>Register\<close> returns the map and whether it accepted the pair.\<close>

definition Register :: "ext_config \<Rightarrow> int \<Rightarrow> RTPExtensionType \<Rightarrow> ext_map \<Rightarrow> ext_map \<times> bool" where
  "Register cfg ext_id type m =
     (if ext_id < kMinId cfg \<or> ext_id > kMaxId cfg then (m, False)
      else
        let registered_type = GetType m ext_id in
        if registered_type = type then (m, True)
        else if registered_type \<noteq> kRtpExtensionNone then (m, False)
        else (m\<lparr>ids := (ids m)(type := of_int ext_id)\<rparr>, True))"

definition RegisterByType :: "ext_config \<Rightarrow> int \<Rightarrow> RTPExtensionType \<Rightarrow> ext_map \<Rightarrow> ext_map \<times> bool" where
  "RegisterByType cfg ext_id type m =
     (case find (\<lambda>(t, u). type = t) (kExtensions cfg) of
        Some (t, u) \<Rightarrow> Register cfg ext_id t m
      | None \<Rightarrow> (m, False))"

definition RegisterByUri :: "ext_config \<Rightarrow> int \<Rightarrow> string \<Rightarrow> ext_map \<Rightarrow> ext_map \<times> bool" where
  "RegisterByUri cfg ext_id uri m =
     (case find (\<lambda>(t, u). uri = u) (kExtensions cfg) of
        Some (t, u) \<Rightarrow> Register cfg ext_id t m
      | None \<Rightarrow> (m, False))"

definition RegisterAll :: "ext_config \<Rightarrow> (int \<times> string) list \<Rightarrow> ext_map \<Rightarrow> ext_map" where
  "RegisterAll cfg extensions m = fold (\<lambda>(ext_id, uri) m. fst (RegisterByUri cfg ext_id uri m)) extensions m"

definition Reset :: "ext_config \<Rightarrow> (int \<times> string) list \<Rightarrow> ext_map \<Rightarrow> ext_map" where
  "Reset cfg extensions m = RegisterAll cfg extensions (m\<lparr>ids := (\<lambda>_. kInvalidId)\<rparr>)"

definition RtpHeaderExtensionMap_from :: "ext_config \<Rightarrow> (int \<times> string) list \<Rightarrow> ext_map" where
  "RtpHeaderExtensionMap_from cfg extensions =
     RegisterAll cfg extensions (RtpHeaderExtensionMap_init False)"

definition Deregister :: "RTPExtensionType \<Rightarrow> ext_map \<Rightarrow> ext_map" where
  "Deregister type m =
     (if IsRegistered m type then m\<lparr>ids := (ids m)(type := kInvalidId)\<rparr> else m)"

definition DeregisterByUri :: "ext_config \<Rightarrow> string \<Rightarrow> ext_map \<Rightarrow> ext_map" where
  "DeregisterByUri cfg uri m =
     (case find (\<lambda>(t, u). u = uri) (kExtensions cfg) of
        Some (t, u) \<Rightarrow> m\<lparr>ids := (ids m)(t := kInvalidId)\<rparr>
      | None \<Rightarrow> m)"

definition SetExtmapAllowMixed :: "bool \<Rightarrow> ext_map \<Rightarrow> ext_map" where
  "SetExtmapAllowMixed allow_mixed m = m\<lparr>extmap_allow_mixed := allow_mixed\<rparr>"

section \<open>The invariant\<close>

text \<open>No id is used by two types, and the slot of \<open>kRtpExtensionNone\<close> is never used.\<close>

definition ext_map_ok :: "ext_map \<Rightarrow> bool" where
  "ext_map_ok m \<longleftrightarrow> ids m kRtpExtensionNone = kInvalidId \<and>
     (\<forall>s t. ids m s = ids m t \<and> ids m s \<noteq> kInvalidId \<longrightarrow> s = t)"

lemma set_extension_types: "t \<in> set extension_types \<longleftrightarrow> t \<noteq> kRtpExtensionNone"
  by (cases t) (simp_all add: extension_types_def)

lemma fst_kExtensions: "fst ` set (kExtensions cfg) = {t. t \<noteq> kRtpExtensionNone}"
proof -
  have "t \<in> fst ` set (kExtensions cfg) \<longleftrightarrow> t \<noteq> kRtpExtensionNone" for t
    by (cases t) (simp_all add: kExtensions_def)
  then show ?thesis by blast
qed

lemma kExtensionsD: "(t, u) \<in> set (kExtensions cfg) \<Longrightarrow> u = Uri cfg t \<and> t \<noteq> kRtpExtensionNone"
  using fst_kExtensions [of cfg] by (auto simp: kExtensions_def)

lemma find_type: "t \<noteq> kRtpExtensionNone \<Longrightarrow> find (\<lambda>(s, u). t = s) (kExtensions cfg) = Some (t, Uri cfg t)"
  by (cases t) (simp_all add: kExtensions_def)

lemma GetType_None:
  "GetType m ext_id = kRtpExtensionNone \<longleftrightarrow> (\<forall>t. t \<noteq> kRtpExtensionNone \<longrightarrow> uint (ids m t) \<noteq> ext_id)"
proof (cases "find (\<lambda>type. uint (ids m type) = ext_id) extension_types")
  case None
  then have "\<forall>t. t \<noteq> kRtpExtensionNone \<longrightarrow> uint (ids m t) \<noteq> ext_id"
    by (auto simp: find_None_iff set_extension_types)
  with None show ?thesis by (simp add: GetType_def)
next
  case (Some t)
  then have "t \<noteq> kRtpExtensionNone" "uint (ids m t) = ext_id"
    by (auto simp: find_Some_iff set_extension_types [symmetric])
  with Some show ?thesis by (auto simp: GetType_def)
qed

lemma GetType_Some:
  assumes "ext_map_ok m" and "t \<noteq> kRtpExtensionNone" and "ext_id \<noteq> 0"
  shows "GetType m ext_id = t \<longleftrightarrow> uint (ids m t) = ext_id"
proof (cases "find (\<lambda>type. uint (ids m type) = ext_id) extension_types")
  case None
  then have "uint (ids m t) \<noteq> ext_id" using assms(2) by (auto simp: find_None_iff set_extension_types)
  with None assms(2) show ?thesis by (auto simp: GetType_def)
next
  case (Some s)
  then have s: "uint (ids m s) = ext_id" by (auto simp: find_Some_iff)
  then have "s = t" if "uint (ids m t) = ext_id"
    using assms(1,3) that by (auto simp: ext_map_ok_def kInvalidId_def word_uint_eq_iff)
  with Some s show ?thesis by (auto simp: GetType_def)
qed

subsection \<open>The constants the code relies on\<close>

locale extension_ids =
  fixes cfg :: ext_config
  assumes ids_positive: "1 \<le> kMinId cfg"
    and ids_one_byte: "kMaxId cfg \<le> 255"
    and uris_distinct: "Uri cfg s = Uri cfg t \<Longrightarrow> s = t"
begin

lemma id_fits: "kMinId cfg \<le> ext_id \<Longrightarrow> ext_id \<le> kMaxId cfg \<Longrightarrow> uint (of_int ext_id :: byte) = ext_id \<and> ext_id \<noteq> 0"
  using ids_positive ids_one_byte by (simp add: unsigned_of_int take_bit_int_eq_self)

lemma find_uri: "t \<noteq> kRtpExtensionNone \<Longrightarrow>
    find (\<lambda>(s, u). Uri cfg t = u) (kExtensions cfg) = Some (t, Uri cfg t)"
proof -
  assume t: "t \<noteq> kRtpExtensionNone"
  have "find (\<lambda>(s, u). Uri cfg t = u) (kExtensions cfg) = find (\<lambda>(s, u). t = s) (kExtensions cfg)"
    by (rule find_cong) (auto dest!: kExtensionsD uris_distinct)
  with find_type [OF t] show ?thesis by simp
qed

lemma Register_ok:
  assumes "ext_map_ok m" and "t \<noteq> kRtpExtensionNone"
  shows "ext_map_ok (fst (Register cfg ext_id t m))"
proof -
  have "ext_map_ok (m\<lparr>ids := (ids m)(t := of_int ext_id)\<rparr>)"
    if "kMinId cfg \<le> ext_id" "ext_id \<le> kMaxId cfg" "GetType m ext_id = kRtpExtensionNone"
  proof -
    have "uint (ids m s) \<noteq> ext_id" if "s \<noteq> kRtpExtensionNone" for s
      using \<open>GetType m ext_id = kRtpExtensionNone\<close> that by (simp add: GetType_None)
    moreover have "uint (ids m kRtpExtensionNone) \<noteq> ext_id"
      using assms(1) id_fits that(1,2) by (auto simp: ext_map_ok_def kInvalidId_def)
    ultimately have "ids m s \<noteq> of_int ext_id" for s
      using id_fits that(1,2) by (metis (full_types))
    then show ?thesis using assms by (auto simp: ext_map_ok_def) metis+
  qed
  then show ?thesis using assms(1) by (auto simp: Register_def Let_def not_less)
qed

text \<open>What an accepted registration does to the two lookups.\<close>

lemma Register_lookup:
  assumes "ext_map_ok m" and "t \<noteq> kRtpExtensionNone" and "Register cfg ext_id t m = (m', True)"
  shows "uint (GetId m' t) = ext_id" and "GetType m' ext_id = t"
    and "s \<noteq> t \<Longrightarrow> GetId m' s = GetId m s"
proof -
  have range: "kMinId cfg \<le> ext_id" "ext_id \<le> kMaxId cfg"
    using assms(3) by (auto simp: Register_def split: if_splits)
  note fits = id_fits [OF range]
  show ext_id: "uint (GetId m' t) = ext_id"
    using assms fits GetType_Some [OF assms(1,2), of ext_id]
    by (auto simp: Register_def Let_def GetId_def split: if_splits)
  have ok': "ext_map_ok m'" using Register_ok [OF assms(1,2), of ext_id] assms(3) by simp
  show "GetType m' ext_id = t" using ext_id fits GetType_Some [OF ok' assms(2)] by (simp add: GetId_def)
  show "s \<noteq> t \<Longrightarrow> GetId m' s = GetId m s"
    using assms(3) by (auto simp: Register_def Let_def GetId_def split: if_splits)
qed

lemma RegisterByUri_ok: "ext_map_ok m \<Longrightarrow> ext_map_ok (fst (RegisterByUri cfg ext_id uri m))"
  by (auto simp: RegisterByUri_def find_Some_iff split: option.split
      intro!: Register_ok dest!: nth_mem kExtensionsD)

lemma RegisterByType_ok: "ext_map_ok m \<Longrightarrow> ext_map_ok (fst (RegisterByType cfg ext_id t m))"
  by (auto simp: RegisterByType_def find_Some_iff split: option.split
      intro!: Register_ok dest!: nth_mem kExtensionsD)

lemma RegisterAll_ok: "ext_map_ok m \<Longrightarrow> ext_map_ok (RegisterAll cfg xs m)"
  unfolding RegisterAll_def
  by (induction xs arbitrary: m) (auto simp: RegisterByUri_ok split: prod.split)

end

lemma ext_map_ok_init [simp]: "ext_map_ok (RtpHeaderExtensionMap_init b)"
  by (simp add: ext_map_ok_def RtpHeaderExtensionMap_init_def)

lemma ext_map_ok_clear [simp]: "ext_map_ok (m\<lparr>ids := (\<lambda>_. kInvalidId)\<rparr>)"
  by (simp add: ext_map_ok_def)

lemma ext_map_ok_unset [simp]: "ext_map_ok m \<Longrightarrow> ext_map_ok (m\<lparr>ids := (ids m)(t := kInvalidId)\<rparr>)"
  by (auto simp: ext_map_ok_def)

subsection \<open>Histories of operations\<close>

datatype ext_op =
    OpRegisterByType int RTPExtensionType
  | OpRegisterByUri int string
  | OpReset "(int \<times> string) list"
  | OpDeregister RTPExtensionType
  | OpDeregisterByUri string
  | OpSetExtmapAllowMixed bool

fun ext_step :: "ext_config \<Rightarrow> ext_op \<Rightarrow> ext_map \<Rightarrow> ext_map" where
  "ext_step cfg (OpRegisterByType ext_id t) m = fst (RegisterByType cfg ext_id t m)"
| "ext_step cfg (OpRegisterByUri ext_id uri) m = fst (RegisterByUri cfg ext_id uri m)"
| "ext_step cfg (OpReset xs) m = Reset cfg xs m"
| "ext_step cfg (OpDeregister t) m = Deregister t m"
| "ext_step cfg (OpDeregisterByUri uri) m = DeregisterByUri cfg uri m"
| "ext_step cfg (OpSetExtmapAllowMixed b) m = SetExtmapAllowMixed b m"

context extension_ids
begin

lemma ext_step_ok: "ext_map_ok m \<Longrightarrow> ext_map_ok (ext_step cfg op m)"
  by (cases op)
    (auto simp: RegisterByType_ok RegisterByUri_ok RegisterAll_ok Reset_def Deregister_def
      DeregisterByUri_def SetExtmapAllowMixed_def ext_map_ok_def [of "m\<lparr>extmap_allow_mixed := _\<rparr>"]
      split: option.split, auto simp: ext_map_ok_def)

lemma ext_steps_ok: "ext_map_ok m \<Longrightarrow> ext_map_ok (fold (ext_step cfg) ops m)"
  by (induction ops arbitrary: m) (simp_all add: ext_step_ok)

text \<open>A registration of a free type under a free id is accepted.\<close>

lemma RegisterByUri_fresh:
  assumes "ext_map_ok m" and "t \<noteq> kRtpExtensionNone" and "kMinId cfg \<le> ext_id" and "ext_id \<le> kMaxId cfg"
    and "\<And>s. s \<noteq> kRtpExtensionNone \<Longrightarrow> uint (GetId m s) \<noteq> ext_id"
  shows "RegisterByUri cfg ext_id (Uri cfg t) m = (m\<lparr>ids := (ids m)(t := of_int ext_id)\<rparr>, True)"
proof -
  have "GetType m ext_id = kRtpExtensionNone" using assms(5) by (simp add: GetType_None GetId_def)
  then show ?thesis using assms(2-4) by (simp add: RegisterByUri_def find_uri Register_def)
qed

lemma RegisterAll_lookup:
  assumes "ext_map_ok m" and "distinct (map fst xs)" and "distinct (map snd xs)"
    and "\<And>i t. (i, t) \<in> set xs \<Longrightarrow> kMinId cfg \<le> i \<and> i \<le> kMaxId cfg \<and> t \<noteq> kRtpExtensionNone"
    and "\<And>i t s. (i, t) \<in> set xs \<Longrightarrow> uint (GetId m s) \<noteq> i"
  shows "(\<forall>(i, t) \<in> set xs. uint (GetId (RegisterAll cfg (map (\<lambda>(i, t). (i, Uri cfg t)) xs) m) t) = i) \<and>
    (\<forall>t. t \<notin> snd ` set xs \<longrightarrow> GetId (RegisterAll cfg (map (\<lambda>(i, t). (i, Uri cfg t)) xs) m) t = GetId m t)"
  using assms
proof (induction xs arbitrary: m)
  case Nil
  then show ?case by (simp add: RegisterAll_def)
next
  case (Cons x xs)
  obtain i t where x: "x = (i, t)" by (cases x)
  define m' where "m' = m\<lparr>ids := (ids m)(t := of_int i)\<rparr>"
  have it: "kMinId cfg \<le> i" "i \<le> kMaxId cfg" "t \<noteq> kRtpExtensionNone" using Cons.prems(4) x by auto
  have step: "RegisterByUri cfg i (Uri cfg t) m = (m', True)"
    unfolding m'_def using Cons.prems(5) x it by (intro RegisterByUri_fresh [OF Cons.prems(1)]) auto
  then have all: "RegisterAll cfg (map (\<lambda>(i, t). (i, Uri cfg t)) (x # xs)) m =
      RegisterAll cfg (map (\<lambda>(i, t). (i, Uri cfg t)) xs) m'" by (simp add: RegisterAll_def x)
  have ok': "ext_map_ok m'" using RegisterByUri_ok [OF Cons.prems(1), of i "Uri cfg t"] step by simp
  have id': "uint (GetId m' t) = i" using id_fits it by (simp add: m'_def GetId_def)
  have other: "s \<noteq> t \<Longrightarrow> GetId m' s = GetId m s" for s by (simp add: m'_def GetId_def)
  have fresh: "uint (GetId m' s) \<noteq> j" if "(j, u) \<in> set xs" for j u s
  proof (cases "s = t")
    case True
    then show ?thesis using id' that Cons.prems(2) x by (auto simp: image_iff)
  next
    case False
    then show ?thesis using other Cons.prems(5) [of j u s] that by simp
  qed
  have ih: "(\<forall>(i, t) \<in> set xs. uint (GetId (RegisterAll cfg (map (\<lambda>(i, t). (i, Uri cfg t)) xs) m') t) = i) \<and>
    (\<forall>t. t \<notin> snd ` set xs \<longrightarrow> GetId (RegisterAll cfg (map (\<lambda>(i, t). (i, Uri cfg t)) xs) m') t = GetId m' t)"
    using Cons.prems(2-4) x by (intro Cons.IH [OF ok']) (use fresh in auto)
  have "t \<notin> snd ` set xs" using Cons.prems(3) x by (auto simp: image_iff)
  with ih id' other show ?case unfolding all by (auto simp: x)
qed

end

text \<open>The constants of the WebRTC release the server is built with: ids 1 to 255 (RFC 8285) and the
  registered URIs.\<close>

fun webrtc_uri :: "RTPExtensionType \<Rightarrow> string" where
  "webrtc_uri kRtpExtensionNone = ''''"
| "webrtc_uri kRtpExtensionTransmissionTimeOffset = ''urn:ietf:params:rtp-hdrext:toffset''"
| "webrtc_uri kRtpExtensionAudioLevel = ''urn:ietf:params:rtp-hdrext:ssrc-audio-level''"
| "webrtc_uri kRtpExtensionCsrcAudioLevel = ''urn:ietf:params:rtp-hdrext:csrc-audio-level''"
| "webrtc_uri kRtpExtensionInbandComfortNoise = ''http://www.webrtc.org/experiments/rtp-hdrext/inband-cn''"
| "webrtc_uri kRtpExtensionAbsoluteSendTime = ''http://www.webrtc.org/experiments/rtp-hdrext/abs-send-time''"
| "webrtc_uri kRtpExtensionAbsoluteCaptureTime = ''http://www.webrtc.org/experiments/rtp-hdrext/abs-capture-time''"
| "webrtc_uri kRtpExtensionVideoRotation = ''urn:3gpp:video-orientation''"
| "webrtc_uri kRtpExtensionTransportSequenceNumber = ''http://www.ietf.org/id/draft-holmer-rmcat-transport-wide-cc-extensions-01''"
| "webrtc_uri kRtpExtensionTransportSequenceNumber02 = ''http://www.webrtc.org/experiments/rtp-hdrext/transport-wide-cc-02''"
| "webrtc_uri kRtpExtensionPlayoutDelay = ''http://www.webrtc.org/experiments/rtp-hdrext/playout-delay''"
| "webrtc_uri kRtpExtensionVideoContentType = ''http://www.webrtc.org/experiments/rtp-hdrext/video-content-type''"
| "webrtc_uri kRtpExtensionVideoLayersAllocation = ''http://www.webrtc.org/experiments/rtp-hdrext/video-layers-allocation00''"
| "webrtc_uri kRtpExtensionVideoTiming = ''http://www.webrtc.org/experiments/rtp-hdrext/video-timing''"
| "webrtc_uri kRtpExtensionRtpStreamId = ''urn:ietf:params:rtp-hdrext:sdes:rtp-stream-id''"
| "webrtc_uri kRtpExtensionRepairedRtpStreamId = ''urn:ietf:params:rtp-hdrext:sdes:repaired-rtp-stream-id''"
| "webrtc_uri kRtpExtensionMid = ''urn:ietf:params:rtp-hdrext:sdes:mid''"
| "webrtc_uri kRtpExtensionGenericFrameDescriptor00 = ''http://www.webrtc.org/experiments/rtp-hdrext/generic-frame-descriptor-00''"
| "webrtc_uri kRtpExtensionGenericFrameDescriptor02 = ''https://aomediacodec.github.io/av1-rtp-spec/#dependency-descriptor-rtp-header-extension''"
| "webrtc_uri kRtpExtensionColorSpace = ''http://www.webrtc.org/experiments/rtp-hdrext/color-space''"
| "webrtc_uri kRtpExtensionVideoFrameTrackingId = ''http://www.webrtc.org/experiments/rtp-hdrext/video-frame-tracking-id''"

definition webrtc_config :: ext_config where
  "webrtc_config = \<lparr>kMinId = 1, kMaxId = 255, Uri = webrtc_uri\<rparr>"

interpretation webrtc: extension_ids webrtc_config
proof
  fix s t assume "Uri webrtc_config s = Uri webrtc_config t"
  then show "s = t" by (cases s; cases t) (simp_all add: webrtc_config_def)
qed (simp_all add: webrtc_config_def)

section \<open>Properties\<close>

text \<open>C11. After any history of registrations, deregistrations and resets, the two lookups of the
  extension map are inverse to each other: an id in the legal range resolves to a type exactly when
  that type is registered under this id. So no two types ever share an id.\<close>

theorem ext_map_lookups_inverse:
  assumes "extension_ids cfg" and "t \<noteq> kRtpExtensionNone"
    and "kMinId cfg \<le> ext_id" and "ext_id \<le> kMaxId cfg"
    and "m = fold (ext_step cfg) ops (RtpHeaderExtensionMap_init allow_mixed)"
  shows "GetType m ext_id = t \<longleftrightarrow> uint (GetId m t) = ext_id"
proof -
  have "ext_map_ok m" unfolding assms(5) by (rule extension_ids.ext_steps_ok [OF assms(1)]) simp
  moreover have "ext_id \<noteq> 0" using extension_ids.id_fits [OF assms(1,3,4)] by simp
  ultimately show ?thesis using GetType_Some assms(2) by (simp add: GetId_def)
qed

theorem ext_map_lookups_inverse_witness:
  "GetType (fold (ext_step webrtc_config) [OpRegisterByType 3 kRtpExtensionMid, OpRegisterByType 3 kRtpExtensionAudioLevel]
      (RtpHeaderExtensionMap_init False)) 3 = kRtpExtensionMid \<longleftrightarrow>
   uint (GetId (fold (ext_step webrtc_config) [OpRegisterByType 3 kRtpExtensionMid, OpRegisterByType 3 kRtpExtensionAudioLevel]
      (RtpHeaderExtensionMap_init False)) kRtpExtensionMid) = 3"
  by (rule ext_map_lookups_inverse [OF webrtc.extension_ids_axioms _ _ _ refl])
    (simp_all add: webrtc_config_def)

text \<open>C12. Negotiation: building the map from a list of (id, URI) pairs with distinct legal ids and
  distinct known URIs registers every one of them, \<open>GetId\<close> and \<open>GetType\<close> find each pair, and no
  other type is registered.\<close>

theorem ext_map_negotiation:
  assumes "extension_ids cfg" and "distinct (map fst xs)" and "distinct (map snd xs)"
    and "\<forall>(i, t) \<in> set xs. kMinId cfg \<le> i \<and> i \<le> kMaxId cfg \<and> t \<noteq> kRtpExtensionNone"
    and "m = RtpHeaderExtensionMap_from cfg (map (\<lambda>(i, t). (i, Uri cfg t)) xs)"
  shows "(\<forall>(i, t) \<in> set xs. uint (GetId m t) = i \<and> GetType m i = t) \<and>
    (\<forall>t. IsRegistered m t \<longrightarrow> t \<in> snd ` set xs)"
proof -
  have ok: "ext_map_ok m" unfolding assms(5) RtpHeaderExtensionMap_from_def
    by (intro extension_ids.RegisterAll_ok [OF assms(1)]) simp
  have fresh: "uint (GetId (RtpHeaderExtensionMap_init False) s) \<noteq> i" if "(i, t) \<in> set xs" for i t s
    using assms(4) extension_ids.id_fits [OF assms(1), of i] that
    by (auto simp: GetId_def RtpHeaderExtensionMap_init_def kInvalidId_def)
  have look: "(\<forall>(i, t) \<in> set xs. uint (GetId m t) = i) \<and>
      (\<forall>t. t \<notin> snd ` set xs \<longrightarrow> GetId m t = GetId (RtpHeaderExtensionMap_init False) t)"
    unfolding assms(5) RtpHeaderExtensionMap_from_def
    using assms(4) fresh by (intro extension_ids.RegisterAll_lookup [OF assms(1) _ assms(2,3)]) auto
  have "GetType m i = t" if "(i, t) \<in> set xs" for i t
    using look assms(4) that extension_ids.id_fits [OF assms(1), of i] GetType_Some [OF ok, of t i]
    by (auto simp: GetId_def)
  with look show ?thesis
    by (auto simp: IsRegistered_def) (metis GetId_def RtpHeaderExtensionMap_init_def ext_map.select_convs(1))
qed

theorem ext_map_negotiation_witness:
  "uint (GetId (RtpHeaderExtensionMap_from webrtc_config
      [(4, Uri webrtc_config kRtpExtensionMid), (7, Uri webrtc_config kRtpExtensionAudioLevel)]) kRtpExtensionMid) = 4"
  using ext_map_negotiation [OF webrtc.extension_ids_axioms,
      of "[(4, kRtpExtensionMid), (7, kRtpExtensionAudioLevel)]", OF _ _ _ refl]
  by (simp add: webrtc_config_def)

end
