(* ===== verification/Rtp_Extensions.thy ===== *)
theory Rtp_Extensions
  imports Prelude
begin

text \<open>
  The RTP header extensions of \<open>modules/rtp_rtcp/include/rtp_header_extensions.cpp\<close>: for every
  extension class its \<open>Parse\<close>, \<open>ValueSize\<close> and \<open>Write\<close>. A \<open>Write\<close> fills a view of the packet
  and returns it; an \<open>RTC_CHECK\<close> that fails is \<open>Inl CheckFailed\<close>. What the classes take from
  WebRTC (byte order, the rotation and content-type conversions, the validity of colour-space
  codes, the single-precision scaling) is an argument.
\<close>

section \<open>Operations\<close>

subsection \<open>AbsoluteSendTime\<close>

definition AbsoluteSendTime_Parse :: "byte_io \<Rightarrow> byte list \<Rightarrow> error + u32" where
  "AbsoluteSendTime_Parse io data =
     (if length data \<noteq> 3 then Inl Rejected
      else bindE (rd io 3 data 0) (\<lambda>v. Inr (of_nat v)))"

definition AbsoluteSendTime_ValueSize :: "u32 \<Rightarrow> nat" where
  "AbsoluteSendTime_ValueSize time_24bits = 3"

definition AbsoluteSendTime_Write :: "byte_io \<Rightarrow> byte list \<Rightarrow> u32 \<Rightarrow> error + byte list" where
  "AbsoluteSendTime_Write io data time_24bits = put data 0 (WriteBE io 3 (unat time_24bits))"

definition MsTo24Bits :: "int \<Rightarrow> u32" where
  "MsTo24Bits time_ms = of_int (tdiv (time_ms * 2 ^ 18 + 500) 1000) AND 0x00FFFFFF"

subsection \<open>AbsoluteCaptureTimeExtension\<close>

record absolute_capture_time =
  absolute_capture_timestamp :: u64
  estimated_capture_clock_offset :: "int option"

text \<open>\<open>Parse\<close> fills the object it is given: a short value leaves the clock offset as it was.\<close>

definition AbsoluteCaptureTime_Parse ::
  "byte_io \<Rightarrow> absolute_capture_time \<Rightarrow> byte list \<Rightarrow> error + absolute_capture_time" where
  "AbsoluteCaptureTime_Parse io ext data =
     (if length data \<noteq> 16 \<and> length data \<noteq> 8 then Inl Rejected
      else bindE (rd io 8 data 0) (\<lambda>t.
        let ext = ext\<lparr>absolute_capture_timestamp := of_nat t\<rparr> in
        if length data \<noteq> 8
        then bindE (rds io 8 data 8) (\<lambda>off. Inr (ext\<lparr>estimated_capture_clock_offset := Some off\<rparr>))
        else Inr ext))"

definition AbsoluteCaptureTime_ValueSize :: "absolute_capture_time \<Rightarrow> nat" where
  "AbsoluteCaptureTime_ValueSize ext = (if estimated_capture_clock_offset ext \<noteq> None then 16 else 8)"

definition AbsoluteCaptureTime_Write ::
  "byte_io \<Rightarrow> byte list \<Rightarrow> absolute_capture_time \<Rightarrow> error + byte list" where
  "AbsoluteCaptureTime_Write io data ext =
     bindE (put data 0 (WriteBE io 8 (unat (absolute_capture_timestamp ext)))) (\<lambda>data.
       if length data \<noteq> 8
       then (case estimated_capture_clock_offset ext of
               None \<Rightarrow> Inl CheckFailed
             | Some off \<Rightarrow> put data 8 (WriteBES io 8 off))
       else Inr data)"

subsection \<open>AudioLevel\<close>

definition AudioLevel_Parse :: "byte list \<Rightarrow> error + bool \<times> byte" where
  "AudioLevel_Parse data =
     (if length data \<noteq> 1 then Inl Rejected
      else bindE (byte_at data 0) (\<lambda>b. Inr (b AND 0x80 \<noteq> 0, b AND 0x7F)))"

definition AudioLevel_ValueSize :: "bool \<times> byte \<Rightarrow> nat" where
  "AudioLevel_ValueSize v = 1"

definition AudioLevel_Write :: "byte list \<Rightarrow> bool \<times> byte \<Rightarrow> error + byte list" where
  "AudioLevel_Write data v = (case v of (voice_activity, audio_level) \<Rightarrow>
     if audio_level > 0x7f then Inl CheckFailed
     else put data 0 [(if voice_activity then 0x80 else 0x00) OR audio_level])"

subsection \<open>CsrcAudioLevel\<close>

definition kRtpCsrcSize :: nat where
  "kRtpCsrcSize = 15"

definition CsrcAudioLevel_Parse :: "byte list \<Rightarrow> error + byte list" where
  "CsrcAudioLevel_Parse data =
     (if length data > kRtpCsrcSize then Inl Rejected else Inr (map (\<lambda>b. b AND 0x7F) data))"

definition CsrcAudioLevel_ValueSize :: "byte list \<Rightarrow> nat" where
  "CsrcAudioLevel_ValueSize csrc_audio_levels = length csrc_audio_levels"

definition CsrcAudioLevel_Write :: "byte list \<Rightarrow> byte list \<Rightarrow> error + byte list" where
  "CsrcAudioLevel_Write data csrc_audio_levels =
     (if length csrc_audio_levels > kRtpCsrcSize then Inl CheckFailed
      else if length csrc_audio_levels \<noteq> length data then Inl Rejected
      else Inr (map (\<lambda>b. b AND 0x7F) csrc_audio_levels))"

subsection \<open>TransmissionOffset\<close>

definition TransmissionOffset_Parse :: "byte_io \<Rightarrow> byte list \<Rightarrow> error + int" where
  "TransmissionOffset_Parse io data = (if length data \<noteq> 3 then Inl Rejected else rds io 3 data 0)"

definition TransmissionOffset_ValueSize :: "int \<Rightarrow> nat" where
  "TransmissionOffset_ValueSize rtp_time = 3"

definition TransmissionOffset_Write :: "byte_io \<Rightarrow> byte list \<Rightarrow> int \<Rightarrow> error + byte list" where
  "TransmissionOffset_Write io data rtp_time = put data 0 (WriteBES io 3 rtp_time)"

subsection \<open>TransportSequenceNumber and its version 2\<close>

definition TransportSequenceNumber_Parse :: "byte_io \<Rightarrow> byte list \<Rightarrow> error + u16" where
  "TransportSequenceNumber_Parse io data = (if length data \<noteq> 2 then Inl Rejected else rd16 io data 0)"

definition TransportSequenceNumber_ValueSize :: "u16 \<Rightarrow> nat" where
  "TransportSequenceNumber_ValueSize transport_sequence_number = 2"

definition TransportSequenceNumber_Write :: "byte_io \<Rightarrow> byte list \<Rightarrow> u16 \<Rightarrow> error + byte list" where
  "TransportSequenceNumber_Write io data transport_sequence_number =
     put data 0 (wr16 io transport_sequence_number)"

record feedback_request =
  include_timestamps :: bool
  sequence_count :: int

definition kIncludeTimestampsBit :: u16 where
  "kIncludeTimestampsBit = push_bit 15 1"

definition TransportSequenceNumberV2_Parse ::
  "byte_io \<Rightarrow> byte list \<Rightarrow> error + u16 \<times> feedback_request option" where
  "TransportSequenceNumberV2_Parse io data =
     (if length data \<noteq> 4 \<and> length data \<noteq> 2 then Inl Rejected
      else bindE (rd16 io data 0) (\<lambda>sn.
        if length data = 4
        then bindE (rd16 io data 2) (\<lambda>raw.
          let its = (raw AND kIncludeTimestampsBit \<noteq> 0);
              sc = raw AND NOT kIncludeTimestampsBit in
          Inr (sn, if sc \<noteq> 0 then Some \<lparr>include_timestamps = its, sequence_count = uint sc\<rparr> else None))
        else Inr (sn, None)))"

definition TransportSequenceNumberV2_ValueSize :: "u16 \<times> feedback_request option \<Rightarrow> nat" where
  "TransportSequenceNumberV2_ValueSize v = (case snd v of Some _ \<Rightarrow> 4 | None \<Rightarrow> 2)"

definition TransportSequenceNumberV2_Write ::
  "byte_io \<Rightarrow> byte list \<Rightarrow> u16 \<times> feedback_request option \<Rightarrow> error + byte list" where
  "TransportSequenceNumberV2_Write io data v =
     bindE (put data 0 (wr16 io (fst v))) (\<lambda>data.
       case snd v of
         None \<Rightarrow> Inr data
       | Some req \<Rightarrow>
           let raw = of_int (sequence_count req) OR
                     (if include_timestamps req then kIncludeTimestampsBit else 0)
           in put data 2 (wr16 io raw))"

subsection \<open>VideoOrientation\<close>

definition VideoOrientation_Parse :: "(byte \<Rightarrow> 'r) \<Rightarrow> byte list \<Rightarrow> error + 'r" where
  "VideoOrientation_Parse ConvertCVOByteToVideoRotation data =
     (if length data \<noteq> 1 then Inl Rejected
      else bindE (byte_at data 0) (\<lambda>b. Inr (ConvertCVOByteToVideoRotation b)))"

definition VideoOrientation_Write :: "('r \<Rightarrow> byte) \<Rightarrow> byte list \<Rightarrow> 'r \<Rightarrow> error + byte list" where
  "VideoOrientation_Write ConvertVideoRotationToCVOByte data rotation =
     put data 0 [ConvertVideoRotationToCVOByte rotation]"

definition VideoOrientation_Parse_raw :: "byte list \<Rightarrow> error + byte" where
  "VideoOrientation_Parse_raw data = (if length data \<noteq> 1 then Inl Rejected else byte_at data 0)"

definition VideoOrientation_Write_raw :: "byte list \<Rightarrow> byte \<Rightarrow> error + byte list" where
  "VideoOrientation_Write_raw data v = put data 0 [v]"

subsection \<open>PlayoutDelayLimits\<close>

record playout_delay =
  min_ms :: int
  max_ms :: int

definition kGranularityMs :: int where
  "kGranularityMs = 10"

definition kMaxMs :: int where
  "kMaxMs = 0xfff * kGranularityMs"

definition PlayoutDelayLimits_Parse :: "byte_io \<Rightarrow> byte list \<Rightarrow> error + playout_delay" where
  "PlayoutDelayLimits_Parse io data =
     (if length data \<noteq> 3 then Inl Rejected
      else bindE (rd io 3 data 0) (\<lambda>r.
        let raw = (of_nat r :: u32);
            min_raw = (ucast (drop_bit 12 raw) :: u16);
            max_raw = (ucast (raw AND 0xfff) :: u16) in
        if min_raw > max_raw then Inl Rejected
        else Inr \<lparr>min_ms = uint min_raw * kGranularityMs, max_ms = uint max_raw * kGranularityMs\<rparr>))"

definition PlayoutDelayLimits_ValueSize :: "playout_delay \<Rightarrow> nat" where
  "PlayoutDelayLimits_ValueSize d = 3"

definition PlayoutDelayLimits_Write :: "byte_io \<Rightarrow> byte list \<Rightarrow> playout_delay \<Rightarrow> error + byte list" where
  "PlayoutDelayLimits_Write io data d =
     (let min_delay = (of_int (tdiv (min_ms d) kGranularityMs) :: u32);
          max_delay = (of_int (tdiv (max_ms d) kGranularityMs) :: u32)
      in put data 0 (WriteBE io 3 (unat (push_bit 12 min_delay OR max_delay))))"

subsection \<open>VideoContentTypeExtension\<close>

definition VideoContentType_Parse :: "(byte \<Rightarrow> bool) \<Rightarrow> byte list \<Rightarrow> error + byte" where
  "VideoContentType_Parse IsValidContentType data =
     (if length data = 1
      then bindE (byte_at data 0) (\<lambda>b. if IsValidContentType b then Inr b else Inl Rejected)
      else Inl Rejected)"

definition VideoContentType_Write :: "byte list \<Rightarrow> byte \<Rightarrow> error + byte list" where
  "VideoContentType_Write data content_type = put data 0 [content_type]"

subsection \<open>VideoTimingExtension\<close>

record video_timing =
  flags :: byte
  encode_start_delta_ms :: u16
  encode_finish_delta_ms :: u16
  packetization_finish_delta_ms :: u16
  pacer_exit_delta_ms :: u16
  network_timestamp_delta_ms :: u16
  network2_timestamp_delta_ms :: u16

definition VideoTiming_Parse :: "byte_io \<Rightarrow> byte list \<Rightarrow> error + video_timing" where
  "VideoTiming_Parse io data =
     bindE (if length data = 12 then Inr (0, 1)
            else if length data = 13 then bindE (rd io 1 data 0) (\<lambda>v. Inr (of_nat v, 0))
            else Inl Rejected) (\<lambda>(fl, off).
     bindE (rd16 io data (1 - off)) (\<lambda>es.
     bindE (rd16 io data (3 - off)) (\<lambda>ef.
     bindE (rd16 io data (5 - off)) (\<lambda>pf.
     bindE (rd16 io data (7 - off)) (\<lambda>pe.
     bindE (rd16 io data (9 - off)) (\<lambda>n1.
     bindE (rd16 io data (11 - off)) (\<lambda>n2.
       Inr \<lparr>flags = fl, encode_start_delta_ms = es, encode_finish_delta_ms = ef,
            packetization_finish_delta_ms = pf, pacer_exit_delta_ms = pe,
            network_timestamp_delta_ms = n1, network2_timestamp_delta_ms = n2\<rparr>)))))))"

definition VideoTiming_ValueSize :: "video_timing \<Rightarrow> nat" where
  "VideoTiming_ValueSize t = 13"

definition VideoTiming_Write :: "byte_io \<Rightarrow> byte list \<Rightarrow> video_timing \<Rightarrow> error + byte list" where
  "VideoTiming_Write io data t =
     bindE (put data 0 (WriteBE io 1 (unat (flags t)))) (\<lambda>data.
     bindE (put data 1 (wr16 io (encode_start_delta_ms t))) (\<lambda>data.
     bindE (put data 3 (wr16 io (encode_finish_delta_ms t))) (\<lambda>data.
     bindE (put data 5 (wr16 io (packetization_finish_delta_ms t))) (\<lambda>data.
     bindE (put data 7 (wr16 io (pacer_exit_delta_ms t))) (\<lambda>data.
     bindE (put data 9 (wr16 io (network_timestamp_delta_ms t))) (\<lambda>data.
     put data 11 (wr16 io (network2_timestamp_delta_ms t))))))))"

definition VideoTiming_Write_delta :: "byte_io \<Rightarrow> byte list \<Rightarrow> u16 \<Rightarrow> nat \<Rightarrow> error + byte list" where
  "VideoTiming_Write_delta io data time_delta_ms offset = put data offset (wr16 io time_delta_ms)"

subsection \<open>String extensions\<close>

definition kMaxValueSizeBytes :: nat where
  "kMaxValueSizeBytes = 16"

definition BaseRtpString_Parse :: "byte list \<Rightarrow> error + byte list" where
  "BaseRtpString_Parse data =
     (if data = [] then Inl Rejected
      else bindE (byte_at data 0) (\<lambda>b.
        if b = 0 then Inl Rejected else Inr (takeWhile (\<lambda>c. c \<noteq> 0) data)))"

definition BaseRtpString_ValueSize :: "byte list \<Rightarrow> nat" where
  "BaseRtpString_ValueSize str = length str"

definition BaseRtpString_Write :: "byte list \<Rightarrow> byte list \<Rightarrow> error + byte list" where
  "BaseRtpString_Write data str =
     (if length str > kMaxValueSizeBytes then Inl Rejected else put data 0 str)"

subsection \<open>InbandComfortNoiseExtension\<close>

definition InbandComfortNoise_Parse :: "byte list \<Rightarrow> error + byte option" where
  "InbandComfortNoise_Parse data =
     (if length data \<noteq> 1 then Inl Rejected
      else bindE (byte_at data 0) (\<lambda>b.
        Inr (if b AND 0x80 \<noteq> 0 then None else Some (b AND 0x7F))))"

definition InbandComfortNoise_Write :: "byte list \<Rightarrow> byte option \<Rightarrow> error + byte list" where
  "InbandComfortNoise_Write data level =
     bindE (put data 0 [0]) (\<lambda>data.
       case level of
         None \<Rightarrow> Inr data
       | Some l \<Rightarrow> if l > 127 then Inl Rejected else put data 0 [0x80 OR l])"

subsection \<open>VideoFrameTrackingIdExtension\<close>

definition VideoFrameTrackingId_Parse :: "byte_io \<Rightarrow> byte list \<Rightarrow> error + u16" where
  "VideoFrameTrackingId_Parse io data = (if length data \<noteq> 2 then Inl Rejected else rd16 io data 0)"

definition VideoFrameTrackingId_ValueSize :: "u16 \<Rightarrow> nat" where
  "VideoFrameTrackingId_ValueSize video_frame_tracking_id = 2"

definition VideoFrameTrackingId_Write :: "byte_io \<Rightarrow> byte list \<Rightarrow> u16 \<Rightarrow> error + byte list" where
  "VideoFrameTrackingId_Write io data video_frame_tracking_id = put data 0 (wr16 io video_frame_tracking_id)"

section \<open>The contract of an extension class\<close>

text \<open>
  What \<open>RtpPacket\<close> and the senders rely on: a valid value is written into a buffer of exactly
  \<open>ValueSize\<close> bytes, reading those bytes gives the value back, and \<open>Parse\<close> does nothing worse than
  refuse its input.
\<close>

locale rtp_extension =
  fixes Parse :: "byte list \<Rightarrow> error + 'v"
    and ValueSize :: "'v \<Rightarrow> nat"
    and Write :: "byte list \<Rightarrow> 'v \<Rightarrow> error + byte list"
    and valid :: "'v \<Rightarrow> bool"
  assumes write_parse: "valid v \<Longrightarrow> length data = ValueSize v \<Longrightarrow>
      \<exists>data'. Write data v = Inr data' \<and> length data' = length data \<and> Parse data' = Inr v"
    and parse_safe: "only_rejects (Parse data)"
begin

text \<open>A value stored at an offset of a packet is read back from there, and the bytes around it are
  kept.\<close>

lemma stored_value:
  assumes "valid v" and "off + ValueSize v \<le> length buf"
  obtains w where "bindE (view buf off (ValueSize v)) (\<lambda>data. Write data v) = Inr w"
    and "length w = ValueSize v"
    and "bindE (view (overwrite off w buf) off (ValueSize v)) Parse = Inr v"
    and "take off (overwrite off w buf) = take off buf"
proof -
  have len: "length (take (ValueSize v) (drop off buf)) = ValueSize v" using assms(2) by simp
  from write_parse [OF assms(1) len] obtain w
    where w: "Write (take (ValueSize v) (drop off buf)) v = Inr w" "length w = ValueSize v"
      "Parse w = Inr v"
    using len by auto
  have "take (ValueSize v) (drop off (overwrite off w buf)) = w"
    using assms(2) w(2) by (simp add: overwrite_def)
  with assms(2) w that show thesis by simp
qed

lemma parse_in_packet: "off + n \<le> length buf \<Longrightarrow> only_rejects (bindE (view buf off n) Parse)"
  by (simp add: only_rejects_bindE parse_safe)

end

subsection \<open>Valid values\<close>

text \<open>The values the \<open>RTC_DCHECK\<close>s of \<open>Write\<close> and the wire formats admit.\<close>

definition valid_24bits :: "u32 \<Rightarrow> bool" where
  "valid_24bits t \<longleftrightarrow> unat t < 2 ^ 24"

definition valid_capture_time :: "absolute_capture_time \<Rightarrow> bool" where
  "valid_capture_time ext \<longleftrightarrow>
     (case estimated_capture_clock_offset ext of None \<Rightarrow> True | Some off \<Rightarrow> - (2 ^ 63) \<le> off \<and> off < 2 ^ 63)"

definition valid_csrc_levels :: "byte list \<Rightarrow> bool" where
  "valid_csrc_levels ls \<longleftrightarrow> length ls \<le> kRtpCsrcSize \<and> list_all (\<lambda>b. b AND 0x7F = b) ls"

definition valid_offset :: "int \<Rightarrow> bool" where
  "valid_offset t \<longleftrightarrow> - (2 ^ 23) \<le> t \<and> t < 2 ^ 23"

definition valid_feedback :: "u16 \<times> feedback_request option \<Rightarrow> bool" where
  "valid_feedback v \<longleftrightarrow>
     (case snd v of None \<Rightarrow> True | Some req \<Rightarrow> 0 < sequence_count req \<and> sequence_count req < 2 ^ 15)"

definition valid_playout_delay :: "playout_delay \<Rightarrow> bool" where
  "valid_playout_delay d \<longleftrightarrow>
     0 \<le> min_ms d \<and> min_ms d \<le> max_ms d \<and> max_ms d \<le> kMaxMs \<and>
     min_ms d mod kGranularityMs = 0 \<and> max_ms d mod kGranularityMs = 0"

definition valid_rtp_string :: "byte list \<Rightarrow> bool" where
  "valid_rtp_string s \<longleftrightarrow> s \<noteq> [] \<and> length s \<le> kMaxValueSizeBytes \<and> list_all (\<lambda>c. c \<noteq> 0) s"

subsection \<open>Bit-level facts\<close>

lemma include_timestamps_bit: "unat kIncludeTimestampsBit = 2 ^ 15"
  by (simp add: kIncludeTimestampsBit_def)

lemma bit_include_timestamps: "bit kIncludeTimestampsBit n \<longleftrightarrow> n = 15"
  unfolding kIncludeTimestampsBit_def bit_push_bit_iff bit_1_iff by auto

lemma feedback_fields:
  assumes "unat (w :: u16) < 2 ^ 15"
  shows "(w OR kIncludeTimestampsBit) AND NOT kIncludeTimestampsBit = w"
    and "w AND NOT kIncludeTimestampsBit = w"
    and "(w OR kIncludeTimestampsBit) AND kIncludeTimestampsBit \<noteq> 0"
    and "w AND kIncludeTimestampsBit = 0"
proof -
  have disj: "kIncludeTimestampsBit AND w = 0"
    using push_bit_and_small [OF assms, of 1] by (simp only: kIncludeTimestampsBit_def)
  then have b: "\<not> bit w 15"
    by (metis bit_0_eq bit_and_iff bit_include_timestamps bot_apply bot_bool_def)
  show "w AND kIncludeTimestampsBit = 0" using disj by (simp add: and.commute)
  show "w AND NOT kIncludeTimestampsBit = w"
    using b bit_include_timestamps by (auto intro!: bit_eqI simp: bit_simps)
  show "(w OR kIncludeTimestampsBit) AND NOT kIncludeTimestampsBit = w"
    using b bit_include_timestamps by (auto intro!: bit_eqI simp: bit_simps)
  show "(w OR kIncludeTimestampsBit) AND kIncludeTimestampsBit \<noteq> 0"
    using bit_include_timestamps by (metis bit_0_eq bit_and_iff bit_or_iff bot_apply bot_bool_def)
qed

subsection \<open>Every class keeps the contract\<close>

named_theorems ext_defs "definitions of the extension classes"

lemmas [ext_defs] =
  AbsoluteSendTime_Parse_def AbsoluteSendTime_ValueSize_def AbsoluteSendTime_Write_def
  AbsoluteCaptureTime_Parse_def AbsoluteCaptureTime_ValueSize_def AbsoluteCaptureTime_Write_def
  AudioLevel_Parse_def AudioLevel_ValueSize_def AudioLevel_Write_def
  CsrcAudioLevel_Parse_def CsrcAudioLevel_ValueSize_def CsrcAudioLevel_Write_def
  TransmissionOffset_Parse_def TransmissionOffset_ValueSize_def TransmissionOffset_Write_def
  TransportSequenceNumber_Parse_def TransportSequenceNumber_ValueSize_def
  TransportSequenceNumber_Write_def TransportSequenceNumberV2_Parse_def
  TransportSequenceNumberV2_ValueSize_def TransportSequenceNumberV2_Write_def
  VideoOrientation_Parse_def VideoOrientation_Write_def
  PlayoutDelayLimits_Parse_def PlayoutDelayLimits_ValueSize_def PlayoutDelayLimits_Write_def
  VideoContentType_Parse_def VideoContentType_Write_def
  VideoTiming_Parse_def VideoTiming_ValueSize_def VideoTiming_Write_def
  BaseRtpString_Parse_def BaseRtpString_ValueSize_def BaseRtpString_Write_def
  VideoFrameTrackingId_Parse_def VideoFrameTrackingId_ValueSize_def VideoFrameTrackingId_Write_def

text \<open>The classes without a byte order.\<close>

lemma level_bits:
  assumes "(b :: byte) \<le> 0x7F"
  shows "b AND 0x7F = b" and "b AND 0x80 = 0"
    and "(0x80 OR b) AND 0x7F = b" and "(0x80 OR b) AND 0x80 = 0x80"
proof -
  have small: "unat b < 2 ^ 7" using assms by (simp add: word_le_nat_alt)
  from push_bit_and_small [OF this, of 1] show d: "b AND 0x80 = 0" by (simp add: and.commute)
  have "take_bit 7 b = b" using small by (simp add: word_unat_eq_iff unat_take_bit)
  then show t: "b AND 0x7F = b" by (simp add: take_bit_eq_mask mask_eq_exp_minus_1)
  show "(0x80 OR b) AND 0x7F = b" by (simp add: word_ao_dist t)
  show "(0x80 OR b) AND 0x80 = 0x80" by (simp add: word_ao_dist d)
qed

interpretation audio_level:
  rtp_extension AudioLevel_Parse AudioLevel_ValueSize AudioLevel_Write "\<lambda>v. snd v \<le> 0x7F"
proof
  fix v :: "bool \<times> byte" and data :: "byte list"
  assume v: "snd v \<le> 0x7F" and len: "length data = AudioLevel_ValueSize v"
  obtain a l where [simp]: "v = (a, l)" by (cases v)
  have "AudioLevel_Write data v = Inr [(if a then 0x80 else 0x00) OR l]"
    using v len by (simp add: ext_defs overwrite_whole not_less)
  moreover have "AudioLevel_Parse [(if a then 0x80 else 0x00) OR l] = Inr v"
    using v by (simp add: ext_defs level_bits)
  ultimately show "\<exists>data'. AudioLevel_Write data v = Inr data' \<and> length data' = length data \<and>
      AudioLevel_Parse data' = Inr v" using len by (simp add: ext_defs)
next
  fix data :: "byte list"
  show "only_rejects (AudioLevel_Parse data)" by (simp add: ext_defs only_rejects_bindE)
qed

interpretation csrc_audio_level:
  rtp_extension CsrcAudioLevel_Parse CsrcAudioLevel_ValueSize CsrcAudioLevel_Write valid_csrc_levels
  by unfold_locales (auto simp: ext_defs valid_csrc_levels_def list_all_iff map_idI)

interpretation video_orientation:
  rtp_extension "VideoOrientation_Parse from_byte" "\<lambda>_. 1" "VideoOrientation_Write to_byte"
    "\<lambda>r. from_byte (to_byte r) = r" for from_byte to_byte
  by unfold_locales (auto simp: ext_defs overwrite_whole only_rejects_bindE)

interpretation video_content_type:
  rtp_extension "VideoContentType_Parse is_valid" "\<lambda>_. 1" VideoContentType_Write is_valid for is_valid
  by unfold_locales (auto simp: ext_defs overwrite_whole only_rejects_bindE)

interpretation rtp_string:
  rtp_extension BaseRtpString_Parse BaseRtpString_ValueSize BaseRtpString_Write valid_rtp_string
  by unfold_locales
    (auto simp: ext_defs valid_rtp_string_def list_all_iff overwrite_whole only_rejects_bindE takeWhile_eq_all_conv)

sublocale big_endian_io \<subseteq> abs_send_time:
  rtp_extension "AbsoluteSendTime_Parse io" AbsoluteSendTime_ValueSize "AbsoluteSendTime_Write io" valid_24bits
  by unfold_locales (auto simp: ext_defs valid_24bits_def overwrite_whole only_rejects_bindE rd_def
     read_write [where rest = "[]", simplified])

sublocale big_endian_io \<subseteq> transmission_offset:
  rtp_extension "TransmissionOffset_Parse io" TransmissionOffset_ValueSize "TransmissionOffset_Write io" valid_offset
  by unfold_locales (auto simp: ext_defs valid_offset_def overwrite_whole rds_def
     read_write_s [where rest = "[]", simplified])

sublocale big_endian_io \<subseteq> transport_sequence_number:
  rtp_extension "TransportSequenceNumber_Parse io" TransportSequenceNumber_ValueSize
    "TransportSequenceNumber_Write io" "\<lambda>_. True"
  by unfold_locales (auto simp: ext_defs overwrite_whole rd16_def rd_def)

sublocale big_endian_io \<subseteq> video_frame_tracking_id:
  rtp_extension "VideoFrameTrackingId_Parse io" VideoFrameTrackingId_ValueSize
    "VideoFrameTrackingId_Write io" "\<lambda>_. True"
  by unfold_locales (auto simp: ext_defs overwrite_whole rd16_def rd_def)
sublocale big_endian_io \<subseteq> absolute_capture_time:
  rtp_extension "AbsoluteCaptureTime_Parse io ext0" AbsoluteCaptureTime_ValueSize
    "AbsoluteCaptureTime_Write io"
    "\<lambda>ext. valid_capture_time ext \<and>
       (estimated_capture_clock_offset ext0 = None \<or> estimated_capture_clock_offset ext \<noteq> None)"
    for ext0 :: absolute_capture_time
proof
  fix v and data :: "byte list"
  assume v: "valid_capture_time v \<and>
      (estimated_capture_clock_offset ext0 = None \<or> estimated_capture_clock_offset v \<noteq> None)"
    and len: "length data = AbsoluteCaptureTime_ValueSize v"
  define t where "t = WriteBE io 8 (unat (absolute_capture_timestamp v))"
  have t: "length t = 8" "ReadBE io 8 (t @ rest) = unat (absolute_capture_timestamp v)" for rest
    using unat_lt [of "absolute_capture_timestamp v"] by (simp_all add: t_def read_write)
  show "\<exists>data'. AbsoluteCaptureTime_Write io data v = Inr data' \<and> length data' = length data \<and>
      AbsoluteCaptureTime_Parse io ext0 data' = Inr v"
  proof (cases "estimated_capture_clock_offset v")
    case None
    then have "AbsoluteCaptureTime_Write io data v = Inr t"
      using len t by (simp add: ext_defs overwrite_whole flip: t_def)
    moreover have "AbsoluteCaptureTime_Parse io ext0 t = Inr v"
      using None v t(1) t(2) [of "[]"] by (simp add: ext_defs rd_def)
    ultimately show ?thesis using len t None by (simp add: ext_defs)
  next
    case (Some off)
    define w where "w = WriteBES io 8 off"
    have w: "length w = 8" "ReadBES io 8 w = off"
      using v Some read_write_s [of 8 off "[]"] by (simp_all add: w_def valid_capture_time_def)
    from Some have "AbsoluteCaptureTime_Write io data v = Inr (t @ w)"
      using len t w by (simp add: ext_defs buf_simps overwrite_whole flip: t_def w_def)
    moreover have "AbsoluteCaptureTime_Parse io ext0 (t @ w) = Inr v"
      using Some v t w by (simp add: ext_defs rd_def rds_def)
    ultimately show ?thesis using len t w Some by (simp add: ext_defs)
  qed
next
  fix data
  show "only_rejects (AbsoluteCaptureTime_Parse io ext0 data)"
    by (auto simp: ext_defs only_rejects_bindE Let_def)
qed

sublocale big_endian_io \<subseteq> transport_sequence_number_v2:
  rtp_extension "TransportSequenceNumberV2_Parse io" TransportSequenceNumberV2_ValueSize
    "TransportSequenceNumberV2_Write io" valid_feedback
proof
  fix v and data :: "byte list"
  assume v: "valid_feedback v" and len: "length data = TransportSequenceNumberV2_ValueSize v"
  obtain sn fr where [simp]: "v = (sn, fr)" by (cases v)
  show "\<exists>data'. TransportSequenceNumberV2_Write io data v = Inr data' \<and> length data' = length data \<and>
      TransportSequenceNumberV2_Parse io data' = Inr v"
  proof (cases fr)
    case None
    then have "TransportSequenceNumberV2_Write io data v = Inr (wr16 io sn)"
      using len by (simp add: ext_defs overwrite_whole)
    moreover have "TransportSequenceNumberV2_Parse io (wr16 io sn) = Inr v"
      using None by (simp add: ext_defs rd16_def rd_def)
    ultimately show ?thesis using len None by (simp add: ext_defs)
  next
    case (Some req)
    define n where "n = (of_int (sequence_count req) :: u16)"
    define raw where "raw = n OR (if include_timestamps req then kIncludeTimestampsBit else 0)"
    from v Some have cnt: "0 < sequence_count req" "sequence_count req < 2 ^ 15"
      by (simp_all add: valid_feedback_def)
    then have u: "uint n = sequence_count req" by (simp add: n_def take_bit_int_eq_self unsigned_of_int)
    then have n: "unat n < 2 ^ 15" "n \<noteq> 0" using cnt by (auto simp: unat_eq_nat_uint nat_less_iff)
    from Some have "TransportSequenceNumberV2_Write io data v = Inr (wr16 io sn @ wr16 io raw)"
      using len by (simp add: ext_defs buf_simps overwrite_whole raw_def n_def Let_def)
    moreover have "rd16 io (wr16 io sn @ wr16 io raw) 0 = Inr sn"
      using rd16_at_write [of "[]" 0 sn] by simp
    moreover have "rd16 io (wr16 io sn @ wr16 io raw) 2 = Inr raw"
      using rd16_at_write [of "wr16 io sn" 2 raw "[]"] by simp
    ultimately show ?thesis
      using len Some feedback_fields [OF n(1)] n(2) u
      by (simp add: ext_defs Let_def raw_def)
  qed
next
  fix data
  show "only_rejects (TransportSequenceNumberV2_Parse io data)"
    by (auto simp: ext_defs only_rejects_bindE Let_def)
qed

context big_endian_io
begin

lemma playout_delay_floor:
  assumes "0 \<le> min_ms d" and "min_ms d \<le> max_ms d" and "max_ms d \<le> kMaxMs" and "length data = 3"
  obtains data' where "PlayoutDelayLimits_Write io data d = Inr data'" and "length data' = 3"
    and "PlayoutDelayLimits_Parse io data' =
      Inr \<lparr>min_ms = min_ms d div 10 * 10, max_ms = max_ms d div 10 * 10\<rparr>"
proof -
  define lo hi where "lo = nat (min_ms d div 10)" and "hi = nat (max_ms d div 10)"
  have b: "lo \<le> hi" "hi < 2 ^ 12" "int lo = min_ms d div 10" "int hi = max_ms d div 10"
    using assms(1-3) by (auto simp: lo_def hi_def kMaxMs_def kGranularityMs_def zdiv_mono1)
  define raw where "raw = (push_bit 12 (of_nat lo) OR of_nat hi :: u32)"
  have u: "unat (of_nat lo :: u32) = lo" "unat (of_nat hi :: u32) = hi"
    using b by (simp_all add: unat_of_nat_small)
  have raw: "unat raw = lo * 2 ^ 12 + hi"
    using b unat_pack [of "of_nat hi :: u32" 12 "of_nat lo"] by (simp add: raw_def u)
  then have small: "unat raw < 256 ^ 3" using b by simp
  have tdiv: "tdiv (min_ms d) kGranularityMs = int lo" "tdiv (max_ms d) kGranularityMs = int hi"
    using assms(1,2) b by (simp_all add: tdiv_nonneg kGranularityMs_def)
  have "PlayoutDelayLimits_Write io data d = Inr (WriteBE io 3 (unat raw))"
    using assms(4) by (simp add: ext_defs Let_def tdiv raw_def overwrite_whole)
  moreover have "rd io 3 (WriteBE io 3 (unat raw)) 0 = Inr (unat raw)"
    using rd_at_write [of "[]" 0 "unat raw" 3 "[]"] small by simp
  moreover have "uint (ucast (drop_bit 12 raw) :: u16) = int lo"
  proof -
    have "unat (drop_bit 12 raw) = lo" using raw b by (simp add: unat_drop_bit)
    then show ?thesis using b by (simp add: uint_nat unsigned_ucast_eq take_bit_nat_eq_self)
  qed
  moreover have "uint (ucast (raw AND 0xfff) :: u16) = int hi"
  proof -
    have "unat (raw AND 0xfff) = hi"
      using raw b unat_take_bit [of 12 raw] by (simp add: take_bit_eq_mask mask_eq_exp_minus_1)
    then show ?thesis using b by (simp add: uint_nat unsigned_ucast_eq take_bit_nat_eq_self)
  qed
  ultimately show thesis
    using that b by (simp add: ext_defs Let_def word_less_alt not_less kGranularityMs_def)
qed

end

sublocale big_endian_io \<subseteq> playout_delay_limits:
  rtp_extension "PlayoutDelayLimits_Parse io" PlayoutDelayLimits_ValueSize
    "PlayoutDelayLimits_Write io" valid_playout_delay
proof
  fix v and data :: "byte list"
  assume v: "valid_playout_delay v" and len: "length data = PlayoutDelayLimits_ValueSize v"
  from v have m: "min_ms v div 10 * 10 = min_ms v" "max_ms v div 10 * 10 = max_ms v"
    by (auto simp: valid_playout_delay_def kGranularityMs_def dvd_div_mult_self)
  have "length data = 3" using len by (simp add: ext_defs)
  with v obtain data' where w: "PlayoutDelayLimits_Write io data v = Inr data'" "length data' = 3"
    "PlayoutDelayLimits_Parse io data' =
      Inr \<lparr>min_ms = min_ms v div 10 * 10, max_ms = max_ms v div 10 * 10\<rparr>"
    by (meson playout_delay_floor valid_playout_delay_def)
  show "\<exists>data'. PlayoutDelayLimits_Write io data v = Inr data' \<and> length data' = length data \<and>
      PlayoutDelayLimits_Parse io data' = Inr v"
    using w len m by (simp add: PlayoutDelayLimits_ValueSize_def)
next
  fix data
  show "only_rejects (PlayoutDelayLimits_Parse io data)"
    by (auto simp: ext_defs only_rejects_bindE Let_def)
qed

sublocale big_endian_io \<subseteq> video_timing:
  rtp_extension "VideoTiming_Parse io" VideoTiming_ValueSize "VideoTiming_Write io" "\<lambda>_. True"
proof
  fix v and data :: "byte list"
  assume len: "length data = VideoTiming_ValueSize v"
  define fields where "fields = [encode_start_delta_ms v, encode_finish_delta_ms v,
    packetization_finish_delta_ms v, pacer_exit_delta_ms v, network_timestamp_delta_ms v,
    network2_timestamp_delta_ms v]"
  define bytes where "bytes = [flags v] @ concat (map (wr16 io) fields)"
  have "VideoTiming_Write io data v = Inr bytes"
    using len write_byte [of "flags v"]
    by (simp add: ext_defs buf_simps overwrite_whole bytes_def fields_def)
  moreover have "VideoTiming_Parse io bytes = Inr v"
    by (simp add: ext_defs bytes_def fields_def rd16_def rd_def read_step read_zero)
  ultimately show "\<exists>data'. VideoTiming_Write io data v = Inr data' \<and> length data' = length data \<and>
      VideoTiming_Parse io data' = Inr v"
    using len by (simp add: ext_defs bytes_def fields_def)
next
  fix data
  show "only_rejects (VideoTiming_Parse io data)"
    by (auto simp: ext_defs only_rejects_bindE)
qed

context big_endian_io
begin

lemmas tsn_v2_stored = transport_sequence_number_v2.stored_value
lemmas video_timing_stored = video_timing.stored_value

end

section \<open>Properties\<close>

text \<open>Playout delay limits survive the wire at the granularity of the format: limits with
  \<open>0 \<le> min \<le> max \<le> kMaxMs\<close> are written without error into the three bytes of the extension and parse
  back to the same limits rounded down to multiples of 10 ms.\<close>

theorem playout_delay_roundtrip:
  assumes "big_endian_io io"
    and "0 \<le> min_ms d" and "min_ms d \<le> max_ms d" and "max_ms d \<le> kMaxMs"
    and "length data = PlayoutDelayLimits_ValueSize d"
  shows "bindE (PlayoutDelayLimits_Write io data d) (PlayoutDelayLimits_Parse io) =
    Inr \<lparr>min_ms = min_ms d div 10 * 10, max_ms = max_ms d div 10 * 10\<rparr>"
proof -
  have "length data = 3" using assms(5) by (simp add: PlayoutDelayLimits_ValueSize_def)
  then obtain data' where "PlayoutDelayLimits_Write io data d = Inr data'"
    "PlayoutDelayLimits_Parse io data' =
      Inr \<lparr>min_ms = min_ms d div 10 * 10, max_ms = max_ms d div 10 * 10\<rparr>"
    by (rule big_endian_io.playout_delay_floor [OF assms(1-4)])
  then show ?thesis by simp
qed

theorem playout_delay_roundtrip_witness:
  "bindE (PlayoutDelayLimits_Write be_io [0, 0, 0] \<lparr>min_ms = 25, max_ms = 40950\<rparr>)
     (PlayoutDelayLimits_Parse be_io) = Inr \<lparr>min_ms = 20, max_ms = 40950\<rparr>"
  using playout_delay_roundtrip [OF be.big_endian_io_axioms, of "\<lparr>min_ms = 25, max_ms = 40950\<rparr>" "[0, 0, 0]"]
  by (simp add: PlayoutDelayLimits_ValueSize_def kMaxMs_def kGranularityMs_def)

text \<open>Transport-wide sequence numbers, version 2: a sequence number and an optional feedback
  request (count between 1 and \<open>2^15 - 1\<close>) that are written into their place in a packet are read back
  from that place, the bytes before it are untouched.\<close>

theorem transport_sequence_number_v2_roundtrip:
  assumes "big_endian_io io" and "valid_feedback v"
    and "off + TransportSequenceNumberV2_ValueSize v \<le> length buf"
  shows "\<exists>w. bindE (view buf off (TransportSequenceNumberV2_ValueSize v))
               (\<lambda>data. TransportSequenceNumberV2_Write io data v) = Inr w \<and>
             bindE (view (overwrite off w buf) off (TransportSequenceNumberV2_ValueSize v))
               (TransportSequenceNumberV2_Parse io) = Inr v \<and>
             take off (overwrite off w buf) = take off buf"
  using big_endian_io.tsn_v2_stored [OF assms] by blast

theorem transport_sequence_number_v2_roundtrip_witness:
  "\<exists>w. bindE (view (replicate 6 7) 1 4)
          (\<lambda>data. TransportSequenceNumberV2_Write be_io data
             (0x1234, Some \<lparr>include_timestamps = True, sequence_count = 5\<rparr>)) = Inr w \<and>
        bindE (view (overwrite 1 w (replicate 6 7)) 1 4) (TransportSequenceNumberV2_Parse be_io) =
          Inr (0x1234, Some \<lparr>include_timestamps = True, sequence_count = 5\<rparr>) \<and>
        take 1 (overwrite 1 w (replicate 6 7)) = [7]"
  using transport_sequence_number_v2_roundtrip [OF be.big_endian_io_axioms,
      of "(0x1234, Some \<lparr>include_timestamps = True, sequence_count = 5\<rparr>)" 1 "replicate 6 7"]
  by (simp add: valid_feedback_def TransportSequenceNumberV2_ValueSize_def)

text \<open>The absolute send time wraps around every 64 seconds: for every non-negative time,
  \<open>MsTo24Bits\<close> is a 24-bit number that depends only on the time modulo 64000 ms (the format has 6
  bits of seconds), so two endpoints agree on it whatever their common epoch multiple of 64 s.\<close>

theorem abs_send_time_wraps:
  assumes "0 \<le> t"
  shows "MsTo24Bits (t + 64000 * int k) = MsTo24Bits t \<and> unat (MsTo24Bits t) < 2 ^ 24"
proof (intro conjI)
  have q: "((t + 64000 * int k) * 2 ^ 18 + 500) div 1000 = (t * 2 ^ 18 + 500) div 1000 + int k * 2 ^ 24"
  proof -
    have "(t + 64000 * int k) * 2 ^ 18 + 500 = (t * 2 ^ 18 + 500) + 1000 * (int k * 2 ^ 24)" by simp
    then show ?thesis by (simp only: div_mult_self2 mult.commute [of 1000])
  qed
  have m: "(w :: u32) AND 0x00FFFFFF = take_bit 24 w" for w
    by (simp add: take_bit_eq_mask mask_eq_exp_minus_1)
  have step: "take_bit 24 (of_int (a + int k * 2 ^ 24) :: u32) = take_bit 24 (of_int a)" for a
  proof -
    have "take_bit 24 (a + int k * 2 ^ 24) = take_bit 24 a" by (simp add: take_bit_eq_mod)
    then show ?thesis by (metis of_int_take_bit)
  qed
  have "tdiv (s * 2 ^ 18 + 500) 1000 = (s * 2 ^ 18 + 500) div 1000" if "0 \<le> s" for s
    using that by (intro tdiv_nonneg) auto
  with assms show "MsTo24Bits (t + 64000 * int k) = MsTo24Bits t"
    by (simp only: MsTo24Bits_def m q step of_nat_0_le_iff add_nonneg_nonneg mult_nonneg_nonneg zero_le_numeral)
  show "unat (MsTo24Bits t) < 2 ^ 24"
    by (simp only: MsTo24Bits_def m unat_take_bit) simp
qed

theorem abs_send_time_wraps_witness:
  "MsTo24Bits (1000 + 64000 * int 3) = 262144 \<and> MsTo24Bits 1000 = 262144"
proof -
  have "MsTo24Bits 1000 = 262144" by code_simp
  then show ?thesis using abs_send_time_wraps [of 1000 3] by simp
qed

text \<open>In-band comfort noise does not survive the wire: the flag bit that \<open>Write\<close> sets when there is a
  level is the bit that \<open>Parse\<close> reads as \<open>no level\<close>. A level that was written parses as absent, and an
  absent level parses as level 0.\<close>

theorem comfort_noise_inverted:
  "bindE (InbandComfortNoise_Write [b] None) InbandComfortNoise_Parse = Inr (Some 0) \<and>
   (l \<le> 127 \<longrightarrow> bindE (InbandComfortNoise_Write [b] (Some l)) InbandComfortNoise_Parse = Inr None) \<and>
   (127 < l \<longrightarrow> InbandComfortNoise_Write [b] (Some l) = Inl Rejected)"
  by (auto simp: InbandComfortNoise_Write_def InbandComfortNoise_Parse_def overwrite_whole level_bits)

theorem comfort_noise_inverted_witness:
  "bindE (InbandComfortNoise_Write [0] (Some 30)) InbandComfortNoise_Parse = Inr None \<and>
   InbandComfortNoise_Write [0] (Some 200) = Inl Rejected"
  using comfort_noise_inverted [of 0 30] comfort_noise_inverted [of 0 200] by simp

text \<open>No extension parser goes wrong on a value of any length: every \<open>Parse\<close> accepts or refuses,
  and none reads outside the value.\<close>

theorem extension_parsers_safe:
  "only_rejects (AbsoluteSendTime_Parse io data) \<and>
   only_rejects (AbsoluteCaptureTime_Parse io ext data) \<and>
   only_rejects (AudioLevel_Parse data) \<and>
   only_rejects (CsrcAudioLevel_Parse data) \<and>
   only_rejects (TransmissionOffset_Parse io data) \<and>
   only_rejects (TransportSequenceNumber_Parse io data) \<and>
   only_rejects (TransportSequenceNumberV2_Parse io data) \<and>
   only_rejects (VideoOrientation_Parse conv data) \<and>
   only_rejects (PlayoutDelayLimits_Parse io data) \<and>
   only_rejects (VideoContentType_Parse is_valid data) \<and>
   only_rejects (VideoTiming_Parse io data) \<and>
   only_rejects (BaseRtpString_Parse data) \<and>
   only_rejects (InbandComfortNoise_Parse data) \<and>
   only_rejects (VideoFrameTrackingId_Parse io data)"
  by (intro conjI) (auto simp: ext_defs InbandComfortNoise_Parse_def only_rejects_bindE Let_def)

end
