(* ===== verification/Rtp_Packet.thy ===== *)
theory Rtp_Packet
  imports Extension_Map Rtp_Extensions
begin

text \<open>
  \<open>RtpPacket\<close> (\<open>modules/rtp_rtcp/rtp_packet.{h,cpp}\<close>). \<open>rtc::CopyOnWriteBuffer\<close> is
  WebRTC's: its effect on the visible bytes and the capacity is the argument \<open>cow\<close>, with the laws of
  the locale \<open>cow_buffer\<close>. A function that stops half way returns the packet as it left it and
  \<open>False\<close>.
\<close>

section \<open>The buffer\<close>

text \<open>\<open>fresh n\<close>: the (indeterminate) bytes of a new buffer of size \<open>n\<close>; \<open>resized bs cap n\<close>: the bytes
  after \<open>SetSize(n)\<close>; \<open>resized_cap\<close> and \<open>assigned_cap\<close>: the capacities after \<open>SetSize\<close> and
  \<open>SetData\<close>.\<close>

record cow_ops =
  fresh :: "nat \<Rightarrow> byte list"
  resized :: "byte list \<Rightarrow> nat \<Rightarrow> nat \<Rightarrow> byte list"
  resized_cap :: "nat \<Rightarrow> nat \<Rightarrow> nat"
  assigned_cap :: "nat \<Rightarrow> nat \<Rightarrow> nat"

locale cow_buffer =
  fixes cow :: cow_ops
  assumes fresh_length [simp]: "length (fresh cow n) = n"
    and resized_length [simp]: "length (resized cow bs cap n) = n"
    and resized_prefix: "take (min n (length bs)) (resized cow bs cap n) = take (min n (length bs)) bs"
    and resized_cap_enough: "n \<le> resized_cap cow cap n"
    and resized_cap_kept: "n \<le> cap \<Longrightarrow> resized_cap cow cap n = cap"
    and assigned_cap_enough: "n \<le> assigned_cap cow cap n"

section \<open>Data\<close>

record extension_info =
  info_id :: byte
  info_length :: byte
  info_offset :: u16

record rtp_packet =
  pkt_marker :: bool
  pkt_payload_type :: byte
  pkt_sequence_number :: u16
  pkt_timestamp :: u32
  pkt_ssrc :: u32
  payload_offset :: nat
  pkt_payload_size :: nat
  pkt_padding_size :: nat
  buffer :: "byte list"
  buffer_capacity :: nat
  extensions :: ext_map
  extensions_size :: nat
  extension_entries :: "extension_info list"

definition kDefaultRtpCapacity :: nat where
  "kDefaultRtpCapacity = 1500"

definition kFixedHeaderSize :: nat where
  "kFixedHeaderSize = 12"

definition header_size :: "rtp_packet \<Rightarrow> nat" where
  "header_size p = payload_offset p"

definition packet_size :: "rtp_packet \<Rightarrow> nat" where
  "packet_size p = payload_offset p + pkt_payload_size p + pkt_padding_size p"

definition FreeCapacity :: "rtp_packet \<Rightarrow> nat" where
  "FreeCapacity p = size_sub (buffer_capacity p) (packet_size p)"

definition packet_payload :: "rtp_packet \<Rightarrow> error + byte list" where
  "packet_payload p = view (buffer p) (payload_offset p) (pkt_payload_size p)"

section \<open>Writing\<close>

definition WriteAt :: "nat \<Rightarrow> byte list \<Rightarrow> rtp_packet \<Rightarrow> error + rtp_packet" where
  "WriteAt offset bs p = bindE (put (buffer p) offset bs) (\<lambda>b. Inr (p\<lparr>buffer := b\<rparr>))"

definition set_size :: "cow_ops \<Rightarrow> nat \<Rightarrow> rtp_packet \<Rightarrow> rtp_packet" where
  "set_size cow n p = p\<lparr>buffer := resized cow (buffer p) (buffer_capacity p) n,
                        buffer_capacity := resized_cap cow (buffer_capacity p) n\<rparr>"

definition Clear :: "cow_ops \<Rightarrow> rtp_packet \<Rightarrow> error + rtp_packet" where
  "Clear cow p =
     (let p = p\<lparr>pkt_marker := False, pkt_payload_type := 0, pkt_sequence_number := 0,
                pkt_timestamp := 0, pkt_ssrc := 0, payload_offset := kFixedHeaderSize,
                pkt_payload_size := 0, pkt_padding_size := 0\<rparr>
      in WriteAt 0 [push_bit 6 2] (set_size cow kFixedHeaderSize p))"

definition RtpPacket_init :: "cow_ops \<Rightarrow> rtp_packet \<Rightarrow> nat \<Rightarrow> error + rtp_packet" where
  "RtpPacket_init cow p0 capacity =
     Clear cow (p0\<lparr>buffer := fresh cow capacity, buffer_capacity := capacity,
                   extensions := RtpHeaderExtensionMap_init False, extensions_size := 0,
                   extension_entries := []\<rparr>)"

definition SetMarker :: "bool \<Rightarrow> rtp_packet \<Rightarrow> error + rtp_packet" where
  "SetMarker marker_bit p =
     (let p = p\<lparr>pkt_marker := marker_bit\<rparr> in
      bindE (byte_at (buffer p) 1) (\<lambda>b.
        WriteAt 1 [if marker_bit then b OR 0x80 else b AND 0x7F] p))"

definition SetPayloadType :: "byte \<Rightarrow> rtp_packet \<Rightarrow> error + rtp_packet" where
  "SetPayloadType payload_type p =
     (let p = p\<lparr>pkt_payload_type := payload_type\<rparr> in
      bindE (byte_at (buffer p) 1) (\<lambda>b. WriteAt 1 [(b AND 0x80) OR payload_type] p))"

definition SetSequenceNumber :: "byte_io \<Rightarrow> u16 \<Rightarrow> rtp_packet \<Rightarrow> error + rtp_packet" where
  "SetSequenceNumber io seq_no p = WriteAt 2 (wr16 io seq_no) (p\<lparr>pkt_sequence_number := seq_no\<rparr>)"

definition SetTimestamp :: "byte_io \<Rightarrow> u32 \<Rightarrow> rtp_packet \<Rightarrow> error + rtp_packet" where
  "SetTimestamp io ts p = WriteAt 4 (wr32 io ts) (p\<lparr>pkt_timestamp := ts\<rparr>)"

definition SetSsrc :: "byte_io \<Rightarrow> u32 \<Rightarrow> rtp_packet \<Rightarrow> error + rtp_packet" where
  "SetSsrc io ssrc p = WriteAt 8 (wr32 io ssrc) (p\<lparr>pkt_ssrc := ssrc\<rparr>)"

text \<open>\<open>SetPayloadSize\<close> returns the offset it hands out a pointer to, or \<open>None\<close> for \<open>nullptr\<close>; the sum is
  a \<open>size_t\<close>.\<close>

definition SetPayloadSize :: "cow_ops \<Rightarrow> nat \<Rightarrow> rtp_packet \<Rightarrow> rtp_packet \<times> nat option" where
  "SetPayloadSize cow bytes_size p =
     (if size_add (payload_offset p) bytes_size > buffer_capacity p then (p, None)
      else (set_size cow (size_add (payload_offset p) bytes_size) (p\<lparr>pkt_payload_size := bytes_size\<rparr>),
            Some (payload_offset p)))"

definition AllocatePayload :: "cow_ops \<Rightarrow> nat \<Rightarrow> rtp_packet \<Rightarrow> rtp_packet \<times> nat option" where
  "AllocatePayload cow n p = SetPayloadSize cow n (fst (SetPayloadSize cow 0 p))"

section \<open>Parsing\<close>

fun FindExtensionInfo :: "nat \<Rightarrow> extension_info list \<Rightarrow> extension_info option" where
  "FindExtensionInfo i [] = None"
| "FindExtensionInfo i (e # es) = (if unat (info_id e) = i then Some e else FindExtensionInfo i es)"

text \<open>\<open>FindOrCreateExtensionInfo\<close> returns a reference into the vector; the entry is written through it
  by \<open>set_entry\<close>.\<close>

definition FindOrCreateExtensionInfo :: "nat \<Rightarrow> extension_info list \<Rightarrow> extension_info list" where
  "FindOrCreateExtensionInfo i es =
     (case FindExtensionInfo i es of
        Some _ \<Rightarrow> es
      | None \<Rightarrow> es @ [\<lparr>info_id = of_nat i, info_length = 0, info_offset = 0\<rparr>])"

fun set_entry :: "nat \<Rightarrow> nat \<Rightarrow> nat \<Rightarrow> extension_info list \<Rightarrow> extension_info list" where
  "set_entry i len off [] = []"
| "set_entry i len off (e # es) =
     (if unat (info_id e) = i then e\<lparr>info_length := of_nat len, info_offset := of_nat off\<rparr> # es
      else e # set_entry i len off es)"

text \<open>The header of one element: its id and length.\<close>

definition element_header :: "byte list \<Rightarrow> bool \<Rightarrow> nat \<Rightarrow> byte \<Rightarrow> error + nat \<times> nat" where
  "element_header buf one_byte pos b =
     (if one_byte then Inr (unat (drop_bit 4 b), 1 + unat (b AND 0xf))
      else bindE (byte_at buf (pos + 1)) (\<lambda>l. Inr (unat b, unat l)))"

text \<open>The \<open>while\<close> loop over the elements; \<open>sz\<close> is \<open>extensions_size_\<close>.\<close>

function ext_loop ::
  "byte list \<Rightarrow> bool \<Rightarrow> nat \<Rightarrow> nat \<Rightarrow> nat \<Rightarrow> extension_info list \<Rightarrow> error + nat \<times> extension_info list" where
  "ext_loop buf one_byte ext_off cap sz es =
     (let hl = (if one_byte then 1 else 2) in
      if sz + hl < cap then
        (case byte_at buf (ext_off + sz) of
           Inl e \<Rightarrow> Inl e
         | Inr b \<Rightarrow>
             if b = 0 then ext_loop buf one_byte ext_off cap (sz + 1) es
             else
               (case element_header buf one_byte (ext_off + sz) b of
                  Inl e \<Rightarrow> Inl e
                | Inr (i, len) \<Rightarrow>
                    if one_byte \<and> (i = 15 \<or> (i = 0 \<and> len \<noteq> 1)) then Inr (sz, es)
                    else if sz + hl + len > cap then Inr (sz, es)
                    else
                      let es = FindOrCreateExtensionInfo i es;
                          offset = ext_off + sz + hl in
                      if offset > 65535 then Inr (sz, es)
                      else ext_loop buf one_byte ext_off cap (sz + hl + len) (set_entry i len offset es)))
      else Inr (sz, es))"
  by pat_completeness auto
termination
  by (relation "measure (\<lambda>(_, _, _, cap, sz, _). cap - sz)") (auto split: if_splits)

declare ext_loop.simps [simp del]

definition ParseExtensions :: "byte_io \<Rightarrow> byte list \<Rightarrow> rtp_packet \<Rightarrow> error + rtp_packet \<times> bool" where
  "ParseExtensions io buf p =
     (let extension_offset = payload_offset p + 4 in
      if extension_offset > length buf then Inr (p, False)
      else bindE (rd16 io buf (payload_offset p)) (\<lambda>profile.
        bindE (rd16 io buf (payload_offset p + 2)) (\<lambda>words.
          let cap = unat words * 4 in
          if extension_offset + cap > length buf then Inr (p, False)
          else
            bindE (if profile \<noteq> 0xBEDE \<and> profile AND 0xfff0 \<noteq> 0x1000
                   then Inr (extensions_size p, extension_entries p)
                   else ext_loop buf (profile = 0xBEDE) extension_offset cap
                          (extensions_size p) (extension_entries p)) (\<lambda>(sz, es).
              Inr (p\<lparr>extensions_size := sz, extension_entries := es,
                     payload_offset := extension_offset + cap\<rparr>, True)))))"

definition ParsePadding :: "byte list \<Rightarrow> bool \<Rightarrow> rtp_packet \<Rightarrow> error + rtp_packet \<times> bool" where
  "ParsePadding buf has_padding p =
     bindE (if has_padding \<and> payload_offset p < length buf
            then bindE (byte_at buf (length buf - 1)) (\<lambda>b.
                   Inr (p\<lparr>pkt_padding_size := unat b\<rparr>, b \<noteq> 0))
            else Inr (p\<lparr>pkt_padding_size := 0\<rparr>, True)) (\<lambda>(p, ok).
       if \<not> ok then Inr (p, False)
       else if payload_offset p + pkt_padding_size p > length buf then Inr (p, False)
       else Inr (p\<lparr>pkt_payload_size := length buf - payload_offset p - pkt_padding_size p\<rparr>, True))"

definition ParseBuffer :: "byte_io \<Rightarrow> byte list \<Rightarrow> rtp_packet \<Rightarrow> error + rtp_packet \<times> bool" where
  "ParseBuffer io buf p =
     (if length buf < kFixedHeaderSize then Inr (p, False)
      else bindE (byte_at buf 0) (\<lambda>b0.
        if drop_bit 6 b0 \<noteq> 2 then Inr (p, False)
        else
          let has_padding = (b0 AND 0x20 \<noteq> 0);
              has_extension = (b0 AND 0x10 \<noteq> 0);
              number_of_crcs = unat (b0 AND 0x0f) in
          bindE (byte_at buf 1) (\<lambda>b1.
          bindE (rd16 io buf 2) (\<lambda>sn.
          bindE (rd32 io buf 4) (\<lambda>ts.
          bindE (rd32 io buf 8) (\<lambda>ss.
            let p = p\<lparr>pkt_marker := (b1 AND 0x80 \<noteq> 0), pkt_payload_type := b1 AND 0x7f,
                      pkt_sequence_number := sn, pkt_timestamp := ts, pkt_ssrc := ss\<rparr> in
            if length buf < kFixedHeaderSize + number_of_crcs * 4 then Inr (p, False)
            else
              let p = p\<lparr>payload_offset := kFixedHeaderSize + number_of_crcs * 4,
                        extensions_size := 0, extension_entries := []\<rparr> in
              bindE (if has_extension then ParseExtensions io buf p else Inr (p, True)) (\<lambda>(p, ok).
                if \<not> ok then Inr (p, False) else ParsePadding buf has_padding p)))))))"

text \<open>The overloads of \<open>Parse\<close>: copying bytes, and taking over a buffer with its capacity.\<close>

definition Parse :: "byte_io \<Rightarrow> cow_ops \<Rightarrow> byte list \<Rightarrow> rtp_packet \<Rightarrow> error + rtp_packet \<times> bool" where
  "Parse io cow buf p =
     bindE (ParseBuffer io buf p) (\<lambda>(p, ok).
       if \<not> ok then bindE (Clear cow p) (\<lambda>p. Inr (p, False))
       else Inr (p\<lparr>buffer := buf, buffer_capacity := assigned_cap cow (buffer_capacity p) (length buf)\<rparr>, True))"

definition Parse_move ::
  "byte_io \<Rightarrow> cow_ops \<Rightarrow> byte list \<Rightarrow> nat \<Rightarrow> rtp_packet \<Rightarrow> error + rtp_packet \<times> bool" where
  "Parse_move io cow buf cap p =
     bindE (ParseBuffer io buf p) (\<lambda>(p, ok).
       if \<not> ok then bindE (Clear cow p) (\<lambda>p. Inr (p, False))
       else Inr (p\<lparr>buffer := buf, buffer_capacity := cap\<rparr>, True))"

section \<open>Extensions of a packet\<close>

text \<open>\<open>FindExtension\<close>: the empty view stands for \<open>nullptr\<close>.\<close>

definition FindExtension :: "RTPExtensionType \<Rightarrow> rtp_packet \<Rightarrow> error + byte list" where
  "FindExtension type p =
     (let i = GetId (extensions p) type in
      if i = kInvalidId then Inr []
      else case FindExtensionInfo (unat i) (extension_entries p) of
        None \<Rightarrow> Inr []
      | Some e \<Rightarrow> view (buffer p) (unat (info_offset e)) (unat (info_length e)))"

definition HasExtension :: "RTPExtensionType \<Rightarrow> rtp_packet \<Rightarrow> bool" where
  "HasExtension type p =
     (let i = GetId (extensions p) type in
      i \<noteq> kInvalidId \<and> FindExtensionInfo (unat i) (extension_entries p) \<noteq> None)"

definition GetExtension ::
  "RTPExtensionType \<Rightarrow> (byte list \<Rightarrow> error + 'v) \<Rightarrow> rtp_packet \<Rightarrow> error + 'v option" where
  "GetExtension type ParseValue p =
     bindE (FindExtension type p) (\<lambda>raw.
       if raw = [] then Inr None
       else case ParseValue raw of
         Inl Rejected \<Rightarrow> Inr None
       | Inl e \<Rightarrow> Inl e
       | Inr v \<Rightarrow> Inr (Some v))"

section \<open>Well-formed packets\<close>

text \<open>Every extension entry lies below \<open>lim\<close> and no id occurs twice.\<close>

definition entries_ok :: "nat \<Rightarrow> extension_info list \<Rightarrow> bool" where
  "entries_ok lim es \<longleftrightarrow> distinct (map info_id es) \<and>
     (\<forall>e \<in> set es. unat (info_offset e) + unat (info_length e) \<le> lim)"

definition packet_ok :: "rtp_packet \<Rightarrow> bool" where
  "packet_ok p \<longleftrightarrow> packet_size p = length (buffer p) \<and> length (buffer p) \<le> buffer_capacity p \<and>
     kFixedHeaderSize \<le> payload_offset p \<and> entries_ok (payload_offset p) (extension_entries p)"

lemma entries_ok_Nil [simp]: "entries_ok lim []"
  by (simp add: entries_ok_def)

lemma FindExtensionInfo_None:
  "FindExtensionInfo i es = None \<longleftrightarrow> (\<forall>e \<in> set es. unat (info_id e) \<noteq> i)"
  by (induction es) auto

lemma FindExtensionInfo_SomeD: "FindExtensionInfo i es = Some e \<Longrightarrow> e \<in> set es \<and> unat (info_id e) = i"
  by (induction es) (auto split: if_splits)

lemma entries_ok_create:
  assumes "entries_ok lim es" and "i < 256"
  shows "entries_ok lim (FindOrCreateExtensionInfo i es)"
proof -
  have "unat (of_nat i :: byte) = i" using assms(2) by (simp add: unat_of_nat_small)
  then have "of_nat i \<notin> info_id ` set es" if "FindExtensionInfo i es = None"
    using that by (metis FindExtensionInfo_None image_iff)
  then show ?thesis using assms(1)
    by (auto simp: entries_ok_def FindOrCreateExtensionInfo_def split: option.split)
qed

lemma map_id_set_entry [simp]: "map info_id (set_entry i len off es) = map info_id es"
  by (induction es) auto

lemma set_entry_bound:
  assumes "e \<in> set (set_entry i len off es)" and "off + len \<le> lim" and "len < 256" and "off < 65536"
    and "\<forall>e \<in> set es. unat (info_offset e) + unat (info_length e) \<le> lim"
  shows "unat (info_offset e) + unat (info_length e) \<le> lim"
  using assms by (induction es) (auto simp: unat_of_nat_small split: if_splits)

lemma entries_ok_set:
  "entries_ok lim es \<Longrightarrow> off + len \<le> lim \<Longrightarrow> len < 256 \<Longrightarrow> off < 65536 \<Longrightarrow> entries_ok lim (set_entry i len off es)"
  using set_entry_bound by (auto simp: entries_ok_def)

lemma element_header_ok:
  assumes "one_byte \<or> pos + 1 < length buf"
  shows "\<exists>i len. element_header buf one_byte pos b = Inr (i, len) \<and> i < 256 \<and> len < 256"
proof (cases one_byte)
  case True
  have "unat (b AND 0xf) = unat b mod 16"
    using unat_take_bit [of 4 b] by (simp add: take_bit_eq_mask mask_eq_exp_minus_1)
  moreover have "unat (drop_bit 4 b) < 256" using unat_lt [of "drop_bit 4 b"] by simp
  moreover have "unat b mod 16 < 16" by simp
  ultimately show ?thesis using True by (simp add: element_header_def)
next
  case False
  then show ?thesis using assms unat_lt [of b] unat_lt [of "buf ! (pos + 1)"] by (simp add: element_header_def)
qed

text \<open>The loop reads inside the extension block only, ends, and leaves the entries inside it.\<close>

lemma ext_loop_ok:
  assumes "ext_off + cap \<le> length buf" and "entries_ok (ext_off + cap) es" and "sz \<le> cap"
  shows "\<exists>sz' es'. ext_loop buf one_byte ext_off cap sz es = Inr (sz', es') \<and>
    sz' \<le> cap \<and> entries_ok (ext_off + cap) es'"
  using assms
proof (induction buf one_byte ext_off cap sz es rule: ext_loop.induct)
  case (1 buf one_byte ext_off cap sz es)
  define hl where "hl = (if one_byte then 1 else 2 :: nat)"
  show ?case
  proof (cases "sz + hl < cap")
    case False
    then show ?thesis using "1.prems" by (simp add: ext_loop.simps [of buf] hl_def)
  next
    case lt: True
    have b: "byte_at buf (ext_off + sz) = Inr (buf ! (ext_off + sz))" using lt "1.prems"(1) by simp
    show ?thesis
    proof (cases "buf ! (ext_off + sz) = 0")
      case True
      have "\<exists>sz' es'. ext_loop buf one_byte ext_off cap (sz + 1) es = Inr (sz', es') \<and>
          sz' \<le> cap \<and> entries_ok (ext_off + cap) es'"
        using "1.IH"(1) [OF hl_def lt b True] "1.prems" lt by simp
      then show ?thesis using lt b True by (simp add: ext_loop.simps [of buf one_byte ext_off cap sz] hl_def)
    next
      case False
      have "one_byte \<or> ext_off + sz + 1 < length buf" using lt "1.prems"(1) by (auto simp: hl_def split: if_splits)
      then obtain i len where h: "element_header buf one_byte (ext_off + sz) (buf ! (ext_off + sz)) = Inr (i, len)"
        "i < 256" "len < 256" using element_header_ok by blast
      define es1 where "es1 = FindOrCreateExtensionInfo i es"
      define offset where "offset = ext_off + sz + hl"
      have es1: "entries_ok (ext_off + cap) es1" using "1.prems"(2) h(2) by (simp add: es1_def entries_ok_create)
      note unfold = ext_loop.simps [of buf one_byte ext_off cap sz es, folded hl_def]
      consider "one_byte \<and> (i = 15 \<or> (i = 0 \<and> len \<noteq> 1))" | "\<not> (one_byte \<and> (i = 15 \<or> (i = 0 \<and> len \<noteq> 1)))" "sz + hl + len > cap"
        | "\<not> (one_byte \<and> (i = 15 \<or> (i = 0 \<and> len \<noteq> 1)))" "\<not> sz + hl + len > cap" "offset > 65535"
        | "\<not> (one_byte \<and> (i = 15 \<or> (i = 0 \<and> len \<noteq> 1)))" "\<not> sz + hl + len > cap" "\<not> offset > 65535" by blast
      then show ?thesis
      proof cases
        case 4
        have "entries_ok (ext_off + cap) (set_entry i len offset es1)"
          using es1 h(3) 4 by (intro entries_ok_set) (auto simp: offset_def)
        with "1.IH"(2) [OF hl_def lt b False h(1) refl 4(1,2) es1_def offset_def 4(3)] "1.prems"(1) 4(2)
        have "\<exists>sz' es'. ext_loop buf one_byte ext_off cap (sz + hl + len) (set_entry i len offset es1) = Inr (sz', es') \<and>
          sz' \<le> cap \<and> entries_ok (ext_off + cap) es'" by simp
        then show ?thesis using lt b False h 4
          by (simp add: unfold Let_def es1_def [symmetric] offset_def [symmetric]) auto
      qed (use lt b False h "1.prems" es1 in \<open>unfold unfold, simp_all add: Let_def es1_def [symmetric] offset_def [symmetric]\<close>)
    qed
  qed
qed

lemma ParseExtensions_ok:
  assumes "payload_offset p \<le> length buf" and "extensions_size p = 0" and "extension_entries p = []"
  shows "\<exists>p' ok. ParseExtensions io buf p = Inr (p', ok) \<and>
    (ok \<longrightarrow> payload_offset p \<le> payload_offset p' \<and> payload_offset p' \<le> length buf \<and>
           entries_ok (payload_offset p') (extension_entries p'))"
proof (cases "payload_offset p + 4 > length buf")
  case True
  then show ?thesis by (auto simp: ParseExtensions_def)
next
  case False
  have rd: "rd16 io buf off = Inr (of_nat (ReadBE io 2 (drop off buf)))" if "off + 2 \<le> length buf" for off
    using that by (simp add: rd16_def rd_def)
  define profile where "profile = (of_nat (ReadBE io 2 (drop (payload_offset p) buf)) :: u16)"
  define cap where "cap = unat (of_nat (ReadBE io 2 (drop (payload_offset p + 2) buf)) :: u16) * 4"
  define r where "r = (if profile \<noteq> 0xBEDE \<and> profile AND 0xfff0 \<noteq> 0x1000
    then Inr (extensions_size p, extension_entries p)
    else ext_loop buf (profile = 0xBEDE) (payload_offset p + 4) cap (extensions_size p) (extension_entries p))"
  have eq: "ParseExtensions io buf p =
      (if payload_offset p + 4 + cap > length buf then Inr (p, False)
       else bindE r (\<lambda>(sz, es). Inr (p\<lparr>extensions_size := sz, extension_entries := es,
                     payload_offset := payload_offset p + 4 + cap\<rparr>, True)))"
    using False by (simp add: ParseExtensions_def Let_def rd r_def profile_def cap_def)
  show ?thesis
  proof (cases "payload_offset p + 4 + cap > length buf")
    case True
    then show ?thesis by (auto simp: eq)
  next
    case fits: False
    have "\<exists>sz es. r = Inr (sz, es) \<and> entries_ok (payload_offset p + 4 + cap) es"
      using ext_loop_ok [of "payload_offset p + 4" cap buf "[]" 0 "profile = 0xBEDE"] fits assms(2,3)
      by (auto simp: r_def)
    with fits show ?thesis by (auto simp: eq)
  qed
qed

lemma ParsePadding_ok:
  assumes "payload_offset p \<le> length buf"
  shows "\<exists>p' ok. ParsePadding buf has_padding p = Inr (p', ok) \<and>
    (ok \<longrightarrow> packet_size p' = length buf \<and> payload_offset p' = payload_offset p \<and>
           extension_entries p' = extension_entries p)"
proof (cases "has_padding \<and> payload_offset p < length buf")
  case True
  then show ?thesis
    by (cases "buf ! (length buf - 1) = 0") (auto simp: ParsePadding_def packet_size_def simp del: bindE_eq_Inr)
next
  case False
  with assms show ?thesis by (auto simp: ParsePadding_def packet_size_def simp del: bindE_eq_Inr)
qed

lemma ParseBuffer_ok:
  "\<exists>p' ok. ParseBuffer io buf p = Inr (p', ok) \<and>
    (ok \<longrightarrow> packet_size p' = length buf \<and> kFixedHeaderSize \<le> payload_offset p' \<and>
           entries_ok (payload_offset p') (extension_entries p'))"
proof (cases "length buf < kFixedHeaderSize")
  case True
  then show ?thesis by (auto simp: ParseBuffer_def)
next
  case False
  then have len: "12 \<le> length buf" by (simp add: kFixedHeaderSize_def)
  define b0 where "b0 = buf ! 0"
  define p1 where "p1 = p\<lparr>pkt_marker := (buf ! 1 AND 0x80 \<noteq> 0), pkt_payload_type := buf ! 1 AND 0x7f,
    pkt_sequence_number := of_nat (ReadBE io 2 (drop 2 buf)), pkt_timestamp := of_nat (ReadBE io 4 (drop 4 buf)),
    pkt_ssrc := of_nat (ReadBE io 4 (drop 8 buf))\<rparr>"
  define p2 where "p2 = p1\<lparr>payload_offset := kFixedHeaderSize + unat (b0 AND 0x0f) * 4,
    extensions_size := 0, extension_entries := []\<rparr>"
  define r where "r = (if b0 AND 0x10 \<noteq> 0 then ParseExtensions io buf p2 else Inr (p2, True))"
  have reads: "byte_at buf 0 = Inr b0" "byte_at buf 1 = Inr (buf ! 1)"
    "rd16 io buf 2 = Inr (of_nat (ReadBE io 2 (drop 2 buf)))"
    "rd32 io buf 4 = Inr (of_nat (ReadBE io 4 (drop 4 buf)))"
    "rd32 io buf 8 = Inr (of_nat (ReadBE io 4 (drop 8 buf)))"
    using len by (auto simp: b0_def rd16_def rd32_def rd_def byte_at_def)
  have eq: "ParseBuffer io buf p =
     (if drop_bit 6 b0 \<noteq> 2 then Inr (p, False)
      else if length buf < kFixedHeaderSize + unat (b0 AND 0x0f) * 4 then Inr (p1, False)
      else bindE r (\<lambda>(p, ok). if \<not> ok then Inr (p, False) else ParsePadding buf (b0 AND 0x20 \<noteq> 0) p))"
    using False unfolding ParseBuffer_def Let_def reads bindE_Inr p1_def p2_def r_def by (simp only: if_False)
  show ?thesis
  proof (cases "drop_bit 6 b0 \<noteq> 2 \<or> length buf < kFixedHeaderSize + unat (b0 AND 0x0f) * 4")
    case True
    then show ?thesis by (auto simp: eq)
  next
    case fits: False
    then have off: "payload_offset p2 \<le> length buf" "kFixedHeaderSize \<le> payload_offset p2"
      by (simp_all add: p2_def)
    have "\<exists>p' ok. r = Inr (p', ok) \<and> (ok \<longrightarrow> payload_offset p2 \<le> payload_offset p' \<and>
        payload_offset p' \<le> length buf \<and> entries_ok (payload_offset p') (extension_entries p'))"
      using ParseExtensions_ok [OF off(1), of io] off(1) by (auto simp: r_def p2_def)
    then obtain p3 ok where r: "r = Inr (p3, ok)" and p3: "ok \<longrightarrow> payload_offset p2 \<le> payload_offset p3 \<and>
        payload_offset p3 \<le> length buf \<and> entries_ok (payload_offset p3) (extension_entries p3)" by blast
    show ?thesis
    proof (cases ok)
      case False
      then show ?thesis using fits r by (auto simp: eq)
    next
      case True
      with p3 ParsePadding_ok [of p3 buf "b0 AND 0x20 \<noteq> 0"] fits r off(2) show ?thesis
        by (auto simp: eq)
    qed
  qed
qed
context cow_buffer
begin

lemma Clear_ok:
  "\<exists>p'. Clear cow p = Inr p' \<and> packet_size p' = length (buffer p') \<and> length (buffer p') \<le> buffer_capacity p' \<and>
     extension_entries p' = extension_entries p \<and> extensions p' = extensions p"
  using resized_cap_enough by (simp add: Clear_def Let_def WriteAt_def set_size_def packet_size_def kFixedHeaderSize_def)

lemma Parse_returns:
  "\<exists>p' ok. Parse io cow buf p = Inr (p', ok) \<and> (ok \<longrightarrow> packet_ok p' \<and> buffer p' = buf)"
proof -
  obtain p1 ok where r: "ParseBuffer io buf p = Inr (p1, ok)"
    and p1: "ok \<longrightarrow> packet_size p1 = length buf \<and> kFixedHeaderSize \<le> payload_offset p1 \<and>
           entries_ok (payload_offset p1) (extension_entries p1)"
    using ParseBuffer_ok [of io buf p] by blast
  show ?thesis
  proof (cases ok)
    case True
    with r p1 show ?thesis
      using assigned_cap_enough by (auto simp: Parse_def packet_ok_def packet_size_def)
  next
    case False
    with r obtain p2 where "Clear cow p1 = Inr p2" using Clear_ok [of p1] by blast
    with r False show ?thesis by (auto simp: Parse_def)
  qed
qed

end

text \<open>In a well-formed packet every extension is found inside the header.\<close>

lemma FindExtension_ok:
  assumes "packet_ok p" shows "\<exists>raw. FindExtension t p = Inr raw"
proof (cases "FindExtensionInfo (unat (GetId (extensions p) t)) (extension_entries p)")
  case None
  then show ?thesis by (simp add: FindExtension_def Let_def)
next
  case (Some e)
  then have "unat (info_offset e) + unat (info_length e) \<le> payload_offset p"
    using assms by (auto simp: packet_ok_def entries_ok_def dest!: FindExtensionInfo_SomeD)
  also have "\<dots> \<le> length (buffer p)" using assms by (simp add: packet_ok_def packet_size_def)
  finally show ?thesis using Some by (simp add: FindExtension_def Let_def)
qed

section \<open>Extension blocks that are built to the format\<close>

text \<open>One element of a one-byte extension block (RFC 8285) and the entries a block gives rise to.\<close>

definition element_bytes :: "nat \<times> byte list \<Rightarrow> byte list" where
  "element_bytes x = of_nat (fst x * 16 + (length (snd x) - 1)) # snd x"

definition element_ok :: "nat \<times> byte list \<Rightarrow> bool" where
  "element_ok x \<longleftrightarrow> 1 \<le> fst x \<and> fst x \<le> 14 \<and> 1 \<le> length (snd x) \<and> length (snd x) \<le> 16"

fun block_entries :: "nat \<Rightarrow> (nat \<times> byte list) list \<Rightarrow> extension_info list" where
  "block_entries pos [] = []"
| "block_entries pos (x # xs) =
     \<lparr>info_id = of_nat (fst x), info_length = of_nat (length (snd x)), info_offset = of_nat (pos + 1)\<rparr>
     # block_entries (pos + 1 + length (snd x)) xs"

lemma length_element_bytes [simp]: "length (element_bytes x) = Suc (length (snd x))"
  by (simp add: element_bytes_def)

lemma element_first_byte:
  assumes "element_ok x"
  defines "b \<equiv> (of_nat (fst x * 16 + (length (snd x) - 1)) :: byte)"
  shows "b \<noteq> 0" and "unat (drop_bit 4 b) = fst x" and "1 + unat (b AND 0xf) = length (snd x)"
proof -
  have "fst x * 16 + (length (snd x) - 1) < 256" using assms(1) by (auto simp: element_ok_def)
  then have u: "unat b = fst x * 16 + (length (snd x) - 1)" unfolding b_def by (intro unat_of_nat_small) simp
  then show "b \<noteq> 0" using assms(1) by (auto simp: element_ok_def)
  have l: "length (snd x) - 1 < 16" using assms(1) by (auto simp: element_ok_def)
  then show "unat (drop_bit 4 b) = fst x" by (simp add: unat_drop_bit u del: One_nat_def)
  have "unat (b AND 0xf) = unat b mod 16"
    using unat_take_bit [of 4 b] by (simp add: take_bit_eq_mask mask_eq_exp_minus_1)
  then show "1 + unat (b AND 0xf) = length (snd x)" using assms(1) l by (simp add: u element_ok_def mod_mult_self3 del: One_nat_def)
qed

lemma set_entry_append: "FindExtensionInfo i es = None \<Longrightarrow>
    set_entry i len off (es @ [\<lparr>info_id = of_nat i, info_length = 0, info_offset = 0\<rparr>]) =
    es @ set_entry i len off [\<lparr>info_id = of_nat i, info_length = 0, info_offset = 0\<rparr>]"
  by (induction es) (auto split: if_splits)

lemma FindExtensionInfo_append: "FindExtensionInfo i (es @ fs) =
    (case FindExtensionInfo i es of Some e \<Rightarrow> Some e | None \<Rightarrow> FindExtensionInfo i fs)"
  by (induction es) auto

lemma ext_loop_padding:
  "drop (off + sz) buf = replicate (cap - sz) 0 @ rest \<Longrightarrow> sz \<le> cap \<Longrightarrow>
   \<exists>sz'. ext_loop buf True off cap sz es = Inr (sz', es)"
proof (induction "cap - sz" arbitrary: sz)
  case 0
  then show ?case by (subst ext_loop.simps) simp
next
  case (Suc n)
  show ?case
  proof (cases "sz + 1 < cap")
    case False
    then show ?thesis by (simp add: ext_loop.simps [of buf True off cap])
  next
    case True
    have d: "drop (off + sz) buf = 0 # replicate n 0 @ rest" using Suc by (metis append_Cons replicate_Suc)
    then have lt: "off + sz < length buf" by (metis drop_eq_Nil linorder_not_less list.distinct(1))
    have z: "buf ! (off + sz) = 0" using d lt by (metis Cons_nth_drop_Suc list.inject)
    have "drop (off + (sz + 1)) buf = replicate (cap - (sz + 1)) 0 @ rest"
      using d Suc.hyps(2) by (metis Cons_nth_drop_Suc lt add.assoc add.commute list.inject plus_1_eq_Suc diff_Suc_1 diff_diff_left)
    then have "\<exists>sz'. ext_loop buf True off cap (sz + 1) es = Inr (sz', es)"
      using Suc True by (intro Suc.hyps(1)) auto
    then show ?thesis using True z lt by (simp add: ext_loop.simps [of buf True off cap sz])
  qed
qed

lemma ext_loop_elements:
  assumes "drop (off + sz) buf = concat (map element_bytes xs) @ replicate pad 0 @ rest"
    and "cap = sz + length (concat (map element_bytes xs)) + pad"
    and "off + cap < 65536" and "list_all element_ok xs" and "distinct (map fst xs)"
    and "\<forall>x \<in> set xs. FindExtensionInfo (fst x) es = None"
  shows "\<exists>sz'. ext_loop buf True off cap sz es = Inr (sz', es @ block_entries (off + sz) xs)"
  using assms
proof (induction xs arbitrary: sz es)
  case Nil
  then show ?case using ext_loop_padding [of off sz buf cap rest es] by simp
next
  case (Cons x xs)
  define i len where "i = fst x" and "len = length (snd x)"
  define b where "b = (of_nat (fst x * 16 + (length (snd x) - 1)) :: byte)"
  define e where "e = \<lparr>info_id = of_nat i, info_length = of_nat len, info_offset = of_nat (off + sz + 1)\<rparr>"
  have ok: "element_ok x" using Cons.prems(4) by simp
  note first = element_first_byte [OF ok, folded b_def i_def len_def]
  have d: "drop (off + sz) buf = b # snd x @ concat (map element_bytes xs) @ replicate pad 0 @ rest"
    using Cons.prems(1) by (simp add: element_bytes_def [of x] b_def)
  then have lt: "off + sz < length buf" by (metis drop_eq_Nil linorder_not_less list.distinct(1))
  have at: "buf ! (off + sz) = b" using d lt by (metis Cons_nth_drop_Suc list.inject)
  have i: "1 \<le> i" "i \<le> 14" "1 \<le> len" using ok by (auto simp: element_ok_def i_def len_def)
  have cap: "cap = sz + 1 + len + length (concat (map element_bytes xs)) + pad"
    using Cons.prems(2) by (simp add: len_def)
  have none: "FindExtensionInfo i es = None" using Cons.prems(6) by (simp add: i_def)
  have ui: "unat (of_nat i :: byte) = i" using i by (simp add: unat_of_nat_small)
  have es: "set_entry i len (off + sz + 1) (FindOrCreateExtensionInfo i es) = es @ [e]"
    using none ui by (simp add: FindOrCreateExtensionInfo_def set_entry_append e_def)
  have bounds: "sz + 1 < cap" "\<not> sz + 1 + len > cap" "\<not> off + sz + 1 > 65535"
    using cap i Cons.prems(3) by auto
  have step: "ext_loop buf True off cap sz es = ext_loop buf True off cap (sz + 1 + len) (es @ [e])"
    using lt at first i bounds es
    by (subst ext_loop.simps) (simp add: element_header_def Let_def)
  have "drop (off + (sz + 1 + len)) buf = drop (1 + len) (drop (off + sz) buf)" by (simp add: ac_simps)
  then have d': "drop (off + (sz + 1 + len)) buf = concat (map element_bytes xs) @ replicate pad 0 @ rest"
    by (simp add: d len_def)
  have "\<exists>sz'. ext_loop buf True off cap (sz + 1 + len) (es @ [e]) =
      Inr (sz', (es @ [e]) @ block_entries (off + (sz + 1 + len)) xs)"
  proof (rule Cons.IH [OF d'])
    show "\<forall>y \<in> set xs. FindExtensionInfo (fst y) (es @ [e]) = None"
      using Cons.prems(5,6) ui by (auto simp: FindExtensionInfo_append e_def i_def)
  qed (use cap Cons.prems(3-5) in auto)
  then show ?case by (simp add: step e_def i_def len_def ac_simps)
qed

lemma block_entries_lookup:
  assumes "drop pos buf = concat (map element_bytes xs) @ rest" and "pos + length (concat (map element_bytes xs)) < 65536"
    and "list_all element_ok xs" and "distinct (map fst xs)" and "(i, v) \<in> set xs"
  shows "\<exists>e. FindExtensionInfo i (block_entries pos xs) = Some e \<and>
    view buf (unat (info_offset e)) (unat (info_length e)) = Inr v"
  using assms
proof (induction xs arbitrary: pos)
  case Nil
  then show ?case by simp
next
  case (Cons x xs)
  have ok: "element_ok x" using Cons.prems(3) by simp
  then have u: "unat (of_nat (fst x) :: byte) = fst x" "unat (of_nat (length (snd x)) :: byte) = length (snd x)"
    by (simp_all add: element_ok_def unat_of_nat_small)
  have p: "unat (of_nat (pos + 1) :: u16) = pos + 1"
    using Cons.prems(2) by (intro unat_of_nat_small) simp
  have d: "drop pos buf = element_bytes x @ concat (map element_bytes xs) @ rest" using Cons.prems(1) by simp
  have d1: "drop (pos + 1) buf = snd x @ concat (map element_bytes xs) @ rest"
    using arg_cong [OF d, of "drop 1"] by (simp add: element_bytes_def [of x])
  have len: "pos + 1 + length (snd x) \<le> length buf"
    using arg_cong [OF d1, of length] ok by (auto simp: element_ok_def)
  show ?case
  proof (cases "i = fst x")
    case True
    then have "v = snd x" using Cons.prems(4,5) by (cases x) (auto simp: image_iff)
    moreover have "view buf (unat (of_nat (pos + 1) :: u16)) (unat (of_nat (length (snd x)) :: byte)) = Inr (snd x)"
      unfolding p u(2) using len by (simp add: d1 [simplified])
    ultimately show ?thesis using True u by simp
  next
    case False
    have "drop (pos + 1 + length (snd x)) buf = concat (map element_bytes xs) @ rest"
      using arg_cong [OF d1, of "drop (length (snd x))"] by (simp add: ac_simps)
    with Cons.IH [of "pos + 1 + length (snd x)"] Cons.prems False u show ?thesis by auto
  qed
qed
section \<open>Whole packets\<close>

text \<open>The twelve bytes of the fixed header; \<open>x\<close> is the extension bit.\<close>

definition fixed_header :: "byte_io \<Rightarrow> bool \<Rightarrow> bool \<Rightarrow> byte \<Rightarrow> u16 \<Rightarrow> u32 \<Rightarrow> u32 \<Rightarrow> byte list" where
  "fixed_header io x m pt sn ts ss =
     [if x then 0x90 else 0x80, (if m then 0x80 else 0) OR pt] @ wr16 io sn @ wr32 io ts @ wr32 io ss"

definition fixed_fields :: "bool \<Rightarrow> byte \<Rightarrow> u16 \<Rightarrow> u32 \<Rightarrow> u32 \<Rightarrow> rtp_packet \<Rightarrow> rtp_packet" where
  "fixed_fields m pt sn ts ss p = p\<lparr>pkt_marker := m, pkt_payload_type := pt, pkt_sequence_number := sn,
     pkt_timestamp := ts, pkt_ssrc := ss, payload_offset := 12, extensions_size := 0, extension_entries := []\<rparr>"

context big_endian_io
begin

lemma length_fixed_header [simp]: "length (fixed_header io x m pt sn ts ss) = 12"
  by (simp add: fixed_header_def)

lemma ParseBuffer_fixed_header:
  assumes "pt \<le> 0x7F"
  shows "ParseBuffer io (fixed_header io x m pt sn ts ss @ rest) p =
    bindE (if x then ParseExtensions io (fixed_header io x m pt sn ts ss @ rest) (fixed_fields m pt sn ts ss p)
           else Inr (fixed_fields m pt sn ts ss p, True))
      (\<lambda>(p, ok). if \<not> ok then Inr (p, False)
                 else ParsePadding (fixed_header io x m pt sn ts ss @ rest) False p)"
proof -
  define buf where "buf = fixed_header io x m pt sn ts ss @ rest"
  define b0 :: byte where "b0 = (if x then 0x90 else 0x80)"
  define b1 :: byte where "b1 = (if m then 0x80 else 0) OR pt"
  have reads: "byte_at buf 0 = Inr b0" "byte_at buf 1 = Inr b1" "rd16 io buf 2 = Inr sn"
    "rd32 io buf 4 = Inr ts" "rd32 io buf 8 = Inr ss"
    using rd16_at_write [of "[b0, b1]" 2 sn "wr32 io ts @ wr32 io ss @ rest"]
      rd32_at_write [of "[b0, b1] @ wr16 io sn" 4 ts "wr32 io ss @ rest"]
      rd32_at_write [of "[b0, b1] @ wr16 io sn @ wr32 io ts" 8 ss rest]
    by (simp_all add: buf_def fixed_header_def b0_def b1_def)
  have b0: "drop_bit 6 b0 = 2" "(b0 AND 0x20 \<noteq> 0) = False" "b0 AND 0x0f = 0" "(b0 AND 0x10 \<noteq> 0) = x"
    by (simp_all add: b0_def)
  have b1: "(b1 AND 0x80 \<noteq> 0) = m" "b1 AND 0x7F = pt"
    using level_bits [OF assms] by (simp_all add: b1_def)
  show ?thesis
    unfolding ParseBuffer_def buf_def [symmetric] reads bindE_Inr Let_def b0 b1
    by (simp add: buf_def fixed_fields_def kFixedHeaderSize_def)
qed

lemma ParseExtensions_block:
  fixes xs pad payload
  defines "block \<equiv> concat (map element_bytes xs) @ replicate pad 0"
  assumes "length pre = payload_offset p" and "extensions_size p = 0" and "extension_entries p = []"
    and "length block = 4 * unat words" and "payload_offset p + 4 + length block < 65536"
    and "list_all element_ok xs" and "distinct (map fst xs)"
  obtains sz where "ParseExtensions io (pre @ wr16 io 0xBEDE @ wr16 io words @ block @ payload) p =
    Inr (p\<lparr>extensions_size := sz, extension_entries := block_entries (payload_offset p + 4) xs,
           payload_offset := payload_offset p + 4 + length block\<rparr>, True)"
proof -
  define buf where "buf = pre @ wr16 io 0xBEDE @ wr16 io words @ block @ payload"
  have reads: "rd16 io buf (payload_offset p) = Inr 0xBEDE" "rd16 io buf (payload_offset p + 2) = Inr words"
    using rd16_at_write [of pre "payload_offset p" "0xBEDE" "wr16 io words @ block @ payload"]
      rd16_at_write [of "pre @ wr16 io 0xBEDE" "payload_offset p + 2" words "block @ payload"] assms(2)
    by (simp_all add: buf_def)
  have "drop (payload_offset p + 4 + 0) buf = concat (map element_bytes xs) @ replicate pad 0 @ payload"
    using assms(2) by (simp add: buf_def block_def)
  from ext_loop_elements [OF this _ _ assms(7,8), of "length block" "[]"] assms(6)
  obtain sz where "ext_loop buf True (payload_offset p + 4) (length block) 0 [] =
      Inr (sz, block_entries (payload_offset p + 4) xs)"
    by (auto simp: block_def)
  then have "ParseExtensions io buf p =
    Inr (p\<lparr>extensions_size := sz, extension_entries := block_entries (payload_offset p + 4) xs,
           payload_offset := payload_offset p + 4 + length block\<rparr>, True)"
    unfolding ParseExtensions_def Let_def reads bindE_Inr
    using assms(2-5) by (simp add: buf_def mult.commute)
  with that show thesis by (simp add: buf_def)
qed

lemma ParsePadding_none:
  "payload_offset p \<le> length buf \<Longrightarrow> ParsePadding buf False p =
    Inr (p\<lparr>pkt_padding_size := 0, pkt_payload_size := length buf - payload_offset p\<rparr>, True)"
  by (simp add: ParsePadding_def)

end

text \<open>A sender's use of the class: construct, set every header field, allocate and fill the payload.\<close>

definition make_packet ::
  "byte_io \<Rightarrow> cow_ops \<Rightarrow> rtp_packet \<Rightarrow> nat \<Rightarrow> bool \<Rightarrow> byte \<Rightarrow> u16 \<Rightarrow> u32 \<Rightarrow> u32 \<Rightarrow> byte list \<Rightarrow> error + rtp_packet" where
  "make_packet io cow p0 capacity m pt sn ts ss pl =
     bindE (RtpPacket_init cow p0 capacity) (\<lambda>p.
     bindE (SetMarker m p) (\<lambda>p.
     bindE (SetPayloadType pt p) (\<lambda>p.
     bindE (SetSequenceNumber io sn p) (\<lambda>p.
     bindE (SetTimestamp io ts p) (\<lambda>p.
     bindE (SetSsrc io ss p) (\<lambda>p.
       case AllocatePayload cow (length pl) p of
         (p, None) \<Rightarrow> Inl Rejected
       | (p, Some off) \<Rightarrow> WriteAt off pl p))))))"

lemma overwrite_same [simp]:
  "length xs = length ys \<Longrightarrow> off + length xs \<le> length bs \<Longrightarrow> overwrite off xs (overwrite off ys bs) = overwrite off xs bs"
  by (simp add: overwrite_def)

context cow_buffer
begin

lemma resized_same: "length bs = n \<Longrightarrow> resized cow bs cap n = bs"
  using resized_prefix [of n bs cap] by simp

lemma resized_grow: "length bs \<le> n \<Longrightarrow> take (length bs) (resized cow bs cap n) = bs"
  using resized_prefix [of n bs cap] by (simp add: min_absorb2)

lemma AllocatePayload_ok:
  assumes "length (buffer p) = 12" and "payload_offset p = 12" and "12 + n \<le> buffer_capacity p"
    and "buffer_capacity p < 2 ^ 64"
  obtains bs where "AllocatePayload cow n p = (p\<lparr>buffer := bs, pkt_payload_size := n\<rparr>, Some 12)"
    and "length bs = 12 + n" and "take 12 bs = buffer p"
proof
  show "AllocatePayload cow n p =
      (p\<lparr>buffer := resized cow (buffer p) (buffer_capacity p) (12 + n), pkt_payload_size := n\<rparr>, Some 12)"
    using assms
    by (simp add: AllocatePayload_def SetPayloadSize_def set_size_def resized_same resized_cap_kept)
  show "take 12 (resized cow (buffer p) (buffer_capacity p) (12 + n)) = buffer p"
    using resized_grow [of "buffer p" "12 + n"] assms(1) by simp
qed simp

end

lemma payload_type_byte:
  assumes "(pt :: byte) \<le> 0x7F"
  shows "((if m then u OR 0x80 else u AND 0x7F) AND 0x80) OR pt = (if m then 0x80 else 0) OR pt"
  by (simp add: word_ao_dist and.assoc word_bw_assocs)

lemma make_packet_header:
  assumes "big_endian_io io" and "cow_buffer cow" and "pt \<le> 0x7F" and "12 + length pl \<le> capacity" and "capacity < 2 ^ 64"
  obtains p where "make_packet io cow p0 capacity m pt sn ts ss pl = Inr p"
    and "buffer p = fixed_header io False m pt sn ts ss @ pl" 
    and "packet_size p = length (buffer p)" and "extension_entries p = []"
    and "extensions p = RtpHeaderExtensionMap_init False"
proof -
  define p1 where "p1 = p0\<lparr>pkt_marker := False, pkt_payload_type := 0, pkt_sequence_number := 0,
                pkt_timestamp := 0, pkt_ssrc := 0, payload_offset := 12,
                pkt_payload_size := 0, pkt_padding_size := 0, buffer_capacity := capacity,
                   extensions := RtpHeaderExtensionMap_init False, extensions_size := 0,
                   extension_entries := []\<rparr>"
  define B where "B = resized cow (fresh cow capacity) capacity 12"
  have B: "length B = 12" using assms(2) by (simp add: B_def cow_buffer.resized_length)
  have cap: "resized_cap cow capacity 12 = capacity"
    using assms(2,4) by (simp add: cow_buffer.resized_cap_kept)
  note [simp] = big_endian_io.wr16_length [OF assms(1)] big_endian_io.wr32_length [OF assms(1)]
  have init: "RtpPacket_init cow p0 capacity = Inr (p1\<lparr>buffer := overwrite 0 [0x80] B\<rparr>)"
    using B cap by (simp add: RtpPacket_init_def Clear_def Let_def WriteAt_def set_size_def
        kFixedHeaderSize_def p1_def B_def [symmetric])
  obtain c0 c1 C where C: "B = c0 # c1 # C" "length C = 10"
    using B by (cases B; cases "tl B") auto
  define b1 :: byte where "b1 = (if m then 0x80 else 0) OR pt"
  define p2 where "p2 = p1\<lparr>pkt_marker := m, pkt_payload_type := pt, pkt_sequence_number := sn,
                pkt_timestamp := ts, pkt_ssrc := ss\<rparr>"
  define H where "H = fixed_header io False m pt sn ts ss"
  have H: "H = 0x80 # b1 # wr16 io sn @ wr32 io ts @ wr32 io ss" by (simp add: H_def fixed_header_def b1_def)
  have "bindE (SetMarker m (p1\<lparr>buffer := overwrite 0 [0x80] B\<rparr>)) (SetPayloadType pt) =
      Inr (p1\<lparr>pkt_marker := m, pkt_payload_type := pt, buffer := 0x80 # b1 # C\<rparr>)"
    using payload_type_byte [OF assms(3), of m c1] C
    by (simp add: SetMarker_def SetPayloadType_def WriteAt_def overwrite_def b1_def)
  moreover have "SetSequenceNumber io sn (p1\<lparr>pkt_marker := m, pkt_payload_type := pt, buffer := 0x80 # b1 # C\<rparr>) =
      Inr (p1\<lparr>pkt_marker := m, pkt_payload_type := pt, pkt_sequence_number := sn,
              buffer := 0x80 # b1 # wr16 io sn @ drop 2 C\<rparr>)"
    using C by (simp add: SetSequenceNumber_def WriteAt_def overwrite_def)
  moreover have "SetTimestamp io ts (p1\<lparr>pkt_marker := m, pkt_payload_type := pt, pkt_sequence_number := sn,
              buffer := 0x80 # b1 # wr16 io sn @ drop 2 C\<rparr>) =
      Inr (p1\<lparr>pkt_marker := m, pkt_payload_type := pt, pkt_sequence_number := sn, pkt_timestamp := ts,
              buffer := 0x80 # b1 # wr16 io sn @ wr32 io ts @ drop 6 C\<rparr>)"
    using C by (simp add: SetTimestamp_def WriteAt_def overwrite_def)
  moreover have "SetSsrc io ss (p1\<lparr>pkt_marker := m, pkt_payload_type := pt, pkt_sequence_number := sn, pkt_timestamp := ts,
              buffer := 0x80 # b1 # wr16 io sn @ wr32 io ts @ drop 6 C\<rparr>) = Inr (p2\<lparr>buffer := H\<rparr>)"
    using C by (simp add: SetSsrc_def WriteAt_def overwrite_def H p2_def)
  moreover obtain bs where "AllocatePayload cow (length pl) (p2\<lparr>buffer := H\<rparr>) =
      (p2\<lparr>buffer := bs, pkt_payload_size := length pl\<rparr>, Some 12)" and bs: "length bs = 12 + length pl" "take 12 bs = H"
    using cow_buffer.AllocatePayload_ok [OF assms(2), of "p2\<lparr>buffer := H\<rparr>" "length pl"] assms(4,5)
    by (auto simp: p2_def p1_def H)
  ultimately have "make_packet io cow p0 capacity m pt sn ts ss pl =
      Inr (p2\<lparr>buffer := H @ pl, pkt_payload_size := length pl\<rparr>)"
    unfolding make_packet_def init by (auto simp: WriteAt_def overwrite_def)
  then show thesis by (rule that) (auto simp: p2_def p1_def packet_size_def H_def [symmetric], auto simp: H)
qed
lemma block_entries_None:
  "list_all element_ok xs \<Longrightarrow> i \<notin> fst ` set xs \<Longrightarrow> FindExtensionInfo i (block_entries pos xs) = None"
  by (induction xs arbitrary: pos) (auto simp: element_ok_def unat_of_nat_small)

text \<open>A buffer that zero-fills what it exposes.\<close>

definition zero_cow :: cow_ops where
  "zero_cow = \<lparr>fresh = (\<lambda>n. replicate n 0), resized = (\<lambda>bs cap n. take n bs @ replicate (n - length bs) 0),
     resized_cap = max, assigned_cap = max\<rparr>"

interpretation zero: cow_buffer zero_cow
  by unfold_locales (auto simp: zero_cow_def)

definition empty_packet :: rtp_packet where
  "empty_packet = \<lparr>pkt_marker = False, pkt_payload_type = 0, pkt_sequence_number = 0, pkt_timestamp = 0,
     pkt_ssrc = 0, payload_offset = 0, pkt_payload_size = 0, pkt_padding_size = 0, buffer = [],
     buffer_capacity = 0, extensions = RtpHeaderExtensionMap_init False, extensions_size = 0,
     extension_entries = []\<rparr>"

section \<open>Properties\<close>

text \<open>C8. Robustness of RTP parsing. For every byte sequence and every previous state of the packet,
  \<open>Parse\<close> returns; no header, CSRC, extension or padding read leaves the input. When it accepts, the
  header, payload and padding sizes add up to the input, every extension entry lies inside the
  header, and \<open>GetExtension\<close> with any parser that only accepts or refuses returns normally.\<close>

theorem rtp_parse_safe:
  assumes "cow_buffer cow"
  shows "\<exists>p' ok. Parse io cow buf p = Inr (p', ok) \<and>
    (ok \<longrightarrow> packet_ok p' \<and> buffer p' = buf \<and>
       (\<forall>t ParseValue. (\<forall>raw. only_rejects (ParseValue raw)) \<longrightarrow> (\<exists>v. GetExtension t ParseValue p' = Inr v)))"
proof -
  obtain p' ok where r: "Parse io cow buf p = Inr (p', ok)" and ok: "ok \<longrightarrow> packet_ok p' \<and> buffer p' = buf"
    using cow_buffer.Parse_returns [OF assms, of io buf p] by blast
  have "\<exists>v. GetExtension t ParseValue p' = Inr v" if accepted: "ok" and safe: "\<forall>raw. only_rejects (ParseValue raw)"
    for t and ParseValue :: "byte list \<Rightarrow> error + 'b"
  proof -
    obtain raw where "FindExtension t p' = Inr raw" using FindExtension_ok ok accepted by blast
    moreover have "only_rejects (ParseValue raw)" using safe by simp
    ultimately show ?thesis by (auto simp: GetExtension_def elim!: only_rejectsE)
  qed
  with r ok show ?thesis by blast
qed

theorem rtp_parse_safe_witness:
  "\<exists>p' ok. Parse be_io zero_cow [0x80, 96, 0, 1, 0, 0, 0, 2, 0, 0, 0, 3] empty_packet = Inr (p', ok) \<and>
    (ok \<longrightarrow> packet_ok p' \<and> buffer p' = [0x80, 96, 0, 1, 0, 0, 0, 2, 0, 0, 0, 3])"
  using rtp_parse_safe [OF zero.cow_buffer_axioms, of be_io "[0x80, 96, 0, 1, 0, 0, 0, 2, 0, 0, 0, 3]" empty_packet]
  by blast

text \<open>C9. Round trip of RTP packets: a packet that is constructed, whose header fields are set with a
  7-bit payload type and whose payload is allocated and filled, occupies exactly header and payload,
  and parsing its bytes into any packet object gives back every field and the payload.\<close>

theorem rtp_build_parse:
  assumes "big_endian_io io" and "cow_buffer cow" and "pt \<le> 0x7F"
    and "12 + length pl \<le> capacity" and "capacity < 2 ^ 64"
  shows "\<exists>p q. make_packet io cow p0 capacity m pt sn ts ss pl = Inr p \<and>
    packet_size p = 12 + length pl \<and> length (buffer p) = 12 + length pl \<and>
    Parse io cow (buffer p) q0 = Inr (q, True) \<and>
    pkt_marker q = m \<and> pkt_payload_type q = pt \<and> pkt_sequence_number q = sn \<and>
    pkt_timestamp q = ts \<and> pkt_ssrc q = ss \<and> packet_payload q = Inr pl"
proof -
  obtain p where p: "make_packet io cow p0 capacity m pt sn ts ss pl = Inr p"
    "buffer p = fixed_header io False m pt sn ts ss @ pl" "packet_size p = length (buffer p)"
    by (rule make_packet_header [OF assms])
  have len: "length (fixed_header io False m pt sn ts ss) = 12"
    by (rule big_endian_io.length_fixed_header [OF assms(1)])
  define q where "q = (fixed_fields m pt sn ts ss q0)\<lparr>pkt_padding_size := 0, pkt_payload_size := length pl\<rparr>"
  have "ParseBuffer io (buffer p) q0 = Inr (q, True)"
    using big_endian_io.ParseBuffer_fixed_header [OF assms(1,3), of False m sn ts ss pl q0] len
    by (simp add: p(2) ParsePadding_def fixed_fields_def q_def)
  then show ?thesis using p len
    by (simp add: Parse_def q_def fixed_fields_def packet_payload_def del: bindE_eq_Inr)
qed

theorem rtp_build_parse_witness:
  "\<exists>p q. make_packet be_io zero_cow empty_packet 1500 True 96 7 8 9 [1, 2, 3] = Inr p \<and>
    Parse be_io zero_cow (buffer p) empty_packet = Inr (q, True) \<and> packet_payload q = Inr [1, 2, 3]"
  using rtp_build_parse [OF be.big_endian_io_axioms zero.cow_buffer_axioms, of 96 "[1, 2, 3]" 1500
      empty_packet True 7 8 9 empty_packet] by auto

text \<open>C10. Header extensions are found: take any packet with a fixed header, a one-byte extension block
  (RFC 8285) with distinct ids from 1 to 14 and values of 1 to 16 bytes, padded with zeros, and a
  payload. \<open>Parse\<close> accepts it; \<open>FindExtension\<close> returns exactly the value bytes of every element whose id
  is registered for the type asked for, nothing for a registered id that is not in the block, and
  the payload starts after the block.\<close>

theorem rtp_extensions_found:
  assumes "big_endian_io io" and "cow_buffer cow" and "pt \<le> 0x7F"
    and "block = concat (map element_bytes xs) @ replicate pad 0"
    and "length block = 4 * unat words" and "16 + length block < 65536"
    and "list_all element_ok xs" and "distinct (map fst xs)"
  shows "\<exists>q. Parse io cow (fixed_header io True m pt sn ts ss @ wr16 io 0xBEDE @ wr16 io words @ block @ pl) q0 =
      Inr (q, True) \<and> packet_payload q = Inr pl \<and> extensions q = extensions q0 \<and>
    (\<forall>t. GetId (extensions q0) t \<noteq> kInvalidId \<longrightarrow>
      FindExtension t q = Inr (case map_of xs (unat (GetId (extensions q0) t)) of Some v \<Rightarrow> v | None \<Rightarrow> []))"
proof -
  define pre where "pre = fixed_header io True m pt sn ts ss"
  define buf where "buf = pre @ wr16 io 0xBEDE @ wr16 io words @ block @ pl"
  define p1 where "p1 = fixed_fields m pt sn ts ss q0"
  have pre: "length pre = 12" unfolding pre_def by (rule big_endian_io.length_fixed_header [OF assms(1)])
  have p1: "payload_offset p1 = 12" "extensions_size p1 = 0" "extension_entries p1 = []" "extensions p1 = extensions q0"
    by (simp_all add: p1_def fixed_fields_def)
  have len: "length buf = 16 + length block + length pl"
    using pre big_endian_io.wr16_length [OF assms(1)] by (simp add: buf_def)
  obtain sz where "ParseExtensions io buf p1 = Inr (p1\<lparr>extensions_size := sz,
      extension_entries := block_entries 16 xs, payload_offset := 16 + length block\<rparr>, True)"
    using big_endian_io.ParseExtensions_block [OF assms(1), of pre p1 xs pad words pl] pre p1 assms(4-8)
    by (auto simp: buf_def)
  then have parse: "ParseBuffer io buf q0 = Inr (p1\<lparr>extensions_size := sz, extension_entries := block_entries 16 xs,
      payload_offset := 16 + length block, pkt_padding_size := 0, pkt_payload_size := length pl\<rparr>, True)"
    using big_endian_io.ParseBuffer_fixed_header [OF assms(1,3), of True m sn ts ss
        "wr16 io 0xBEDE @ wr16 io words @ block @ pl" q0] len
    by (simp add: big_endian_io.ParsePadding_none [OF assms(1)] p1_def buf_def pre_def del: bindE_eq_Inr)
  have d: "drop 16 buf = concat (map element_bytes xs) @ replicate pad 0 @ pl"
    using pre big_endian_io.wr16_length [OF assms(1)] by (simp add: buf_def assms(4))
  have found: "(case FindExtensionInfo i (block_entries 16 xs) of None \<Rightarrow> Inr []
      | Some e \<Rightarrow> view buf (unat (info_offset e)) (unat (info_length e))) =
      Inr (case map_of xs i of Some v \<Rightarrow> v | None \<Rightarrow> [])" for i
  proof (cases "map_of xs i")
    case None
    moreover from None have "i \<notin> fst ` set xs" by (simp add: map_of_eq_None_iff)
    ultimately show ?thesis using block_entries_None [OF assms(7)] by simp
  next
    case (Some v)
    then have "(i, v) \<in> set xs" by (rule map_of_SomeD)
    from block_entries_lookup [OF d _ assms(7,8) this] assms(4,6) Some show ?thesis by auto
  qed
  have "drop (16 + length block) buf = pl"
    using pre big_endian_io.wr16_length [OF assms(1)] by (simp add: buf_def)
  define q where "q = p1\<lparr>extensions_size := sz, extension_entries := block_entries 16 xs,
      payload_offset := 16 + length block, pkt_padding_size := 0, pkt_payload_size := length pl,
      buffer := buf, buffer_capacity := assigned_cap cow (buffer_capacity p1) (length buf)\<rparr>"
  have q: "buffer q = buf" "extension_entries q = block_entries 16 xs" "extensions q = extensions q0"
    using p1(4) by (simp_all add: q_def)
  have "Parse io cow buf q0 = Inr (q, True)"
    by (simp add: Parse_def parse q_def del: bindE_eq_Inr)
  moreover have "packet_payload q = Inr pl"
    using \<open>drop (16 + length block) buf = pl\<close> len by (simp add: packet_payload_def q_def)
  moreover have "FindExtension t q = Inr (case map_of xs (unat (GetId (extensions q0) t)) of Some v \<Rightarrow> v | None \<Rightarrow> [])"
    if "GetId (extensions q0) t \<noteq> kInvalidId" for t
    using that unfolding FindExtension_def Let_def q by (simp only: if_False found)
  ultimately show ?thesis using q(3) by (auto simp: buf_def pre_def)
qed
theorem rtp_extensions_found_witness:
  "\<exists>q. Parse be_io zero_cow (fixed_header be_io True False 96 1 2 3 @ wr16 be_io 0xBEDE @ wr16 be_io 1 @
      (element_bytes (4, [0x61, 0x62]) @ [0]) @ [9, 9])
      (empty_packet\<lparr>extensions := fst (RegisterByType webrtc_config 4 kRtpExtensionMid (RtpHeaderExtensionMap_init False))\<rparr>) =
      Inr (q, True) \<and> FindExtension kRtpExtensionMid q = Inr [0x61, 0x62]"
proof -
  define q0 where "q0 = empty_packet\<lparr>extensions := fst (RegisterByType webrtc_config 4 kRtpExtensionMid (RtpHeaderExtensionMap_init False))\<rparr>"
  have id4: "GetId (extensions q0) kRtpExtensionMid = 4"
    unfolding q0_def by code_simp
  then show ?thesis
    using rtp_extensions_found [OF be.big_endian_io_axioms zero.cow_buffer_axioms, of 96
        "element_bytes (4, [0x61, 0x62]) @ [0]" "[(4, [0x61, 0x62])]" 1 1 False 1 2 3 "[9, 9]" q0]
    by (auto simp: element_ok_def kInvalidId_def q0_def [symmetric])
qed

text \<open>\<open>Clear\<close> keeps the extension entries: when parsing fails after the extension block was read (here:
  the padding bit is set and the last byte is zero), the packet that \<open>Parse\<close> resets still claims the
  extension of the refused input, and reading it leaves the 12 bytes the reset packet has.\<close>

theorem failed_parse_keeps_extensions:
  "\<exists>p. Parse be_io zero_cow [0xB0, 96, 0, 1, 0, 0, 0, 2, 0, 0, 0, 3, 0xBE, 0xDE, 0, 1, 0x41, 0x61, 0x62, 0, 0]
      (empty_packet\<lparr>extensions := \<lparr>ids = (\<lambda>_. 0)(kRtpExtensionMid := 4), extmap_allow_mixed = False\<rparr>\<rparr>) =
      Inr (p, False) \<and> length (buffer p) = 12 \<and> HasExtension kRtpExtensionMid p \<and>
      FindExtension kRtpExtensionMid p = Inl OutOfBounds"
proof -
  define buf :: "byte list" where "buf = [0xB0, 96, 0, 1, 0, 0, 0, 2, 0, 0, 0, 3, 0xBE, 0xDE, 0, 1, 0x41, 0x61, 0x62, 0, 0]"
  define q0 where "q0 = empty_packet\<lparr>extensions := \<lparr>ids = (\<lambda>_. 0)(kRtpExtensionMid := 4), extmap_allow_mixed = False\<rparr>\<rparr>"
  define p2 where "p2 = fixed_fields False 96 1 2 3 q0"
  have loop: "ext_loop buf True 16 4 0 [] = Inr (3, [\<lparr>info_id = 4, info_length = 2, info_offset = 17\<rparr>])"
    unfolding buf_def by (simp add: ext_loop.simps element_header_def Let_def FindOrCreateExtensionInfo_def)
  have reads: "byte_at buf 0 = Inr 0xB0" "byte_at buf 1 = Inr 96" "rd16 be_io buf 2 = Inr 1"
    "rd32 be_io buf 4 = Inr 2" "rd32 be_io buf 8 = Inr 3" "rd16 be_io buf 12 = Inr 0xBEDE" "rd16 be_io buf 14 = Inr 1"
    by (simp_all add: buf_def rd16_def rd32_def rd_def be_io_def)
  have len: "length buf = 21" and last: "byte_at buf 20 = Inr 0" by (simp_all add: buf_def)
  define p3 where "p3 = p2\<lparr>extensions_size := 3,
      extension_entries := [\<lparr>info_id = 4, info_length = 2, info_offset = 17\<rparr>], payload_offset := 20\<rparr>"
  have "ParseExtensions be_io buf p2 = Inr (p3, True)"
    by (simp add: ParseExtensions_def len reads loop p2_def p3_def fixed_fields_def Let_def del: bindE_eq_Inr)
  moreover have "ParsePadding buf True p3 = Inr (p3\<lparr>pkt_padding_size := 0\<rparr>, False)"
    by (simp add: ParsePadding_def len last p3_def del: bindE_eq_Inr)
  ultimately have parse: "ParseBuffer be_io buf q0 = Inr (p3\<lparr>pkt_padding_size := 0\<rparr>, False)"
    unfolding ParseBuffer_def reads bindE_Inr
    by (simp add: len kFixedHeaderSize_def Let_def p2_def fixed_fields_def del: bindE_eq_Inr)
  define p4 where "p4 = p3\<lparr>pkt_marker := False, pkt_payload_type := 0, pkt_sequence_number := 0,
      pkt_timestamp := 0, pkt_ssrc := 0, payload_offset := 12, pkt_payload_size := 0, pkt_padding_size := 0,
      buffer := 0x80 # replicate 11 0, buffer_capacity := 12\<rparr>"
  have "Parse be_io zero_cow buf q0 = Inr (p4, False)"
    unfolding Parse_def parse
    by (simp add: Clear_def WriteAt_def set_size_def zero_cow_def overwrite_def p4_def p3_def p2_def q0_def
        fixed_fields_def empty_packet_def kFixedHeaderSize_def Let_def del: bindE_eq_Inr)
  moreover have "HasExtension kRtpExtensionMid p4" and "FindExtension kRtpExtensionMid p4 = Inl OutOfBounds"
    by (simp_all add: HasExtension_def FindExtension_def GetId_def p4_def p3_def p2_def q0_def kInvalidId_def
        fixed_fields_def empty_packet_def view_def)
  ultimately show ?thesis by (simp add: buf_def [symmetric] q0_def [symmetric]) (simp add: p4_def)
qed

end
