(* ===== verification/Receive_Statistics.thy ===== *)
theory Receive_Statistics
  imports Rtp_Packet Rtcp_Packets
begin

text \<open>
  The statistics of received streams (\<open>modules/rtp_rtcp/include/receive_statistics_impl.{h,cpp}\<close>): loss, jitter and
  counters of one stream, and the report blocks of all streams. The classes with a lock around them call the same
  functions. The unwrapping of sequence numbers, the bitrate counter and the square root of the jitter
  (\<open>SequenceNumberUnwrapper\<close> and \<open>RateStatistics\<close> of WebRTC, and \<open>float\<close>) are parameters; the assertions of debug builds are
  left out.
\<close>

record ('u, 'r) stat_env =
  unwrapper_new :: 'u
  UnwrapWithoutUpdate :: "'u \<Rightarrow> u16 \<Rightarrow> int"
  UpdateLast :: "int \<Rightarrow> 'u \<Rightarrow> 'u"
  rate_new :: 'r
  rate_update :: "nat \<Rightarrow> int \<Rightarrow> 'r \<Rightarrow> 'r"
  rate_get :: "'r \<Rightarrow> int \<Rightarrow> u32 option"
  jitter_delay_ms :: "u32 \<Rightarrow> u32 \<Rightarrow> int"

text \<open>A value of type \<open>int32_t\<close> computed with signed arithmetic.\<close>

definition i32 :: "int \<Rightarrow> error + int" where
  "i32 x = (if - (2 ^ 31) \<le> x \<and> x < 2 ^ 31 then Inr x else Inl Overflow)"

section \<open>Counters\<close>

record rtp_packet_counter =
  hdr_bytes :: u64
  payload_bytes :: u64
  padding_bytes :: u64
  counted_packets :: u32

definition counter_zero :: rtp_packet_counter where
  "counter_zero = \<lparr>hdr_bytes = 0, payload_bytes = 0, padding_bytes = 0, counted_packets = 0\<rparr>"

definition AddPacket :: "'a rtp_packet_scheme \<Rightarrow> rtp_packet_counter \<Rightarrow> rtp_packet_counter" where
  "AddPacket p c = \<lparr>hdr_bytes = hdr_bytes c + of_nat (payload_offset p), payload_bytes = payload_bytes c + of_nat (pkt_payload_size p),
     padding_bytes = padding_bytes c + of_nat (pkt_padding_size p), counted_packets = counted_packets c + 1\<rparr>"

definition counter_Add :: "rtp_packet_counter \<Rightarrow> rtp_packet_counter \<Rightarrow> rtp_packet_counter" where
  "counter_Add other c = \<lparr>hdr_bytes = hdr_bytes c + hdr_bytes other, payload_bytes = payload_bytes c + payload_bytes other,
     padding_bytes = padding_bytes c + padding_bytes other, counted_packets = counted_packets c + counted_packets other\<rparr>"

definition counter_Subtract :: "rtp_packet_counter \<Rightarrow> rtp_packet_counter \<Rightarrow> rtp_packet_counter" where
  "counter_Subtract other c = \<lparr>hdr_bytes = hdr_bytes c - hdr_bytes other, payload_bytes = payload_bytes c - payload_bytes other,
     padding_bytes = padding_bytes c - padding_bytes other, counted_packets = counted_packets c - counted_packets other\<rparr>"

record stream_data_counters =
  first_packet_time_ms :: int
  last_packet_received_timestamp_ms :: "int option"
  transmitted :: rtp_packet_counter
  retransmitted :: rtp_packet_counter
  fec :: rtp_packet_counter

definition StreamDataCounters_new :: stream_data_counters where
  "StreamDataCounters_new = \<lparr>first_packet_time_ms = - 1, last_packet_received_timestamp_ms = None, transmitted = counter_zero,
     retransmitted = counter_zero, fec = counter_zero\<rparr>"

definition StreamDataCounters_Add :: "stream_data_counters \<Rightarrow> stream_data_counters \<Rightarrow> stream_data_counters" where
  "StreamDataCounters_Add other c =
     c\<lparr>transmitted := counter_Add (transmitted other) (transmitted c), retransmitted := counter_Add (retransmitted other) (retransmitted c),
       fec := counter_Add (fec other) (fec c),
       first_packet_time_ms :=
         (if first_packet_time_ms other \<noteq> - 1 \<and> (first_packet_time_ms other < first_packet_time_ms c \<or> first_packet_time_ms c = - 1)
          then first_packet_time_ms other else first_packet_time_ms c)\<rparr>"

definition StreamDataCounters_Subtract :: "stream_data_counters \<Rightarrow> stream_data_counters \<Rightarrow> stream_data_counters" where
  "StreamDataCounters_Subtract other c =
     c\<lparr>transmitted := counter_Subtract (transmitted other) (transmitted c),
       retransmitted := counter_Subtract (retransmitted other) (retransmitted c), fec := counter_Subtract (fec other) (fec c),
       first_packet_time_ms :=
         (if first_packet_time_ms other \<noteq> - 1 \<and> (first_packet_time_ms other > first_packet_time_ms c \<or> first_packet_time_ms c = - 1)
          then first_packet_time_ms other else first_packet_time_ms c)\<rparr>"

definition TimeSinceFirstPacketInMs :: "int \<Rightarrow> stream_data_counters \<Rightarrow> int" where
  "TimeSinceFirstPacketInMs now_ms c = (if first_packet_time_ms c = - 1 then - 1 else now_ms - first_packet_time_ms c)"

definition MediaPayloadBytes :: "stream_data_counters \<Rightarrow> u64" where
  "MediaPayloadBytes c = payload_bytes (transmitted c) - payload_bytes (retransmitted c) - payload_bytes (fec c)"

lemma counter_add_subtract [simp]: "counter_Subtract d (counter_Add d c) = c"
  by (simp add: counter_Add_def counter_Subtract_def)

lemma media_payload_bytes_additive:
  "MediaPayloadBytes (StreamDataCounters_Add d c) = MediaPayloadBytes d + MediaPayloadBytes c"
  by (simp add: MediaPayloadBytes_def StreamDataCounters_Add_def counter_Add_def)

record rtp_packet_received = rtp_packet +
  arrival_time :: "int option"
  payload_type_frequency :: int
  recovered :: bool

section \<open>One stream\<close>

record ('u, 'r) statistician =
  stat_ssrc :: u32
  delta_internal_unix_epoch_ms :: int
  incoming_bitrate :: 'r
  max_reordering_threshold :: int
  enable_retransmit_detection :: bool
  cumulative_loss_is_capped :: bool
  jitter_q4 :: u32
  cumulative_loss :: int
  cumulative_loss_rtcp_offset :: int
  last_receive_time_ms :: int
  last_received_timestamp :: u32
  seq_unwrapper :: 'u
  received_seq_first :: int
  received_seq_max :: int
  received_seq_out_of_order :: "u16 option"
  receive_counters :: stream_data_counters
  last_report_cumulative_loss :: int
  last_report_seq_max :: int

definition kStatisticsTimeoutMs :: int where
  "kStatisticsTimeoutMs = 8000"

definition kNtpJan1970Millisecs :: int where
  "kNtpJan1970Millisecs = 2208988800000"

definition StreamStatisticianImpl_new :: "('u, 'r) stat_env \<Rightarrow> u32 \<Rightarrow> int \<Rightarrow> int \<Rightarrow> int \<Rightarrow> ('u, 'r) statistician" where
  "StreamStatisticianImpl_new env ssrc ntp_ms now_ms threshold =
     \<lparr>stat_ssrc = ssrc, delta_internal_unix_epoch_ms = ntp_ms - now_ms - kNtpJan1970Millisecs, incoming_bitrate = rate_new env,
      max_reordering_threshold = threshold, enable_retransmit_detection = False, cumulative_loss_is_capped = False, jitter_q4 = 0,
      cumulative_loss = 0, cumulative_loss_rtcp_offset = 0, last_receive_time_ms = 0, last_received_timestamp = 0,
      seq_unwrapper = unwrapper_new env, received_seq_first = - 1, received_seq_max = - 1, received_seq_out_of_order = None,
      receive_counters = StreamDataCounters_new, last_report_cumulative_loss = 0, last_report_seq_max = - 1\<rparr>"

definition ReceivedRtpPacket :: "('u, 'r) statistician \<Rightarrow> bool" where
  "ReceivedRtpPacket st \<longleftrightarrow> received_seq_first st \<ge> 0"

definition SetMaxReorderingThreshold :: "int \<Rightarrow> ('u, 'r) statistician \<Rightarrow> ('u, 'r) statistician" where
  "SetMaxReorderingThreshold threshold st = st\<lparr>max_reordering_threshold := threshold\<rparr>"

definition EnableRetransmitDetection :: "bool \<Rightarrow> ('u, 'r) statistician \<Rightarrow> ('u, 'r) statistician" where
  "EnableRetransmitDetection enable st = st\<lparr>enable_retransmit_detection := enable\<rparr>"

definition IsRetransmitOfOldPacket :: "('u, 'r) stat_env \<Rightarrow> rtp_packet_received \<Rightarrow> int \<Rightarrow> ('u, 'r) statistician \<Rightarrow> error + bool" where
  "IsRetransmitOfOldPacket env p now_ms st =
     (let frequency_khz = (of_int (tdiv (payload_type_frequency p) 1000) :: u32);
          time_diff_ms = now_ms - last_receive_time_ms st;
          timestamp_diff = pkt_timestamp p - last_received_timestamp st in
      if frequency_khz = 0 then Inl DivisionByZero
      else let d = jitter_delay_ms env (drop_bit 4 (jitter_q4 st)) frequency_khz;
               max_delay_ms = (if d = 0 then 1 else d) in
        Inr (time_diff_ms > int (unat (timestamp_diff div frequency_khz)) + max_delay_ms))"

text \<open>The result says whether the packet was out of order.\<close>

definition UpdateOutOfOrder ::
  "('u, 'r) stat_env \<Rightarrow> rtp_packet_received \<Rightarrow> int \<Rightarrow> int \<Rightarrow> ('u, 'r) statistician \<Rightarrow> error + ('u, 'r) statistician \<times> bool" where
  "UpdateOutOfOrder env p sequence_number now_ms st =
     bindE (case received_seq_out_of_order st of
              None \<Rightarrow> Inr (st, False)
            | Some s \<Rightarrow> bindE (i32 (cumulative_loss st - 1)) (\<lambda>loss.
                let st = st\<lparr>cumulative_loss := loss, received_seq_out_of_order := None\<rparr> in
                Inr (if pkt_sequence_number p = s + 1
                     then (st\<lparr>last_report_seq_max := sequence_number - 2, received_seq_max := sequence_number - 2\<rparr>, True)
                     else (st, False)))) (\<lambda>(st, restarted).
     if restarted then Inr (st, False)
     else if \<bar>sequence_number - received_seq_max st\<bar> > max_reordering_threshold st then
       bindE (i32 (cumulative_loss st + 1)) (\<lambda>loss.
         Inr (st\<lparr>received_seq_out_of_order := Some (pkt_sequence_number p), cumulative_loss := loss\<rparr>, True))
     else if sequence_number > received_seq_max st then Inr (st, False)
     else bindE (if enable_retransmit_detection st then IsRetransmitOfOldPacket env p now_ms st else Inr False) (\<lambda>again.
       Inr (if again
            then st\<lparr>receive_counters := (receive_counters st)\<lparr>retransmitted := AddPacket p (retransmitted (receive_counters st))\<rparr>\<rparr>
            else st, True)))"

text \<open>The jitter of RFC 3550 in sixteenths. The difference is that of unsigned numbers, read as \<open>int32_t\<close>.\<close>

definition time_diff_samples :: "rtp_packet_received \<Rightarrow> int \<Rightarrow> ('u, 'r) statistician \<Rightarrow> int" where
  "time_diff_samples p receive_time_ms st =
     (let receive_diff_ms = receive_time_ms - last_receive_time_ms st;
          receive_diff_rtp = (of_int (tdiv (receive_diff_ms * payload_type_frequency p) 1000) :: u32) in
      sint (receive_diff_rtp - (pkt_timestamp p - last_received_timestamp st)))"

definition UpdateJitter :: "rtp_packet_received \<Rightarrow> int \<Rightarrow> ('u, 'r) statistician \<Rightarrow> error + ('u, 'r) statistician" where
  "UpdateJitter p receive_time_ms st =
     bindE (i32 \<bar>time_diff_samples p receive_time_ms st\<bar>) (\<lambda>d.
       if d < 450000
       then let jitter_diff_q4 = sint ((of_int (d * 16) :: u32) - jitter_q4 st) in
         bindE (i32 (jitter_diff_q4 + 8)) (\<lambda>diff. Inr (st\<lparr>jitter_q4 := jitter_q4 st + of_int (drop_bit 4 diff)\<rparr>))
       else Inr st)"

definition UpdateCounters :: "('u, 'r) stat_env \<Rightarrow> int \<Rightarrow> rtp_packet_received \<Rightarrow> ('u, 'r) statistician \<Rightarrow> error + ('u, 'r) statistician" where
  "UpdateCounters env now_ms p st =
     (let st = st\<lparr>incoming_bitrate := rate_update env (payload_offset p + pkt_payload_size p + pkt_padding_size p) now_ms (incoming_bitrate st),
                  receive_counters := (receive_counters st)\<lparr>last_packet_received_timestamp_ms := Some now_ms,
                    transmitted := AddPacket p (transmitted (receive_counters st))\<rparr>\<rparr> in
      bindE (i32 (cumulative_loss st - 1)) (\<lambda>loss.
      let st = st\<lparr>cumulative_loss := loss\<rparr>;
          sequence_number = UnwrapWithoutUpdate env (seq_unwrapper st) (pkt_sequence_number p) in
      bindE (if \<not> ReceivedRtpPacket st
             then Inr (st\<lparr>received_seq_first := sequence_number, last_report_seq_max := sequence_number - 1,
                          received_seq_max := sequence_number - 1,
                          receive_counters := (receive_counters st)\<lparr>first_packet_time_ms := now_ms\<rparr>\<rparr>, False)
             else UpdateOutOfOrder env p sequence_number now_ms st) (\<lambda>(st, out_of_order).
      if out_of_order then Inr st
      else
        let st = st\<lparr>cumulative_loss := to_i32 (cumulative_loss st + (sequence_number - received_seq_max st)),
                    received_seq_max := sequence_number, seq_unwrapper := UpdateLast env sequence_number (seq_unwrapper st)\<rparr> in
        bindE (if pkt_timestamp p \<noteq> last_received_timestamp st \<and>
                  counted_packets (transmitted (receive_counters st)) - counted_packets (retransmitted (receive_counters st)) > 1
               then UpdateJitter p now_ms st else Inr st) (\<lambda>st.
          Inr (st\<lparr>last_received_timestamp := pkt_timestamp p, last_receive_time_ms := now_ms\<rparr>)))))"

record rtp_receive_stats =
  stats_packets_lost :: int
  stats_jitter :: u32
  stats_last_packet_ms :: "int option"
  stats_packet_counter :: rtp_packet_counter

definition GetStats :: "('u, 'r) statistician \<Rightarrow> rtp_receive_stats" where
  "GetStats st =
     \<lparr>stats_packets_lost = cumulative_loss st, stats_jitter = drop_bit 4 (jitter_q4 st),
      stats_last_packet_ms = map_option (\<lambda>t. t + delta_internal_unix_epoch_ms st) (last_packet_received_timestamp_ms (receive_counters st)),
      stats_packet_counter = transmitted (receive_counters st)\<rparr>"

definition GetFractionLostInPercent :: "('u, 'r) statistician \<Rightarrow> int option" where
  "GetFractionLostInPercent st =
     (if \<not> ReceivedRtpPacket st then None
      else let expected_packets = 1 + received_seq_max st - received_seq_first st in
        if expected_packets \<le> 0 then None
        else if cumulative_loss st \<le> 0 then Some 0
        else Some (to_i32 (tdiv (100 * cumulative_loss st) expected_packets)))"

definition BitrateReceived :: "('u, 'r) stat_env \<Rightarrow> int \<Rightarrow> ('u, 'r) statistician \<Rightarrow> u32" where
  "BitrateReceived env now_ms st = (case rate_get env (incoming_bitrate st) now_ms of None \<Rightarrow> 0 | Some r \<Rightarrow> r)"

definition ReportBlock_new :: report_block where
  "ReportBlock_new = \<lparr>source_ssrc = 0, fraction_lost = 0, cumulative_packets_lost = 0, extended_high_seq_num = 0, jitter = 0,
     last_sr = 0, delay_since_last_sr = 0\<rparr>"

definition fraction :: "int \<Rightarrow> int \<Rightarrow> error + byte" where
  "fraction lost_since_last exp_since_last =
     (if exp_since_last > 0 \<and> lost_since_last > 0
      then bindE (i32 (255 * lost_since_last)) (\<lambda>l. Inr (of_int (tdiv l exp_since_last)))
      else Inr 0)"

definition MaybeAppendReportBlockAndReset ::
  "int \<Rightarrow> report_block list \<Rightarrow> ('u, 'r) statistician \<Rightarrow> error + ('u, 'r) statistician \<times> report_block list" where
  "MaybeAppendReportBlockAndReset now_ms report_blocks st =
     (if now_ms - last_receive_time_ms st \<ge> kStatisticsTimeoutMs then Inr (st, report_blocks)
      else if \<not> ReceivedRtpPacket st then Inr (st, report_blocks)
      else
        bindE (i32 (cumulative_loss st - last_report_cumulative_loss st)) (\<lambda>lost_since_last.
        bindE (fraction lost_since_last (received_seq_max st - last_report_seq_max st)) (\<lambda>fl.
        bindE (i32 (cumulative_loss st + cumulative_loss_rtcp_offset st)) (\<lambda>packets_lost.
        bindE (if packets_lost < 0 then bindE (i32 (- cumulative_loss st)) (\<lambda>off. Inr (0, st\<lparr>cumulative_loss_rtcp_offset := off\<rparr>))
               else Inr (packets_lost, st)) (\<lambda>(packets_lost, st).
        let (packets_lost, st) = (if packets_lost > 0x7fffff then (0x7fffff, st\<lparr>cumulative_loss_is_capped := True\<rparr>) else (packets_lost, st));
            b = ReportBlock_new\<lparr>source_ssrc := stat_ssrc st, fraction_lost := fl\<rparr>;
            b = (case SetCumulativeLost b packets_lost of Inl _ \<Rightarrow> b | Inr b \<Rightarrow> b) in
        Inr (st\<lparr>last_report_cumulative_loss := cumulative_loss st, last_report_seq_max := received_seq_max st\<rparr>,
             report_blocks @ [b\<lparr>extended_high_seq_num := of_int (received_seq_max st), jitter := drop_bit 4 (jitter_q4 st)\<rparr>]))))))"

section \<open>All streams\<close>

record ('u, 'r) receive_statistics =
  last_returned_ssrc_idx :: nat
  all_ssrcs :: "u32 list"
  default_threshold :: int
  statisticians :: "u32 \<rightharpoonup> ('u, 'r) statistician"

definition kDefaultMaxReorderingThreshold :: int where
  "kDefaultMaxReorderingThreshold = 5"

definition ReceiveStatisticsImpl_new :: "('u, 'r) receive_statistics" where
  "ReceiveStatisticsImpl_new = \<lparr>last_returned_ssrc_idx = 0, all_ssrcs = [], default_threshold = kDefaultMaxReorderingThreshold,
     statisticians = Map.empty\<rparr>"

definition GetStatistician :: "u32 \<Rightarrow> ('u, 'r) receive_statistics \<Rightarrow> ('u, 'r) statistician option" where
  "GetStatistician ssrc rs = statisticians rs ssrc"

definition GetOrCreateStatistician ::
  "('u, 'r) stat_env \<Rightarrow> int \<Rightarrow> int \<Rightarrow> u32 \<Rightarrow> ('u, 'r) receive_statistics \<Rightarrow> ('u, 'r) receive_statistics \<times> ('u, 'r) statistician" where
  "GetOrCreateStatistician env ntp_ms now_ms ssrc rs =
     (case statisticians rs ssrc of
        Some st \<Rightarrow> (rs, st)
      | None \<Rightarrow>
          let st = StreamStatisticianImpl_new env ssrc ntp_ms now_ms (default_threshold rs) in
          (rs\<lparr>statisticians := (statisticians rs)(ssrc \<mapsto> st), all_ssrcs := all_ssrcs rs @ [ssrc]\<rparr>, st))"

definition OnRtpPacket ::
  "('u, 'r) stat_env \<Rightarrow> int \<Rightarrow> int \<Rightarrow> rtp_packet_received \<Rightarrow> ('u, 'r) receive_statistics \<Rightarrow> error + ('u, 'r) receive_statistics" where
  "OnRtpPacket env ntp_ms now_ms p rs =
     (let (rs, st) = GetOrCreateStatistician env ntp_ms now_ms (pkt_ssrc p) rs in
      bindE (UpdateCounters env now_ms p st) (\<lambda>st. Inr (rs\<lparr>statisticians := (statisticians rs)(pkt_ssrc p \<mapsto> st)\<rparr>)))"

definition rs_SetMaxReorderingThreshold :: "int \<Rightarrow> ('u, 'r) receive_statistics \<Rightarrow> ('u, 'r) receive_statistics" where
  "rs_SetMaxReorderingThreshold threshold rs =
     rs\<lparr>default_threshold := threshold,
        statisticians := (\<lambda>ssrc. map_option (SetMaxReorderingThreshold threshold) (statisticians rs ssrc))\<rparr>"

definition rs_SetMaxReorderingThreshold_of ::
  "('u, 'r) stat_env \<Rightarrow> int \<Rightarrow> int \<Rightarrow> u32 \<Rightarrow> int \<Rightarrow> ('u, 'r) receive_statistics \<Rightarrow> ('u, 'r) receive_statistics" where
  "rs_SetMaxReorderingThreshold_of env ntp_ms now_ms ssrc threshold rs =
     (let (rs, st) = GetOrCreateStatistician env ntp_ms now_ms ssrc rs in
      rs\<lparr>statisticians := (statisticians rs)(ssrc \<mapsto> SetMaxReorderingThreshold threshold st)\<rparr>)"

definition rs_EnableRetransmitDetection ::
  "('u, 'r) stat_env \<Rightarrow> int \<Rightarrow> int \<Rightarrow> u32 \<Rightarrow> bool \<Rightarrow> ('u, 'r) receive_statistics \<Rightarrow> ('u, 'r) receive_statistics" where
  "rs_EnableRetransmitDetection env ntp_ms now_ms ssrc enable rs =
     (let (rs, st) = GetOrCreateStatistician env ntp_ms now_ms ssrc rs in
      rs\<lparr>statisticians := (statisticians rs)(ssrc \<mapsto> EnableRetransmitDetection enable st)\<rparr>)"

text \<open>The loop over the streams, beginning after the last one that was reported; \<open>is\<close> are the values of the counter.\<close>

fun report_loop ::
  "int \<Rightarrow> nat \<Rightarrow> nat list \<Rightarrow> nat \<Rightarrow> report_block list \<Rightarrow> ('u, 'r) receive_statistics \<Rightarrow>
   error + ('u, 'r) receive_statistics \<times> nat \<times> report_block list" where
  "report_loop now_ms max_blocks [] ssrc_idx result rs = Inr (rs, ssrc_idx, result)"
| "report_loop now_ms max_blocks (i # is) ssrc_idx result rs =
     (if length result < max_blocks then
        let ssrc_idx = (last_returned_ssrc_idx rs + i + 1) mod length (all_ssrcs rs) in
        bindE (byte_at (all_ssrcs rs) ssrc_idx) (\<lambda>media_ssrc.
        case statisticians rs media_ssrc of
          None \<Rightarrow> Inl OutOfBounds
        | Some st \<Rightarrow>
            bindE (MaybeAppendReportBlockAndReset now_ms result st) (\<lambda>(st, result).
              report_loop now_ms max_blocks is ssrc_idx result (rs\<lparr>statisticians := (statisticians rs)(media_ssrc \<mapsto> st)\<rparr>)))
      else Inr (rs, ssrc_idx, result))"

definition RtcpReportBlocks :: "int \<Rightarrow> nat \<Rightarrow> ('u, 'r) receive_statistics \<Rightarrow> error + ('u, 'r) receive_statistics \<times> report_block list" where
  "RtcpReportBlocks now_ms max_blocks rs =
     bindE (report_loop now_ms max_blocks [0..<length (all_ssrcs rs)] 0 [] rs) (\<lambda>(rs, ssrc_idx, result).
       Inr (rs\<lparr>last_returned_ssrc_idx := ssrc_idx\<rparr>, result))"

section \<open>Loss accounting\<close>

text \<open>
  The invariant of a stream that has received \<open>n\<close> packets, \<open>m\<close> of them before the last report.
\<close>

definition loss_inv :: "int \<Rightarrow> int \<Rightarrow> ('u, 'r) statistician \<Rightarrow> bool" where
  "loss_inv n m st \<longleftrightarrow> 0 \<le> received_seq_first st \<and> received_seq_out_of_order st = None \<and>
     cumulative_loss st = received_seq_max st - received_seq_first st + 1 - n \<and>
     last_report_cumulative_loss st = last_report_seq_max st - received_seq_first st + 1 - m \<and>
     0 \<le> m \<and> m \<le> n \<and> last_report_seq_max st \<le> received_seq_max st \<and> uint (jitter_q4 st) \<le> 7199984 \<and>
     0 \<le> cumulative_loss_rtcp_offset st \<and> cumulative_loss_rtcp_offset st \<le> 2 ^ 30"

lemma i32_ok [simp]: "- (2 ^ 31) \<le> x \<Longrightarrow> x < 2 ^ 31 \<Longrightarrow> i32 x = Inr x"
  by (simp add: i32_def)

lemma sint_small: "- (2 ^ 31) \<le> x \<Longrightarrow> x < 2 ^ 31 \<Longrightarrow> sint (of_int x :: u32) = x"
  by (simp add: sint_sbintrunc' signed_take_bit_int_eq_self)

lemma jitter_step_bound:
  assumes "0 \<le> d" "d < 450000" "uint j \<le> 7199984"
  shows "\<exists>diff. i32 (sint ((of_int (d * 16) :: u32) - j) + 8) = Inr diff \<and> uint (j + of_int (drop_bit 4 diff)) \<le> 7199984"
proof -
  let ?x = "d * 16 - uint j"
  have j: "j = of_int (uint j)" by simp
  have "(of_int (d * 16) :: u32) - j = of_int ?x" by simp
  moreover have r: "- 7199984 \<le> ?x" "?x \<le> 7199984" using assms uint_ge_0[of j] by linarith+
  ultimately have s: "sint ((of_int (d * 16) :: u32) - j) = ?x" using sint_small[of ?x] by simp
  have b: "0 \<le> uint j + (?x + 8) div 16" "uint j + (?x + 8) div 16 \<le> 7199984" using assms uint_ge_0[of j] by linarith+
  have "uint (j + of_int (drop_bit 4 (?x + 8))) = uint j + (?x + 8) div 16"
  proof -
    have "j + of_int (drop_bit 4 (?x + 8)) = of_int (uint j + (?x + 8) div 16)" by (simp add: drop_bit_eq_div)
    then show ?thesis using b by (simp only: uint_word_of_int) (simp add: mod_pos_pos_trivial)
  qed
  then show ?thesis using s r b by simp
qed

lemma UpdateJitter_ok:
  assumes "uint (jitter_q4 st) \<le> 7199984" "time_diff_samples p now st \<noteq> - (2 ^ 31)"
  shows "\<exists>j. UpdateJitter p now st = Inr (st\<lparr>jitter_q4 := j\<rparr>) \<and> uint j \<le> 7199984"
proof -
  let ?d = "\<bar>time_diff_samples p now st\<bar>"
  have r: "- (2 ^ 31) \<le> sint (w :: u32) \<and> sint w < 2 ^ 31" for w using sint_ge[of w] sint_lt[of w] by simp
  have "- (2 ^ 31) \<le> time_diff_samples p now st \<and> time_diff_samples p now st < 2 ^ 31"
    unfolding time_diff_samples_def Let_def by (rule r)
  then have d: "i32 ?d = Inr ?d" using assms(2) by (intro i32_ok) auto
  show ?thesis
  proof (cases "?d < 450000")
    case True
    then obtain diff where "i32 (sint ((of_int (?d * 16) :: u32) - jitter_q4 st) + 8) = Inr diff"
      "uint (jitter_q4 st + of_int (drop_bit 4 diff)) \<le> 7199984" using jitter_step_bound[of ?d] assms(1) by force
    then show ?thesis using True d by (auto simp: UpdateJitter_def)
  next
    case False
    then have "UpdateJitter p now st = Inr (st\<lparr>jitter_q4 := jitter_q4 st\<rparr>)" using d by (simp add: UpdateJitter_def)
    then show ?thesis using assms(1) by blast
  qed
qed

text \<open>A packet within the reordering threshold.\<close>

lemma UpdateOutOfOrder_steady:
  assumes "received_seq_out_of_order st = None" "\<bar>s - received_seq_max st\<bar> \<le> max_reordering_threshold st"
    and "enable_retransmit_detection st \<Longrightarrow> s \<le> received_seq_max st \<Longrightarrow> of_int (tdiv (payload_type_frequency p) 1000) \<noteq> (0 :: u32)"
  shows "\<exists>c. UpdateOutOfOrder env p s now st = Inr (st\<lparr>receive_counters := c\<rparr>, s \<le> received_seq_max st)"
proof -
  let ?again = "if enable_retransmit_detection st then IsRetransmitOfOldPacket env p now st else Inr False"
  have keep: "\<exists>c. st = st\<lparr>receive_counters := c\<rparr>" by (rule exI[of _ "receive_counters st"]) simp
  show ?thesis
  proof (cases "s > received_seq_max st")
    case True
    then have "UpdateOutOfOrder env p s now st = Inr (st, s \<le> received_seq_max st)" using assms(1,2) by (simp add: UpdateOutOfOrder_def)
    then show ?thesis using keep by auto
  next
    case False
    obtain again where again: "?again = Inr again"
      using assms(3) False by (cases "enable_retransmit_detection st") (simp_all add: IsRetransmitOfOldPacket_def Let_def)
    have "UpdateOutOfOrder env p s now st =
        Inr (if again then st\<lparr>receive_counters := (receive_counters st)\<lparr>retransmitted := AddPacket p (retransmitted (receive_counters st))\<rparr>\<rparr>
             else st, s \<le> received_seq_max st)"
      using False assms(1,2) again by (simp add: UpdateOutOfOrder_def)
    then show ?thesis using keep by (cases again) auto
  qed
qed

lemma UpdateCounters_ok:
  assumes "loss_inv n m st" "s = UnwrapWithoutUpdate env (seq_unwrapper st) (pkt_sequence_number p)"
    and "\<bar>s - received_seq_max st\<bar> \<le> max_reordering_threshold st"
    and "enable_retransmit_detection st \<and> s \<le> received_seq_max st \<longrightarrow> 1000 \<le> payload_type_frequency p \<and> payload_type_frequency p < 2 ^ 31"
    and "time_diff_samples p now st \<noteq> - (2 ^ 31)" "n < 2 ^ 30"
    and "\<bar>received_seq_max st - received_seq_first st\<bar> < 2 ^ 30" "\<bar>s - received_seq_first st\<bar> < 2 ^ 30"
  shows "\<exists>st'. UpdateCounters env now p st = Inr st' \<and> loss_inv (n + 1) m st' \<and>
    received_seq_first st' = received_seq_first st \<and> received_seq_max st' = max s (received_seq_max st) \<and>
    last_report_seq_max st' = last_report_seq_max st \<and> stat_ssrc st' = stat_ssrc st"
proof -
  note I = assms(1)[unfolded loss_inv_def]
  let ?st = "st\<lparr>incoming_bitrate := rate_update env (payload_offset p + pkt_payload_size p + pkt_padding_size p) now (incoming_bitrate st),
     receive_counters := (receive_counters st)\<lparr>last_packet_received_timestamp_ms := Some now,
       transmitted := AddPacket p (transmitted (receive_counters st))\<rparr>, cumulative_loss := cumulative_loss st - 1\<rparr>"
  have loss: "i32 (cumulative_loss st - 1) = Inr (cumulative_loss st - 1)" using I assms(6,7) by (intro i32_ok) auto
  have "\<exists>c. UpdateOutOfOrder env p s now ?st = Inr (?st\<lparr>receive_counters := c\<rparr>, s \<le> received_seq_max ?st)"
  proof (rule UpdateOutOfOrder_steady)
    assume "enable_retransmit_detection ?st" "s \<le> received_seq_max ?st"
    then have "1000 \<le> payload_type_frequency p \<and> payload_type_frequency p < 2 ^ 31" using assms(4) by simp
    then have "0 < payload_type_frequency p div 1000 \<and> payload_type_frequency p div 1000 < 2 ^ 32" by auto
    moreover have "tdiv (payload_type_frequency p) 1000 = payload_type_frequency p div 1000"
      using \<open>1000 \<le> payload_type_frequency p \<and> _\<close> by (simp add: tdiv_def)
    ultimately show "of_int (tdiv (payload_type_frequency p) 1000) \<noteq> (0 :: u32)"
      using zdvd_imp_le by (fastforce simp: word_of_int_eq_0_iff)
  qed (use I assms(3) in auto)
  then obtain c where c: "UpdateOutOfOrder env p s now ?st = Inr (?st\<lparr>receive_counters := c\<rparr>, s \<le> received_seq_max st)" by auto
  have recv: "ReceivedRtpPacket ?st" using I by (simp add: ReceivedRtpPacket_def)
  show ?thesis
  proof (cases "s \<le> received_seq_max st")
    case True
    then have "UpdateCounters env now p st = Inr (?st\<lparr>receive_counters := c\<rparr>)"
      using c loss recv assms(2) by (simp add: UpdateCounters_def Let_def)
    then show ?thesis using I True by (auto simp: loss_inv_def)
  next
    case False
    let ?st2 = "?st\<lparr>receive_counters := c, cumulative_loss := cumulative_loss st - 1 + (s - received_seq_max st), received_seq_max := s,
      seq_unwrapper := UpdateLast env s (seq_unwrapper st)\<rparr>"
    have "\<exists>j. UpdateJitter p now ?st2 = Inr (?st2\<lparr>jitter_q4 := j\<rparr>) \<and> uint j \<le> 7199984"
      by (rule UpdateJitter_ok) (use I assms(5) in \<open>simp_all add: time_diff_samples_def\<close>)
    then obtain j where j: "UpdateJitter p now ?st2 = Inr (?st2\<lparr>jitter_q4 := j\<rparr>)" "uint j \<le> 7199984" by (elim exE conjE) (rule that)
    have "to_i32 (cumulative_loss st - 1 + (s - received_seq_max st)) = cumulative_loss st - 1 + (s - received_seq_max st)"
      using I assms(6,8) False by (intro to_i32_small) auto
    then have "UpdateCounters env now p st =
        bindE (if pkt_timestamp p \<noteq> last_received_timestamp st \<and> counted_packets (transmitted c) - counted_packets (retransmitted c) > 1
               then Inr (?st2\<lparr>jitter_q4 := j\<rparr>) else Inr ?st2) (\<lambda>st. Inr (st\<lparr>last_received_timestamp := pkt_timestamp p, last_receive_time_ms := now\<rparr>))"
      using c loss recv assms(2) False j by (simp add: UpdateCounters_def Let_def)
    then show ?thesis using I False j(2) by (auto simp: loss_inv_def)
  qed
qed

text \<open>C32. Loss accounting. In a stream that has received \<open>n\<close> packets, the cumulative loss is the length of the range of
  sequence numbers less \<open>n\<close>. A further packet that is within the reordering threshold of the highest one, whether new, late or a duplicate, is
  handled without a fault and keeps this equation for \<open>n + 1\<close>, and the highest sequence number is updated. This holds under these conditions.
  The packet is newer, or retransmission detection is off, or the payload type frequency of the packet is at least 1000: with the frequency 0,
  at which the server leaves every packet that it receives, and detection on, as in a stream without RTX, a late packet divides by zero
  (\<open>old_packet_divides_by_zero\<close>). The jitter sample is not the least
  \<open>int32_t\<close>, whose absolute value does not exist. The number of packets and the range of sequence numbers are below \<open>2^30\<close>, so that no counter
  of 32 bits wraps.\<close>

theorem loss_accounted:
  assumes "loss_inv n m st" "s = UnwrapWithoutUpdate env (seq_unwrapper st) (pkt_sequence_number p)"
    and "\<bar>s - received_seq_max st\<bar> \<le> max_reordering_threshold st"
    and "enable_retransmit_detection st \<and> s \<le> received_seq_max st \<longrightarrow> 1000 \<le> payload_type_frequency p \<and> payload_type_frequency p < 2 ^ 31"
    and "time_diff_samples p now st \<noteq> - (2 ^ 31)" "n < 2 ^ 30"
    and "\<bar>received_seq_max st - received_seq_first st\<bar> < 2 ^ 30" "\<bar>s - received_seq_first st\<bar> < 2 ^ 30"
  shows "\<exists>st'. UpdateCounters env now p st = Inr st' \<and> loss_inv (n + 1) m st' \<and>
    received_seq_first st' = received_seq_first st \<and> received_seq_max st' = max s (received_seq_max st)"
  using UpdateCounters_ok[OF assms] by blast

lemma fraction_ok:
  assumes "l \<le> e" "e < 2 ^ 23"
  shows "\<exists>f. fraction l e = Inr f \<and> uint f = (if l > 0 then 255 * l div e else 0)"
proof (cases "l > 0")
  case True
  then have "255 * l div e \<le> 255" using assms(1) zdiv_mono1[of "255 * l" "255 * e" e] by auto
  moreover have "0 \<le> 255 * l div e" using True assms(1) by (simp add: pos_imp_zdiv_nonneg_iff)
  ultimately have "uint (of_int (255 * l div e) :: byte) = 255 * l div e" by (simp only: uint_word_of_int) simp
  then show ?thesis using True assms by (simp add: fraction_def)
qed (simp add: fraction_def)

lemma report_block:
  assumes "loss_inv n m st" "now - last_receive_time_ms st < kStatisticsTimeoutMs" "n < 2 ^ 29"
    and "\<bar>received_seq_max st - received_seq_first st\<bar> < 2 ^ 29" "received_seq_max st - last_report_seq_max st < 2 ^ 23"
  shows "\<exists>st' b. MaybeAppendReportBlockAndReset now bs st = Inr (st', bs @ [b]) \<and> loss_inv n n st' \<and>
    stat_ssrc st' = stat_ssrc st \<and> received_seq_first st' = received_seq_first st \<and> received_seq_max st' = received_seq_max st \<and>
    last_report_seq_max st' = received_seq_max st \<and> source_ssrc b = stat_ssrc st \<and>
    uint (fraction_lost b) = (let expected = received_seq_max st - last_report_seq_max st; lost = expected - (n - m) in
                              if lost > 0 then 255 * lost div expected else 0) \<and>
    cumulative_packets_lost b = min 0x7fffff (max 0 (cumulative_loss st + cumulative_loss_rtcp_offset st)) \<and>
    extended_high_seq_num b = of_int (received_seq_max st) \<and> jitter b = drop_bit 4 (jitter_q4 st)"
proof -
  note I = assms(1)[unfolded loss_inv_def]
  let ?e = "received_seq_max st - last_report_seq_max st" let ?l = "?e - (n - m)"
  let ?c = "cumulative_loss st + cumulative_loss_rtcp_offset st"
  have e: "?l \<le> ?e" using I by auto
  have lost: "i32 (cumulative_loss st - last_report_cumulative_loss st) = Inr ?l" using I assms(3-5) by (simp add: i32_def)
  obtain f where f: "fraction ?l ?e = Inr f" "uint f = (if ?l > 0 then 255 * ?l div ?e else 0)" using fraction_ok[OF e assms(5)] by auto
  have c: "i32 ?c = Inr ?c" "i32 (- cumulative_loss st) = Inr (- cumulative_loss st)" using I assms(3,4) by (auto intro!: i32_ok)
  let ?p = "min 0x7fffff (max 0 ?c)"
  let ?off = "if ?c < 0 then - cumulative_loss st else cumulative_loss_rtcp_offset st"
  let ?st = "st\<lparr>cumulative_loss_rtcp_offset := ?off, cumulative_loss_is_capped := (cumulative_loss_is_capped st \<or> ?c > 0x7fffff),
    last_report_cumulative_loss := cumulative_loss st, last_report_seq_max := received_seq_max st\<rparr>"
  let ?b = "ReportBlock_new\<lparr>source_ssrc := stat_ssrc st, fraction_lost := f, cumulative_packets_lost := ?p,
    extended_high_seq_num := of_int (received_seq_max st), jitter := drop_bit 4 (jitter_q4 st)\<rparr>"
  have "MaybeAppendReportBlockAndReset now bs st = Inr (?st, bs @ [?b])"
  proof -
    consider "?c < 0" | "0 \<le> ?c" "?c \<le> 0x7fffff" | "?c > 0x7fffff" by linarith
    then show ?thesis
      using assms(2) I lost f(1) c
      by cases (simp_all add: MaybeAppendReportBlockAndReset_def ReceivedRtpPacket_def SetCumulativeLost_def min_def max_def)
  qed
  moreover have "loss_inv n n ?st" using I assms(3,4) by (auto simp: loss_inv_def)
  ultimately show ?thesis using f(2) by (intro exI[of _ ?st] exI[of _ ?b]) (simp add: Let_def)
qed

text \<open>C33. The report block of an active stream whose losses are accounted for: a stream that satisfies \<open>loss_inv\<close>, which every packet within the
  reordering threshold and every report keep, but a restart of the stream does not. The fraction lost is \<open>255\<close> times the packets lost since the
  last report by the packets expected since then, rounded down, and does not wrap; the cumulative loss is clamped to the range from 0 to
  \<open>0x7fffff\<close>; the next report counts from here. Fewer than \<open>2^29\<close> packets were received and fewer than \<open>2^23\<close> are expected since the last
  report, so that the products fit in 32 bits. After a restart the packets expected since the last report are counted anew and the lost ones are
  not, and the fraction can wrap: \<open>restarted_fraction_wraps\<close>.\<close>

theorem report_block_correct:
  assumes "loss_inv n m st" "now - last_receive_time_ms st < kStatisticsTimeoutMs" "n < 2 ^ 29"
    and "\<bar>received_seq_max st - received_seq_first st\<bar> < 2 ^ 29" "received_seq_max st - last_report_seq_max st < 2 ^ 23"
  shows "\<exists>st' b. MaybeAppendReportBlockAndReset now bs st = Inr (st', bs @ [b]) \<and> loss_inv n n st' \<and> source_ssrc b = stat_ssrc st \<and>
    uint (fraction_lost b) = (let expected = received_seq_max st - last_report_seq_max st; lost = expected - (n - m) in
                              if lost > 0 then 255 * lost div expected else 0) \<and>
    cumulative_packets_lost b = min 0x7fffff (max 0 (cumulative_loss st + cumulative_loss_rtcp_offset st)) \<and>
    extended_high_seq_num b = of_int (received_seq_max st) \<and> jitter b = drop_bit 4 (jitter_q4 st)"
  using report_block[OF assms, of bs] by blast

lemma first_packet_accounted:
  assumes "s = UnwrapWithoutUpdate env (unwrapper_new env) (pkt_sequence_number p)" "0 \<le> s"
  shows "\<exists>st'. UpdateCounters env now p (StreamStatisticianImpl_new env ssrc ntp t th) = Inr st' \<and> loss_inv 1 0 st' \<and>
    received_seq_first st' = s \<and> received_seq_max st' = s"
  using assms by (simp add: UpdateCounters_def StreamStatisticianImpl_new_def ReceivedRtpPacket_def Let_def StreamDataCounters_new_def
    counter_zero_def AddPacket_def loss_inv_def)

text \<open>With retransmission detection on, a late packet within the reordering threshold whose payload type frequency is 0 makes
  \<open>IsRetransmitOfOldPacket\<close> divide by zero. The server never sets the frequency of a received packet.\<close>

theorem old_packet_divides_by_zero:
  assumes "ReceivedRtpPacket st" "received_seq_out_of_order st = None" "enable_retransmit_detection st" "payload_type_frequency p = 0"
    and "s = UnwrapWithoutUpdate env (seq_unwrapper st) (pkt_sequence_number p)" "s \<le> received_seq_max st"
    and "received_seq_max st - s \<le> max_reordering_threshold st" "\<bar>cumulative_loss st\<bar> < 2 ^ 31"
  shows "UpdateCounters env now p st = Inl DivisionByZero"
  using assms by (simp add: UpdateCounters_def UpdateOutOfOrder_def IsRetransmitOfOldPacket_def ReceivedRtpPacket_def i32_def Let_def tdiv_def abs_less_iff)

lemma jitter_ignores_arrival:
  assumes "payload_type_frequency p = 0"
  shows "UpdateJitter p t st = UpdateJitter p t' st"
  using assms by (simp add: UpdateJitter_def time_diff_samples_def tdiv_def)

section \<open>The report blocks of all streams\<close>

definition stream_active :: "int \<Rightarrow> ('u, 'r) statistician \<Rightarrow> bool" where
  "stream_active now st \<longleftrightarrow> ReceivedRtpPacket st \<and> now - last_receive_time_ms st < kStatisticsTimeoutMs"

definition accounted :: "('u, 'r) statistician \<Rightarrow> bool" where
  "accounted st \<longleftrightarrow> (\<exists>n m. loss_inv n m st \<and> n < 2 ^ 29 \<and> \<bar>received_seq_max st - received_seq_first st\<bar> < 2 ^ 29 \<and>
     received_seq_max st - last_report_seq_max st < 2 ^ 23)"

definition streams_ok :: "('u, 'r) receive_statistics \<Rightarrow> bool" where
  "streams_ok rs \<longleftrightarrow> distinct (all_ssrcs rs) \<and> dom (statisticians rs) = set (all_ssrcs rs) \<and>
     (\<forall>ssrc st. statisticians rs ssrc = Some st \<longrightarrow> stat_ssrc st = ssrc \<and> (ReceivedRtpPacket st \<longrightarrow> accounted st))"

lemma append_block:
  assumes "ReceivedRtpPacket st \<longrightarrow> accounted st"
  shows "\<exists>st' bs. MaybeAppendReportBlockAndReset now res st = Inr (st', res @ bs) \<and> stat_ssrc st' = stat_ssrc st \<and>
    (ReceivedRtpPacket st' \<longrightarrow> accounted st') \<and> map source_ssrc bs = (if stream_active now st then [stat_ssrc st] else []) \<and>
    list_all report_block_ok bs"
proof (cases "stream_active now st")
  case True
  then obtain n m where a: "loss_inv n m st" "n < 2 ^ 29" "\<bar>received_seq_max st - received_seq_first st\<bar> < 2 ^ 29"
    "received_seq_max st - last_report_seq_max st < 2 ^ 23" using assms by (auto simp: stream_active_def accounted_def)
  have t: "now - last_receive_time_ms st < kStatisticsTimeoutMs" using True by (simp add: stream_active_def)
  obtain st' b where r: "MaybeAppendReportBlockAndReset now res st = Inr (st', res @ [b])" "loss_inv n n st'" "stat_ssrc st' = stat_ssrc st"
    "received_seq_first st' = received_seq_first st" "received_seq_max st' = received_seq_max st"
    "last_report_seq_max st' = received_seq_max st" "source_ssrc b = stat_ssrc st"
    "cumulative_packets_lost b = min 0x7fffff (max 0 (cumulative_loss st + cumulative_loss_rtcp_offset st))"
    using report_block[OF a(1) t a(2-4), of res] by blast
  have "accounted st'" unfolding accounted_def using r a(2,3) by (intro exI[of _ n] conjI) simp_all
  moreover have "report_block_ok b" unfolding report_block_ok_def r(8) by (simp add: min_def max_def)
  ultimately show ?thesis using r True by (intro exI[of _ st'] exI[of _ "[b]"]) simp
next
  case False
  then show ?thesis using assms by (auto simp: stream_active_def MaybeAppendReportBlockAndReset_def)
qed

definition ssrc_at :: "('u, 'r) receive_statistics \<Rightarrow> nat \<Rightarrow> u32" where
  "ssrc_at rs i = all_ssrcs rs ! ((last_returned_ssrc_idx rs + i + 1) mod length (all_ssrcs rs))"

definition reported :: "int \<Rightarrow> ('u, 'r) receive_statistics \<Rightarrow> u32 \<Rightarrow> bool" where
  "reported now rs ssrc = (case statisticians rs ssrc of None \<Rightarrow> False | Some st \<Rightarrow> stream_active now st)"

text \<open>The streams that the loop examines before it ends: \<open>k\<close> of those in \<open>order\<close>, the least number of them that holds \<open>room\<close> streams
  that are reported, or all.\<close>

definition examined :: "int \<Rightarrow> nat \<Rightarrow> ('u, 'r) receive_statistics \<Rightarrow> u32 list \<Rightarrow> nat \<Rightarrow> bool" where
  "examined now room rs order k \<longleftrightarrow> k \<le> length order \<and> (\<forall>j<k. length (filter (reported now rs) (take j order)) < room) \<and>
     (k = length order \<or> room \<le> length (filter (reported now rs) (take k order)))"

lemma examined_0: "examined now 0 rs order 0"
  by (simp add: examined_def)

lemma examined_Cons:
  assumes "examined now (room - (if reported now rs x then 1 else 0)) rs order k" "0 < room"
  shows "examined now room rs (x # order) (Suc k)"
  using assms by (auto simp: examined_def take_Cons' less_Suc_eq_0_disj split: if_splits)

text \<open>The number of streams examined determines the blocks, and is the only one with this property.\<close>

lemma examined_take:
  assumes "examined now room rs order k"
  shows "filter (reported now rs) (take k order) = take room (filter (reported now rs) order)"
proof -
  let ?f = "filter (reported now rs)"
  have split: "?f order = ?f (take k order) @ ?f (drop k order)" by (metis append_take_drop_id filter_append)
  have "length (?f (take k order)) \<le> room"
  proof (cases k)
    case (Suc j)
    then have "j < length order" "length (?f (take j order)) < room" using assms by (auto simp: examined_def)
    then show ?thesis using Suc by (simp add: take_Suc_conv_app_nth)
  qed simp
  moreover have "k = length order \<or> room \<le> length (?f (take k order))" using assms by (simp add: examined_def)
  ultimately show ?thesis unfolding split by auto
qed

lemma examined_unique:
  assumes "examined now room rs order k" "examined now room rs order k'"
  shows "k = k'"
proof -
  have "\<not> i < j" if "examined now room rs order i" "examined now room rs order j" for i j
  proof
    assume "i < j"
    then have "i < length order" "length (filter (reported now rs) (take i order)) < room" using that(2) by (auto simp: examined_def)
    then show False using that(1) by (simp add: examined_def)
  qed
  then show ?thesis using assms by (metis linorder_neqE_nat)
qed

lemma report_loop_correct:
  assumes "streams_ok rs" "distinct (map (ssrc_at rs) is)" "set is \<subseteq> {..<length (all_ssrcs rs)}"
  shows "\<exists>rs' bs k. report_loop now mb is idx res rs =
      Inr (rs', if k = 0 then idx else (last_returned_ssrc_idx rs + is ! (k - 1) + 1) mod length (all_ssrcs rs), res @ bs) \<and>
    streams_ok rs' \<and> all_ssrcs rs' = all_ssrcs rs \<and> examined now (mb - length res) rs (map (ssrc_at rs) is) k \<and>
    map source_ssrc bs = filter (reported now rs) (take k (map (ssrc_at rs) is)) \<and> list_all report_block_ok bs"
  using assms
proof (induction "is" arbitrary: idx res rs)
  case (Cons i "is")
  show ?case
  proof (cases "length res < mb")
    case True
    let ?k = "(last_returned_ssrc_idx rs + i + 1) mod length (all_ssrcs rs)" and ?s = "ssrc_at rs i"
    have k: "?k < length (all_ssrcs rs)" using Cons.prems(3) by (intro mod_less_divisor) auto
    then have "?s \<in> set (all_ssrcs rs)" by (simp add: ssrc_at_def)
    then obtain st where st: "statisticians rs ?s = Some st" "stat_ssrc st = ?s" "ReceivedRtpPacket st \<longrightarrow> accounted st"
      using Cons.prems(1) unfolding streams_ok_def by (metis domD)
    obtain st' bs where m: "MaybeAppendReportBlockAndReset now res st = Inr (st', res @ bs)" "stat_ssrc st' = ?s"
      "ReceivedRtpPacket st' \<longrightarrow> accounted st'" "map source_ssrc bs = (if stream_active now st then [?s] else [])"
      "list_all report_block_ok bs"
      using append_block[OF st(3), of now res] st(2) by auto
    let ?rs = "rs\<lparr>statisticians := (statisticians rs)(?s \<mapsto> st')\<rparr>"
    have at: "ssrc_at ?rs = ssrc_at rs" by (simp add: ssrc_at_def fun_eq_iff)
    have ok: "streams_ok ?rs" using Cons.prems(1) m(2,3) \<open>?s \<in> _\<close> by (auto simp: streams_ok_def)
    let ?order = "map (ssrc_at rs) is"
    have pre: "distinct (map (ssrc_at ?rs) is)" "set is \<subseteq> {..<length (all_ssrcs ?rs)}" using Cons.prems(2,3) at by auto
    have keep: "all_ssrcs ?rs = all_ssrcs rs" "last_returned_ssrc_idx ?rs = last_returned_ssrc_idx rs" by simp_all
    obtain rs' bs' n where l: "report_loop now mb is ?k (res @ bs) ?rs =
        Inr (rs', if n = 0 then ?k else (last_returned_ssrc_idx rs + is ! (n - 1) + 1) mod length (all_ssrcs rs), (res @ bs) @ bs')"
      "streams_ok rs'" "all_ssrcs rs' = all_ssrcs rs" "examined now (mb - length (res @ bs)) ?rs ?order n"
      "map source_ssrc bs' = filter (reported now ?rs) (take n ?order)" "list_all report_block_ok bs'"
      using Cons.IH[OF ok pre, of ?k "res @ bs"] unfolding keep at
      by (elim exE conjE) (rule that)
    have "x \<in> set ?order \<Longrightarrow> x \<noteq> ?s" for x using Cons.prems(2) by force
    then have eq: "x \<in> set ?order \<Longrightarrow> reported now ?rs x = reported now rs x" for x by (simp add: reported_def)
    then have fil: "filter (reported now ?rs) (take j ?order) = filter (reported now rs) (take j ?order)" for j
      by (intro filter_cong refl) (auto dest: in_set_takeD)
    have rep: "reported now rs ?s = stream_active now st" using st(1) by (simp add: reported_def)
    have len: "length bs = (if reported now rs ?s then 1 else 0)" using arg_cong[OF m(4), of length] rep by simp
    have "examined now (mb - length res - (if reported now rs ?s then 1 else 0)) rs ?order n"
      using l(4) unfolding examined_def fil length_append diff_diff_left len .
    note rest = this
    have ex: "examined now (mb - length res) rs (map (ssrc_at rs) (i # is)) (Suc n)"
      unfolding list.map by (rule examined_Cons[OF rest]) (use True in simp)
    have "report_loop now mb (i # is) idx res rs =
        Inr (rs', (last_returned_ssrc_idx rs + (i # is) ! (Suc n - 1) + 1) mod length (all_ssrcs rs), res @ (bs @ bs'))"
      using True k st(1) m(1) l(1) by (cases n) (simp_all add: ssrc_at_def byte_at_def Let_def)
    moreover have "map source_ssrc (bs @ bs') = filter (reported now rs) (take (Suc n) (map (ssrc_at rs) (i # is)))"
      using m(4) l(5) fil rep by simp
    ultimately show ?thesis using l(2,3,6) m(5) ex by (intro exI[of _ rs'] exI[of _ "bs @ bs'"] exI[of _ "Suc n"]) simp
  next
    case False
    then show ?thesis using Cons.prems(1) by (intro exI[of _ rs] exI[of _ "[]"] exI[of _ 0]) (simp add: examined_0)
  qed
qed (auto simp: examined_def)

lemma RtcpReportBlocks_ok:
  assumes "streams_ok rs"
  shows "\<exists>rs' bs k. RtcpReportBlocks now max_blocks rs = Inr (rs', bs) \<and> streams_ok rs' \<and> all_ssrcs rs' = all_ssrcs rs \<and>
    list_all report_block_ok bs \<and> examined now max_blocks rs (rotate (last_returned_ssrc_idx rs + 1) (all_ssrcs rs)) k \<and>
    map source_ssrc bs = filter (reported now rs) (take k (rotate (last_returned_ssrc_idx rs + 1) (all_ssrcs rs))) \<and>
    last_returned_ssrc_idx rs' = (if k = 0 then 0 else (last_returned_ssrc_idx rs + k) mod length (all_ssrcs rs))"
proof -
  let ?n = "length (all_ssrcs rs)"
  have rot: "map (ssrc_at rs) [0..<?n] = rotate (last_returned_ssrc_idx rs + 1) (all_ssrcs rs)"
    by (rule nth_equalityI) (simp_all add: ssrc_at_def nth_rotate ac_simps del: rotate_Suc)
  have "distinct (map (ssrc_at rs) [0..<?n])" using assms unfolding rot by (simp add: streams_ok_def)
  then obtain rs' bs k where l: "report_loop now max_blocks [0..<?n] 0 [] rs =
      Inr (rs', if k = 0 then 0 else (last_returned_ssrc_idx rs + [0..<?n] ! (k - 1) + 1) mod ?n, [] @ bs)"
    "streams_ok rs'" "all_ssrcs rs' = all_ssrcs rs"
    "examined now (max_blocks - length ([] :: report_block list)) rs (map (ssrc_at rs) [0..<?n]) k"
    "map source_ssrc bs = filter (reported now rs) (take k (map (ssrc_at rs) [0..<?n]))" "list_all report_block_ok bs"
    using report_loop_correct[OF assms, of "[0..<?n]" now max_blocks 0 "[]"] by (auto simp: atLeast0LessThan)
  let ?idx = "if k = 0 then 0 else (last_returned_ssrc_idx rs + k) mod ?n"
  have idx: "(if k = 0 then 0 else (last_returned_ssrc_idx rs + [0..<?n] ! (k - 1) + 1) mod ?n) = ?idx"
    using l(4) by (cases k) (simp_all add: examined_def)
  have "streams_ok (rs'\<lparr>last_returned_ssrc_idx := ?idx\<rparr>)" using l(2) by (simp add: streams_ok_def)
  moreover have "RtcpReportBlocks now max_blocks rs = Inr (rs'\<lparr>last_returned_ssrc_idx := ?idx\<rparr>, bs)"
    using l(1) unfolding idx by (simp add: RtcpReportBlocks_def)
  ultimately show ?thesis using l(3-6) unfolding rot
    by (intro exI[of _ "rs'\<lparr>last_returned_ssrc_idx := ?idx\<rparr>"] exI[of _ bs] exI[of _ k]) simp
qed

text \<open>The stored index makes the next round begin after the last stream examined.\<close>

lemma next_round:
  assumes "0 < k" "idx' = (idx + k) mod length xs"
  shows "rotate (idx' + 1) xs = rotate k (rotate (idx + 1) xs)"
proof -
  have "(idx' + 1) mod length xs = (k + (idx + 1)) mod length xs" using assms(2) by (simp add: mod_simps ac_simps)
  then show ?thesis by (metis rotate_conv_mod rotate_rotate)
qed

text \<open>C34. \<open>RtcpReportBlocks\<close> is a round robin. It returns, without a fault, one block for each of the first \<open>max_blocks\<close> active streams in the
  cyclic order that begins after the stream examined last, each at most once. It examines the least number \<open>k\<close> of streams that gives these
  blocks (all of them when fewer are active), and stores the index of the \<open>k\<close>th, so that the next call goes on with the stream after it in
  the same cyclic order: no stream is passed over. Only a call that examines no stream, which asks for no block or has no stream, stores 0.\<close>

theorem report_blocks_round_robin:
  assumes "streams_ok rs"
  shows "\<exists>rs' bs k. RtcpReportBlocks now max_blocks rs = Inr (rs', bs) \<and> streams_ok rs' \<and> all_ssrcs rs' = all_ssrcs rs \<and>
    (let order = rotate (last_returned_ssrc_idx rs + 1) (all_ssrcs rs) in
     map source_ssrc bs = take max_blocks (filter (reported now rs) order) \<and>
     map source_ssrc bs = filter (reported now rs) (take k order) \<and>
     k \<le> length order \<and> (k = length order \<or> length bs = max_blocks) \<and>
     list_all (\<lambda>j. length (filter (reported now rs) (take j order)) < max_blocks) [0..<k] \<and>
     (if k = 0 then (all_ssrcs rs = [] \<or> max_blocks = 0) \<and> last_returned_ssrc_idx rs' = 0
      else last_returned_ssrc_idx rs' = (last_returned_ssrc_idx rs + k) mod length (all_ssrcs rs) \<and>
        rotate (last_returned_ssrc_idx rs' + 1) (all_ssrcs rs') = rotate k order))"
proof -
  let ?order = "rotate (last_returned_ssrc_idx rs + 1) (all_ssrcs rs)"
  obtain rs' bs k where r: "RtcpReportBlocks now max_blocks rs = Inr (rs', bs)" "streams_ok rs'" "all_ssrcs rs' = all_ssrcs rs"
    "examined now max_blocks rs ?order k" "map source_ssrc bs = filter (reported now rs) (take k ?order)"
    "last_returned_ssrc_idx rs' = (if k = 0 then 0 else (last_returned_ssrc_idx rs + k) mod length (all_ssrcs rs))"
    using RtcpReportBlocks_ok[OF assms] by blast
  have take: "map source_ssrc bs = take max_blocks (filter (reported now rs) ?order)" using r(5) examined_take[OF r(4)] by simp
  have len: "length bs = length (filter (reported now rs) (take k ?order))" using arg_cong[OF r(5), of length] by simp
  have le: "length bs \<le> max_blocks" using arg_cong[OF take, of length] by simp
  have stop: "k = length ?order \<or> length bs = max_blocks" using r(4) len le unfolding examined_def by linarith
  have zero: "all_ssrcs rs = [] \<or> max_blocks = 0" if "k = 0" using stop that r(5) by auto
  have ex: "k \<le> length ?order" "list_all (\<lambda>j. length (filter (reported now rs) (take j ?order)) < max_blocks) [0..<k]"
    using r(4) by (simp_all add: examined_def list_all_iff)
  have rot: "rotate (last_returned_ssrc_idx rs' + 1) (all_ssrcs rs') = rotate k ?order" if "k \<noteq> 0"
    unfolding r(3) using r(6) that by (intro next_round) simp_all
  show ?thesis unfolding Let_def
    by (intro exI[of _ rs'] exI[of _ bs] exI[of _ k] conjI) (use r(1-3,5,6) take stop zero ex rot in \<open>simp_all del: rotate_Suc\<close>)
qed

section \<open>Concrete streams\<close>

definition sample_env :: "(unit, unit) stat_env" where
  "sample_env = \<lparr>unwrapper_new = (), UnwrapWithoutUpdate = (\<lambda>_ s. uint s), UpdateLast = (\<lambda>_ u. u), rate_new = (), rate_update = (\<lambda>_ _ r. r),
     rate_get = (\<lambda>_ _. None), jitter_delay_ms = (\<lambda>_ _. 0)\<rparr>"

definition sample_packet :: "u16 \<Rightarrow> u32 \<Rightarrow> int \<Rightarrow> rtp_packet_received" where
  "sample_packet sn ts freq = \<lparr>pkt_marker = False, pkt_payload_type = 96, pkt_sequence_number = sn, pkt_timestamp = ts, pkt_ssrc = 7,
     payload_offset = 12, pkt_payload_size = 100, pkt_padding_size = 0, buffer = [], buffer_capacity = 1500,
     extensions = RtpHeaderExtensionMap_init False, extensions_size = 0, extension_entries = [],
     arrival_time = None, payload_type_frequency = freq, recovered = False\<rparr>"

text \<open>A stream with first packet 10, last packet 14 and two packets missing.\<close>

definition sample_stream :: "(unit, unit) statistician" where
  "sample_stream = (StreamStatisticianImpl_new sample_env 7 2208988800000 0 5)\<lparr>received_seq_first := 10, received_seq_max := 14,
     cumulative_loss := 2, last_report_seq_max := 9, last_receive_time_ms := 100\<rparr>"

definition sample_streams :: "(unit, unit) receive_statistics" where
  "sample_streams = \<lparr>last_returned_ssrc_idx = 0, all_ssrcs = [7], default_threshold = 5, statisticians = [7 \<mapsto> sample_stream]\<rparr>"

lemma sample_stream_inv: "loss_inv 3 0 sample_stream"
  by (simp add: loss_inv_def sample_stream_def StreamStatisticianImpl_new_def)

theorem loss_accounted_witness:
  "\<exists>st'. UpdateCounters sample_env 130 (sample_packet 12 9000 90000) sample_stream = Inr st' \<and> loss_inv 4 0 st' \<and>
     received_seq_first st' = 10 \<and> received_seq_max st' = 14"
  using loss_accounted[OF sample_stream_inv, of 12 sample_env "sample_packet 12 9000 90000" 130]
  by (simp add: sample_env_def sample_packet_def sample_stream_def StreamStatisticianImpl_new_def time_diff_samples_def)

theorem report_block_correct_witness:
  "\<exists>st' b. MaybeAppendReportBlockAndReset 130 [] sample_stream = Inr (st', [b]) \<and> loss_inv 3 3 st' \<and> source_ssrc b = 7 \<and>
     uint (fraction_lost b) = 102 \<and> cumulative_packets_lost b = 2 \<and> extended_high_seq_num b = 14 \<and> jitter b = 0"
  using report_block_correct[OF sample_stream_inv, of 130 "[]"]
  by (simp add: sample_stream_def StreamStatisticianImpl_new_def kStatisticsTimeoutMs_def Let_def)

text \<open>A stream with four packets missing is restarted at sequence number 100, by two consecutive packets that are out of range. The next report
  expects two packets and has four lost: 510 of 255 is stored as 254.\<close>

theorem restarted_fraction_wraps:
  "let st = sample_stream\<lparr>received_seq_max := 16, cumulative_loss := 4\<rparr> in loss_inv 3 0 st \<and>
   (\<exists>st1 st2 st3 b. UpdateCounters sample_env 130 (sample_packet 100 0 90000) st = Inr st1 \<and>
      UpdateCounters sample_env 130 (sample_packet 101 0 90000) st1 = Inr st2 \<and>
      MaybeAppendReportBlockAndReset 130 [] st2 = Inr (st3, [b]) \<and> fraction_lost b = 254)"
proof -
  let ?st = "sample_stream\<lparr>received_seq_max := 16, cumulative_loss := 4\<rparr>"
  note defs = sample_env_def sample_packet_def sample_stream_def StreamStatisticianImpl_new_def StreamDataCounters_new_def counter_zero_def
    UpdateCounters_def UpdateOutOfOrder_def ReceivedRtpPacket_def AddPacket_def to_i32_def
  let ?get = "case_sum (\<lambda>_. ?st) id"
  define st1 where "st1 = ?get (UpdateCounters sample_env 130 (sample_packet 100 0 90000) ?st)"
  have 1: "UpdateCounters sample_env 130 (sample_packet 100 0 90000) ?st = Inr st1"
    unfolding st1_def by (simp add: defs Let_def)
  define st2 where "st2 = ?get (UpdateCounters sample_env 130 (sample_packet 101 0 90000) st1)"
  have 2: "UpdateCounters sample_env 130 (sample_packet 101 0 90000) st1 = Inr st2"
    unfolding st2_def st1_def by (simp add: defs Let_def)
  have "\<exists>st3 b. MaybeAppendReportBlockAndReset 130 [] st2 = Inr (st3, [b]) \<and> fraction_lost b = 254"
    unfolding st2_def st1_def by (simp add: defs Let_def MaybeAppendReportBlockAndReset_def kStatisticsTimeoutMs_def SetCumulativeLost_def
      fraction_def tdiv_def ReportBlock_new_def)
  moreover have "loss_inv 3 0 ?st" by (simp add: loss_inv_def sample_stream_def StreamStatisticianImpl_new_def)
  ultimately show ?thesis using 1 2 by (auto simp: Let_def)
qed

theorem old_packet_divides_by_zero_witness:
  "UpdateCounters sample_env 130 (sample_packet 12 9000 0) (EnableRetransmitDetection True sample_stream) = Inl DivisionByZero"
  using old_packet_divides_by_zero[of "EnableRetransmitDetection True sample_stream" "sample_packet 12 9000 0" 12 sample_env 130]
  by (simp add: sample_env_def sample_packet_def sample_stream_def StreamStatisticianImpl_new_def EnableRetransmitDetection_def ReceivedRtpPacket_def)

lemma sample_streams_ok: "streams_ok sample_streams"
proof -
  have "accounted sample_stream" unfolding accounted_def
    by (intro exI conjI, rule sample_stream_inv) (simp_all add: sample_stream_def)
  then show ?thesis
    by (auto simp: streams_ok_def sample_streams_def sample_stream_def StreamStatisticianImpl_new_def split: if_splits)
qed

text \<open>Two active streams and room for one block: the second stream is reported, its index is stored, and the next round begins with the first.\<close>

definition sample_pair :: "(unit, unit) receive_statistics" where
  "sample_pair = \<lparr>last_returned_ssrc_idx = 0, all_ssrcs = [7, 9], default_threshold = 5,
     statisticians = [7 \<mapsto> sample_stream, 9 \<mapsto> sample_stream\<lparr>stat_ssrc := 9\<rparr>]\<rparr>"

lemma sample_pair_ok: "streams_ok sample_pair"
proof -
  have "accounted sample_stream" using sample_streams_ok
    by (auto simp: streams_ok_def sample_streams_def ReceivedRtpPacket_def sample_stream_def StreamStatisticianImpl_new_def)
  then have "accounted sample_stream" "accounted (sample_stream\<lparr>stat_ssrc := 9\<rparr>)" by (simp_all add: accounted_def loss_inv_def)
  moreover have "stat_ssrc sample_stream = 7" by (simp add: sample_stream_def StreamStatisticianImpl_new_def)
  ultimately show ?thesis by (auto simp: streams_ok_def sample_pair_def split: if_splits)
qed

theorem report_blocks_round_robin_witness:
  "\<exists>rs' bs. RtcpReportBlocks 130 1 sample_pair = Inr (rs', bs) \<and> streams_ok rs' \<and> all_ssrcs rs' = [7, 9] \<and> map source_ssrc bs = [9] \<and>
     last_returned_ssrc_idx rs' = 1"
proof -
  note sample_pair_ok
  moreover have "reported 130 sample_pair 7" "reported 130 sample_pair 9"
    by (simp_all add: reported_def stream_active_def ReceivedRtpPacket_def sample_pair_def sample_stream_def StreamStatisticianImpl_new_def
      kStatisticsTimeoutMs_def)
  moreover have p: "rotate (last_returned_ssrc_idx sample_pair + 1) (all_ssrcs sample_pair) = [9, 7]" "all_ssrcs sample_pair = [7, 9]"
    "last_returned_ssrc_idx sample_pair = 0" by (simp_all add: sample_pair_def)
  moreover obtain rs' bs k where r: "RtcpReportBlocks 130 1 sample_pair = Inr (rs', bs)" "streams_ok rs'" "all_ssrcs rs' = all_ssrcs sample_pair"
    "map source_ssrc bs = take 1 (filter (reported 130 sample_pair) [9, 7])"
    "map source_ssrc bs = filter (reported 130 sample_pair) (take k [9, 7])" "k \<le> length [9, 7 :: u32]"
    "if k = 0 then (all_ssrcs sample_pair = [] \<or> (1 :: nat) = 0) \<and> last_returned_ssrc_idx rs' = 0
     else last_returned_ssrc_idx rs' = (last_returned_ssrc_idx sample_pair + k) mod length (all_ssrcs sample_pair) \<and>
       rotate (last_returned_ssrc_idx rs' + 1) (all_ssrcs rs') = rotate k [9, 7]"
    using report_blocks_round_robin[OF sample_pair_ok, of 130 1] unfolding Let_def p(1) by (elim exE conjE) (rule that)
  moreover have "k = 1" using r(4-6) calculation(2,3) by (cases k; cases "k - 1") auto
  ultimately show ?thesis by auto
qed
end
