(* ===== verification/Rtcp_Sender.thy ===== *)
theory Rtcp_Sender
  imports Rtcp_Receiver Receive_Statistics
begin

text \<open>
  \<open>RTCPSender\<close> (\<open>modules/rtp_rtcp/rtcp_sender.{h,cpp}\<close>): which reports a call builds, the compound packet, and the time of
  the next report. Times are in microseconds. The clock, the random numbers, the order of sequence numbers and the
  rounding of a time to milliseconds are WebRTC's and arguments. The set of flags is a list in the order of the set; the
  callback that schedules the next report appends to a list, and the packets handed to the observer are events. An
  access to an empty \<open>optional\<close> is \<open>CheckFailed\<close>.
\<close>

section \<open>State\<close>

record 'g sender_env =
  clock_env :: rtcp_env
  TimeInMilliseconds :: int
  timestamp_ms :: "int \<Rightarrow> int"
  Rand :: "'g \<Rightarrow> int \<Rightarrow> int \<Rightarrow> int \<times> 'g"
  newer_seq :: "u16 \<Rightarrow> u16 \<Rightarrow> bool"

datatype rtcp_mode = kOff | kCompound | kReducedSize

definition kRtcpReport :: u32 where "kRtcpReport = 0x0001"

definition kRtcpSr :: u32 where "kRtcpSr = 0x0002"

definition kRtcpRr :: u32 where "kRtcpRr = 0x0004"

definition kRtcpNack :: u32 where "kRtcpNack = 0x0040"

definition RTCP_MAX_REPORT_BLOCKS :: nat where "RTCP_MAX_REPORT_BLOCKS = 31"

definition IP_PACKET_SIZE :: nat where "IP_PACKET_SIZE = 1500"

record ('u, 'r) configuration =
  config_audio :: bool
  receiver_only :: bool
  config_local_ssrc :: u32
  config_remote_ssrc :: u32
  config_clock_rate :: int
  rtcp_report_interval_ms :: int
  config_observer :: bool
  config_statistics :: "('u, 'r) receive_statistics option"

record feedback_state =
  packets_sent :: u32
  media_bytes_sent :: u64
  send_bitrate :: u32
  last_rr_ntp_secs :: u32
  last_rr_ntp_frac :: u32
  remote_sr :: u32

definition FeedbackState_new :: feedback_state where
  "FeedbackState_new = \<lparr>packets_sent = 0, media_bytes_sent = 0, send_bitrate = 0, last_rr_ntp_secs = 0, last_rr_ntp_frac = 0,
     remote_sr = 0\<rparr>"

record packet_type_counter =
  ptc_first_packet_time_ms :: int
  nack_packets :: u32
  fir_packets :: u32
  pli_packets :: u32
  nack_requests :: u32
  unique_nack_requests :: u32

definition RtcpPacketTypeCounter_new :: packet_type_counter where
  "RtcpPacketTypeCounter_new = \<lparr>ptc_first_packet_time_ms = - 1, nack_packets = 0, fir_packets = 0, pli_packets = 0,
     nack_requests = 0, unique_nack_requests = 0\<rparr>"

definition ptc_Add :: "packet_type_counter \<Rightarrow> packet_type_counter \<Rightarrow> packet_type_counter" where
  "ptc_Add other c = \<lparr>ptc_first_packet_time_ms =
       (if ptc_first_packet_time_ms other \<noteq> - 1 \<and>
           (ptc_first_packet_time_ms other < ptc_first_packet_time_ms c \<or> ptc_first_packet_time_ms c = - 1)
        then ptc_first_packet_time_ms other else ptc_first_packet_time_ms c),
     nack_packets = nack_packets c + nack_packets other, fir_packets = fir_packets c + fir_packets other,
     pli_packets = pli_packets c + pli_packets other, nack_requests = nack_requests c + nack_requests other,
     unique_nack_requests = unique_nack_requests c + unique_nack_requests other\<rparr>"

definition ptc_Subtract :: "packet_type_counter \<Rightarrow> packet_type_counter \<Rightarrow> packet_type_counter" where
  "ptc_Subtract other c = \<lparr>ptc_first_packet_time_ms =
       (if ptc_first_packet_time_ms other \<noteq> - 1 \<and>
           (ptc_first_packet_time_ms other > ptc_first_packet_time_ms c \<or> ptc_first_packet_time_ms c = - 1)
        then ptc_first_packet_time_ms other else ptc_first_packet_time_ms c),
     nack_packets = nack_packets c - nack_packets other, fir_packets = fir_packets c - fir_packets other,
     pli_packets = pli_packets c - pli_packets other, nack_requests = nack_requests c - nack_requests other,
     unique_nack_requests = unique_nack_requests c - unique_nack_requests other\<rparr>"

definition ptc_TimeSinceFirstPacketInMs :: "int \<Rightarrow> packet_type_counter \<Rightarrow> int" where
  "ptc_TimeSinceFirstPacketInMs now_ms c = (if ptc_first_packet_time_ms c = - 1 then - 1 else now_ms - ptc_first_packet_time_ms c)"

record ('g, 'u, 'r) rtcp_sender =
  snd_audio :: bool
  local_ssrc :: u32
  snd_remote_ssrc :: u32
  clock_rate :: int
  max_packet_size :: nat
  snd_observer :: bool
  rtcp_mode :: rtcp_mode
  report_interval :: int
  report_flags :: "(u32 \<times> bool) list"
  sending :: bool
  random :: 'g
  last_rtp_timestamp :: u32
  last_frame_capture_time :: "int option"
  next_time_to_send_rtcp :: "int option"
  snd_statistics :: "('u, 'r) receive_statistics option"
  packet_counter :: packet_type_counter
  snd_nack_stats :: nack_stats
  scheduled :: "int list"
  snd_events :: "observer_event list"

definition GetReportInterval :: "int \<Rightarrow> int \<Rightarrow> int" where
  "GetReportInterval report_interval_ms default_value = (if report_interval_ms > 0 then 1000 * report_interval_ms else 1000 * default_value)"

definition kDefaultAudioRtcpIntervalMs :: int where
  "kDefaultAudioRtcpIntervalMs = 5000"

definition kDefaultVideoRtcpIntervalMs :: int where
  "kDefaultVideoRtcpIntervalMs = 1000"

definition RTCP_BEFORE_KEY_FRAME :: int where
  "RTCP_BEFORE_KEY_FRAME = 100000"

definition RTCPSender_new :: "'g \<Rightarrow> ('u, 'r) configuration \<Rightarrow> ('g, 'u, 'r) rtcp_sender" where
  "RTCPSender_new seed config =
     \<lparr>snd_audio = config_audio config, local_ssrc = config_local_ssrc config, snd_remote_ssrc = config_remote_ssrc config,
      clock_rate = config_clock_rate config, max_packet_size = IP_PACKET_SIZE - 28, snd_observer = config_observer config,
      rtcp_mode = kOff,
      report_interval = GetReportInterval (rtcp_report_interval_ms config)
        (if config_audio config then kDefaultAudioRtcpIntervalMs else kDefaultVideoRtcpIntervalMs),
      report_flags = [], sending = False, random = seed, last_rtp_timestamp = 0, last_frame_capture_time = None,
      next_time_to_send_rtcp = None, snd_statistics = config_statistics config, packet_counter = RtcpPacketTypeCounter_new,
      snd_nack_stats = RtcpNackStats_init, scheduled = [], snd_events = []\<rparr>"

section \<open>Flags\<close>

fun insert_flag :: "u32 \<times> bool \<Rightarrow> (u32 \<times> bool) list \<Rightarrow> (u32 \<times> bool) list" where
  "insert_flag f [] = [f]"
| "insert_flag f (g # gs) =
     (if fst f < fst g then f # g # gs else if fst f = fst g then g # gs else g # insert_flag f gs)"

definition SetFlag :: "u32 \<Rightarrow> ('g, 'u, 'r) rtcp_sender \<Rightarrow> ('g, 'u, 'r) rtcp_sender" where
  "SetFlag type s = s\<lparr>report_flags := insert_flag (type, True) (report_flags s)\<rparr>"

definition erase_flag :: "u32 \<Rightarrow> ('g, 'u, 'r) rtcp_sender \<Rightarrow> ('g, 'u, 'r) rtcp_sender" where
  "erase_flag type s = s\<lparr>report_flags := filter (\<lambda>f. fst f \<noteq> type) (report_flags s)\<rparr>"

definition ConsumeFlag :: "u32 \<Rightarrow> bool \<Rightarrow> ('g, 'u, 'r) rtcp_sender \<Rightarrow> ('g, 'u, 'r) rtcp_sender \<times> bool" where
  "ConsumeFlag type forced s =
     (case find (\<lambda>f. fst f = type) (report_flags s) of
        None \<Rightarrow> (s, False)
      | Some (_, is_volatile) \<Rightarrow> (if is_volatile \<or> forced then erase_flag type s else s, True))"

definition AllVolatileFlagsConsumed :: "('g, 'u, 'r) rtcp_sender \<Rightarrow> bool" where
  "AllVolatileFlagsConsumed s = (\<not> list_ex snd (report_flags s))"

section \<open>Building packets\<close>

text \<open>\<open>PacketSender::Append\<close> ignores the result of \<open>Create\<close>; here a packet that \<open>Create\<close> refuses ends the call, and the properties show
  that none is refused. \<open>ctx\<close> holds the feedback state, the ids to request and the time.\<close>

definition CreateReportBlocks ::
  "'g sender_env \<Rightarrow> feedback_state \<Rightarrow> ('g, 'u, 'r) rtcp_sender \<Rightarrow> error + ('g, 'u, 'r) rtcp_sender \<times> report_block list" where
  "CreateReportBlocks env fs s =
     (case snd_statistics s of
        None \<Rightarrow> Inr (s, [])
      | Some rs \<Rightarrow>
          bindE (RtcpReportBlocks (TimeInMilliseconds env) RTCP_MAX_REPORT_BLOCKS rs) (\<lambda>(rs, result).
          let s = s\<lparr>snd_statistics := Some rs\<rparr> in
          Inr (s,
            if result \<noteq> [] \<and> (last_rr_ntp_secs fs \<noteq> 0 \<or> last_rr_ntp_frac fs \<noteq> 0) then
              let now = compact_ntp (CurrentNtpTime (clock_env env));
                  receive_time = push_bit 16 (last_rr_ntp_secs fs AND 0x0000FFFF) + drop_bit 16 (last_rr_ntp_frac fs AND 0xffff0000);
                  delay = now - receive_time in
              map (\<lambda>b. b\<lparr>last_sr := remote_sr fs, delay_since_last_sr := delay\<rparr>) result
            else result)))"

definition BuildSR ::
  "'g sender_env \<Rightarrow> feedback_state \<times> u16 list \<times> int \<Rightarrow> ('g, 'u, 'r) rtcp_sender \<Rightarrow> out_state \<Rightarrow>
   error + ('g, 'u, 'r) rtcp_sender \<times> out_state" where
  "BuildSR env ctx s out =
     (case (ctx, last_frame_capture_time s) of
        (_, None) \<Rightarrow> Inl CheckFailed
      | ((fs, _, now), Some captured) \<Rightarrow>
          let ts = (of_int (uint (last_rtp_timestamp s) +
                     (tdiv (now + 500) 1000 - timestamp_ms env captured) * tdiv (clock_rate s) 1000) :: u32);
              (secs, frac) = ConvertTimestampToNtpTime (clock_env env) now;
              sr = \<lparr>sr_sender_ssrc = local_ssrc s, ntp_seconds = secs, ntp_fractions = frac, rtp_timestamp = ts,
                    sender_packet_count = packets_sent fs, sender_octet_count = ucast (media_bytes_sent fs), sr_report_blocks = []\<rparr> in
          bindE (SenderReport_Create (env_io (clock_env env)) sr (max_packet_size s) out) (\<lambda>out. Inr (s, out)))"

definition BuildRR ::
  "'g sender_env \<Rightarrow> feedback_state \<times> u16 list \<times> int \<Rightarrow> ('g, 'u, 'r) rtcp_sender \<Rightarrow> out_state \<Rightarrow>
   error + ('g, 'u, 'r) rtcp_sender \<times> out_state" where
  "BuildRR env ctx s out =
     bindE (CreateReportBlocks env (fst ctx) s) (\<lambda>(s, blocks).
     let rr = \<lparr>rr_sender_ssrc = local_ssrc s, rr_report_blocks = []\<rparr>;
         rr = (case SetReportBlocks rr blocks of Inl _ \<Rightarrow> rr | Inr rr \<Rightarrow> rr) in
     bindE (ReceiverReport_Create (env_io (clock_env env)) rr (max_packet_size s) out) (\<lambda>out. Inr (s, out)))"

definition BuildNACK ::
  "'g sender_env \<Rightarrow> feedback_state \<times> u16 list \<times> int \<Rightarrow> ('g, 'u, 'r) rtcp_sender \<Rightarrow> out_state \<Rightarrow>
   error + ('g, 'u, 'r) rtcp_sender \<times> out_state" where
  "BuildNACK env ctx s out =
     (case ctx of (_, nack_list, _) \<Rightarrow>
      let nack = SetPacketIds \<lparr>nack_sender_ssrc = local_ssrc s, nack_media_ssrc = snd_remote_ssrc s, packed = [], packet_ids = []\<rparr> nack_list;
          st = foldl (ReportRequest (newer_seq env)) (snd_nack_stats s) nack_list;
          c = packet_counter s;
          s = s\<lparr>snd_nack_stats := st,
                packet_counter := c\<lparr>nack_requests := requests st, unique_nack_requests := unique_requests st,
                  nack_packets := nack_packets c + 1\<rparr>\<rparr> in
      bindE (Nack_Create (env_io (clock_env env)) nack (max_packet_size s) out) (\<lambda>out. Inr (s, out)))"

definition build ::
  "'g sender_env \<Rightarrow> feedback_state \<times> u16 list \<times> int \<Rightarrow> u32 \<Rightarrow> ('g, 'u, 'r) rtcp_sender \<Rightarrow> out_state \<Rightarrow>
   error + ('g, 'u, 'r) rtcp_sender \<times> out_state" where
  "build env ctx type s out =
     (if type = kRtcpSr then BuildSR env ctx s out
      else if type = kRtcpRr then BuildRR env ctx s out
      else if type = kRtcpNack then BuildNACK env ctx s out
      else Inr (s, out))"

fun build_loop ::
  "'g sender_env \<Rightarrow> feedback_state \<times> u16 list \<times> int \<Rightarrow> (u32 \<times> bool) list \<Rightarrow> ('g, 'u, 'r) rtcp_sender \<Rightarrow> out_state \<Rightarrow>
   error + ('g, 'u, 'r) rtcp_sender \<times> out_state" where
  "build_loop env ctx [] s out = Inr (s, out)"
| "build_loop env ctx ((type, is_volatile) # fls) s out =
     bindE (build env ctx type (if is_volatile then erase_flag type s else s) out) (\<lambda>(s, out). build_loop env ctx fls s out)"

section \<open>Sending\<close>

definition SetNextRtcpSendEvaluationDuration ::
  "'g sender_env \<Rightarrow> int \<Rightarrow> ('g, 'u, 'r) rtcp_sender \<Rightarrow> ('g, 'u, 'r) rtcp_sender" where
  "SetNextRtcpSendEvaluationDuration env duration s =
     s\<lparr>next_time_to_send_rtcp := Some (CurrentTime (clock_env env) + duration), scheduled := scheduled s @ [duration]\<rparr>"

definition PrepareReport :: "'g sender_env \<Rightarrow> ('g, 'u, 'r) rtcp_sender \<Rightarrow> error + ('g, 'u, 'r) rtcp_sender" where
  "PrepareReport env s =
     (let s = fst (ConsumeFlag kRtcpReport False s);
          s = SetFlag (if sending s then kRtcpSr else kRtcpRr) s;
          minimal_interval_ms = report_interval s div 1000 in
      bindE (i32 (minimal_interval_ms * 3)) (\<lambda>triple.
      let (time_to_next, g) = Rand env (random s) (tdiv minimal_interval_ms 2) (tdiv triple 2) in
      Inr (SetNextRtcpSendEvaluationDuration env (1000 * time_to_next) (s\<lparr>random := g\<rparr>))))"

definition ComputeCompoundRTCPPacket ::
  "'g sender_env \<Rightarrow> feedback_state \<Rightarrow> u32 \<Rightarrow> u16 list \<Rightarrow> ('g, 'u, 'r) rtcp_sender \<Rightarrow> out_state \<Rightarrow>
   error + ('g, 'u, 'r) rtcp_sender \<times> out_state \<times> int" where
  "ComputeCompoundRTCPPacket env fs type nack_list s out =
     (let s = SetFlag type s;
          can_calculate_rtp_timestamp = (last_frame_capture_time s \<noteq> None);
          (s, sender_report) =
            (if can_calculate_rtp_timestamp then (s, False)
             else let (s, send_sr_flag) = ConsumeFlag kRtcpSr False s; (s, send_report_flag) = ConsumeFlag kRtcpReport False s in
               (s, send_sr_flag \<or> send_report_flag)) in
      if \<not> can_calculate_rtp_timestamp \<and> sender_report \<and> AllVolatileFlagsConsumed s then Inr (s, out, 0)
      else if \<not> can_calculate_rtp_timestamp \<and> sending s \<and> rtcp_mode s = kCompound then Inr (s, out, - 1)
      else
        let ctx = (fs, nack_list, CurrentTime (clock_env env)) in
        bindE (PrepareReport env s) (\<lambda>s.
        bindE (build_loop env ctx (report_flags s) s out) (\<lambda>(s, out). Inr (s, out, 0))))"

definition local_packet :: "byte list \<Rightarrow> ('g, 'u, 'r) rtcp_sender \<Rightarrow> ('g, 'u, 'r) rtcp_sender" where
  "local_packet p s = (if snd_observer s then s\<lparr>snd_events := snd_events s @ [OnLocalRtcpPacket (snd_audio s) p]\<rparr> else s)"

text \<open>\<open>buf\<close> is the uninitialised array of \<open>PacketSender\<close>.\<close>

definition SendRTCP ::
  "'g sender_env \<Rightarrow> byte list \<Rightarrow> feedback_state \<Rightarrow> u32 \<Rightarrow> u16 list \<Rightarrow> ('g, 'u, 'r) rtcp_sender \<Rightarrow>
   error + ('g, 'u, 'r) rtcp_sender \<times> int" where
  "SendRTCP env buf fs type nack_list s =
     bindE (ComputeCompoundRTCPPacket env fs type nack_list s (buf, 0, [])) (\<lambda>(s, (packet, index, sent), ret).
     let s = fold local_packet sent s in
     if index > 0 then bindE (view packet 0 index) (\<lambda>v. Inr (local_packet v s, ret)) else Inr (s, ret))"

definition SetLastRtpTimestamp :: "'g sender_env \<Rightarrow> u32 \<Rightarrow> int option \<Rightarrow> ('g, 'u, 'r) rtcp_sender \<Rightarrow> ('g, 'u, 'r) rtcp_sender" where
  "SetLastRtpTimestamp env ts captured s =
     s\<lparr>last_rtp_timestamp := ts,
       last_frame_capture_time := (case captured of Some t \<Rightarrow> Some t | None \<Rightarrow> Some (CurrentTime (clock_env env)))\<rparr>"

definition TimeToSendRTCPPacket :: "'g sender_env \<Rightarrow> bool \<Rightarrow> ('g, 'u, 'r) rtcp_sender \<Rightarrow> error + bool" where
  "TimeToSendRTCPPacket env send_before_keyframe s =
     (case next_time_to_send_rtcp s of
        None \<Rightarrow> Inl CheckFailed
      | Some t \<Rightarrow> Inr (CurrentTime (clock_env env) + (if \<not> snd_audio s \<and> send_before_keyframe then RTCP_BEFORE_KEY_FRAME else 0) \<ge> t))"

definition SetRTCPStatus :: "'g sender_env \<Rightarrow> rtcp_mode \<Rightarrow> ('g, 'u, 'r) rtcp_sender \<Rightarrow> ('g, 'u, 'r) rtcp_sender" where
  "SetRTCPStatus env mode s =
     (if mode = kOff then s
      else (if rtcp_mode s = kOff then SetNextRtcpSendEvaluationDuration env (tdiv (report_interval s) 2) s else s)\<lparr>rtcp_mode := mode\<rparr>)"

definition SetSendingStatus :: "bool \<Rightarrow> ('g, 'u, 'r) rtcp_sender \<Rightarrow> ('g, 'u, 'r) rtcp_sender" where
  "SetSendingStatus b s = s\<lparr>sending := b\<rparr>"

end
