(* ===== verification/Rtcp_Sender_Correct.thy ===== *)
theory Rtcp_Sender_Correct
  imports Rtcp_Sender
begin

text \<open>
  Properties of \<open>RTCPSender\<close>: every call of \<open>SendRTCP\<close> succeeds and emits packets that fit the network; a request of
  missing packets reaches the observer of the peer through the compound packet that carries it.
\<close>

section \<open>Every packet fits\<close>

definition out_ok :: "out_state \<Rightarrow> bool" where
  "out_ok out = (case out of (packet, index, sent) \<Rightarrow>
     index \<le> 1472 \<and> 1472 \<le> length packet \<and> list_all (\<lambda>p. p \<noteq> [] \<and> length p \<le> 1472) sent)"

definition sender_core :: "('g, 'u, 'r) rtcp_sender \<Rightarrow> bool" where
  "sender_core s \<longleftrightarrow> max_packet_size s = 1472 \<and> 2000 \<le> report_interval s \<and> report_interval s < 10 ^ 11 \<and> rtcp_mode s = kCompound \<and>
     (\<forall>rs. snd_statistics s = Some rs \<longrightarrow> streams_ok rs)"

definition keeps :: "('g, 'u, 'r) rtcp_sender \<Rightarrow> ('g, 'u, 'r) rtcp_sender \<Rightarrow> bool" where
  "keeps s s' \<longleftrightarrow> report_flags s' = report_flags s \<and> snd_observer s' = snd_observer s \<and> snd_audio s' = snd_audio s \<and>
     snd_events s' = snd_events s \<and> sending s' = sending s \<and> last_frame_capture_time s' = last_frame_capture_time s \<and>
     next_time_to_send_rtcp s' = next_time_to_send_rtcp s \<and> scheduled s' = scheduled s"

lemma list_all_sent:
  "list_all P sent \<Longrightarrow> \<forall>p\<in>set sent'. p \<in> set sent \<or> P p \<Longrightarrow> list_all P sent'"
  by (auto simp: list_all_iff)

lemma CreateReportBlocks_ok:
  assumes "sender_core s"
  shows "\<exists>s' bs. CreateReportBlocks env fs s = Inr (s', bs) \<and> sender_core s' \<and> keeps s s' \<and> local_ssrc s' = local_ssrc s \<and>
    length bs \<le> 31 \<and> list_all report_block_ok bs"
proof (cases "snd_statistics s")
  case None
  then show ?thesis using assms by (simp add: CreateReportBlocks_def keeps_def)
next
  case (Some rs)
  then have "streams_ok rs" using assms by (simp add: sender_core_def)
  from RtcpReportBlocks_ok[OF this, of "TimeInMilliseconds env" 31] obtain rs' bs k where r:
    "RtcpReportBlocks (TimeInMilliseconds env) 31 rs = Inr (rs', bs)" "streams_ok rs'" "list_all report_block_ok bs"
    "examined (TimeInMilliseconds env) 31 rs (rotate (last_returned_ssrc_idx rs + 1) (all_ssrcs rs)) k"
    "map source_ssrc bs = filter (reported (TimeInMilliseconds env) rs) (take k (rotate (last_returned_ssrc_idx rs + 1) (all_ssrcs rs)))"
    by (elim exE conjE) (rule that)
  then have "length (map source_ssrc bs) \<le> 31" unfolding examined_take[OF r(4)] by simp
  then show ?thesis using assms Some r(1-3)
    by (auto simp: CreateReportBlocks_def RTCP_MAX_REPORT_BLOCKS_def keeps_def sender_core_def Let_def list_all_iff report_block_ok_def)
qed

lemma BuildRR_ok:
  assumes "big_endian_io (env_io (clock_env env))" "sender_core s" "out_ok out"
  shows "\<exists>s' out'. BuildRR env ctx s out = Inr (s', out') \<and> sender_core s' \<and> keeps s s' \<and> out_ok out'"
proof -
  obtain s' bs where c: "CreateReportBlocks env (fst ctx) s = Inr (s', bs)" "sender_core s'" "keeps s s'" "length bs \<le> 31"
    using CreateReportBlocks_ok[OF assms(2)] by blast
  let ?rr = "\<lparr>rr_sender_ssrc = local_ssrc s', rr_report_blocks = bs\<rparr>"
  obtain packet index sent where out: "out = (packet, index, sent)" by (cases out)
  have "ReceiverReport_BlockLength ?rr \<le> 1472" using c(4) by (simp add: ReceiverReport_BlockLength_def rtcp_consts)
  from big_endian_io.rr_create_appends[OF assms(1) this, of index packet sent] assms(3) out
  obtain packet' index' sent' where r: "ReceiverReport_Create (env_io (clock_env env)) ?rr 1472 out = Inr (packet', index', sent')"
    "length packet' = length packet" "index' \<le> 1472" "\<forall>p\<in>set sent'. p \<in> set sent \<or> p \<noteq> [] \<and> length p \<le> 1472"
    by (auto simp: out_ok_def)
  have "out_ok (packet', index', sent')" using r assms(3) out list_all_sent[OF _ r(4)] by (simp add: out_ok_def)
  then show ?thesis using c r(1)
    by (simp add: BuildRR_def SetReportBlocks_def kMaxNumberOfReportBlocks_def sender_core_def Let_def)
qed

lemma BuildSR_ok:
  assumes "big_endian_io (env_io (clock_env env))" "sender_core s" "out_ok out" "last_frame_capture_time s \<noteq> None"
  shows "\<exists>s' out'. BuildSR env ctx s out = Inr (s', out') \<and> sender_core s' \<and> keeps s s' \<and> out_ok out'"
proof -
  obtain packet index sent where out: "out = (packet, index, sent)" by (cases out)
  obtain fs ids now where ctx: "ctx = (fs, ids, now)" by (cases ctx)
  obtain t where t: "last_frame_capture_time s = Some t" using assms(4) by blast
  obtain secs frac where ntp: "ConvertTimestampToNtpTime (clock_env env) now = (secs, frac)" by force
  define sr where "sr = \<lparr>sr_sender_ssrc = local_ssrc s, ntp_seconds = secs, ntp_fractions = frac,
     rtp_timestamp = of_int (uint (last_rtp_timestamp s) + (tdiv (now + 500) 1000 - timestamp_ms env t) * tdiv (clock_rate s) 1000),
     sender_packet_count = packets_sent fs, sender_octet_count = ucast (media_bytes_sent fs), sr_report_blocks = []\<rparr>"
  have "SenderReport_BlockLength sr \<le> 1472" by (simp add: sr_def SenderReport_BlockLength_def rtcp_consts)
  from big_endian_io.sr_create_appends[OF assms(1) this, of index packet sent] assms(3) out
  obtain packet' index' sent' where r: "SenderReport_Create (env_io (clock_env env)) sr 1472 out = Inr (packet', index', sent')"
    "length packet' = length packet" "index' \<le> 1472" "\<forall>p\<in>set sent'. p \<in> set sent \<or> p \<noteq> [] \<and> length p \<le> 1472"
    by (auto simp: out_ok_def)
  have "out_ok (packet', index', sent')" using r assms(3) out list_all_sent[OF _ r(4)] by (simp add: out_ok_def)
  moreover have "BuildSR env ctx s out = Inr (s, packet', index', sent')"
    using r(1) t ctx ntp assms(2) by (simp add: BuildSR_def sr_def sender_core_def Let_def)
  ultimately show ?thesis using assms(2) by (simp add: keeps_def)
qed

lemma BuildNACK_ok:
  assumes "big_endian_io (env_io (clock_env env))" "sender_core s" "out_ok out"
  shows "\<exists>s' out'. BuildNACK env ctx s out = Inr (s', out') \<and> sender_core s' \<and> keeps s s' \<and> out_ok out'"
proof -
  obtain packet index sent where out: "out = (packet, index, sent)" by (cases out)
  let ?n = "SetPacketIds \<lparr>nack_sender_ssrc = local_ssrc s, nack_media_ssrc = snd_remote_ssrc s, packed = [], packet_ids = []\<rparr> (fst (snd ctx))"
  have "nack_written (env_io (clock_env env)) ?n 1472 (packed ?n) out (Nack_Create (env_io (clock_env env)) ?n 1472 out)"
    unfolding out Nack_Create_def by (rule big_endian_io.create_loop_spec[OF assms(1)]) (use assms(3) out in \<open>auto simp: out_ok_def\<close>)
  then obtain packet' index' sent' where r: "Nack_Create (env_io (clock_env env)) ?n 1472 out = Inr (packet', index', sent')"
    "length packet' = length packet" "index' \<le> 1472" "\<forall>p\<in>set sent'. p \<in> set sent \<or> p \<noteq> [] \<and> length p \<le> 1472"
    unfolding nack_written_def out by auto
  have "out_ok (packet', index', sent')" using r assms(3) out list_all_sent[OF _ r(4)] by (simp add: out_ok_def)
  then show ?thesis using r(1) assms(2)
    by (cases ctx) (auto simp: BuildNACK_def sender_core_def keeps_def Let_def)
qed

lemma build_ok:
  assumes "big_endian_io (env_io (clock_env env))" "sender_core s" "out_ok out" "type = kRtcpSr \<longrightarrow> last_frame_capture_time s \<noteq> None"
  shows "\<exists>s' out'. build env ctx type s out = Inr (s', out') \<and> sender_core s' \<and> keeps s s' \<and> out_ok out'"
proof -
  consider "type = kRtcpSr" | "type = kRtcpRr" | "type = kRtcpNack" | "type \<notin> {kRtcpSr, kRtcpRr, kRtcpNack}" by blast
  then show ?thesis
  proof cases
    case 4
    then show ?thesis using assms by (simp add: build_def keeps_def)
  qed (use BuildSR_ok[OF assms(1-3)] BuildRR_ok[OF assms(1-3)] BuildNACK_ok[OF assms(1-3)] assms(4) in
    \<open>simp_all add: build_def kRtcpSr_def kRtcpRr_def kRtcpNack_def\<close>)
qed

lemma build_loop_ok:
  assumes "big_endian_io (env_io (clock_env env))" "sender_core s" "out_ok out" "list_all snd fl"
    and "kRtcpSr \<in> fst ` set fl \<longrightarrow> last_frame_capture_time s \<noteq> None"
  shows "\<exists>s' out'. build_loop env ctx fl s out = Inr (s', out') \<and> sender_core s' \<and> out_ok out' \<and>
    keeps (s\<lparr>report_flags := filter (\<lambda>f. fst f \<notin> fst ` set fl) (report_flags s)\<rparr>) s'"
  using assms(2-5)
proof (induction fl arbitrary: s out)
  case Nil
  then show ?case by (simp add: keeps_def)
next
  case (Cons f fl)
  obtain t where f: "f = (t, True)" using Cons.prems(3) by (cases f) simp
  have core: "sender_core (erase_flag t s)" using Cons.prems(1) by (simp add: sender_core_def erase_flag_def)
  have "t = kRtcpSr \<longrightarrow> last_frame_capture_time (erase_flag t s) \<noteq> None" using Cons.prems(4) f by (simp add: erase_flag_def)
  from build_ok[OF assms(1) core Cons.prems(2) this] obtain s1 out1 where
    b: "build env ctx t (erase_flag t s) out = Inr (s1, out1)" "sender_core s1" "keeps (erase_flag t s) s1" "out_ok out1" by blast
  have "kRtcpSr \<in> fst ` set fl \<longrightarrow> last_frame_capture_time s1 \<noteq> None" using Cons.prems(4) b(3) by (simp add: keeps_def erase_flag_def)
  then obtain s' out' where r: "build_loop env ctx fl s1 out1 = Inr (s', out')" "sender_core s'" "out_ok out'"
    "keeps (s1\<lparr>report_flags := filter (\<lambda>f. fst f \<notin> fst ` set fl) (report_flags s1)\<rparr>) s'"
    using Cons.IH[OF b(2,4)] Cons.prems(3) by auto
  have "keeps (s\<lparr>report_flags := filter (\<lambda>g. fst g \<notin> fst ` set (f # fl)) (report_flags s)\<rparr>) s'"
    using r(4) b(3) f by (simp add: keeps_def erase_flag_def conj_commute)
  then show ?case using b(1) r(1-3) f by simp
qed

lemma ConsumeFlag_volatile:
  "list_all snd (report_flags s) \<Longrightarrow> ConsumeFlag t forced s = (erase_flag t s, t \<in> fst ` set (report_flags s))"
proof -
  assume v: "list_all snd (report_flags s)"
  show ?thesis
  proof (cases "find (\<lambda>f. fst f = t) (report_flags s)")
    case None
    then have "\<forall>f\<in>set (report_flags s). fst f \<noteq> t" unfolding find_None_iff by auto
    then have "erase_flag t s = s" "t \<notin> fst ` set (report_flags s)" by (auto simp: erase_flag_def)
    then show ?thesis using None by (simp add: ConsumeFlag_def)
  next
    case (Some f)
    then have "f \<in> set (report_flags s)" "fst f = t" by (auto simp: find_Some_iff)
    moreover from this have "f = (t, True)" using v by (intro prod_eqI) (auto simp: list_all_iff)
    moreover have "t \<in> fst ` set (report_flags s)" using calculation(1,2) by auto
    ultimately show ?thesis using Some by (simp add: ConsumeFlag_def)
  qed
qed

lemma set_insert_flag: "fst ` set (insert_flag f fl) = insert (fst f) (fst ` set fl)"
  by (induction fl) auto

lemma fst_filter: "fst ` set (filter (\<lambda>f. fst f \<noteq> t) l) = fst ` set l - {t}"
  by auto

lemma list_all_insert_flag: "P f \<Longrightarrow> list_all P fl \<Longrightarrow> list_all P (insert_flag f fl)"
  by (induction fl) auto

lemma report_kind_neq [simp]:
  "kRtcpReport \<noteq> kRtcpSr" "kRtcpReport \<noteq> kRtcpRr" "kRtcpSr \<noteq> kRtcpRr" "kRtcpNack \<noteq> kRtcpSr" "kRtcpNack \<noteq> kRtcpRr" "kRtcpNack \<noteq> kRtcpReport"
  by (simp_all add: kRtcpReport_def kRtcpSr_def kRtcpRr_def kRtcpNack_def)

text \<open>The time of the next report is left alone, or drawn between a half and one and a half intervals from now and given to the scheduler.\<close>

definition scheduled_next :: "'g sender_env \<Rightarrow> ('g, 'u, 'r) rtcp_sender \<Rightarrow> ('g, 'u, 'r) rtcp_sender \<Rightarrow> bool" where
  "scheduled_next env s s' \<longleftrightarrow> (\<exists>g. let ms = report_interval s div 1000; d = 1000 * fst (Rand env g (tdiv ms 2) (tdiv (ms * 3) 2)) in
     scheduled s' = scheduled s @ [d] \<and> next_time_to_send_rtcp s' = Some (CurrentTime (clock_env env) + d))"

definition keeps_schedule :: "('g, 'u, 'r) rtcp_sender \<Rightarrow> ('g, 'u, 'r) rtcp_sender \<Rightarrow> bool" where
  "keeps_schedule s s' \<longleftrightarrow> scheduled s' = scheduled s \<and> next_time_to_send_rtcp s' = next_time_to_send_rtcp s"

lemma PrepareReport_ok:
  assumes "sender_core s" "list_all snd (report_flags s)"
  shows "\<exists>s'. PrepareReport env s = Inr s' \<and> sender_core s' \<and> list_all snd (report_flags s') \<and>
    report_flags s' = insert_flag (if sending s then kRtcpSr else kRtcpRr, True) (filter (\<lambda>f. fst f \<noteq> kRtcpReport) (report_flags s)) \<and>
    snd_observer s' = snd_observer s \<and> snd_audio s' = snd_audio s \<and> snd_events s' = snd_events s \<and> sending s' = sending s \<and>
    last_frame_capture_time s' = last_frame_capture_time s \<and> local_ssrc s' = local_ssrc s \<and> scheduled_next env s s'"
proof -
  obtain t g where rand: "Rand env (random s) (tdiv (report_interval s div 1000) 2) (tdiv (report_interval s div 1000 * 3) 2) = (t, g)" by force
  have i: "i32 (report_interval s div 1000 * 3) = Inr (report_interval s div 1000 * 3)"
    using assms(1) by (intro i32_ok) (auto simp: sender_core_def)
  have "list_all snd (insert_flag (t, True) (filter (\<lambda>f. fst f \<noteq> kRtcpReport) (report_flags s)))" for t
    using assms(2) by (intro list_all_insert_flag) (auto simp: list_all_iff)
  moreover have "\<exists>g. 1000 * t = 1000 * fst (Rand env g (tdiv (report_interval s div 1000) 2) (tdiv (report_interval s div 1000 * 3) 2))"
    by (rule exI[of _ "random s"]) (simp add: rand)
  ultimately show ?thesis using assms i rand
    by (auto simp: PrepareReport_def ConsumeFlag_volatile SetFlag_def erase_flag_def SetNextRtcpSendEvaluationDuration_def sender_core_def
        scheduled_next_def Let_def)
qed

lemma local_packets:
  "fold local_packet ps s = s\<lparr>snd_events := snd_events s @ (if snd_observer s then map (OnLocalRtcpPacket (snd_audio s)) ps else [])\<rparr>"
  by (induction ps arbitrary: s) (auto simp: local_packet_def)

lemma finish_packet:
  assumes "out_ok (packet, index, sent)"
  shows "\<exists>pkts. (let s = fold local_packet sent s in if index > 0 then bindE (view packet 0 index) (\<lambda>v. Inr (local_packet v s, ret)) else Inr (s, ret)) =
      Inr (fold local_packet pkts s, ret) \<and> list_all (\<lambda>p. p \<noteq> [] \<and> length p \<le> 1472) pkts \<and>
    pkts = sent @ (if index > 0 then [take index packet] else [])"
proof (cases "index > 0")
  case True
  then have "view packet 0 index = Inr (take index packet)" using assms by (simp add: out_ok_def view_def)
  then show ?thesis using True assms by (auto simp: out_ok_def)
next
  case False
  then show ?thesis using assms by (auto simp: out_ok_def)
qed

text \<open>The flags that are left when a sender report cannot be built.\<close>

definition flagged :: "u32 \<Rightarrow> ('g, 'u, 'r) rtcp_sender \<Rightarrow> ('g, 'u, 'r) rtcp_sender" where
  "flagged type s = (if last_frame_capture_time s = None then erase_flag kRtcpReport (erase_flag kRtcpSr (SetFlag type s)) else SetFlag type s)"

lemma flagged_simps [simp]:
  "sender_core (flagged type s) = sender_core s" "snd_observer (flagged type s) = snd_observer s" "snd_audio (flagged type s) = snd_audio s"
  "snd_events (flagged type s) = snd_events s" "sending (flagged type s) = sending s" "rtcp_mode (flagged type s) = rtcp_mode s"
  "last_frame_capture_time (flagged type s) = last_frame_capture_time s" "local_ssrc (flagged type s) = local_ssrc s"
  "scheduled (flagged type s) = scheduled s" "next_time_to_send_rtcp (flagged type s) = next_time_to_send_rtcp s"
  "report_interval (flagged type s) = report_interval s"
  by (simp_all add: flagged_def sender_core_def SetFlag_def erase_flag_def)

lemma flagged_volatile: "list_all snd (report_flags s) \<Longrightarrow> list_all snd (report_flags (flagged type s))"
  using list_all_insert_flag[of snd "(type, True)" "report_flags s"] by (auto simp: flagged_def SetFlag_def erase_flag_def list_all_iff)

lemma set_flagged:
  "fst ` set (report_flags (flagged type s)) =
     insert type (fst ` set (report_flags s)) - (if last_frame_capture_time s = None then {kRtcpSr, kRtcpReport} else {})"
  by (simp add: flagged_def SetFlag_def erase_flag_def set_insert_flag fst_filter del: set_filter filter_filter) auto

lemma compound_eq:
  assumes "list_all snd (report_flags s)" "rtcp_mode s = kCompound"
  shows "ComputeCompoundRTCPPacket env fs type nids s out =
    (if last_frame_capture_time s = None \<and> insert type (fst ` set (report_flags s)) \<inter> {kRtcpSr, kRtcpReport} \<noteq> {} \<and> report_flags (flagged type s) = []
     then Inr (flagged type s, out, 0)
     else if last_frame_capture_time s = None \<and> sending s then Inr (flagged type s, out, - 1)
     else bindE (PrepareReport env (flagged type s)) (\<lambda>s.
          bindE (build_loop env (fs, nids, CurrentTime (clock_env env)) (report_flags s) s out) (\<lambda>(s, out). Inr (s, out, 0))))"
proof -
  have v1: "list_all snd (report_flags (SetFlag type s))" using assms(1) by (simp add: SetFlag_def list_all_insert_flag)
  then have v2: "list_all snd (report_flags (erase_flag kRtcpSr (SetFlag type s)))" by (auto simp: erase_flag_def list_all_iff)
  have all: "AllVolatileFlagsConsumed (flagged type s) \<longleftrightarrow> report_flags (flagged type s) = []"
    using flagged_volatile[OF assms(1), of type] by (cases "report_flags (flagged type s)") (auto simp: AllVolatileFlagsConsumed_def)
  show ?thesis
  proof (cases "last_frame_capture_time s = None")
    case True
    have fl: "erase_flag kRtcpReport (erase_flag kRtcpSr (SetFlag type s)) = flagged type s" using True by (simp add: flagged_def)
    have "(kRtcpSr \<in> fst ` set (report_flags (SetFlag type s)) \<or> kRtcpReport \<in> fst ` set (report_flags (erase_flag kRtcpSr (SetFlag type s)))) \<longleftrightarrow>
        insert type (fst ` set (report_flags s)) \<inter> {kRtcpSr, kRtcpReport} \<noteq> {}"
      by (simp add: SetFlag_def erase_flag_def set_insert_flag fst_filter del: set_filter)
    moreover have "last_frame_capture_time (SetFlag type s) = None" using True by (simp add: SetFlag_def)
    ultimately show ?thesis using True assms(2) all
      by (simp add: ComputeCompoundRTCPPacket_def ConsumeFlag_volatile[OF v1] ConsumeFlag_volatile[OF v2] fl Let_def)
  next
    case False
    then have "last_frame_capture_time (SetFlag type s) \<noteq> None" "flagged type s = SetFlag type s" by (auto simp add: SetFlag_def flagged_def)
    then show ?thesis using False by (auto simp add: ComputeCompoundRTCPPacket_def Let_def)
  qed
qed

lemma compound_ok:
  assumes "big_endian_io (env_io (clock_env env))" "sender_core s" "list_all snd (report_flags s)" "out_ok out"
  shows "\<exists>s' out' ret. ComputeCompoundRTCPPacket env fs type nids s out = Inr (s', out', ret) \<and> sender_core s' \<and>
    list_all snd (report_flags s') \<and> out_ok out' \<and> snd_observer s' = snd_observer s \<and> snd_audio s' = snd_audio s \<and> snd_events s' = snd_events s \<and>
    (if ret = 0 then report_flags s' = []
     else ret = - 1 \<and> sending s \<and> last_frame_capture_time s = None \<and> out' = out \<and> s' = flagged type s) \<and>
    (keeps_schedule s s' \<or> scheduled_next env s s')"
proof -
  let ?none = "last_frame_capture_time s = None \<and> insert type (fst ` set (report_flags s)) \<inter> {kRtcpSr, kRtcpReport} \<noteq> {} \<and> report_flags (flagged type s) = []"
  let ?refused = "last_frame_capture_time s = None \<and> sending s"
  have mode: "rtcp_mode s = kCompound" using assms(2) by (simp add: sender_core_def)
  note eq = compound_eq[OF assms(3) mode, of env fs type nids out]
  have keep: "sender_core (flagged type s)" "list_all snd (report_flags (flagged type s))" using assms(2,3) flagged_volatile by simp_all
  consider ?none | "\<not> ?none" ?refused | "\<not> ?none" "\<not> ?refused" by blast
  then show ?thesis
  proof cases
    case 1
    then have "ComputeCompoundRTCPPacket env fs type nids s out = Inr (flagged type s, out, 0)" unfolding eq by (simp only: simp_thms if_True)
    then show ?thesis using keep 1 assms(4) by (simp add: keeps_schedule_def)
  next
    case 2
    then have "ComputeCompoundRTCPPacket env fs type nids s out = Inr (flagged type s, out, - 1)" unfolding eq if_not_P[OF 2(1)] by (simp only: simp_thms if_True)
    then show ?thesis using keep 2 assms(4) by (simp add: keeps_schedule_def)
  next
  case False: 3
  let ?s = "flagged type s"
  obtain s1 where p: "PrepareReport env ?s = Inr s1" "sender_core s1" "list_all snd (report_flags s1)"
    "report_flags s1 = insert_flag (if sending ?s then kRtcpSr else kRtcpRr, True) (filter (\<lambda>f. fst f \<noteq> kRtcpReport) (report_flags ?s))"
    "snd_observer s1 = snd_observer ?s" "snd_audio s1 = snd_audio ?s" "snd_events s1 = snd_events ?s"
    "last_frame_capture_time s1 = last_frame_capture_time ?s" "scheduled_next env ?s s1"
    using PrepareReport_ok[OF keep, of env] by blast
  have "kRtcpSr \<in> fst ` set (report_flags s1) \<longrightarrow> last_frame_capture_time s1 \<noteq> None"
    using False p(4,8) set_flagged[of type s] set_insert_flag[of "(if sending ?s then kRtcpSr else kRtcpRr, True)"] by (auto split: if_splits)
  from build_loop_ok[OF assms(1) p(2) assms(4) p(3) this] obtain s2 out2 where
    l: "build_loop env (fs, nids, CurrentTime (clock_env env)) (report_flags s1) s1 out = Inr (s2, out2)" "sender_core s2" "out_ok out2"
    "keeps (s1\<lparr>report_flags := filter (\<lambda>f. fst f \<notin> fst ` set (report_flags s1)) (report_flags s1)\<rparr>) s2" by blast
  have "ComputeCompoundRTCPPacket env fs type nids s out = Inr (s2, out2, 0)"
    unfolding eq if_not_P[OF False(1)] if_not_P[OF False(2)] by (simp add: p(1) l(1))
  moreover have "filter (\<lambda>f. fst f \<notin> fst ` set (report_flags s1)) (report_flags s1) = []" by simp
  moreover have "scheduled_next env s s2" using p(9) l(4) by (simp add: scheduled_next_def keeps_def)
  ultimately show ?thesis using l p(5-8) by (auto simp: keeps_def)
  qed
qed

lemma SendRTCP_ok:
  assumes "big_endian_io (env_io (clock_env env))" "sender_core s" "list_all snd (report_flags s)" "length buf = IP_PACKET_SIZE"
  shows "\<exists>s' ret pkts. SendRTCP env buf fs type nids s = Inr (s', ret) \<and> sender_core s' \<and> list_all snd (report_flags s') \<and>
    list_all (\<lambda>p. p \<noteq> [] \<and> length p \<le> 1472) pkts \<and>
    snd_events s' = snd_events s @ (if snd_observer s then map (OnLocalRtcpPacket (snd_audio s)) pkts else []) \<and>
    (if ret = 0 then report_flags s' = []
     else ret = - 1 \<and> sending s \<and> last_frame_capture_time s = None \<and> pkts = [] \<and>
       fst ` set (report_flags s') = insert type (fst ` set (report_flags s)) - {kRtcpSr, kRtcpReport}) \<and>
    (keeps_schedule s s' \<or> scheduled_next env s s')"
proof -
  have o: "out_ok (buf, 0, [])" using assms(4) by (simp add: out_ok_def IP_PACKET_SIZE_def)
  from compound_ok[OF assms(1-3) o, of fs type nids] obtain s1 packet index sent ret where
    c: "ComputeCompoundRTCPPacket env fs type nids s (buf, 0, []) = Inr (s1, (packet, index, sent), ret)" "sender_core s1"
    "list_all snd (report_flags s1)" "out_ok (packet, index, sent)" "snd_observer s1 = snd_observer s" "snd_audio s1 = snd_audio s"
    "snd_events s1 = snd_events s" "if ret = 0 then report_flags s1 = []
     else ret = - 1 \<and> sending s \<and> last_frame_capture_time s = None \<and> (packet, index, sent) = (buf, 0, []) \<and> s1 = flagged type s" "keeps_schedule s s1 \<or> scheduled_next env s s1"
    by (metis prod_cases3)
  from finish_packet[OF c(4), of s1 ret] obtain pkts where f:
    "(let s = fold local_packet sent s1 in if index > 0 then bindE (view packet 0 index) (\<lambda>v. Inr (local_packet v s, ret)) else Inr (s, ret)) =
      Inr (fold local_packet pkts s1, ret)" "list_all (\<lambda>p. p \<noteq> [] \<and> length p \<le> 1472) pkts"
    "pkts = sent @ (if index > 0 then [take index packet] else [])" by blast
  have r: "SendRTCP env buf fs type nids s = Inr (fold local_packet pkts s1, ret)" using c(1) f(1) by (simp add: SendRTCP_def)
  moreover have "sender_core (fold local_packet pkts s1)" using c(2) by (simp add: local_packets sender_core_def)
  ultimately show ?thesis using c(3,5-9) f(2,3) set_flagged[of type s]
    by (intro exI[of _ "fold local_packet pkts s1"] exI[of _ ret] exI[of _ pkts]) (simp add: local_packets keeps_schedule_def scheduled_next_def split: if_splits)
qed

text \<open>C35. \<open>SendRTCP\<close> in compound mode returns normally for every kind of packet and every list of ids: no write leaves the buffer, no packet
  is refused, and each packet given to the observer is non-empty and has at most 1472 bytes. It returns 0 with all flags consumed, or \<open>-1\<close> with
  nothing sent; the latter only for a sending stream before its first frame, and then the kinds asked for, but for sender reports, stay flagged.\<close>

theorem send_rtcp_fits:
  assumes "big_endian_io (env_io (clock_env env))" "sender_core s" "list_all snd (report_flags s)" "length buf = IP_PACKET_SIZE"
  shows "\<exists>s' ret pkts. SendRTCP env buf fs type nids s = Inr (s', ret) \<and> sender_core s' \<and> list_all snd (report_flags s') \<and>
    list_all (\<lambda>p. p \<noteq> [] \<and> length p \<le> 1472) pkts \<and>
    snd_events s' = snd_events s @ (if snd_observer s then map (OnLocalRtcpPacket (snd_audio s)) pkts else []) \<and>
    (if ret = 0 then report_flags s' = []
     else ret = - 1 \<and> sending s \<and> last_frame_capture_time s = None \<and> pkts = [] \<and>
       fst ` set (report_flags s') = insert type (fst ` set (report_flags s)) - {kRtcpSr, kRtcpReport})"
  using SendRTCP_ok[OF assms, of fs type nids] by blast

section \<open>A request reaches the peer\<close>

lemma BuildRR_first:
  assumes "big_endian_io (env_io (clock_env env))" "sender_core s" "1472 \<le> length buf"
  shows "\<exists>s' rr. BuildRR env ctx s (buf, 0, []) =
      Inr (s', overwrite 0 (rr_bytes (env_io (clock_env env)) rr) buf, length (rr_bytes (env_io (clock_env env)) rr), []) \<and>
    sender_core s' \<and> keeps s s' \<and> length (rr_report_blocks rr) \<le> 31 \<and> list_all report_block_ok (rr_report_blocks rr) \<and>
    length (rr_bytes (env_io (clock_env env)) rr) \<le> 1472"
proof -
  let ?io = "env_io (clock_env env)"
  obtain s' bs where c: "CreateReportBlocks env (fst ctx) s = Inr (s', bs)" "sender_core s'" "keeps s s'" "length bs \<le> 31"
    "list_all report_block_ok bs" using CreateReportBlocks_ok[OF assms(2)] by blast
  let ?rr = "\<lparr>rr_sender_ssrc = local_ssrc s', rr_report_blocks = bs\<rparr>"
  have len: "length (rr_bytes ?io ?rr) \<le> 1472"
    using c(4) by (simp add: big_endian_io.length_rr_bytes[OF assms(1)] ReceiverReport_BlockLength_def rtcp_consts)
  have "ReceiverReport_Create ?io ?rr 1472 (buf, 0, []) = Inr (overwrite 0 (rr_bytes ?io ?rr) buf, length (rr_bytes ?io ?rr), [])"
    using big_endian_io.rr_create_fits[OF assms(1), of 0 ?rr 1472 buf "[]"] len assms(3) by simp
  then show ?thesis using c len
    by (intro exI[of _ s'] exI[of _ ?rr]) (simp add: BuildRR_def SetReportBlocks_def kMaxNumberOfReportBlocks_def sender_core_def Let_def)
qed

lemma BuildNACK_writes:
  assumes "big_endian_io (env_io (clock_env env))" "sender_core s" "index \<le> 1472" "1472 \<le> length packet"
  shows "\<exists>s' n packet' index' sent' first rest. BuildNACK env (fs, nids, now) s (packet, index, sent) = Inr (s', packet', index', sent') \<and> keeps s s' \<and>
    concat (concat (first # rest)) = Pack nids \<and> (\<forall>c\<in>set (concat (first # rest)). c \<noteq> [] \<and> length c < 65000) \<and>
    sent' @ [take index' packet'] =
      sent @ (take index packet @ nack_blocks (env_io (clock_env env)) n first) # map (nack_blocks (env_io (clock_env env)) n) rest"
proof -
  let ?io = "env_io (clock_env env)"
  let ?n = "SetPacketIds \<lparr>nack_sender_ssrc = local_ssrc s, nack_media_ssrc = snd_remote_ssrc s, packed = [], packet_ids = []\<rparr> nids"
  have "nack_written ?io ?n 1472 (Pack nids) (packet, index, sent) (Nack_Create ?io ?n 1472 (packet, index, sent))"
    using big_endian_io.create_loop_spec[OF assms(1) _ _ assms(4,3), of ?n "packed ?n" sent]
    by (simp add: Nack_Create_def SetPacketIds_def)
  then obtain packet' index' sent' first rest where r: "Nack_Create ?io ?n 1472 (packet, index, sent) = Inr (packet', index', sent')"
    "concat (concat (first # rest)) = Pack nids" "\<forall>c\<in>set (concat (first # rest)). c \<noteq> [] \<and> length c < 65000"
    "sent' @ [take index' packet'] = sent @ (take index packet @ nack_blocks ?io ?n first) # map (nack_blocks ?io ?n) rest"
    unfolding nack_written_def prod.case by blast
  have "\<exists>s'. BuildNACK env (fs, nids, now) s (packet, index, sent) = Inr (s', packet', index', sent') \<and> keeps s s'"
    using r(1) assms(2) by (auto simp: BuildNACK_def sender_core_def keeps_def Let_def)
  then show ?thesis using r(2-4) by blast
qed

text \<open>The receiver passes over the receiver report in front of the requests.\<close>

lemma Incoming_report_nacks:
  assumes "big_endian_io (env_io penv)" "\<forall>c\<in>set chunks. c \<noteq> [] \<and> length c < 65000" "has_observer r"
    and "length (rr_report_blocks rr) \<le> 31" "list_all report_block_ok (rr_report_blocks rr)"
  shows "IncomingRtcpPacket penv sr0 n0 (rr_bytes (env_io penv) rr @ nack_blocks (env_io penv) n chunks) r =
    Inr (r\<lparr>events := events r @ map (\<lambda>c. OnNackReceived (audio r) (Unpack c)) chunks\<rparr>)"
proof -
  let ?io = "env_io penv" let ?b = "rr_bytes ?io rr" and ?rest = "nack_blocks ?io n chunks"
  obtain h where h: "CommonHeader_Parse ?io (?b @ ?rest) = Inr h" "packet_type h = 201" "drop (NextPacket h) (payload h) = ?rest"
    using big_endian_io.rr_bytes_parse[OF assms(1,4,5)] by blast
  have "length (drop (NextPacket h) (payload h)) = length ?rest" by (simp only: h(3))
  moreover have "NextPacket h \<le> length (payload h)" "length (payload h) + 4 = length (?b @ ?rest)"
    using NextPacket_within[OF h(1)] CommonHeader_ParseD(2,3)[OF h(1)] by auto
  ultimately have next': "4 + NextPacket h = length ?b" by simp
  then have "?b \<noteq> []" by auto
  moreover have "parse_loop penv sr0 n0 (?b @ ?rest) 0 (r, info) = parse_loop penv sr0 n0 (?b @ ?rest) (length ?b) (r, info)" for info
    using h(1,2) next' calculation by (simp add: parse_loop.simps[of penv sr0 n0 _ 0] dispatch_def)
  ultimately show ?thesis
    using parse_loop_nack_blocks[OF assms(1-3), of sr0 n0 ?b n] by (simp add: IncomingRtcpPacket_def ParseCompoundPacket_def)
qed

lemma receive_all_append: "receive_all env sr0 n0 (ps @ qs) r = bindE (receive_all env sr0 n0 ps r) (receive_all env sr0 n0 qs)"
  by (induction ps arbitrary: r) (auto simp: bindE_def split: sum.split)

text \<open>The compound packet of a request: a receiver report, then the blocks of the request, over one or more packets.\<close>

lemma compound_nack:
  assumes "big_endian_io (env_io (clock_env env))" "sender_core s" "report_flags s = []" "\<not> sending s" "length buf = IP_PACKET_SIZE"
  shows "\<exists>s' n rr packet index sent first rest.
    ComputeCompoundRTCPPacket env fs kRtcpNack nids s (buf, 0, []) = Inr (s', (packet, index, sent), 0) \<and> out_ok (packet, index, sent) \<and>
    snd_observer s' = snd_observer s \<and> snd_audio s' = snd_audio s \<and> snd_events s' = snd_events s \<and>
    length (rr_report_blocks rr) \<le> 31 \<and> list_all report_block_ok (rr_report_blocks rr) \<and>
    concat (concat (first # rest)) = Pack nids \<and> (\<forall>c\<in>set (concat (first # rest)). c \<noteq> [] \<and> length c < 65000) \<and>
    sent @ [take index packet] = (rr_bytes (env_io (clock_env env)) rr @ nack_blocks (env_io (clock_env env)) n first) #
      map (nack_blocks (env_io (clock_env env)) n) rest"
proof -
  let ?io = "env_io (clock_env env)" and ?ctx = "(fs, nids, CurrentTime (clock_env env))"
  have fl: "report_flags (flagged kRtcpNack s) = [(kRtcpNack, True)]" using assms(3) by (simp add: flagged_def SetFlag_def erase_flag_def)
  obtain s1 where p: "PrepareReport env (flagged kRtcpNack s) = Inr s1" "sender_core s1"
    "report_flags s1 = insert_flag (kRtcpRr, True) [(kRtcpNack, True)]"
    "snd_observer s1 = snd_observer s" "snd_audio s1 = snd_audio s" "snd_events s1 = snd_events s"
    using PrepareReport_ok[of "flagged kRtcpNack s" env] assms(2,4) fl by auto
  have fl1: "report_flags s1 = [(kRtcpRr, True), (kRtcpNack, True)]" unfolding p(3) by (simp add: kRtcpRr_def kRtcpNack_def)
  have b: "1472 \<le> length buf" using assms(5) by (simp add: IP_PACKET_SIZE_def)
  have core: "sender_core (erase_flag kRtcpRr s1)" using p(2) by (simp add: sender_core_def erase_flag_def)
  obtain s2 rr where rr: "BuildRR env ?ctx (erase_flag kRtcpRr s1) (buf, 0, []) = Inr (s2, overwrite 0 (rr_bytes ?io rr) buf, length (rr_bytes ?io rr), [])"
    "sender_core s2" "keeps (erase_flag kRtcpRr s1) s2" "length (rr_report_blocks rr) \<le> 31" "list_all report_block_ok (rr_report_blocks rr)"
    "length (rr_bytes ?io rr) \<le> 1472" using BuildRR_first[OF assms(1) core b] by blast
  have core2: "sender_core (erase_flag kRtcpNack s2)" using rr(2) by (simp add: sender_core_def erase_flag_def)
  have b2: "1472 \<le> length (overwrite 0 (rr_bytes ?io rr) buf)" using b rr(6) by simp
  have tk: "take (length (rr_bytes ?io rr)) (overwrite 0 (rr_bytes ?io rr) buf) = rr_bytes ?io rr" by (simp add: overwrite_def)
  from BuildNACK_writes[OF assms(1) core2 rr(6) b2, of fs nids "CurrentTime (clock_env env)" "[]", unfolded tk append_Nil]
  obtain s3 n packet index sent first rest where nk:
    "BuildNACK env ?ctx (erase_flag kRtcpNack s2) (overwrite 0 (rr_bytes ?io rr) buf, length (rr_bytes ?io rr), []) = Inr (s3, packet, index, sent)"
    "keeps (erase_flag kRtcpNack s2) s3" "concat (concat (first # rest)) = Pack nids" "\<forall>c\<in>set (concat (first # rest)). c \<noteq> [] \<and> length c < 65000"
    "sent @ [take index packet] = (rr_bytes ?io rr @ nack_blocks ?io n first) # map (nack_blocks ?io n) rest"
    by (elim exE conjE) (rule that)
  have "out_ok (overwrite 0 (rr_bytes ?io rr) buf, length (rr_bytes ?io rr), [])" using b2 rr(6) by (simp add: out_ok_def)
  from BuildNACK_ok[OF assms(1) core2 this, of ?ctx] nk(1) have ok: "out_ok (packet, index, sent)" by auto
  have "build_loop env ?ctx (report_flags s1) s1 (buf, 0, []) = Inr (s3, packet, index, sent)"
    using rr(1) nk(1) by (simp add: fl1 build_def kRtcpRr_def kRtcpNack_def kRtcpSr_def)
  then have c: "ComputeCompoundRTCPPacket env fs kRtcpNack nids s (buf, 0, []) = Inr (s3, (packet, index, sent), 0)"
    using p(1) assms(2-4) by (subst compound_eq) (auto simp: sender_core_def)
  have "snd_observer s3 = snd_observer s" "snd_audio s3 = snd_audio s" "snd_events s3 = snd_events s"
    using p(4-6) rr(3) nk(2) by (simp_all add: keeps_def erase_flag_def)
  with c ok rr(4,5) nk(3-5) show ?thesis by blast
qed

lemma nack_reaches_peer:
  assumes "big_endian_io (env_io (clock_env env))" "sender_core s" "report_flags s = []" "\<not> sending s" "snd_observer s"
    and "length buf = IP_PACKET_SIZE" "env_io penv = env_io (clock_env env)" "has_observer r"
  shows "\<exists>s' pkts idss. SendRTCP env buf fs kRtcpNack nids s = Inr (s', 0) \<and>
    snd_events s' = snd_events s @ map (OnLocalRtcpPacket (snd_audio s)) pkts \<and>
    receive_all penv sr0 n0 pkts r = Inr (r\<lparr>events := events r @ map (OnNackReceived (audio r)) idss\<rparr>) \<and>
    set (concat idss) = set nids \<and> (seq_ascending nids \<longrightarrow> concat idss = nids)"
proof -
  let ?io = "env_io (clock_env env)"
  from compound_nack[OF assms(1-4,6), of fs nids] obtain s3 n rr packet index sent first rest where
    c: "ComputeCompoundRTCPPacket env fs kRtcpNack nids s (buf, 0, []) = Inr (s3, (packet, index, sent), 0)"
    and ok: "out_ok (packet, index, sent)"
    and keep: "snd_observer s3 = snd_observer s" "snd_audio s3 = snd_audio s" "snd_events s3 = snd_events s"
    and rr: "length (rr_report_blocks rr) \<le> 31" "list_all report_block_ok (rr_report_blocks rr)"
    and nk: "concat (concat (first # rest)) = Pack nids" "\<forall>c\<in>set (concat (first # rest)). c \<noteq> [] \<and> length c < 65000"
      "sent @ [take index packet] = (rr_bytes ?io rr @ nack_blocks ?io n first) # map (nack_blocks ?io n) rest"
    by (elim exE conjE) (rule that)
  obtain pkts where f: "(let s = fold local_packet sent s3 in if index > 0 then bindE (view packet 0 index) (\<lambda>v. Inr (local_packet v s, 0)) else Inr (s, 0)) =
      Inr (fold local_packet pkts s3, 0 :: int)" "pkts = sent @ (if index > 0 then [take index packet] else [])"
    using finish_packet[OF ok, of s3 0] by blast
  with c have send: "SendRTCP env buf fs kRtcpNack nids s = Inr (fold local_packet pkts s3, 0)" by (simp add: SendRTCP_def)
  have ev: "snd_events (fold local_packet pkts s3) = snd_events s @ map (OnLocalRtcpPacket (snd_audio s)) pkts"
    using keep assms(5) by (simp add: local_packets)
  let ?idss = "map Unpack (concat (first # rest))"
  have none: "receive_all penv sr0 n0 [[]] = receive_all penv sr0 n0 []" by (rule ext) (simp add: IncomingRtcpPacket_def)
  have "receive_all penv sr0 n0 pkts r = receive_all penv sr0 n0 (sent @ [take index packet]) r"
    by (simp add: f(2) receive_all_append none)
  also have "\<dots> = Inr (r\<lparr>events := events r @ map (OnNackReceived (audio r)) ?idss\<rparr>)"
  proof -
    have be: "big_endian_io (env_io penv)" using assms(1,7) by simp
    have "IncomingRtcpPacket penv sr0 n0 (rr_bytes ?io rr @ nack_blocks ?io n first) r =
        Inr (r\<lparr>events := events r @ map (\<lambda>c. OnNackReceived (audio r) (Unpack c)) first\<rparr>)"
      using Incoming_report_nacks[OF be _ assms(8) rr, of first] nk(2) assms(7) by simp
    moreover have "receive_all penv sr0 n0 (map (nack_blocks ?io n) rest) r' =
        Inr (r'\<lparr>events := events r' @ map (\<lambda>c. OnNackReceived (audio r') (Unpack c)) (concat rest)\<rparr>)" if "has_observer r'" for r'
      using receive_all_nack_blocks[OF be _ that, of rest] nk(2) assms(7) by simp
    ultimately show ?thesis unfolding nk(3) using assms(8) by (simp add: o_def)
  qed
  moreover have "concat ?idss = Unpack (Pack nids)" by (simp only: Unpack_concat[symmetric] nk(1))
  ultimately show ?thesis using send ev set_Unpack_Pack Unpack_Pack_ascending by metis
qed

text \<open>C5. A request for missing packets through two endpoints: the compound packets that \<open>SendRTCP\<close> of a receiving endpoint emits, each beginning
  with the receiver report where it is the first, make the other endpoint raise \<open>OnNackReceived\<close> with exactly the requested numbers, in
  order when they are in sequence-number order, and change nothing else there.\<close>

theorem send_nack_reaches_peer:
  assumes "big_endian_io (env_io (clock_env env))" "sender_core s" "report_flags s = []" "\<not> sending s" "snd_observer s"
    and "length buf = IP_PACKET_SIZE" "env_io penv = env_io (clock_env env)" "has_observer r"
  shows "\<exists>s' pkts idss. SendRTCP env buf fs kRtcpNack nids s = Inr (s', 0) \<and>
    snd_events s' = snd_events s @ map (OnLocalRtcpPacket (snd_audio s)) pkts \<and>
    receive_all penv sr0 n0 pkts r = Inr (r\<lparr>events := events r @ map (OnNackReceived (audio r)) idss\<rparr>) \<and>
    set (concat idss) = set nids \<and> (seq_ascending nids \<longrightarrow> concat idss = nids)"
  by (rule nack_reaches_peer[OF assms])

section \<open>A concrete sender\<close>

definition sample_clock :: rtcp_env where
  "sample_clock = \<lparr>env_io = be_io, CurrentTime = 130000, CurrentNtpTime = (9, 0), ConvertTimestampToNtpTime = (\<lambda>t. (of_int t, 0)),
     DivideRoundToNearest = (div)\<rparr>"

definition sample_sender_env :: "unit sender_env" where
  "sample_sender_env = \<lparr>clock_env = sample_clock, TimeInMilliseconds = 130, timestamp_ms = (\<lambda>t. t div 1000), Rand = (\<lambda>g a b. (a, g)),
     newer_seq = (\<lambda>a b. b < a)\<rparr>"

definition sample_config :: "(unit, unit) configuration" where
  "sample_config = \<lparr>config_audio = False, receiver_only = False, config_local_ssrc = 5, config_remote_ssrc = 7, config_clock_rate = 90000,
     rtcp_report_interval_ms = 1000, config_observer = True, config_statistics = Some sample_streams\<rparr>"

definition sample_sender :: "(unit, unit, unit) rtcp_sender" where
  "sample_sender = SetRTCPStatus sample_sender_env kCompound (RTCPSender_new () sample_config)"

lemma sample_sender_core: "sender_core sample_sender"
  using sample_streams_ok
  by (simp add: sender_core_def sample_sender_def SetRTCPStatus_def RTCPSender_new_def sample_config_def
      SetNextRtcpSendEvaluationDuration_def IP_PACKET_SIZE_def GetReportInterval_def)

lemma sample_sender_simps [simp]:
  "report_flags sample_sender = []" "sending sample_sender = False" "snd_observer sample_sender = True" "snd_events sample_sender = []"
  "snd_audio sample_sender = False" "last_frame_capture_time sample_sender = None"
  by (simp_all add: sample_sender_def SetRTCPStatus_def RTCPSender_new_def sample_config_def SetNextRtcpSendEvaluationDuration_def)

lemma sample_io: "big_endian_io (env_io (clock_env sample_sender_env))"
  using be.big_endian_io_axioms by (simp add: sample_sender_env_def sample_clock_def)

theorem send_rtcp_fits_witness:
  "\<exists>s' ret pkts. SendRTCP sample_sender_env (replicate 1500 0) FeedbackState_new kRtcpRr [] sample_sender = Inr (s', ret) \<and> sender_core s' \<and>
     list_all (\<lambda>p. p \<noteq> [] \<and> length p \<le> 1472) pkts \<and> snd_events s' = map (OnLocalRtcpPacket False) pkts \<and> ret = 0 \<and> report_flags s' = []"
  using send_rtcp_fits[OF sample_io sample_sender_core, of "replicate 1500 0" FeedbackState_new kRtcpRr "[]"]
  by (auto simp: IP_PACKET_SIZE_def split: if_splits)

theorem send_nack_reaches_peer_witness:
  "\<exists>s' pkts idss. SendRTCP sample_sender_env (replicate 1500 0) FeedbackState_new kRtcpNack [65535, 2] sample_sender = Inr (s', 0) \<and>
     snd_events s' = map (OnLocalRtcpPacket False) pkts \<and>
     receive_all sample_clock \<lparr>sr_sender_ssrc = 0, ntp_seconds = 0, ntp_fractions = 0, rtp_timestamp = 0,
         sender_packet_count = 0, sender_octet_count = 0, sr_report_blocks = []\<rparr>
       \<lparr>nack_sender_ssrc = 0, nack_media_ssrc = 0, packed = [], packet_ids = []\<rparr> pkts (RTCPReceiver_init False True 5 6) =
       Inr ((RTCPReceiver_init False True 5 6)\<lparr>events := map (OnNackReceived False) idss\<rparr>) \<and> concat idss = [65535, 2]"
proof -
  let ?r = "RTCPReceiver_init False True 5 6"
  have asc: "seq_ascending [65535, 2]" by code_simp
  have io: "env_io sample_clock = env_io (clock_env sample_sender_env)" by (simp add: sample_sender_env_def)
  have r: "has_observer ?r" "audio ?r = False" "events ?r = []" by (simp_all add: RTCPReceiver_init_def)
  have len: "length (replicate 1500 0 :: byte list) = IP_PACKET_SIZE" by (simp add: IP_PACKET_SIZE_def)
  have s: "report_flags sample_sender = []" "\<not> sending sample_sender" "snd_observer sample_sender" by simp_all
  note t = send_nack_reaches_peer[OF sample_io sample_sender_core s len io r(1), of FeedbackState_new "[65535, 2]"]
  show ?thesis
    by (rule t[THEN exE], elim exE conjE, intro exI conjI, assumption) (use asc r in \<open>simp_all\<close>)
qed

end
