(* ===== verification/Rtp_Rtcp_Module.thy ===== *)
theory Rtp_Rtcp_Module
  imports Rtcp_Sender_Correct
begin

text \<open>
  \<open>rtp_rtcp_impl.cpp\<close>: the module that joins the RTCP sender, the RTCP receiver and the counters of sent packets, and that runs the sender's
  timer. The sender records the delays it asks for in \<open>scheduled\<close>; the module hands each of them to its callback when the sender returns.
  \<open>module_env\<close> holds what WebRTC provides at one call: clock and random numbers, \<open>NtpTime::Valid\<close>, and the uninitialised
  contents of the objects and of the packet buffer that the sources leave to be filled. Every history of calls runs without a fault.
\<close>

section \<open>The module\<close>

record 'g module_env =
  snd_env :: "'g sender_env"
  ntp_valid :: "u32 \<times> u32 \<Rightarrow> bool"
  sr_new :: sender_report
  nack_new :: nack
  buf_new :: "byte list"

record ('g, 'u, 'r) rtp_rtcp_module =
  mod_config :: "('u, 'r) configuration"
  rtp_stats :: stream_data_counters
  rtx_rtp_stats :: stream_data_counters
  mod_sender :: "('g, 'u, 'r) rtcp_sender"
  mod_receiver :: rtcp_receiver
  rr_timer_us :: int
  posted :: "(int \<times> int) list"

definition ModuleRtpRtcpImpl_new :: "'g \<Rightarrow> ('u, 'r) configuration \<Rightarrow> ('g, 'u, 'r) rtp_rtcp_module" where
  "ModuleRtpRtcpImpl_new seed config =
     \<lparr>mod_config = config, rtp_stats = StreamDataCounters_new, rtx_rtp_stats = StreamDataCounters_new,
      mod_sender = RTCPSender_new seed config,
      mod_receiver = RTCPReceiver_init (config_audio config) (config_observer config) (config_remote_ssrc config) (config_local_ssrc config),
      rr_timer_us = 1000 * (if config_audio config then kDefaultAudioRtcpIntervalMs else kDefaultVideoRtcpIntervalMs), posted = []\<rparr>"

definition UpdateRtpStats :: "rtp_packet \<Rightarrow> bool \<Rightarrow> bool \<Rightarrow> ('g, 'u, 'r) rtp_rtcp_module \<Rightarrow> ('g, 'u, 'r) rtp_rtcp_module" where
  "UpdateRtpStats p is_rtx is_retransmit m =
     (let counter = AddPacket p counter_zero;
          update = (\<lambda>c. let c = (if is_retransmit then c\<lparr>retransmitted := counter_Add counter (retransmitted c)\<rparr> else c) in
                        c\<lparr>transmitted := counter_Add counter (transmitted c)\<rparr>) in
      if is_rtx then m\<lparr>rtx_rtp_stats := update (rtx_rtp_stats m)\<rparr> else m\<lparr>rtp_stats := update (rtp_stats m)\<rparr>)"

definition DelayMillisForDuration :: "int \<Rightarrow> int" where
  "DelayMillisForDuration duration = to_i32 (tdiv (duration + 1000 - 1) 1000)"

definition ScheduleMaybeSendRtcpAtOrAfterTimestamp :: "int \<Rightarrow> int \<Rightarrow> ('g, 'u, 'r) rtp_rtcp_module \<Rightarrow> ('g, 'u, 'r) rtp_rtcp_module" where
  "ScheduleMaybeSendRtcpAtOrAfterTimestamp execute_time duration m = m\<lparr>posted := posted m @ [(execute_time, DelayMillisForDuration duration)]\<rparr>"

text \<open>
  The callback of the sender. For a zero duration the source calls \<open>MaybeSendRTCP\<close> while \<open>SendRTCP\<close> is still running, and may do so
  again from there; the model gives up with \<open>Diverges\<close>, and the invariant below shows that the case does not arise.
\<close>

definition ScheduleNextRtcpSend :: "'g module_env \<Rightarrow> int \<Rightarrow> ('g, 'u, 'r) rtp_rtcp_module \<Rightarrow> error + ('g, 'u, 'r) rtp_rtcp_module" where
  "ScheduleNextRtcpSend env duration m =
     (if duration = 0 then Inl Diverges
      else Inr (ScheduleMaybeSendRtcpAtOrAfterTimestamp (CurrentTime (clock_env (snd_env env)) + duration) duration m))"

fun schedule_all :: "'g module_env \<Rightarrow> int list \<Rightarrow> ('g, 'u, 'r) rtp_rtcp_module \<Rightarrow> error + ('g, 'u, 'r) rtp_rtcp_module" where
  "schedule_all env [] m = Inr m"
| "schedule_all env (d # ds) m = bindE (ScheduleNextRtcpSend env d m) (schedule_all env ds)"

definition after_sender ::
  "'g module_env \<Rightarrow> ('g, 'u, 'r) rtcp_sender \<Rightarrow> ('g, 'u, 'r) rtp_rtcp_module \<Rightarrow> error + ('g, 'u, 'r) rtp_rtcp_module" where
  "after_sender env s m = schedule_all env (scheduled s) (m\<lparr>mod_sender := s\<lparr>scheduled := []\<rparr>\<rparr>)"

definition GetFeedbackState :: "'g module_env \<Rightarrow> ('g, 'u, 'r) rtp_rtcp_module \<Rightarrow> feedback_state" where
  "GetFeedbackState env m =
     (let st = (if \<not> receiver_only (mod_config m)
                then FeedbackState_new\<lparr>
                  packets_sent := counted_packets (transmitted (rtp_stats m)) + counted_packets (transmitted (rtx_rtp_stats m)),
                  media_bytes_sent := payload_bytes (transmitted (rtp_stats m)) + payload_bytes (transmitted (rtx_rtp_stats m))\<rparr>
                else FeedbackState_new) in
      case NTP (ntp_valid env) (mod_receiver m) of
        None \<Rightarrow> st
      | Some ((secs, frac), (rr_secs, rr_frac), _) \<Rightarrow>
          st\<lparr>last_rr_ntp_secs := rr_secs, last_rr_ntp_frac := rr_frac,
             remote_sr := push_bit 16 (secs AND 0x0000ffff) + drop_bit 16 (frac AND 0xffff0000)\<rparr>)"

definition send_rtcp ::
  "'g module_env \<Rightarrow> u32 \<Rightarrow> u16 list \<Rightarrow> ('g, 'u, 'r) rtp_rtcp_module \<Rightarrow> error + ('g, 'u, 'r) rtp_rtcp_module" where
  "send_rtcp env type nids m =
     bindE (SendRTCP (snd_env env) (buf_new env) (GetFeedbackState env m) type nids (mod_sender m)) (\<lambda>(s, _). after_sender env s m)"

definition mod_SetRTCPStatus :: "'g module_env \<Rightarrow> rtcp_mode \<Rightarrow> ('g, 'u, 'r) rtp_rtcp_module \<Rightarrow> error + ('g, 'u, 'r) rtp_rtcp_module" where
  "mod_SetRTCPStatus env mode m = after_sender env (SetRTCPStatus (snd_env env) mode (mod_sender m)) m"

definition mod_SetSendingStatus :: "bool \<Rightarrow> ('g, 'u, 'r) rtp_rtcp_module \<Rightarrow> ('g, 'u, 'r) rtp_rtcp_module" where
  "mod_SetSendingStatus b m = m\<lparr>mod_sender := SetSendingStatus b (mod_sender m)\<rparr>"

definition OnSendingRtpFrame ::
  "'g module_env \<Rightarrow> u32 \<Rightarrow> int \<Rightarrow> bool \<Rightarrow> ('g, 'u, 'r) rtp_rtcp_module \<Rightarrow> error + ('g, 'u, 'r) rtp_rtcp_module" where
  "OnSendingRtpFrame env ts capture_time_ms forced_report m =
     (let capture_time = (if capture_time_ms > 0 then Some (1000 * capture_time_ms) else None);
          m = m\<lparr>mod_sender := SetLastRtpTimestamp (snd_env env) ts capture_time (mod_sender m)\<rparr> in
      bindE (TimeToSendRTCPPacket (snd_env env) forced_report (mod_sender m)) (\<lambda>due.
        if due then send_rtcp env kRtcpReport [] m else Inr m))"

definition mod_IncomingRtcpPacket :: "'g module_env \<Rightarrow> byte list \<Rightarrow> ('g, 'u, 'r) rtp_rtcp_module \<Rightarrow> error + ('g, 'u, 'r) rtp_rtcp_module" where
  "mod_IncomingRtcpPacket env packet m =
     bindE (IncomingRtcpPacket (clock_env (snd_env env)) (sr_new env) (nack_new env) packet (mod_receiver m)) (\<lambda>r. Inr (m\<lparr>mod_receiver := r\<rparr>))"

definition MaybeSendRTCP :: "'g module_env \<Rightarrow> ('g, 'u, 'r) rtp_rtcp_module \<Rightarrow> error + ('g, 'u, 'r) rtp_rtcp_module" where
  "MaybeSendRTCP env m =
     bindE (TimeToSendRTCPPacket (snd_env env) False (mod_sender m)) (\<lambda>due. if due then send_rtcp env kRtcpReport [] m else Inr m)"

text \<open>The first posted task runs.\<close>

definition run_posted_rtcp :: "'g module_env \<Rightarrow> ('g, 'u, 'r) rtp_rtcp_module \<Rightarrow> error + ('g, 'u, 'r) rtp_rtcp_module" where
  "run_posted_rtcp env m =
     (case posted m of
        [] \<Rightarrow> Inr m
      | (execute_time, _) # rest \<Rightarrow>
          let m = m\<lparr>posted := rest\<rparr>; now = CurrentTime (clock_env (snd_env env)) in
          if now \<ge> execute_time then MaybeSendRTCP env m
          else Inr (ScheduleMaybeSendRtcpAtOrAfterTimestamp execute_time (execute_time - now) m))"

definition SendRTCPReceiveReport :: "'g module_env \<Rightarrow> ('g, 'u, 'r) rtp_rtcp_module \<Rightarrow> error + ('g, 'u, 'r) rtp_rtcp_module" where
  "SendRTCPReceiveReport env m = send_rtcp env kRtcpRr [] m"

definition SendNack :: "'g module_env \<Rightarrow> u16 list \<Rightarrow> ('g, 'u, 'r) rtp_rtcp_module \<Rightarrow> error + ('g, 'u, 'r) rtp_rtcp_module" where
  "SendNack env sequence_numbers m = send_rtcp env kRtcpNack sequence_numbers m"

section \<open>Histories of a module\<close>

text \<open>What may happen to a module, each time with the clock and the other arguments of the moment.\<close>

datatype module_op =
    StatusCompound
  | SendingStatus bool
  | SentFrame u32 int bool
  | SentPacket rtp_packet bool bool
  | IncomingRtcp "byte list"
  | ReportTimer
  | PostedTask
  | RequestPackets "u16 list"

fun module_step :: "'g module_env \<Rightarrow> module_op \<Rightarrow> ('g, 'u, 'r) rtp_rtcp_module \<Rightarrow> error + ('g, 'u, 'r) rtp_rtcp_module" where
  "module_step env StatusCompound m = mod_SetRTCPStatus env kCompound m"
| "module_step env (SendingStatus b) m = Inr (mod_SetSendingStatus b m)"
| "module_step env (SentFrame ts t forced) m = OnSendingRtpFrame env ts t forced m"
| "module_step env (SentPacket p is_rtx again) m = Inr (UpdateRtpStats p is_rtx again m)"
| "module_step env (IncomingRtcp packet) m = mod_IncomingRtcpPacket env packet m"
| "module_step env ReportTimer m = SendRTCPReceiveReport env m"
| "module_step env PostedTask m = run_posted_rtcp env m"
| "module_step env (RequestPackets nids) m = SendNack env nids m"

fun module_run :: "('g module_env \<times> module_op) list \<Rightarrow> ('g, 'u, 'r) rtp_rtcp_module \<Rightarrow> error + ('g, 'u, 'r) rtp_rtcp_module" where
  "module_run [] m = Inr m"
| "module_run ((env, op) # ops) m = bindE (module_step env op m) (module_run ops)"

definition module_ok :: "('g, 'u, 'r) rtp_rtcp_module \<Rightarrow> bool" where
  "module_ok m \<longleftrightarrow> sender_core (mod_sender m) \<and> list_all snd (report_flags (mod_sender m)) \<and>
     next_time_to_send_rtcp (mod_sender m) \<noteq> None \<and> scheduled (mod_sender m) = []"

definition module_env_ok :: "'g module_env \<Rightarrow> bool" where
  "module_env_ok env \<longleftrightarrow> big_endian_io (env_io (clock_env (snd_env env))) \<and> length (buf_new env) = IP_PACKET_SIZE \<and>
     (\<forall>g a b. a \<le> b \<longrightarrow> a \<le> fst (Rand (snd_env env) g a b) \<and> fst (Rand (snd_env env) g a b) \<le> b)"

lemma schedule_all_ok:
  "\<forall>d\<in>set ds. d \<noteq> 0 \<Longrightarrow> \<exists>m'. schedule_all env ds m = Inr m' \<and> mod_sender m' = mod_sender m"
proof (induction ds arbitrary: m)
  case (Cons d ds)
  then show ?case
    using Cons.IH[of "ScheduleMaybeSendRtcpAtOrAfterTimestamp (CurrentTime (clock_env (snd_env env)) + d) d m"]
    by (simp add: ScheduleNextRtcpSend_def ScheduleMaybeSendRtcpAtOrAfterTimestamp_def)
qed simp

text \<open>A drawn interval is never zero.\<close>

lemma scheduled_next_pos:
  assumes "module_env_ok env" "sender_core s" "scheduled_next (snd_env env) s s'" "scheduled s = []"
  shows "next_time_to_send_rtcp s' \<noteq> None \<and> (\<forall>d\<in>set (scheduled s'). d \<noteq> 0)"
proof -
  let ?ms = "report_interval s div 1000"
  obtain g where g: "scheduled s' = [1000 * fst (Rand (snd_env env) g (tdiv ?ms 2) (tdiv (?ms * 3) 2))]" "next_time_to_send_rtcp s' \<noteq> None"
    using assms(3,4) by (auto simp: scheduled_next_def Let_def)
  have ms: "2 \<le> ?ms" using assms(2) by (auto simp: sender_core_def)
  then have "tdiv ?ms 2 \<le> tdiv (?ms * 3) 2" "1 \<le> tdiv ?ms 2" by simp_all
  then have "1 \<le> fst (Rand (snd_env env) g (tdiv ?ms 2) (tdiv (?ms * 3) 2))"
    using assms(1) by (meson module_env_ok_def order_trans)
  then show ?thesis using g by simp
qed

lemma after_sender_ok:
  assumes "sender_core s" "list_all snd (report_flags s)" "next_time_to_send_rtcp s \<noteq> None" "\<forall>d\<in>set (scheduled s). d \<noteq> 0"
  shows "\<exists>m'. after_sender env s m = Inr m' \<and> module_ok m'"
proof -
  obtain m' where "after_sender env s m = Inr m'" "mod_sender m' = s\<lparr>scheduled := []\<rparr>"
    using schedule_all_ok[OF assms(4), of env "m\<lparr>mod_sender := s\<lparr>scheduled := []\<rparr>\<rparr>"] by (auto simp: after_sender_def)
  then show ?thesis using assms(1-3) by (simp add: module_ok_def sender_core_def)
qed

lemma send_rtcp_ok:
  assumes "module_env_ok env" "module_ok m"
  shows "\<exists>m'. send_rtcp env type nids m = Inr m' \<and> module_ok m'"
proof -
  have io: "big_endian_io (env_io (clock_env (snd_env env)))" "length (buf_new env) = IP_PACKET_SIZE" using assms(1) by (simp_all add: module_env_ok_def)
  have m: "sender_core (mod_sender m)" "list_all snd (report_flags (mod_sender m))" "scheduled (mod_sender m) = []"
    "next_time_to_send_rtcp (mod_sender m) \<noteq> None" using assms(2) by (simp_all add: module_ok_def)
  obtain s' ret where r: "SendRTCP (snd_env env) (buf_new env) (GetFeedbackState env m) type nids (mod_sender m) = Inr (s', ret)"
    "sender_core s'" "list_all snd (report_flags s')" "keeps_schedule (mod_sender m) s' \<or> scheduled_next (snd_env env) (mod_sender m) s'"
    using SendRTCP_ok[OF io(1) m(1,2) io(2), of "GetFeedbackState env m" type nids] by blast
  have "next_time_to_send_rtcp s' \<noteq> None \<and> (\<forall>d\<in>set (scheduled s'). d \<noteq> 0)"
    using r(4) scheduled_next_pos[OF assms(1) m(1) _ m(3), of s'] m(3,4) by (auto simp: keeps_schedule_def)
  then show ?thesis using r after_sender_ok[OF r(2,3), of env m] by (simp add: send_rtcp_def)
qed

lemma MaybeSendRTCP_ok:
  assumes "module_env_ok env" "module_ok m"
  shows "\<exists>m'. MaybeSendRTCP env m = Inr m' \<and> module_ok m'"
proof -
  obtain t where "next_time_to_send_rtcp (mod_sender m) = Some t" using assms(2) by (auto simp: module_ok_def)
  then show ?thesis using send_rtcp_ok[OF assms] assms(2) by (simp add: MaybeSendRTCP_def TimeToSendRTCPPacket_def)
qed

lemma OnSendingRtpFrame_ok:
  assumes "module_env_ok env" "module_ok m"
  shows "\<exists>m'. OnSendingRtpFrame env ts t forced m = Inr m' \<and> module_ok m'"
proof -
  let ?m = "m\<lparr>mod_sender := SetLastRtpTimestamp (snd_env env) ts (if t > 0 then Some (1000 * t) else None) (mod_sender m)\<rparr>"
  have ok: "module_ok ?m" using assms(2) by (simp add: module_ok_def sender_core_def SetLastRtpTimestamp_def)
  then obtain due where "TimeToSendRTCPPacket (snd_env env) forced (mod_sender ?m) = Inr due"
    by (auto simp: module_ok_def TimeToSendRTCPPacket_def)
  then have "OnSendingRtpFrame env ts t forced m = (if due then send_rtcp env kRtcpReport [] ?m else Inr ?m)"
    by (simp only: OnSendingRtpFrame_def Let_def bindE_Inr)
  then show ?thesis using send_rtcp_ok[OF assms(1) ok] ok by simp
qed

lemma mod_SetRTCPStatus_ok:
  assumes "sender_core ((mod_sender m)\<lparr>rtcp_mode := kCompound\<rparr>)" "list_all snd (report_flags (mod_sender m))" "scheduled (mod_sender m) = []"
    and "rtcp_mode (mod_sender m) = kOff \<or> next_time_to_send_rtcp (mod_sender m) \<noteq> None"
  shows "\<exists>m'. mod_SetRTCPStatus env kCompound m = Inr m' \<and> module_ok m'"
proof -
  let ?s = "SetRTCPStatus (snd_env env) kCompound (mod_sender m)"
  have "2000 \<le> report_interval (mod_sender m)" using assms(1) by (simp add: sender_core_def)
  then have "tdiv (report_interval (mod_sender m)) 2 \<noteq> 0" by simp
  then have "sender_core ?s" "list_all snd (report_flags ?s)" "next_time_to_send_rtcp ?s \<noteq> None" "\<forall>d\<in>set (scheduled ?s). d \<noteq> 0"
    using assms by (auto simp: SetRTCPStatus_def SetNextRtcpSendEvaluationDuration_def sender_core_def)
  then show ?thesis using after_sender_ok[of ?s env m] by (simp add: mod_SetRTCPStatus_def)
qed

lemma run_posted_rtcp_ok:
  assumes "module_env_ok env" "module_ok m"
  shows "\<exists>m'. run_posted_rtcp env m = Inr m' \<and> module_ok m'"
proof (cases "posted m")
  case (Cons p ps)
  have ok: "module_ok (m\<lparr>posted := qs\<rparr>)" for qs using assms(2) by (simp add: module_ok_def)
  show ?thesis using Cons MaybeSendRTCP_ok[OF assms(1) ok[of ps]] ok
    by (cases p) (simp add: run_posted_rtcp_def ScheduleMaybeSendRtcpAtOrAfterTimestamp_def Let_def)
qed (use assms in \<open>simp add: run_posted_rtcp_def\<close>)

lemma module_step_ok:
  assumes "module_env_ok env" "module_ok m"
  shows "\<exists>m'. module_step env op m = Inr m' \<and> module_ok m'"
proof (cases op)
  case StatusCompound
  then show ?thesis using mod_SetRTCPStatus_ok[of m env] assms(2) by (simp add: module_ok_def sender_core_def)
next
  case (IncomingRtcp packet)
  then show ?thesis using Incoming_returns[of "clock_env (snd_env env)" "sr_new env" "nack_new env" packet "mod_receiver m"] assms(2)
    by (auto simp: mod_IncomingRtcpPacket_def module_ok_def)
next
  case (SendingStatus b)
  then show ?thesis using assms(2) by (simp add: mod_SetSendingStatus_def SetSendingStatus_def module_ok_def sender_core_def)
next
  case (SentPacket p is_rtx again)
  then show ?thesis using assms(2) by (simp add: UpdateRtpStats_def module_ok_def Let_def)
qed (use send_rtcp_ok[OF assms] OnSendingRtpFrame_ok[OF assms] run_posted_rtcp_ok[OF assms] in
    \<open>simp_all add: SendRTCPReceiveReport_def SendNack_def\<close>)

lemma module_run_ok:
  "list_all (\<lambda>(env, _). module_env_ok env) ops \<Longrightarrow> module_ok m \<Longrightarrow> \<exists>m'. module_run ops m = Inr m' \<and> module_ok m'"
proof (induction ops arbitrary: m)
  case (Cons x ops)
  obtain env op where x: "x = (env, op)" by (cases x)
  obtain m1 where "module_step env op m = Inr m1" "module_ok m1" using module_step_ok[of env m op] Cons.prems x by auto
  then show ?case using Cons.IH[of m1] Cons.prems x by simp
qed simp

section \<open>Every history runs\<close>

text \<open>C36. A module configured with a report interval of two milliseconds or more (or the default) and less than a day, whose statistics are
  well formed, is put into compound mode; then any calls follow, in any order: frames and packets sent, arbitrary bytes received as RTCP, report
  timers, posted tasks, requests of missing packets. Every call returns normally: no buffer is left, no absent time is read and the sender's callback
  is never invoked with a zero delay, so \<open>SendRTCP\<close> is not re-entered; a next report time is set in every reached state.\<close>

theorem module_never_faults:
  assumes "list_all (\<lambda>(env, _). module_env_ok env) ((env, StatusCompound) # ops)"
    and "rtcp_report_interval_ms config \<noteq> 1" "rtcp_report_interval_ms config < 10 ^ 8"
    and "\<And>rs. config_statistics config = Some rs \<Longrightarrow> streams_ok rs"
  shows "\<exists>m. module_run ((env, StatusCompound) # ops) (ModuleRtpRtcpImpl_new seed config) = Inr m \<and> module_ok m"
proof -
  let ?m = "ModuleRtpRtcpImpl_new seed config"
  have "sender_core ((mod_sender ?m)\<lparr>rtcp_mode := kCompound\<rparr>)" "list_all snd (report_flags (mod_sender ?m))"
    "scheduled (mod_sender ?m) = []" "rtcp_mode (mod_sender ?m) = kOff"
    using assms(2-4) by (auto simp: ModuleRtpRtcpImpl_new_def RTCPSender_new_def sender_core_def IP_PACKET_SIZE_def GetReportInterval_def
        kDefaultAudioRtcpIntervalMs_def kDefaultVideoRtcpIntervalMs_def)
  then obtain m where "mod_SetRTCPStatus env kCompound ?m = Inr m" "module_ok m" using mod_SetRTCPStatus_ok[of ?m env] by auto
  then show ?thesis using module_run_ok[of ops m] assms(1) by simp
qed

definition sample_module_env :: "unit module_env" where
  "sample_module_env = \<lparr>snd_env = sample_sender_env, ntp_valid = (\<lambda>t. t \<noteq> (0, 0)), sr_new = \<lparr>sr_sender_ssrc = 0, ntp_seconds = 0, ntp_fractions = 0,
     rtp_timestamp = 0, sender_packet_count = 0, sender_octet_count = 0, sr_report_blocks = []\<rparr>,
     nack_new = \<lparr>nack_sender_ssrc = 0, nack_media_ssrc = 0, packed = [], packet_ids = []\<rparr>, buf_new = replicate 1500 0\<rparr>"

lemma sample_module_env_ok: "module_env_ok sample_module_env"
  using sample_io by (simp add: module_env_ok_def sample_module_env_def sample_sender_env_def IP_PACKET_SIZE_def)

theorem module_never_faults_witness:
  "\<exists>m. module_run [(sample_module_env, StatusCompound), (sample_module_env, SendingStatus True), (sample_module_env, SentFrame 90000 100 True),
     (sample_module_env, IncomingRtcp [0x80, 200, 0, 1]), (sample_module_env, RequestPackets [3, 4])]
     (ModuleRtpRtcpImpl_new () sample_config) = Inr m \<and> module_ok m"
  using sample_module_env_ok sample_streams_ok
  by (intro module_never_faults) (auto simp: sample_config_def)

end
