(* ===== verification/Frame_Descriptor.thy ===== *)
theory Frame_Descriptor
  imports Rtp_Extensions
begin

text \<open>
  \<open>rtp_generic_frame_descriptor_extension.cpp\<close>: the header extension that describes a frame and its dependencies. The descriptor itself is a
  class of WebRTC, a record of the fields the sources read and set; its \<open>AddFrameDependencyDiff\<close> is the parameter \<open>add_diff\<close>, which
  gives the new list, or \<open>None\<close> when it refuses. A written descriptor is read back, and the parser never leaves its value.
\<close>

section \<open>Model\<close>

record frame_descriptor =
  first_in_subframe :: bool
  last_in_subframe :: bool
  temporal_layer :: byte
  spatial_layers_bitmask :: byte
  frame_id :: u16
  dependency_diffs :: "u16 list"
  res_width :: int
  res_height :: int

type_synonym add_diff = "u16 \<Rightarrow> u16 list \<Rightarrow> u16 list option"

text \<open>The loop over the dependencies, from \<open>offset\<close> on.\<close>

function gfd_loop :: "add_diff \<Rightarrow> byte list \<Rightarrow> nat \<Rightarrow> frame_descriptor \<Rightarrow> error + frame_descriptor \<times> bool" where
  "gfd_loop add data offset d =
     (if length data = offset then Inr (d, False)
      else if length data < offset then Inl OutOfBounds
      else
        let b = data ! offset;
            has_more_dependencies = (b AND 0x01 \<noteq> 0);
            extended = (b AND 0x02 \<noteq> 0);
            fdiff = (ucast (drop_bit 2 b) :: u16);
            offset = offset + 1 in
        if extended \<and> length data = offset then Inr (d, False)
        else
          let fdiff = (if extended then fdiff OR push_bit 6 (ucast (data ! offset)) else fdiff);
              offset = (if extended then offset + 1 else offset) in
          case add fdiff (dependency_diffs d) of
            None \<Rightarrow> Inr (d, False)
          | Some ds \<Rightarrow>
              let d = d\<lparr>dependency_diffs := ds\<rparr> in
              if has_more_dependencies then gfd_loop add data offset d else Inr (d, True))"
  by pat_completeness auto
termination
  by (relation "measure (\<lambda>(_, data, offset, _). length data - offset)") (auto simp: Let_def split: if_splits)

declare gfd_loop.simps [simp del]

definition gfd_Parse :: "add_diff \<Rightarrow> byte list \<Rightarrow> frame_descriptor \<Rightarrow> error + frame_descriptor \<times> bool" where
  "gfd_Parse add data d =
     (if data = [] then Inr (d, False)
      else bindE (byte_at data 0) (\<lambda>b0.
        let begins_subframe = (b0 AND 0x80 \<noteq> 0);
            d = d\<lparr>first_in_subframe := begins_subframe, last_in_subframe := (b0 AND 0x40 \<noteq> 0)\<rparr> in
        if \<not> begins_subframe then Inr (d, length data = 1)
        else if length data < 4 then Inr (d, False)
        else
          bindE (byte_at data 1) (\<lambda>b1. bindE (byte_at data 2) (\<lambda>b2. bindE (byte_at data 3) (\<lambda>b3.
          let d = d\<lparr>temporal_layer := b0 AND 0x07, spatial_layers_bitmask := b1, frame_id := ucast b2 OR push_bit 8 (ucast b3),
                    dependency_diffs := []\<rparr>;
              has_more_dependencies = (b0 AND 0x08 \<noteq> 0) in
          if \<not> has_more_dependencies \<and> length data \<ge> 8 then
            bindE (byte_at data 4) (\<lambda>w1. bindE (byte_at data 5) (\<lambda>w0. bindE (byte_at data 6) (\<lambda>h1. bindE (byte_at data 7) (\<lambda>h0.
              Inr (d\<lparr>res_width := uint (push_bit 8 (ucast w1) OR ucast w0 :: u16), res_height := uint (push_bit 8 (ucast h1) OR ucast h0 :: u16)\<rparr>,
                   True)))))
          else if has_more_dependencies then gfd_loop add data 4 d
          else Inr (d, True))))))"

definition has_resolution :: "frame_descriptor \<Rightarrow> bool" where
  "has_resolution d \<longleftrightarrow> first_in_subframe d \<and> dependency_diffs d = [] \<and> res_width d > 0 \<and> res_height d > 0"

definition gfd_ValueSize :: "frame_descriptor \<Rightarrow> nat" where
  "gfd_ValueSize d =
     (if \<not> first_in_subframe d then 1
      else 4 + (\<Sum>fdiff\<leftarrow>dependency_diffs d. if fdiff \<ge> 64 then 2 else 1) + (if has_resolution d then 4 else 0))"

fun gfd_write_diffs :: "byte list \<Rightarrow> nat \<Rightarrow> u16 list \<Rightarrow> error + byte list" where
  "gfd_write_diffs data offset [] = Inr data"
| "gfd_write_diffs data offset (fdiff # fdiffs) =
     (let extended = (fdiff \<ge> 64); another = (fdiffs \<noteq> []) in
      bindE (put data offset [push_bit 2 (ucast (fdiff AND 0x3f)) OR (if extended then 0x02 else 0) OR (if another then 0x01 else 0)]) (\<lambda>data.
      if extended then bindE (put data (offset + 1) [ucast (drop_bit 6 fdiff)]) (\<lambda>data. gfd_write_diffs data (offset + 2) fdiffs)
      else gfd_write_diffs data (offset + 1) fdiffs))"

definition gfd_Write :: "byte list \<Rightarrow> frame_descriptor \<Rightarrow> error + byte list" where
  "gfd_Write data d =
     (if length data \<noteq> gfd_ValueSize d then Inl CheckFailed
      else
        let base_header = (if first_in_subframe d then 0x80 else 0) OR (if last_in_subframe d then 0x40 else 0) OR 0x20 OR (0x10 :: byte) in
        if \<not> first_in_subframe d then put data 0 [base_header]
        else
          bindE (put data 0 [base_header OR (if dependency_diffs d = [] then 0 else 0x08) OR temporal_layer d]) (\<lambda>data.
          bindE (put data 1 [spatial_layers_bitmask d]) (\<lambda>data.
          bindE (put data 2 [ucast (frame_id d AND 0xff)]) (\<lambda>data.
          bindE (put data 3 [ucast (drop_bit 8 (frame_id d))]) (\<lambda>data.
          bindE (if has_resolution d
                 then bindE (put data 4 [of_int (drop_bit 8 (res_width d))]) (\<lambda>data. bindE (put data 5 [of_int (res_width d AND 0xff)]) (\<lambda>data.
                      bindE (put data 6 [of_int (drop_bit 8 (res_height d))]) (\<lambda>data. bindE (put data 7 [of_int (res_height d AND 0xff)]) (\<lambda>data.
                      Inr (data, 8)))))
                 else Inr (data, 4)) (\<lambda>(data, offset).
            gfd_write_diffs data offset (dependency_diffs d)))))))"

section \<open>Round trip\<close>

definition diff_bytes :: "u16 \<Rightarrow> bool \<Rightarrow> byte list" where
  "diff_bytes fdiff another = (push_bit 2 (ucast (fdiff AND 0x3f)) OR (if fdiff \<ge> 64 then 0x02 else 0) OR (if another then 0x01 else 0)) #
     (if fdiff \<ge> 64 then [ucast (drop_bit 6 fdiff)] else [])"

fun diffs_bytes :: "u16 list \<Rightarrow> byte list" where
  "diffs_bytes [] = []"
| "diffs_bytes (x # xs) = diff_bytes x (xs \<noteq> []) @ diffs_bytes xs"

lemma length_diffs_bytes: "length (diffs_bytes xs) = (\<Sum>x\<leftarrow>xs. if x \<ge> 64 then 2 else 1)"
  by (induction xs) (auto simp: diff_bytes_def)

lemma gfd_write_diffs_ok:
  "offset + length (diffs_bytes xs) \<le> length data \<Longrightarrow> gfd_write_diffs data offset xs = Inr (overwrite offset (diffs_bytes xs) data)"
proof (induction xs arbitrary: data offset)
  case (Cons x xs)
  then show ?case by (auto simp: Let_def diff_bytes_def put_def overwrite_def ac_simps)
qed (simp add: overwrite_def)

lemma bit_below:
  assumes "unat (x :: 'a::len word) < 2 ^ k" "bit x n"
  shows "n < k"
proof -
  have "take_bit k (unat x) = unat x" using assms(1) by (simp add: take_bit_nat_eq_self)
  moreover have "bit (unat x) n" using assms(2) by (simp add: bit_unsigned_iff)
  ultimately show ?thesis by (metis bit_take_bit_iff)
qed

definition diff_byte :: "u16 \<Rightarrow> bool \<Rightarrow> bool \<Rightarrow> byte" where
  "diff_byte x e m = push_bit 2 (ucast (x AND 0x3f)) OR (if e then 0x02 else 0) OR (if m then 0x01 else 0)"

lemma and_63: "(x :: u16) AND 0x3f = take_bit 6 x"
  by (simp add: take_bit_eq_mask mask_eq_exp_minus_1)

lemma bit_diff_byte: "bit (diff_byte x e m) n \<longleftrightarrow> n = 0 \<and> m \<or> n = 1 \<and> e \<or> 2 \<le> n \<and> n < 8 \<and> bit x (n - 2)"
proof -
  have "bit (2 :: byte) n \<longleftrightarrow> n = 1" using bit_exp_iff[where 'a=byte, of 1 n] by auto
  then show ?thesis by (auto simp: diff_byte_def and_63 bit_simps bit_1_iff)
qed

lemma diff_byte_more: "diff_byte x e m AND 0x01 \<noteq> 0 \<longleftrightarrow> m"
  using bit_diff_byte[of x e m 0] by (simp add: and_one_eq odd_iff_mod_2_eq_one bit_0)

lemma diff_byte_extended: "diff_byte x e m AND 0x02 \<noteq> 0 \<longleftrightarrow> e"
proof -
  have "diff_byte x e m AND 0x02 = (if e then 2 else 0)"
  proof (rule bit_word_eqI)
    fix n assume "n < LENGTH(8)"
    have "bit (2 :: byte) n \<longleftrightarrow> n = 1" using bit_exp_iff[where 'a=byte, of 1 n] by auto
    then show "bit (diff_byte x e m AND 0x02) n = bit (if e then 2 else 0 :: byte) n" by (auto simp: bit_and_iff bit_diff_byte)
  qed
  then show ?thesis by simp
qed

lemma diff_byte_value: "(ucast (drop_bit 2 (diff_byte x e m)) :: u16) = x AND 0x3f"
  by (rule bit_word_eqI) (auto simp: bit_simps bit_diff_byte and_63)

lemma diff_low: "x < 64 \<Longrightarrow> x AND 0x3f = (x :: u16)"
  by (rule bit_word_eqI) (auto simp: bit_simps and_63 word_less_nat_alt dest: bit_below[of x 6, simplified])

lemma diff_split: "x < 2 ^ 14 \<Longrightarrow> (x AND 0x3f) OR push_bit 6 (ucast (ucast (drop_bit 6 x) :: byte)) = (x :: u16)"
  by (rule bit_word_eqI) (auto simp: bit_simps and_63 not_less word_less_nat_alt dest: bit_below[of x 14, simplified])

lemma gfd_loop_diffs:
  assumes "\<And>x ds. x \<noteq> 0 \<Longrightarrow> length ds < 8 \<Longrightarrow> add x ds = Some (ds @ [x])"
    and "xs \<noteq> []" "\<forall>x\<in>set xs. x \<noteq> 0 \<and> x < 2 ^ 14" "length (dependency_diffs d) + length xs \<le> 8"
  shows "gfd_loop add (pre @ diffs_bytes xs) (length pre) d = Inr (d\<lparr>dependency_diffs := dependency_diffs d @ xs\<rparr>, True)"
  using assms(2-4)
proof (induction xs arbitrary: pre d)
  case (Cons x xs)
  let ?e = "x \<ge> 64" and ?m = "xs \<noteq> []"
  let ?data = "pre @ diffs_bytes (x # xs)" and ?d = "d\<lparr>dependency_diffs := dependency_diffs d @ [x]\<rparr>"
  have b: "diff_bytes x ?m = diff_byte x ?e ?m # (if ?e then [ucast (drop_bit 6 x)] else [])" by (simp add: diff_bytes_def diff_byte_def)
  have add: "add x (dependency_diffs d) = Some (dependency_diffs d @ [x])" using Cons.prems by (intro assms(1)) auto
  have val: "(if ?e then (ucast (drop_bit 2 (diff_byte x ?e ?m)) :: u16) OR push_bit 6 (ucast (ucast (drop_bit 6 x) :: byte))
      else ucast (drop_bit 2 (diff_byte x ?e ?m))) = x"
    using Cons.prems(2) by (simp add: diff_byte_value diff_split diff_low)
  have "gfd_loop add ?data (length pre) d =
      (if ?m then gfd_loop add ((pre @ diff_bytes x ?m) @ diffs_bytes xs) (length (pre @ diff_bytes x ?m)) ?d else Inr (?d, True))"
    using add val b
    by (subst gfd_loop.simps) (auto simp: nth_append Let_def diff_byte_more diff_byte_extended split: if_splits)
  also have "\<dots> = Inr (d\<lparr>dependency_diffs := dependency_diffs d @ x # xs\<rparr>, True)"
    using Cons.IH[of ?d "pre @ diff_bytes x ?m"] Cons.prems by auto
  finally show ?case .
qed simp

definition gfd_header :: "frame_descriptor \<Rightarrow> byte" where
  "gfd_header d = ((if first_in_subframe d then 0x80 else 0) OR (if last_in_subframe d then 0x40 else 0) OR 0x20 OR 0x10) OR
     (if first_in_subframe d then (if dependency_diffs d = [] then 0 else 0x08) OR temporal_layer d else 0)"

definition gfd_bytes :: "frame_descriptor \<Rightarrow> byte list" where
  "gfd_bytes d = gfd_header d # (if first_in_subframe d then
     [spatial_layers_bitmask d, ucast (frame_id d AND 0xff), ucast (drop_bit 8 (frame_id d))] @
     (if has_resolution d then [of_int (drop_bit 8 (res_width d)), of_int (res_width d AND 0xff),
        of_int (drop_bit 8 (res_height d)), of_int (res_height d AND 0xff)] else []) @ diffs_bytes (dependency_diffs d) else [])"

lemma length_gfd_bytes: "length (gfd_bytes d) = gfd_ValueSize d"
  by (auto simp: gfd_bytes_def gfd_ValueSize_def length_diffs_bytes)

lemma gfd_Write_ok:
  assumes "length data = gfd_ValueSize d"
  shows "gfd_Write data d = Inr (gfd_bytes d)"
proof (cases "first_in_subframe d")
  case False
  then obtain x where "data = [x]" using assms by (auto simp: gfd_ValueSize_def length_Suc_conv)
  then show ?thesis using False assms by (simp add: gfd_Write_def gfd_bytes_def gfd_header_def put_def overwrite_def)
next
  case True
  define n where "n = length (diffs_bytes (dependency_diffs d))"
  have len: "length data = 4 + (if has_resolution d then 4 else 0) + n"
    using assms True by (simp add: gfd_ValueSize_def n_def length_diffs_bytes)
  then obtain a b c e rest where d4: "data = a # b # c # e # rest" "length rest = (if has_resolution d then 4 else 0) + n"
    by (auto simp: length_Suc_conv numeral_eq_Suc split: if_splits)
  show ?thesis
  proof (cases "has_resolution d")
    case res: True
    then have "dependency_diffs d = []" by (simp add: has_resolution_def)
    moreover from this obtain p q r s where "rest = [p, q, r, s]" using d4(2) res by (auto simp: n_def length_Suc_conv numeral_eq_Suc)
    ultimately show ?thesis using True res assms d4
      by (simp add: gfd_Write_def gfd_bytes_def gfd_header_def put_def overwrite_def or.assoc)
  next
    case res: False
    let ?pre = "[gfd_header d, spatial_layers_bitmask d, ucast (frame_id d AND 0xff), ucast (drop_bit 8 (frame_id d))]"
    have "gfd_write_diffs (?pre @ rest) 4 (dependency_diffs d) = Inr (?pre @ diffs_bytes (dependency_diffs d))"
      using res d4(2) by (subst gfd_write_diffs_ok) (auto simp: n_def overwrite_def)
    then show ?thesis using True res assms d4
      by (simp add: gfd_Write_def gfd_bytes_def gfd_header_def put_def overwrite_def or.assoc)
  qed
qed

lemma byte_below_8: "(t :: byte) < 8 \<Longrightarrow> t \<in> {0, 1, 2, 3, 4, 5, 6, 7}"
proof -
  assume "t < 8"
  then have "unat t < 8" by (simp add: word_less_nat_alt)
  then have "unat t = 0 \<or> unat t = 1 \<or> unat t = 2 \<or> unat t = 3 \<or> unat t = 4 \<or> unat t = 5 \<or> unat t = 6 \<or> unat t = 7" by linarith
  moreover have "t = of_nat (unat t)" by simp
  ultimately show ?thesis by (elim disjE) (simp_all only:, simp_all)
qed

lemma gfd_header_flags:
  assumes "temporal_layer d < 8"
  shows "gfd_header d AND 0x80 \<noteq> 0 \<longleftrightarrow> first_in_subframe d" "gfd_header d AND 0x40 \<noteq> 0 \<longleftrightarrow> last_in_subframe d"
    "first_in_subframe d \<Longrightarrow> gfd_header d AND 0x08 \<noteq> 0 \<longleftrightarrow> dependency_diffs d \<noteq> []"
    "first_in_subframe d \<Longrightarrow> gfd_header d AND 0x07 = temporal_layer d"
  using byte_below_8[OF assms] by (auto simp: gfd_header_def)

lemma frame_id_bytes: "ucast (ucast ((f :: u16) AND 0xff) :: byte) OR push_bit 8 (ucast (ucast (drop_bit 8 f) :: byte)) = f"
proof -
  have m: "f AND 0xff = take_bit 8 f" by (simp add: take_bit_eq_mask mask_eq_exp_minus_1)
  show ?thesis unfolding m by (rule bit_word_eqI) (auto simp: bit_simps)
qed

lemma resolution_bytes:
  assumes "0 \<le> w" "w < 65536"
  shows "uint (push_bit 8 (ucast (of_int (drop_bit 8 w) :: byte)) OR ucast (of_int (w AND 0xff) :: byte) :: u16) = w"
proof -
  have m: "w AND 0xff = take_bit 8 w" by (simp add: take_bit_eq_mask mask_eq_exp_minus_1)
  have "(push_bit 8 (ucast (of_int (drop_bit 8 w) :: byte)) OR ucast (of_int (w AND 0xff) :: byte) :: u16) = of_int w"
    unfolding m by (rule bit_word_eqI) (auto simp: bit_simps)
  then show ?thesis using assms by (simp only: uint_word_of_int) simp
qed

text \<open>What a written descriptor says to its reader: the layers and the frame of the first packet of a subframe, and the resolution when it was sent.\<close>

definition gfd_seen :: "frame_descriptor \<Rightarrow> frame_descriptor \<Rightarrow> frame_descriptor" where
  "gfd_seen d d0 =
     (let d1 = d0\<lparr>first_in_subframe := first_in_subframe d, last_in_subframe := last_in_subframe d\<rparr> in
      if \<not> first_in_subframe d then d1
      else let d2 = d1\<lparr>temporal_layer := temporal_layer d, spatial_layers_bitmask := spatial_layers_bitmask d, frame_id := frame_id d,
                       dependency_diffs := dependency_diffs d\<rparr> in
        if has_resolution d then d2\<lparr>res_width := res_width d, res_height := res_height d\<rparr> else d2)"

text \<open>C37. Let \<open>AddFrameDependencyDiff\<close> append every non-zero difference as long as there are fewer than eight. Then a descriptor with a
  temporal layer below eight, at most eight non-zero differences of fourteen bits and a resolution of sixteen bits is written into a buffer of
  exactly its announced size, and reading that buffer succeeds and sets every field that the format transmits: the subframe flags always; layers,
  frame id and dependencies at the start of a subframe; the resolution only of a frame without dependencies.\<close>

theorem frame_descriptor_roundtrip:
  assumes "\<And>x ds. x \<noteq> 0 \<Longrightarrow> length ds < 8 \<Longrightarrow> add x ds = Some (ds @ [x])"
    and "temporal_layer d < 8" "length (dependency_diffs d) \<le> 8" "\<forall>x\<in>set (dependency_diffs d). x \<noteq> 0 \<and> x < 2 ^ 14"
    and "res_width d < 65536" "res_height d < 65536" "length data = gfd_ValueSize d"
  shows "\<exists>bs. gfd_Write data d = Inr bs \<and> gfd_Parse add bs d0 = Inr (gfd_seen d d0, True)"
proof -
  note h = gfd_header_flags[OF assms(2)]
  have "gfd_Parse add (gfd_bytes d) d0 = Inr (gfd_seen d d0, True)"
  proof (cases "first_in_subframe d")
    case False
    then show ?thesis using h(1,2) by (simp add: gfd_bytes_def gfd_Parse_def gfd_seen_def)
  next
    case True
    consider "has_resolution d" | "dependency_diffs d = []" "\<not> has_resolution d" | "dependency_diffs d \<noteq> []" "\<not> has_resolution d"
      by (auto simp: has_resolution_def)
    then show ?thesis
    proof cases
      case 1
      then have "dependency_diffs d = []" "0 \<le> res_width d" "0 \<le> res_height d" by (auto simp: has_resolution_def)
      then show ?thesis using True 1 h assms(5,6)
        by (simp add: gfd_bytes_def gfd_Parse_def gfd_seen_def frame_id_bytes resolution_bytes Let_def)
    next
      case 2
      then show ?thesis using True h by (simp add: gfd_bytes_def gfd_Parse_def gfd_seen_def frame_id_bytes Let_def)
    next
      case 3
      let ?pre = "[gfd_header d, spatial_layers_bitmask d, ucast (frame_id d AND 0xff), ucast (drop_bit 8 (frame_id d))]"
      have "gfd_loop add (?pre @ diffs_bytes (dependency_diffs d)) 4 d1 =
          Inr (d1\<lparr>dependency_diffs := dependency_diffs d\<rparr>, True)" if "dependency_diffs d1 = []" for d1
      proof -
        have "length ?pre = 4" by simp
        then show ?thesis using gfd_loop_diffs[OF assms(1), of "dependency_diffs d" d1 ?pre] assms(3,4) 3 that by (simp only: append_Nil list.size) auto
      qed
      then show ?thesis using True 3 h by (simp add: gfd_bytes_def gfd_Parse_def gfd_seen_def frame_id_bytes Let_def)
    qed
  qed
  then show ?thesis using gfd_Write_ok[OF assms(7)] by blast
qed

lemma gfd_loop_safe: "offset \<le> length data \<Longrightarrow> \<exists>r. gfd_loop add data offset d = Inr r"
proof (induction add data offset d rule: gfd_loop.induct)
  case (1 add data offset d)
  then show ?case
    by (subst gfd_loop.simps) (auto simp: Let_def split: option.split)
qed

lemma gfd_Parse_safe: "\<exists>r. gfd_Parse add data d = Inr r"
  using gfd_loop_safe[of 4 data] by (auto simp: gfd_Parse_def Let_def)

definition sample_add_diff :: add_diff where
  "sample_add_diff x ds = (if x = 0 \<or> length ds \<ge> 8 then None else Some (ds @ [x]))"

definition sample_descriptor :: frame_descriptor where
  "sample_descriptor = \<lparr>first_in_subframe = True, last_in_subframe = False, temporal_layer = 2, spatial_layers_bitmask = 1, frame_id = 0x1234,
     dependency_diffs = [1, 100], res_width = 0, res_height = 0\<rparr>"

theorem frame_descriptor_roundtrip_witness:
  "\<exists>bs. gfd_Write (replicate 7 0) sample_descriptor = Inr bs \<and> gfd_Parse sample_add_diff bs sample_descriptor = Inr (sample_descriptor, True)"
proof -
  have "gfd_seen sample_descriptor sample_descriptor = sample_descriptor" by (simp add: gfd_seen_def sample_descriptor_def has_resolution_def)
  moreover have "length (replicate 7 0 :: byte list) = gfd_ValueSize sample_descriptor"
    by (simp add: gfd_ValueSize_def sample_descriptor_def has_resolution_def word_le_nat_alt)
  ultimately show ?thesis
    using frame_descriptor_roundtrip[of sample_add_diff sample_descriptor "replicate 7 0" sample_descriptor]
    by (simp add: sample_add_diff_def sample_descriptor_def)
qed
end
