(* ===== verification/Nack_Requester.thy ===== *)
theory Nack_Requester
  imports Prelude
begin

text \<open>
  \<open>NackRequester\<close> (\<open>modules/video_coding/nack_requester.{h,cpp}\<close>) with its histogram of reordering distances
  (\<open>histogram.cpp\<close>): the receiver's list of missing sequence numbers and the moments at which they are
  requested again.

  The comparison of 16-bit sequence numbers (\<open>AheadOf\<close>, \<open>ForwardDiff\<close>, \<open>ReverseDiff\<close> and \<open>DescendingSeqNumComp\<close> of
  WebRTC) and the arithmetic of \<open>float\<close> are parameters. The clock does not advance during a call.
\<close>

record 'f seq_env =
  AheadOf :: "u16 \<Rightarrow> u16 \<Rightarrow> bool"
  ForwardDiff :: "u16 \<Rightarrow> u16 \<Rightarrow> nat"
  ReverseDiff :: "u16 \<Rightarrow> u16 \<Rightarrow> nat"
  DescendingSeqNumComp :: "u16 \<Rightarrow> u16 \<Rightarrow> bool"
  float_zero :: 'f
  float_half :: 'f
  float_ratio :: "nat \<Rightarrow> nat \<Rightarrow> 'f"
  float_add :: "'f \<Rightarrow> 'f \<Rightarrow> 'f"
  float_less :: "'f \<Rightarrow> 'f \<Rightarrow> bool"

section \<open>The histogram\<close>

text \<open>\<open>reserved\<close> is the capacity of \<open>values_\<close> after \<open>reserve\<close>, which never grows: an element is appended only below it.\<close>

record histogram =
  samples :: "nat list"
  buckets :: "nat list"
  index :: nat
  reserved :: nat

definition Histogram_new :: "nat \<Rightarrow> nat \<Rightarrow> histogram" where
  "Histogram_new num_buckets max_num_packets =
     \<lparr>samples = [], buckets = replicate num_buckets 0, index = 0, reserved = max_num_packets\<rparr>"

text \<open>A change of one bucket; \<open>size_t\<close> wraps around.\<close>

definition bump :: "nat \<Rightarrow> (nat \<Rightarrow> nat) \<Rightarrow> nat list \<Rightarrow> error + nat list" where
  "bump i f bs = (if i < length bs then Inr (bs[i := f (bs ! i)]) else Inl OutOfBounds)"

definition Histogram_Add :: "nat \<Rightarrow> histogram \<Rightarrow> error + histogram" where
  "Histogram_Add v h =
     (let v = min v (size_sub (length (buckets h)) 1) in
      bindE (if index h < length (samples h)
             then bindE (bump (samples h ! index h) (\<lambda>n. size_sub n 1) (buckets h)) (\<lambda>bs.
               Inr (h\<lparr>buckets := bs, samples := (samples h)[index h := v]\<rparr>))
             else Inr (h\<lparr>samples := samples h @ [v]\<rparr>)) (\<lambda>h.
      bindE (bump v (\<lambda>n. n + 1) (buckets h)) (\<lambda>bs.
        if reserved h = 0 then Inl DivisionByZero
        else Inr (h\<lparr>buckets := bs, index := (index h + 1) mod reserved h\<rparr>))))"

fun cdf_loop :: "'f seq_env \<Rightarrow> 'f \<Rightarrow> nat \<Rightarrow> nat list \<Rightarrow> 'f \<Rightarrow> nat \<Rightarrow> nat" where
  "cdf_loop env probability n [] acc bucket = bucket"
| "cdf_loop env probability n (b # bs) acc bucket =
     (if float_less env acc probability
      then cdf_loop env probability n bs (float_add env acc (float_ratio env b n)) (bucket + 1)
      else bucket)"

definition InverseCdf :: "'f seq_env \<Rightarrow> 'f \<Rightarrow> histogram \<Rightarrow> nat" where
  "InverseCdf env probability h = cdf_loop env probability (length (samples h)) (buckets h) (float_zero env) 0"

definition NumValues :: "histogram \<Rightarrow> nat" where
  "NumValues h = length (samples h)"

section \<open>The requester\<close>

record nack_info =
  ni_seq_num :: u16
  send_at_seq_num :: u16
  created_time :: int
  send_at_time :: int
  retries :: int

definition NackInfo_new :: "u16 \<Rightarrow> u16 \<Rightarrow> int \<Rightarrow> nack_info" where
  "NackInfo_new seq send_at created =
     \<lparr>ni_seq_num = seq, send_at_seq_num = send_at, created_time = created, send_at_time = - 1, retries = 0\<rparr>"

text \<open>A \<open>std::map\<close> or \<open>std::set\<close> ordered by a comparison is the list of its elements in order.\<close>

record nack_requester =
  initialized :: bool
  newest_seq_num :: u16
  nack_list :: "(u16 \<times> nack_info) list"
  rtt_ms :: int
  keyframe_list :: "u16 list"
  send_nack_delay_ms :: int
  reordering_histogram :: histogram

datatype NackFilterOptions = kSeqNumOnly | kTimeOnly | kSeqNumAndTime

definition kMaxNackRetries :: int where
  "kMaxNackRetries = 10"

definition kDefaultRttMs :: int where
  "kDefaultRttMs = 100"

definition kMaxPacketAge :: u16 where
  "kMaxPacketAge = 10000"

definition kMaxNackPackets :: nat where
  "kMaxNackPackets = 1000"

definition kMaxReorderingPackets :: nat where
  "kMaxReorderingPackets = 128"

definition kNumReorderingBuckets :: nat where
  "kNumReorderingBuckets = 10"

definition NackRequester_new :: nack_requester where
  "NackRequester_new =
     \<lparr>initialized = False, newest_seq_num = 0, nack_list = [], rtt_ms = kDefaultRttMs, keyframe_list = [], send_nack_delay_ms = 0,
      reordering_histogram = Histogram_new kNumReorderingBuckets kMaxReorderingPackets\<rparr>"

definition UpdateRtt :: "int \<Rightarrow> nack_requester \<Rightarrow> nack_requester" where
  "UpdateRtt rtt st = st\<lparr>rtt_ms := rtt\<rparr>"

text \<open>Ordered insertion: an element with an equal key is replaced in a map and kept in a set.\<close>

fun map_put :: "(u16 \<Rightarrow> u16 \<Rightarrow> bool) \<Rightarrow> u16 \<Rightarrow> 'v \<Rightarrow> (u16 \<times> 'v) list \<Rightarrow> (u16 \<times> 'v) list" where
  "map_put before k v [] = [(k, v)]"
| "map_put before k v ((k', v') # xs) =
     (if before k' k then (k', v') # map_put before k v xs
      else if before k k' then (k, v) # (k', v') # xs
      else (k', v) # xs)"

fun set_put :: "(u16 \<Rightarrow> u16 \<Rightarrow> bool) \<Rightarrow> u16 \<Rightarrow> u16 list \<Rightarrow> u16 list" where
  "set_put before k [] = [k]"
| "set_put before k (k' # xs) =
     (if before k' k then k' # set_put before k xs else if before k k' then k # k' # xs else k' # xs)"

text \<open>\<open>erase(begin(), lower_bound(k))\<close>.\<close>

definition erase_before :: "(u16 \<Rightarrow> u16 \<Rightarrow> bool) \<Rightarrow> u16 \<Rightarrow> (u16 \<times> 'v) list \<Rightarrow> (u16 \<times> 'v) list" where
  "erase_before before k = dropWhile (\<lambda>e. before (fst e) k)"

definition UpdateReorderingStat :: "'f seq_env \<Rightarrow> u16 \<Rightarrow> nack_requester \<Rightarrow> error + nack_requester" where
  "UpdateReorderingStat env seq_num st =
     bindE (Histogram_Add (ReverseDiff env (newest_seq_num st) seq_num) (reordering_histogram st)) (\<lambda>h.
       Inr (st\<lparr>reordering_histogram := h\<rparr>))"

definition WaitNumberOfPackets :: "'f seq_env \<Rightarrow> 'f \<Rightarrow> nack_requester \<Rightarrow> nat" where
  "WaitNumberOfPackets env probability st =
     (if NumValues (reordering_histogram st) = 0 then 0 else InverseCdf env probability (reordering_histogram st))"

fun remove_until_keyframe :: "'f seq_env \<Rightarrow> (u16 \<times> nack_info) list \<Rightarrow> u16 list \<Rightarrow> (u16 \<times> nack_info) list \<times> u16 list \<times> bool" where
  "remove_until_keyframe env nl [] = (nl, [], False)"
| "remove_until_keyframe env nl (k # ks) =
     (let nl' = erase_before (DescendingSeqNumComp env) k nl in
      if nl' \<noteq> nl then (nl', k # ks, True) else remove_until_keyframe env nl ks)"

definition RemovePacketsUntilKeyFrame :: "'f seq_env \<Rightarrow> nack_requester \<Rightarrow> nack_requester \<times> bool" where
  "RemovePacketsUntilKeyFrame env st =
     (case remove_until_keyframe env (nack_list st) (keyframe_list st) of
        (nl, ks, removed) \<Rightarrow> (st\<lparr>nack_list := nl, keyframe_list := ks\<rparr>, removed))"

lemma erase_before_length: "length (erase_before before k xs) \<le> length xs"
  by (simp add: erase_before_def length_dropWhile_le)

lemma erase_before_less: "erase_before before k xs \<noteq> xs \<Longrightarrow> length (erase_before before k xs) < length xs"
  unfolding erase_before_def by (cases xs) (auto simp: le_imp_less_Suc length_dropWhile_le split: if_splits)

lemma remove_until_keyframe_less: "remove_until_keyframe env nl ks = (nl', ks', True) \<Longrightarrow> length nl' < length nl"
  by (induction ks) (auto simp: Let_def erase_before_less split: if_splits)

lemma RemovePackets_less: "RemovePacketsUntilKeyFrame env st = (st', True) \<Longrightarrow> length (nack_list st') < length (nack_list st)"
  by (auto simp: RemovePacketsUntilKeyFrame_def dest: remove_until_keyframe_less split: prod.splits)

text \<open>The loop that makes room for \<open>n\<close> numbers.\<close>

function make_room :: "'f seq_env \<Rightarrow> nat \<Rightarrow> nack_requester \<Rightarrow> nack_requester" where
  "make_room env n st =
     (case RemovePacketsUntilKeyFrame env st of
        (st', removed) \<Rightarrow>
          if removed \<and> length (nack_list st') + n > kMaxNackPackets then make_room env n st' else st')"
  by pat_completeness auto
termination
  by (relation "measure (\<lambda>(_, _, st). length (nack_list st))") (auto dest!: RemovePackets_less [OF sym])

declare make_room.simps [simp del]

text \<open>The loop over the missing numbers, which ends because the counter wraps around.\<close>

function add_loop :: "'f seq_env \<Rightarrow> int \<Rightarrow> nat \<Rightarrow> u16 \<Rightarrow> u16 \<Rightarrow> (u16 \<times> nack_info) list \<Rightarrow> (u16 \<times> nack_info) list" where
  "add_loop env now wait seq_num seq_num_end nl =
     (if seq_num = seq_num_end then nl
      else add_loop env now wait (seq_num + 1) seq_num_end
             (map_put (DescendingSeqNumComp env) seq_num (NackInfo_new seq_num (seq_num + of_nat wait) now) nl))"
  by pat_completeness auto
termination
proof (relation "measure (\<lambda>(_, _, _, seq_num, seq_num_end, _). unat (seq_num_end - seq_num))")
  fix env :: "'f seq_env" and now wait seq_num seq_num_end nl
  assume "seq_num \<noteq> (seq_num_end :: u16)"
  then have "unat (seq_num_end - seq_num - 1) < unat (seq_num_end - seq_num)" by (intro measure_unat) simp
  then show "((env, now, wait, seq_num + 1, seq_num_end,
      map_put (DescendingSeqNumComp env) seq_num (NackInfo_new seq_num (seq_num + of_nat wait) now) nl), env, now, wait, seq_num, seq_num_end, nl)
    \<in> measure (\<lambda>(_, _, _, seq_num, seq_num_end, _). unat (seq_num_end - seq_num))"
    by (simp add: diff_diff_eq2 diff_diff_eq add.commute)
qed simp

declare add_loop.simps [simp del]

definition AddPacketsToNack :: "'f seq_env \<Rightarrow> int \<Rightarrow> u16 \<Rightarrow> u16 \<Rightarrow> nack_requester \<Rightarrow> nack_requester" where
  "AddPacketsToNack env now seq_num_start seq_num_end st =
     (let st = st\<lparr>nack_list := erase_before (DescendingSeqNumComp env) (seq_num_end - kMaxPacketAge) (nack_list st)\<rparr>;
          new_nack_num = ForwardDiff env seq_num_start seq_num_end;
          st = (if length (nack_list st) + new_nack_num > kMaxNackPackets then make_room env new_nack_num st else st) in
      if length (nack_list st) + new_nack_num > kMaxNackPackets then st\<lparr>nack_list := []\<rparr>
      else st\<lparr>nack_list := add_loop env now (WaitNumberOfPackets env (float_half env) st) seq_num_start seq_num_end (nack_list st)\<rparr>)"

text \<open>The loop of \<open>GetNackBatch\<close>. After erasing an entry the log line reads the one after it, also at the end.\<close>

definition nack_due :: "'f seq_env \<Rightarrow> NackFilterOptions \<Rightarrow> int \<Rightarrow> nack_requester \<Rightarrow> nack_info \<Rightarrow> bool" where
  "nack_due env options now st i \<longleftrightarrow>
     now - created_time i \<ge> send_nack_delay_ms st \<and>
     (options \<noteq> kTimeOnly \<and> send_at_time i = - 1 \<and> AheadOf env (newest_seq_num st) (send_at_seq_num i) \<or>
      options \<noteq> kSeqNumOnly \<and> now - send_at_time i > rtt_ms st)"

fun batch_loop :: "(nack_info \<Rightarrow> bool) \<Rightarrow> int \<Rightarrow> (u16 \<times> nack_info) list \<Rightarrow> error + (u16 \<times> nack_info) list \<times> u16 list" where
  "batch_loop due now [] = Inr ([], [])"
| "batch_loop due now ((k, i) # rest) =
     (if due i then
        let i' = i\<lparr>retries := retries i + 1, send_at_time := now\<rparr> in
        if retries i' \<ge> kMaxNackRetries \<and> rest = [] then Inl OutOfBounds
        else bindE (batch_loop due now rest) (\<lambda>(nl, batch).
          Inr (if retries i' \<ge> kMaxNackRetries then nl else (k, i') # nl, ni_seq_num i # batch))
      else bindE (batch_loop due now rest) (\<lambda>(nl, batch). Inr ((k, i) # nl, batch)))"

definition GetNackBatch :: "'f seq_env \<Rightarrow> int \<Rightarrow> NackFilterOptions \<Rightarrow> nack_requester \<Rightarrow> error + nack_requester \<times> u16 list" where
  "GetNackBatch env now options st =
     bindE (batch_loop (nack_due env options now st) now (nack_list st)) (\<lambda>(nl, batch). Inr (st\<lparr>nack_list := nl\<rparr>, batch))"

text \<open>The result is the state, the returned number and what is signalled by \<open>SignalSendNack\<close>.\<close>

definition OnReceivedPacket ::
  "'f seq_env \<Rightarrow> int \<Rightarrow> u16 \<Rightarrow> bool \<Rightarrow> bool \<Rightarrow> nack_requester \<Rightarrow> error + nack_requester \<times> int \<times> u16 list option" where
  "OnReceivedPacket env now seq_num is_keyframe is_retransmitted st =
     (if \<not> initialized st then
        Inr (st\<lparr>newest_seq_num := seq_num, initialized := True,
                keyframe_list := if is_keyframe then set_put (DescendingSeqNumComp env) seq_num (keyframe_list st) else keyframe_list st\<rparr>, 0, None)
      else if seq_num = newest_seq_num st then Inr (st, 0, None)
      else if AheadOf env (newest_seq_num st) seq_num then
        let nacks_sent = (case map_of (nack_list st) seq_num of None \<Rightarrow> 0 | Some i \<Rightarrow> retries i);
            st = st\<lparr>nack_list := filter (\<lambda>e. fst e \<noteq> seq_num) (nack_list st)\<rparr> in
        bindE (if is_retransmitted then Inr st else UpdateReorderingStat env seq_num st) (\<lambda>st. Inr (st, nacks_sent, None))
      else
        let ks = (if is_keyframe then set_put (DescendingSeqNumComp env) seq_num (keyframe_list st) else keyframe_list st);
            st = st\<lparr>keyframe_list := dropWhile (\<lambda>k. DescendingSeqNumComp env k (seq_num - kMaxPacketAge)) ks\<rparr>;
            st = (AddPacketsToNack env now (newest_seq_num st + 1) seq_num st)\<lparr>newest_seq_num := seq_num\<rparr> in
        bindE (GetNackBatch env now kSeqNumOnly st) (\<lambda>(st, batch).
          Inr (st, 0, if batch = [] then None else Some batch)))"

definition ProcessNacks :: "'f seq_env \<Rightarrow> int \<Rightarrow> nack_requester \<Rightarrow> error + nack_requester \<times> u16 list option" where
  "ProcessNacks env now st =
     bindE (GetNackBatch env now kTimeOnly st) (\<lambda>(st, batch). Inr (st, if batch = [] then None else Some batch))"

end
