(* ===== verification/Nack_Correct.thy ===== *)
theory Nack_Correct
  imports Nack_Requester
begin

text \<open>
  Correctness of the NACK requester: the order of sequence numbers around the wrap-around, the invariant of
  the list of missing numbers and of the histogram, and that missing packets are requested. The laws
  of WebRTC's sequence number comparison are the locale \<open>seq_lib\<close>.
\<close>

section \<open>Sequence numbers\<close>

text \<open>The documented behaviour of WebRTC's sequence number functions for 16 bits.\<close>

locale seq_lib =
  fixes env :: "'f seq_env"
  assumes ahead: "AheadOf env a b \<longleftrightarrow> a \<noteq> b \<and> (unat (a - b) < 2 ^ 15 \<or> unat (a - b) = 2 ^ 15 \<and> b < a)"
    and fwd: "ForwardDiff env a b = unat (b - a)"
    and rev_diff: "ReverseDiff env a b = unat (a - b)"
    and desc: "DescendingSeqNumComp env a b \<longleftrightarrow> AheadOf env b a"

text \<open>How far a number is behind another one.\<close>

definition age :: "u16 \<Rightarrow> u16 \<Rightarrow> nat" where
  "age n k = unat (n - k)"

lemma age_diff:
  fixes x y :: u16
  shows "unat (x - y) = (if unat y \<le> unat x then unat x - unat y else unat x + 2 ^ 16 - unat y)"
  by (simp add: unat_sub_if')

lemma age_zero: "age n k = 0 \<longleftrightarrow> n = k"
  by (simp add: age_def unat_eq_0)

lemma age_inj: "age n a = age n b \<Longrightarrow> a = b"
  by (simp add: age_def word_unat_eq_iff [symmetric])

lemma age_add:
  assumes "age e n + age n k < 2 ^ 16"
  shows "age e k = age e n + age n k"
proof -
  have "e - k = (e - n) + (n - k)" by simp
  then have "age e k = (age e n + age n k) mod 2 ^ 16" by (simp only: age_def unat_word_ariths) simp
  then show ?thesis using assms by simp
qed

context seq_lib
begin

lemma before_age:
  assumes "age n a < 2 ^ 15" and "age n b < 2 ^ 15"
  shows "DescendingSeqNumComp env a b \<longleftrightarrow> age n b < age n a"
proof -
  have e: "b - a = (n - a) - (n - b)" by simp
  have "unat (b - a) = (if age n b \<le> age n a then age n a - age n b else age n a + 2 ^ 16 - age n b)"
    unfolding e age_def by (rule age_diff)
  then show ?thesis using assms age_inj [of n a b] by (cases "age n a = age n b") (auto simp: desc ahead)
qed

lemma newer:
  assumes "\<not> AheadOf env n e" and "e \<noteq> n"
  shows "1 \<le> age e n" "age e n \<le> 2 ^ 15"
proof -
  show "1 \<le> age e n" using assms(2) age_zero [of e n] by (cases "age e n") auto
  have "unat (n - e) \<ge> 2 ^ 15" using assms by (auto simp: ahead)
  moreover have "unat (e - n) = 2 ^ 16 - unat (n - e)" if "n \<noteq> e"
  proof -
    have "e - n = 0 - (n - e)" by simp
    moreover have "unat (n - e) \<noteq> 0" using that by (simp add: unat_eq_0)
    ultimately show ?thesis using age_diff [of 0 "n - e"] by simp
  qed
  ultimately show "age e n \<le> 2 ^ 15" using assms(2) by (simp add: age_def)
qed

end

section \<open>The list of missing numbers\<close>

definition info_ok :: "u16 \<Rightarrow> u16 \<times> nack_info \<Rightarrow> bool" where
  "info_ok n e \<longleftrightarrow> ni_seq_num (snd e) = fst e \<and> 1 \<le> age n (fst e) \<and> age n (fst e) \<le> 10000 \<and> 0 \<le> retries (snd e) \<and>
     retries (snd e) < kMaxNackRetries \<and> (send_at_time (snd e) = - 1 \<longrightarrow> retries (snd e) = 0)"

abbreviation oldest_first :: "u16 \<Rightarrow> (u16 \<times> 'v) list \<Rightarrow> bool" where
  "oldest_first n \<equiv> sorted_wrt (\<lambda>a b. age n (fst b) < age n (fst a))"

definition list_ok :: "u16 \<Rightarrow> (u16 \<times> nack_info) list \<Rightarrow> bool" where
  "list_ok n nl \<longleftrightarrow> oldest_first n nl \<and> list_all (info_ok n) nl \<and> length nl \<le> kMaxNackPackets"

lemma list_ok_Nil [simp]: "list_ok n []"
  by (simp add: list_ok_def)

lemma list_ok_filter: "list_ok n nl \<Longrightarrow> list_ok n (filter P nl)"
  by (auto simp: list_ok_def sorted_wrt_filter list_all_iff intro: order_trans [OF length_filter_le])

lemma list_ok_drop: "list_ok n nl \<Longrightarrow> list_ok n (drop m nl)"
  by (auto simp: list_ok_def sorted_wrt_drop list_all_iff dest: in_set_dropD)

lemma oldest_first_distinct: "oldest_first n nl \<Longrightarrow> distinct (map fst nl)"
  by (induction nl) auto

text \<open>The update of an entry that is requested, and the whole loop in one expression.\<close>

definition asked :: "int \<Rightarrow> nack_info \<Rightarrow> nack_info" where
  "asked now i = i\<lparr>retries := retries i + 1, send_at_time := now\<rparr>"

definition exhausted :: "(nack_info \<Rightarrow> bool) \<Rightarrow> nack_info \<Rightarrow> bool" where
  "exhausted due i \<longleftrightarrow> due i \<and> retries i + 1 \<ge> kMaxNackRetries"

definition after_batch :: "(nack_info \<Rightarrow> bool) \<Rightarrow> int \<Rightarrow> (u16 \<times> nack_info) list \<Rightarrow> (u16 \<times> nack_info) list" where
  "after_batch due now nl = map (\<lambda>(k, i). (k, if due i then asked now i else i)) (filter (\<lambda>e. \<not> exhausted due (snd e)) nl)"

lemma batch_loop_eq:
  "batch_loop due now nl =
    (if nl \<noteq> [] \<and> exhausted due (snd (last nl)) then Inl OutOfBounds
     else Inr (after_batch due now nl, map (\<lambda>e. ni_seq_num (snd e)) (filter (\<lambda>e. due (snd e)) nl)))"
  by (induction nl) (auto simp: exhausted_def after_batch_def asked_def Let_def)

lemma after_batch_ok:
  assumes "list_ok n nl" and "0 \<le> now"
  shows "list_ok n (after_batch due now nl)"
proof -
  define nl' where "nl' = filter (\<lambda>e. \<not> exhausted due (snd e)) nl"
  have ok: "list_ok n nl'" unfolding nl'_def by (rule list_ok_filter [OF assms(1)])
  have e: "after_batch due now nl = map (\<lambda>(k, i). (k, if due i then asked now i else i)) nl'" by (simp add: after_batch_def nl'_def)
  have "oldest_first n (after_batch due now nl)" using ok by (simp add: e list_ok_def sorted_wrt_map case_prod_unfold)
  moreover have "info_ok n x" if mem: "x \<in> set (after_batch due now nl)" for x
  proof -
    obtain k i where x: "(k, i) \<in> set nl'" "x = (k, if due i then asked now i else i)" using mem by (auto simp: e)
    then have "info_ok n (k, i)" "\<not> exhausted due i" using ok by (auto simp: list_ok_def list_all_iff nl'_def)
    then show ?thesis using assms(2) by (auto simp: x(2) info_ok_def asked_def exhausted_def)
  qed
  ultimately show ?thesis using ok by (simp add: list_ok_def list_all_iff e)
qed

lemma keys_after_batch:
  assumes "\<And>e. e \<in> set nl \<Longrightarrow> \<not> exhausted due (snd e)"
  shows "map fst (after_batch due now nl) = map fst nl"
  using assms by (simp add: after_batch_def case_prod_unfold comp_def)

section \<open>Adding missing numbers\<close>

lemma map_put_append: "\<forall>x \<in> set xs. before (fst x) k \<Longrightarrow> map_put before k v xs = xs @ [(k, v)]"
  by (induction xs) auto

lemma age_pos: "Suc n = age e s \<Longrightarrow> s \<noteq> e"
  using age_zero [of e s] by auto

definition fresh :: "int \<Rightarrow> nat \<Rightarrow> u16 \<Rightarrow> u16 \<times> nack_info" where
  "fresh now wait k = (k, NackInfo_new k (k + of_nat wait) now)"

text \<open>The numbers from \<open>s\<close> up to, but not including, \<open>e\<close>.\<close>

definition gap :: "u16 \<Rightarrow> u16 \<Rightarrow> u16 list" where
  "gap s e = map (\<lambda>j. s + of_nat j) [0..<unat (e - s)]"

lemma length_gap [simp]: "length (gap s e) = age e s"
  by (simp add: gap_def age_def)

lemma gap_Nil [simp]: "gap e e = []"
  by (simp add: gap_def)

lemma age_Suc:
  assumes "s \<noteq> e"
  shows "age e s = Suc (age e (s + 1))"
proof -
  have e: "e - (s + 1) = (e - s) - 1" by simp
  have ne: "e - s \<noteq> 0" using assms by simp
  have "unat (e - s) \<noteq> 0" using ne by (simp only: unat_eq_0 not_False_eq_True)
  then show ?thesis unfolding age_def e using unat_minus_one [OF ne] by simp
qed

lemma gap_Cons:
  assumes "s \<noteq> e"
  shows "gap s e = s # gap (s + 1) e"
proof -
  have "gap s e = map (\<lambda>j. s + of_nat j) [0..<Suc (age e (s + 1))]" using age_Suc [OF assms] by (simp add: gap_def age_def)
  also have "\<dots> = s # map (\<lambda>j. s + of_nat (Suc j)) [0..<age e (s + 1)]" by (simp add: upt_conv_Cons map_Suc_upt [symmetric] comp_def del: upt_Suc)
  finally show ?thesis by (simp add: gap_def age_def add.assoc add.commute)
qed

lemma gap_age:
  assumes "x \<in> set (gap s e)"
  shows "1 \<le> age e x \<and> age e x \<le> age e s"
  using assms
proof (induction "age e s" arbitrary: s)
  case 0
  then show ?case by (simp add: age_zero)
next
  case (Suc n)
  then have ne: "s \<noteq> e" by (intro age_pos)
  note a = age_Suc [OF ne]
  from Suc.prems ne have "x = s \<or> x \<in> set (gap (s + 1) e)" by (simp add: gap_Cons)
  then show ?case using Suc.hyps(1) [of "s + 1"] Suc.hyps(2) a by (auto dest: le_SucI)
qed

lemma gap_sorted: "sorted_wrt (\<lambda>a b. age e b < age e a) (gap s e)"
proof (induction "age e s" arbitrary: s)
  case 0
  then show ?case by (simp add: age_zero)
next
  case (Suc n)
  then have "s \<noteq> e" by (intro age_pos)
  with Suc age_Suc [OF this] gap_age [of _ "s + 1" e] show ?case by (fastforce simp: gap_Cons)
qed

context seq_lib
begin

lemma add_loop_eq:
  assumes "age e s < 2 ^ 15" and "\<And>x. x \<in> set nl \<Longrightarrow> age e s < age e (fst x) \<and> age e (fst x) < 2 ^ 15"
  shows "add_loop env now wait s e nl = nl @ map (fresh now wait) (gap s e)"
  using assms
proof (induction "age e s" arbitrary: s nl)
  case 0
  then have "e = s" by (simp add: age_zero)
  then show ?case by (simp add: add_loop.simps)
next
  case (Suc n)
  then have ne: "s \<noteq> e" by (intro age_pos)
  have "map_put (DescendingSeqNumComp env) s v nl = nl @ [(s, v)]" for v
    by (rule map_put_append) (use Suc.prems in \<open>simp add: before_age [of e]\<close>)
  then have "add_loop env now wait s e nl = add_loop env now wait (s + 1) e (nl @ [fresh now wait s])"
    using ne by (subst add_loop.simps) (simp add: fresh_def)
  also have "\<dots> = (nl @ [fresh now wait s]) @ map (fresh now wait) (gap (s + 1) e)"
  proof (rule Suc.hyps(1))
    show "n = age e (s + 1)" "age e (s + 1) < 2 ^ 15" using age_Suc [OF ne] Suc.hyps(2) Suc.prems(1) by simp_all
    fix x assume "x \<in> set (nl @ [fresh now wait s])"
    then show "age e (s + 1) < age e (fst x) \<and> age e (fst x) < 2 ^ 15"
      using age_Suc [OF ne] Suc.prems(1) Suc.prems(2) [of x] by (auto simp: fresh_def)
  qed
  finally show ?case using ne by (simp add: gap_Cons)
qed

lemma dropWhile_filter: "sorted_wrt (\<lambda>a b. P b \<longrightarrow> P a) xs \<Longrightarrow> dropWhile P xs = filter (\<lambda>x. \<not> P x) xs"
proof (induction xs)
  case (Cons x xs)
  then show ?case by (cases "P x") (auto intro!: filter_True [symmetric])
qed simp

lemma age_minus: "unat d \<le> 2 ^ 16 \<Longrightarrow> age e (e - d) = unat d"
  by (simp add: age_def)

lemma erase_old:
  assumes "oldest_first n nl" and "\<And>x. x \<in> set nl \<Longrightarrow> age n (fst x) \<le> 10000" and "age e n \<le> 1001"
  shows "erase_before (DescendingSeqNumComp env) (e - kMaxPacketAge) nl = filter (\<lambda>x. age e (fst x) \<le> 10000) nl"
proof -
  have shift: "age e (fst x) = age e n + age n (fst x)" if "x \<in> set nl" for x
    using assms(2) [OF that] assms(3) by (intro age_add) simp
  have b: "DescendingSeqNumComp env (fst x) (e - kMaxPacketAge) \<longleftrightarrow> 10000 < age e (fst x)" if "x \<in> set nl" for x
    using before_age [of e "fst x" "e - kMaxPacketAge"] shift [OF that] assms(2) [OF that] assms(3) by (simp add: age_def kMaxPacketAge_def)
  have "erase_before (DescendingSeqNumComp env) (e - kMaxPacketAge) nl = dropWhile (\<lambda>x. 10000 < age e (fst x)) nl"
    unfolding erase_before_def using b by (rule dropWhile_cong [OF refl])
  also have "\<dots> = filter (\<lambda>x. \<not> 10000 < age e (fst x)) nl"
  proof (rule dropWhile_filter)
    show "sorted_wrt (\<lambda>a b. 10000 < age e (fst b) \<longrightarrow> 10000 < age e (fst a)) nl"
      by (rule sorted_wrt_mono_rel [OF _ assms(1)]) (simp add: shift)
  qed
  finally show ?thesis by (simp add: not_less)
qed

end

lemma remove_until_suffix: "remove_until_keyframe env nl ks = (nl', ks', r) \<Longrightarrow> \<exists>m. nl' = drop m nl"
proof (induction ks)
  case (Cons k ks)
  obtain m where m: "erase_before (DescendingSeqNumComp env) k nl = drop m nl" by (simp add: erase_before_def dropWhile_eq_drop)
  show ?case
  proof (cases "erase_before (DescendingSeqNumComp env) k nl = nl")
    case False
    then have "nl' = drop m nl" using Cons.prems m by (simp add: Let_def)
    then show ?thesis ..
  qed (use Cons in \<open>simp add: Let_def\<close>)
qed (auto intro: exI [of _ 0])

text \<open>What making room leaves alone.\<close>

definition shrunk :: "nack_requester \<Rightarrow> nack_requester \<Rightarrow> bool" where
  "shrunk st st' \<longleftrightarrow> (\<exists>m ks. st' = st\<lparr>nack_list := drop m (nack_list st), keyframe_list := ks\<rparr>)"

lemma make_room_shrunk: "shrunk st (make_room env n st)"
proof (induction env n st rule: make_room.induct)
  case (1 env n st)
  obtain st' r where R: "RemovePacketsUntilKeyFrame env st = (st', r)" by fastforce
  then obtain m ks where m: "st' = st\<lparr>nack_list := drop m (nack_list st), keyframe_list := ks\<rparr>"
    by (auto simp: RemovePacketsUntilKeyFrame_def dest: remove_until_suffix split: prod.splits)
  have "shrunk st (make_room env n st')" if "r \<and> kMaxNackPackets < length (nack_list st') + n"
  proof -
    have "shrunk st' (make_room env n st')" using "1.IH" [OF R [symmetric]] that by simp
    then show ?thesis by (auto simp: shrunk_def m)
  qed
  moreover have "shrunk st st'" using m by (auto simp: shrunk_def)
  ultimately show ?case by (subst make_room.simps) (simp add: R)
qed

section \<open>The histogram\<close>

text \<open>Every bucket counts the samples of its value, and the samples form a ring.\<close>

definition hist_ok :: "histogram \<Rightarrow> bool" where
  "hist_ok h \<longleftrightarrow> length (buckets h) = kNumReorderingBuckets \<and> reserved h = kMaxReorderingPackets \<and>
     length (samples h) \<le> kMaxReorderingPackets \<and> index h < kMaxReorderingPackets \<and>
     (length (samples h) < kMaxReorderingPackets \<longrightarrow> index h = length (samples h)) \<and>
     (\<forall>v \<in> set (samples h). v < kNumReorderingBuckets) \<and> (\<forall>j < kNumReorderingBuckets. buckets h ! j = count_list (samples h) j)"

lemma hist_new: "hist_ok (Histogram_new kNumReorderingBuckets kMaxReorderingPackets)"
  by (simp add: hist_ok_def Histogram_new_def kNumReorderingBuckets_def kMaxReorderingPackets_def)

lemma count_list_update:
  assumes "i < length xs"
  shows "count_list (xs[i := v]) j + (if xs ! i = j then 1 else 0) = count_list xs j + (if v = j then 1 else 0)"
proof -
  have "count_list xs j = count_list (take i xs @ xs ! i # drop (Suc i) xs) j" using id_take_nth_drop [OF assms] by simp
  then show ?thesis using assms by (simp add: upd_conv_take_nth_drop)
qed

lemma Histogram_Add_ok:
  assumes "hist_ok h"
  shows "returns hist_ok (Histogram_Add v h)"
proof -
  have c: "length (buckets h) = 10" "reserved h = 128" "length (samples h) \<le> 128" "index h < 128"
    "length (samples h) < 128 \<longrightarrow> index h = length (samples h)" "\<forall>v \<in> set (samples h). v < 10" "\<forall>j < 10. buckets h ! j = count_list (samples h) j"
    using assms by (simp_all add: hist_ok_def kNumReorderingBuckets_def kMaxReorderingPackets_def)
  define w where "w = min v 9"
  have w: "w < 10" "min v (size_sub (length (buckets h)) 1) = w" by (simp_all add: w_def c(1))
  show ?thesis
  proof (cases "index h < length (samples h)")
    case True
    define x where "x = samples h ! index h"
    have "x \<in> set (samples h)" using True by (simp add: x_def)
    then have x: "x < 10" "0 < count_list (samples h) x" using c(6) count_list_0_iff [of "samples h" x] by auto
    define bs where "bs = (buckets h)[x := buckets h ! x - 1]"
    have len: "length (samples h) = 128" using True c(3,5) by auto
    have A: "Histogram_Add v h = Inr (h\<lparr>buckets := bs[w := bs ! w + 1], samples := (samples h)[index h := w], index := (index h + 1) mod 128\<rparr>)"
      using True x c w by (simp add: Histogram_Add_def Let_def bump_def bs_def x_def [symmetric] size_sub_def del: bindE_eq_Inr)
    have "bs[w := bs ! w + 1] ! j = count_list ((samples h)[index h := w]) j" if "j < 10" for j
      using count_list_update [OF True, of w j, folded x_def] x c(1,7) w that
      by (auto simp: bs_def nth_list_update split: if_splits)
    moreover have "\<forall>v \<in> set ((samples h)[index h := w]). v < 10" using c(6) w(1) set_update_subset_insert [of "samples h" "index h" w] by auto
    ultimately show ?thesis using c len by (simp add: A hist_ok_def kNumReorderingBuckets_def kMaxReorderingPackets_def bs_def)
  next
    case False
    have i: "index h = length (samples h)" "length (samples h) < 128" using False c(3,4,5) by auto
    have A: "Histogram_Add v h = Inr (h\<lparr>samples := samples h @ [w], buckets := (buckets h)[w := buckets h ! w + 1], index := (index h + 1) mod 128\<rparr>)"
      using False c w by (simp add: Histogram_Add_def Let_def bump_def del: bindE_eq_Inr)
    have "length (samples h) + 1 = 128 \<or> length (samples h) + 1 < 128" using i by linarith
    then show ?thesis using c w i
      by (auto simp: A hist_ok_def kNumReorderingBuckets_def kMaxReorderingPackets_def nth_list_update)
  qed
qed

lemma cdf_loop_bound: "cdf_loop env p n bs acc b \<le> b + length bs"
  by (induction env p n bs acc b rule: cdf_loop.induct) auto

lemma wait_bound: "hist_ok (reordering_histogram st) \<Longrightarrow> WaitNumberOfPackets env p st \<le> kNumReorderingBuckets"
  using cdf_loop_bound [of env p "length (samples (reordering_histogram st))" "buckets (reordering_histogram st)" "float_zero env" 0]
  by (simp add: WaitNumberOfPackets_def InverseCdf_def hist_ok_def)

section \<open>The requester\<close>

definition nack_ok :: "nack_requester \<Rightarrow> bool" where
  "nack_ok st \<longleftrightarrow> hist_ok (reordering_histogram st) \<and> list_ok (newest_seq_num st) (nack_list st) \<and> send_nack_delay_ms st = 0 \<and>
     (\<not> initialized st \<longrightarrow> nack_list st = [])"

context seq_lib
begin

lemma list_ok_shift:
  assumes "list_ok n nl" and "age e n \<le> 1001" and "\<forall>x \<in> set nl. age e (fst x) \<le> 10000"
  shows "list_ok e nl" "\<And>x. x \<in> set nl \<Longrightarrow> age e (fst x) = age e n + age n (fst x)"
proof -
  show s: "age e (fst x) = age e n + age n (fst x)" if "x \<in> set nl" for x
    using assms(1,2) that by (intro age_add) (auto simp: list_ok_def list_all_iff info_ok_def)
  have "oldest_first e nl"
    by (rule sorted_wrt_mono_rel [of nl "\<lambda>a b. age n (fst b) < age n (fst a)"]) (use assms(1) s in \<open>auto simp: list_ok_def\<close>)
  moreover have "info_ok e x" if "x \<in> set nl" for x
    using assms(1,3) s [OF that] that by (auto simp: list_ok_def list_all_iff info_ok_def)
  ultimately show "list_ok e nl" using assms(1) by (simp add: list_ok_def list_all_iff)
qed

lemma list_ok_extend:
  assumes "list_ok e nl" and "\<And>x. x \<in> set nl \<Longrightarrow> age e s < age e (fst x)" and "length nl + age e s \<le> kMaxNackPackets"
  shows "list_ok e (nl @ map (fresh now wait) (gap s e))"
proof -
  have f: "fst (fresh now wait k) = k" for k by (simp add: fresh_def)
  have "info_ok e (fresh now wait k)" if "k \<in> set (gap s e)" for k
    using gap_age [OF that] assms(3) by (simp add: info_ok_def fresh_def NackInfo_new_def kMaxNackRetries_def kMaxNackPackets_def)
  moreover have "oldest_first e (nl @ map (fresh now wait) (gap s e))"
    using assms(1,2) gap_sorted [of e s] gap_age [of _ s e] by (force simp: sorted_wrt_append sorted_wrt_map f list_ok_def)
  ultimately show ?thesis using assms(1,3) by (auto simp: list_ok_def list_all_iff)
qed

end

text \<open>The entries of a list that are not too old for the newest number \<open>e\<close>.\<close>

abbreviation recent :: "u16 \<Rightarrow> (u16 \<times> 'v) list \<Rightarrow> (u16 \<times> 'v) list" where
  "recent e nl \<equiv> filter (\<lambda>x. age e (fst x) \<le> 10000) nl"

text \<open>The entries that a new number makes due: those not yet requested, once enough later packets have come.\<close>

definition first_due :: "'f seq_env \<Rightarrow> int \<Rightarrow> u16 \<Rightarrow> nack_info \<Rightarrow> bool" where
  "first_due env now seq i \<longleftrightarrow> created_time i \<le> now \<and> send_at_time i = - 1 \<and> AheadOf env seq (send_at_seq_num i)"

definition signalled :: "(nack_info \<Rightarrow> bool) \<Rightarrow> (u16 \<times> nack_info) list \<Rightarrow> u16 list option" where
  "signalled due nl = (let batch = map fst (filter (\<lambda>e. due (snd e)) nl) in if batch = [] then None else Some batch)"

lemma shrunk_refl: "shrunk st st"
  unfolding shrunk_def by (intro exI [of _ 0] exI [of _ "keyframe_list st"]) simp

context seq_lib
begin

lemma AddPackets_near:
  assumes ok: "list_ok n (nack_list st)" and d: "1 \<le> age e n" "age e n \<le> 1001"
  shows "\<exists>nl ks. AddPacketsToNack env now (n + 1) e st = st\<lparr>nack_list := nl, keyframe_list := ks\<rparr> \<and> list_ok e nl \<and>
    (length (recent e (nack_list st)) + age e (n + 1) \<le> kMaxNackPackets \<longrightarrow>
      nl = recent e (nack_list st) @ map (fresh now (WaitNumberOfPackets env (float_half env) st)) (gap (n + 1) e))"
proof -
  let ?c = "age e (n + 1)" and ?nl1 = "recent e (nack_list st)"
  have "n \<noteq> e" using d(1) by (auto simp: age_def)
  note a = age_Suc [OF this]
  have er: "erase_before (DescendingSeqNumComp env) (e - kMaxPacketAge) (nack_list st) = ?nl1"
    using ok d(2) by (intro erase_old) (auto simp: list_ok_def list_all_iff info_ok_def)
  define st1 where "st1 = st\<lparr>nack_list := ?nl1\<rparr>"
  define st2 where "st2 = (if length (nack_list st1) + ?c > kMaxNackPackets then make_room env ?c st1 else st1)"
  have "shrunk st1 st2" by (simp add: st2_def make_room_shrunk shrunk_refl)
  then obtain m ks where m: "st2 = st\<lparr>nack_list := drop m ?nl1, keyframe_list := ks\<rparr>" by (auto simp: shrunk_def st1_def)
  have near: "st2 = st1" if "length ?nl1 + ?c \<le> kMaxNackPackets" using that by (simp add: st2_def st1_def)
  have okn: "list_ok n (drop m ?nl1)" by (intro list_ok_drop list_ok_filter ok)
  have rec: "\<forall>x \<in> set (drop m ?nl1). age e (fst x) \<le> 10000" by (auto dest: in_set_dropD)
  note oke = list_ok_shift [OF okn d(2) rec]
  have older: "?c < age e (fst x) \<and> age e (fst x) < 2 ^ 15" if "x \<in> set (drop m ?nl1)" for x
    using oke(2) [OF that] rec that a okn by (fastforce simp: list_ok_def list_all_iff info_ok_def)
  define wait where "wait = WaitNumberOfPackets env (float_half env) st"
  have w: "WaitNumberOfPackets env (float_half env) st2 = wait" by (simp add: m wait_def WaitNumberOfPackets_def)
  have loop: "add_loop env now wait (n + 1) e (drop m ?nl1) = drop m ?nl1 @ map (fresh now wait) (gap (n + 1) e)"
    by (rule add_loop_eq) (use a d(2) older in auto)
  define nl where "nl = (if length (drop m ?nl1) + ?c > kMaxNackPackets then [] else drop m ?nl1 @ map (fresh now wait) (gap (n + 1) e))"
  have "AddPacketsToNack env now (n + 1) e st = (if length (nack_list st2) + ?c > kMaxNackPackets then st2\<lparr>nack_list := []\<rparr>
      else st2\<lparr>nack_list := add_loop env now (WaitNumberOfPackets env (float_half env) st2) (n + 1) e (nack_list st2)\<rparr>)"
    unfolding AddPacketsToNack_def er fwd age_def [symmetric] Let_def st1_def [symmetric] st2_def ..
  then have "AddPacketsToNack env now (n + 1) e st = st\<lparr>nack_list := nl, keyframe_list := ks\<rparr>"
    unfolding w by (simp add: m loop nl_def)
  moreover have "list_ok e nl" using oke(1) older by (auto simp: nl_def not_less intro!: list_ok_extend)
  moreover have "nl = ?nl1 @ map (fresh now wait) (gap (n + 1) e)" if "length ?nl1 + ?c \<le> kMaxNackPackets"
  proof -
    have "nack_list st2 = ?nl1" "nack_list st2 = drop m ?nl1" by (simp add: near [OF that] st1_def) (simp add: m)
    then have "drop m ?nl1 = ?nl1" by simp
    then show ?thesis using that by (simp add: nl_def)
  qed
  ultimately show ?thesis by (auto simp: wait_def)
qed

lemma AddPackets_far:
  assumes "1001 < age e n"
  shows "\<exists>ks. AddPacketsToNack env now (n + 1) e st = st\<lparr>nack_list := [], keyframe_list := ks\<rparr>"
proof -
  have "n \<noteq> e" using assms by (auto simp: age_def)
  then have c: "kMaxNackPackets < k + age e (n + 1)" for k using age_Suc assms by (simp add: kMaxNackPackets_def)
  define st1 where "st1 = st\<lparr>nack_list := erase_before (DescendingSeqNumComp env) (e - kMaxPacketAge) (nack_list st)\<rparr>"
  obtain m ks where m: "make_room env (age e (n + 1)) st1 = st1\<lparr>nack_list := drop m (nack_list st1), keyframe_list := ks\<rparr>"
    using make_room_shrunk [of st1 env "age e (n + 1)"] unfolding shrunk_def by (elim exE)
  have "AddPacketsToNack env now (n + 1) e st = st\<lparr>nack_list := [], keyframe_list := ks\<rparr>"
    unfolding AddPacketsToNack_def fwd age_def [symmetric] st1_def [symmetric] Let_def using c m by (simp add: st1_def)
  then show ?thesis ..
qed

lemma AddPackets_ok:
  assumes "list_ok n (nack_list st)" and "1 \<le> age e n"
  shows "\<exists>nl ks. AddPacketsToNack env now (n + 1) e st = st\<lparr>nack_list := nl, keyframe_list := ks\<rparr> \<and> list_ok e nl"
proof (cases "age e n \<le> 1001")
  case True
  from AddPackets_near [OF assms True] show ?thesis by blast
next
  case False
  then have "1001 < age e n" by simp
  from AddPackets_far [OF this] obtain ks where "AddPacketsToNack env now (n + 1) e st = st\<lparr>nack_list := [], keyframe_list := ks\<rparr>" ..
  then show ?thesis by (intro exI [of _ "[]"] exI [of _ ks]) simp
qed

lemma seq_only_fresh:
  assumes "list_ok n nl" and "e \<in> set nl"
  shows "\<not> exhausted (nack_due env kSeqNumOnly now st) (snd e)"
  using assms by (auto simp: list_ok_def list_all_iff info_ok_def exhausted_def nack_due_def kMaxNackRetries_def)

lemma batch_seq_only:
  assumes "list_ok n (nack_list st)"
  shows "GetNackBatch env now kSeqNumOnly st =
    Inr (st\<lparr>nack_list := after_batch (nack_due env kSeqNumOnly now st) now (nack_list st)\<rparr>,
         map fst (filter (\<lambda>e. nack_due env kSeqNumOnly now st (snd e)) (nack_list st)))"
proof -
  have "map (\<lambda>e. ni_seq_num (snd e)) (filter P (nack_list st)) = map fst (filter P (nack_list st))" for P
    using assms by (auto simp: list_ok_def list_all_iff info_ok_def)
  moreover have "\<not> (nack_list st \<noteq> [] \<and> exhausted (nack_due env kSeqNumOnly now st) (snd (last (nack_list st))))"
    using seq_only_fresh [OF assms, of "last (nack_list st)"] by auto
  ultimately show ?thesis by (simp add: GetNackBatch_def batch_loop_eq)
qed

text \<open>The case of a new number, with what is added and what is asked for.\<close>

lemma OnReceived_new:
  assumes ok: "nack_ok st" and init: "initialized st" "seq \<noteq> newest_seq_num st" and new: "\<not> AheadOf env (newest_seq_num st) seq"
  obtains nl ks where "OnReceivedPacket env now seq kf rt st =
      Inr (st\<lparr>keyframe_list := ks, newest_seq_num := seq, nack_list := after_batch (first_due env now seq) now nl\<rparr>, 0,
           signalled (first_due env now seq) nl)"
    "list_ok seq nl"
    "age seq (newest_seq_num st) \<le> 1001 \<and> length (recent seq (nack_list st)) + age seq (newest_seq_num st + 1) \<le> kMaxNackPackets \<Longrightarrow>
      nl = recent seq (nack_list st) @ map (fresh now (WaitNumberOfPackets env (float_half env) st)) (gap (newest_seq_num st + 1) seq)"
proof -
  define ks where "ks = dropWhile (\<lambda>k. DescendingSeqNumComp env k (seq - kMaxPacketAge))
    (if kf then set_put (DescendingSeqNumComp env) seq (keyframe_list st) else keyframe_list st)"
  define st1 where "st1 = st\<lparr>keyframe_list := ks\<rparr>"
  have l1: "list_ok (newest_seq_num st) (nack_list st1)" using ok by (simp add: st1_def nack_ok_def)
  have d: "1 \<le> age seq (newest_seq_num st)" using newer [OF new init(2)] by simp
  obtain nl ks' where a: "AddPacketsToNack env now (newest_seq_num st + 1) seq st1 = st1\<lparr>nack_list := nl, keyframe_list := ks'\<rparr>" "list_ok seq nl"
    using AddPackets_ok [OF l1 d] by blast
  have near: "nl = recent seq (nack_list st) @ map (fresh now (WaitNumberOfPackets env (float_half env) st)) (gap (newest_seq_num st + 1) seq)"
    if n: "age seq (newest_seq_num st) \<le> 1001 \<and> length (recent seq (nack_list st)) + age seq (newest_seq_num st + 1) \<le> kMaxNackPackets"
  proof -
    obtain nl2 ks2 where "AddPacketsToNack env now (newest_seq_num st + 1) seq st1 = st1\<lparr>nack_list := nl2, keyframe_list := ks2\<rparr>"
      "nl2 = recent seq (nack_list st1) @ map (fresh now (WaitNumberOfPackets env (float_half env) st1)) (gap (newest_seq_num st + 1) seq)"
      using AddPackets_near [OF l1 d, of now] n by (auto simp: st1_def)
    moreover from this(1) a(1) have "nl2 = nl" by (metis nack_requester.select_convs(3) nack_requester.surjective nack_requester.update_convs(3,5))
    ultimately show ?thesis by (simp add: st1_def WaitNumberOfPackets_def)
  qed
  define st2 where "st2 = (st1\<lparr>nack_list := nl, keyframe_list := ks'\<rparr>)\<lparr>newest_seq_num := seq\<rparr>"
  have l2: "list_ok seq (nack_list st2)" using a(2) by (simp add: st2_def)
  let ?due = "first_due env now seq"
  have due: "nack_due env kSeqNumOnly now st2 = ?due"
    using ok by (auto simp: nack_due_def first_due_def st2_def st1_def nack_ok_def)
  have "OnReceivedPacket env now seq kf rt st = bindE (GetNackBatch env now kSeqNumOnly st2) (\<lambda>(st, batch). Inr (st, 0, if batch = [] then None else Some batch))"
    using init new a(1) by (simp add: OnReceivedPacket_def Let_def ks_def [symmetric] st1_def [symmetric] st2_def)
  also have "\<dots> = Inr (st2\<lparr>nack_list := after_batch ?due now nl\<rparr>, 0, signalled ?due nl)"
    unfolding batch_seq_only [OF l2] due by (simp add: st2_def signalled_def)
  also have "st2\<lparr>nack_list := after_batch ?due now nl\<rparr> = st\<lparr>keyframe_list := ks', newest_seq_num := seq, nack_list := after_batch ?due now nl\<rparr>"
    by (simp add: st2_def st1_def)
  finally show ?thesis using a(2) near by (rule that)
qed

lemma OnReceivedPacket_ok:
  assumes ok: "nack_ok st" and now: "0 \<le> now"
  shows "returns (\<lambda>r. nack_ok (fst r)) (OnReceivedPacket env now seq kf rt st)"
proof (cases "initialized st \<and> seq \<noteq> newest_seq_num st")
  case False
  then show ?thesis using ok by (auto simp: OnReceivedPacket_def nack_ok_def)
next
  case init: True
  show ?thesis
  proof (cases "AheadOf env (newest_seq_num st) seq")
    case True
    define st1 where "st1 = st\<lparr>nack_list := filter (\<lambda>e. fst e \<noteq> seq) (nack_list st)\<rparr>"
    have "returns nack_ok (if rt then Inr st1 else UpdateReorderingStat env seq st1)"
    proof (cases rt)
      case False
      have "returns nack_ok (UpdateReorderingStat env seq st1)"
        unfolding UpdateReorderingStat_def
        by (rule returns_bind [OF Histogram_Add_ok]) (use ok in \<open>auto simp: st1_def nack_ok_def list_ok_filter\<close>)
      then show ?thesis using False by simp
    qed (use ok in \<open>simp add: st1_def nack_ok_def list_ok_filter\<close>)
    then show ?thesis using init True by (auto simp: OnReceivedPacket_def Let_def st1_def [symmetric] intro: returns_bind)
  next
    case False
    obtain nl ks where r: "OnReceivedPacket env now seq kf rt st =
      Inr (st\<lparr>keyframe_list := ks, newest_seq_num := seq, nack_list := after_batch (first_due env now seq) now nl\<rparr>, 0,
           signalled (first_due env now seq) nl)" "list_ok seq nl"
      by (rule OnReceived_new [OF ok _ _ False, of now kf rt]) (use init in auto)
    then show ?thesis using ok init after_batch_ok [OF r(2) now] by (simp add: nack_ok_def)
  qed
qed

end

section \<open>Reachable requesters\<close>

inductive nack_reachable :: "'f seq_env \<Rightarrow> nack_requester \<Rightarrow> bool" for env where
  created: "nack_reachable env NackRequester_new"
| packet: "nack_reachable env st \<Longrightarrow> 0 \<le> now \<Longrightarrow> OnReceivedPacket env now seq kf rt st = Inr (st', r) \<Longrightarrow> nack_reachable env st'"
| timer: "nack_reachable env st \<Longrightarrow> 0 \<le> now \<Longrightarrow> ProcessNacks env now st = Inr (st', batch) \<Longrightarrow> nack_reachable env st'"
| rtt: "nack_reachable env st \<Longrightarrow> nack_reachable env (UpdateRtt r st)"

lemma new_nack_ok: "nack_ok NackRequester_new"
  by (simp add: nack_ok_def NackRequester_new_def hist_new)

lemma ProcessNacks_eq:
  "ProcessNacks env now st =
    (if nack_list st \<noteq> [] \<and> exhausted (nack_due env kTimeOnly now st) (snd (last (nack_list st))) then Inl OutOfBounds
     else Inr (st\<lparr>nack_list := after_batch (nack_due env kTimeOnly now st) now (nack_list st)\<rparr>,
       let batch = map (\<lambda>e. ni_seq_num (snd e)) (filter (\<lambda>e. nack_due env kTimeOnly now st (snd e)) (nack_list st)) in
       if batch = [] then None else Some batch))"
  by (simp add: ProcessNacks_def GetNackBatch_def batch_loop_eq Let_def)

context seq_lib
begin

lemma reachable_nack_ok: "nack_reachable env st \<Longrightarrow> nack_ok st"
proof (induction rule: nack_reachable.induct)
  case (packet st now seq kf rt st' r)
  then show ?case using returnsD [OF OnReceivedPacket_ok packet.hyps(3)] by simp
next
  case (timer st now st' batch)
  then show ?case by (auto simp: ProcessNacks_eq nack_ok_def after_batch_ok split: if_splits) (simp_all add: after_batch_def)
next
  case (rtt st r)
  then show ?case by (simp add: nack_ok_def UpdateRtt_def)
qed (rule new_nack_ok)

lemma late_packet:
  assumes ok: "nack_ok st" and init: "initialized st" and late: "AheadOf env (newest_seq_num st) seq"
  shows "\<exists>st'. OnReceivedPacket env now seq kf rt st =
      Inr (st', case map_of (nack_list st) seq of None \<Rightarrow> 0 | Some i \<Rightarrow> retries i, None) \<and>
    nack_list st' = filter (\<lambda>e. fst e \<noteq> seq) (nack_list st) \<and> newest_seq_num st' = newest_seq_num st"
proof -
  have ne: "seq \<noteq> newest_seq_num st" using late by (auto simp: ahead)
  define st1 where "st1 = st\<lparr>nack_list := filter (\<lambda>e. fst e \<noteq> seq) (nack_list st)\<rparr>"
  have "hist_ok (reordering_histogram st1)" using ok by (simp add: st1_def nack_ok_def)
  from Histogram_Add_ok [OF this, of "ReverseDiff env (newest_seq_num st1) seq"] obtain h where
    h: "Histogram_Add (ReverseDiff env (newest_seq_num st1) seq) (reordering_histogram st1) = Inr h" by (auto simp: returns_def)
  have "OnReceivedPacket env now seq kf rt st =
      Inr (if rt then st1 else st1\<lparr>reordering_histogram := h\<rparr>, case map_of (nack_list st) seq of None \<Rightarrow> 0 | Some i \<Rightarrow> retries i, None)"
    using init ne late h by (simp add: OnReceivedPacket_def UpdateReorderingStat_def Let_def st1_def [symmetric] del: bindE_eq_Inr)
  then show ?thesis by (auto simp: st1_def)
qed

lemma fresh_due:
  assumes "k \<in> set (gap s seq)" and "age seq s \<le> 1000"
  shows "first_due env now seq (snd (fresh now 0 k))"
  using gap_age [OF assms(1)] assms(2) by (auto simp: first_due_def fresh_def NackInfo_new_def ahead age_def)

end

section \<open>Properties\<close>

text \<open>C30. The list of missing numbers is well formed in every reachable state: at most 1000 different numbers, oldest
  first, each between 1 and 10000 behind the newest one and requested fewer than ten times; the buckets
  of the histogram count its samples. A received packet is then always handled. The timer reads past the end of
  the list exactly when its last entry is due for the tenth time.\<close>

theorem nack_requester_invariant:
  assumes "seq_lib env" and "nack_reachable env st" and "0 \<le> now"
  shows "nack_ok st \<and> distinct (map fst (nack_list st)) \<and> returns (\<lambda>_. True) (OnReceivedPacket env now seq kf rt st) \<and>
    (ProcessNacks env now st = Inl OutOfBounds \<longleftrightarrow>
      nack_list st \<noteq> [] \<and> nack_due env kTimeOnly now st (snd (last (nack_list st))) \<and> retries (snd (last (nack_list st))) = 9)"
proof -
  have ok: "nack_ok st" by (rule seq_lib.reachable_nack_ok [OF assms(1,2)])
  then have l: "list_ok (newest_seq_num st) (nack_list st)" by (simp add: nack_ok_def)
  have "returns (\<lambda>_. True) (OnReceivedPacket env now seq kf rt st)"
    by (rule returns_weaken [OF seq_lib.OnReceivedPacket_ok [OF assms(1) ok assms(3)]]) simp
  moreover have "distinct (map fst (nack_list st))" using l oldest_first_distinct by (auto simp: list_ok_def)
  moreover have "retries (snd (last (nack_list st))) < 10" if "nack_list st \<noteq> []"
    using l last_in_set [OF that] by (auto simp: list_ok_def list_all_iff info_ok_def kMaxNackRetries_def)
  then have "ProcessNacks env now st = Inl OutOfBounds \<longleftrightarrow>
      nack_list st \<noteq> [] \<and> nack_due env kTimeOnly now st (snd (last (nack_list st))) \<and> retries (snd (last (nack_list st))) = 9"
    by (auto simp: ProcessNacks_eq exhausted_def kMaxNackRetries_def)
  ultimately show ?thesis using ok by simp
qed

lemma gap_requested:
  assumes "seq_lib env" and "nack_ok st" and "initialized st" and "seq \<noteq> newest_seq_num st" and "\<not> AheadOf env (newest_seq_num st) seq"
    and "length (recent seq (nack_list st)) + age seq (newest_seq_num st + 1) \<le> 1000"
  shows "\<exists>st' signal. OnReceivedPacket env now seq kf rt st = Inr (st', 0, signal) \<and> newest_seq_num st' = seq \<and>
      map fst (nack_list st') = map fst (recent seq (nack_list st)) @ gap (newest_seq_num st + 1) seq \<and>
      (NumValues (reordering_histogram st) = 0 \<and> gap (newest_seq_num st + 1) seq \<noteq> [] \<longrightarrow>
        (\<exists>batch. signal = Some batch \<and> set (gap (newest_seq_num st + 1) seq) \<subseteq> set batch))"
proof -
  let ?g = "gap (newest_seq_num st + 1) seq" and ?due = "first_due env now seq"
  have c: "age seq (newest_seq_num st + 1) \<le> 1000" "age seq (newest_seq_num st) = Suc (age seq (newest_seq_num st + 1))"
    using assms(6) age_Suc [of "newest_seq_num st" seq] assms(4) by auto
  obtain nl ks where r: "OnReceivedPacket env now seq kf rt st =
      Inr (st\<lparr>keyframe_list := ks, newest_seq_num := seq, nack_list := after_batch ?due now nl\<rparr>, 0, signalled ?due nl)"
    and l: "list_ok seq nl"
    and nl: "nl = recent seq (nack_list st) @ map (fresh now (WaitNumberOfPackets env (float_half env) st)) ?g"
    by (rule seq_lib.OnReceived_new [OF assms(1-5), of now kf rt]) (use assms(6) c in \<open>auto simp: kMaxNackPackets_def\<close>)
  have "map fst (after_batch ?due now nl) = map fst nl"
    by (rule keys_after_batch) (use l in \<open>auto simp: list_ok_def list_all_iff info_ok_def exhausted_def first_due_def kMaxNackRetries_def\<close>)
  also have "\<dots> = map fst (recent seq (nack_list st)) @ ?g" by (simp add: nl fresh_def comp_def)
  finally have keys: "map fst (after_batch ?due now nl) = map fst (recent seq (nack_list st)) @ ?g" .
  have "\<exists>batch. signalled ?due nl = Some batch \<and> set ?g \<subseteq> set batch" if h: "NumValues (reordering_histogram st) = 0" and ne: "?g \<noteq> []"
  proof -
    define batch where "batch = map fst (filter (\<lambda>e. ?due (snd e)) nl)"
    have "k \<in> set batch" if "k \<in> set ?g" for k
      using seq_lib.fresh_due [OF assms(1) that c(1), of now] h that
      by (auto simp: batch_def nl WaitNumberOfPackets_def fresh_def image_iff intro!: bexI [of _ "fresh now 0 k"])
    then have "set ?g \<subseteq> set batch" by blast
    moreover then have "batch \<noteq> []" using ne by auto
    ultimately show ?thesis by (auto simp: signalled_def batch_def Let_def)
  qed
  then show "\<exists>st' signal. OnReceivedPacket env now seq kf rt st = Inr (st', 0, signal) \<and> newest_seq_num st' = seq \<and>
      map fst (nack_list st') = map fst (recent seq (nack_list st)) @ ?g \<and>
      (NumValues (reordering_histogram st) = 0 \<and> ?g \<noteq> [] \<longrightarrow> (\<exists>batch. signal = Some batch \<and> set ?g \<subseteq> set batch))"
    using r keys by (intro exI [of _ "st\<lparr>keyframe_list := ks, newest_seq_num := seq, nack_list := after_batch ?due now nl\<rparr>"] exI [of _ "signalled ?due nl"]) simp
qed

text \<open>C31. Missing packets are tracked and requested. When a packet with a new number arrives and the numbers it skips fit
  into the list, the list holds afterwards the recent numbers it had and exactly the skipped ones; as
  long as no reordering has been observed, all skipped numbers are requested at once. A late packet
  removes exactly its own number from the list and returns how often it was requested.\<close>

theorem missing_packets_requested:
  assumes "seq_lib env" and "nack_ok st" and "initialized st" and "seq \<noteq> newest_seq_num st" and "\<not> AheadOf env (newest_seq_num st) seq"
    and "length (recent seq (nack_list st)) + age seq (newest_seq_num st + 1) \<le> 1000"
    and "AheadOf env (newest_seq_num st) late"
  shows "(\<exists>st' signal. OnReceivedPacket env now seq kf rt st = Inr (st', 0, signal) \<and> newest_seq_num st' = seq \<and>
      map fst (nack_list st') = map fst (recent seq (nack_list st)) @ gap (newest_seq_num st + 1) seq \<and>
      (NumValues (reordering_histogram st) = 0 \<and> gap (newest_seq_num st + 1) seq \<noteq> [] \<longrightarrow>
        (\<exists>batch. signal = Some batch \<and> set (gap (newest_seq_num st + 1) seq) \<subseteq> set batch))) \<and>
    (\<exists>st'. OnReceivedPacket env now late kf rt st =
        Inr (st', case map_of (nack_list st) late of None \<Rightarrow> 0 | Some i \<Rightarrow> retries i, None) \<and>
      nack_list st' = filter (\<lambda>e. fst e \<noteq> late) (nack_list st) \<and> newest_seq_num st' = newest_seq_num st)"
  using gap_requested [OF assms(1-6)] seq_lib.late_packet [OF assms(1-3,7)] by blast


section \<open>An instance of the library\<close>

text \<open>Probabilities in millionths.\<close>

definition word_seq :: "nat seq_env" where
  "word_seq = \<lparr>AheadOf = (\<lambda>a b. a \<noteq> b \<and> (unat (a - b) < 2 ^ 15 \<or> unat (a - b) = 2 ^ 15 \<and> b < a)), ForwardDiff = (\<lambda>a b. unat (b - a)),
     ReverseDiff = (\<lambda>a b. unat (a - b)), DescendingSeqNumComp = (\<lambda>a b. b \<noteq> a \<and> (unat (b - a) < 2 ^ 15 \<or> unat (b - a) = 2 ^ 15 \<and> a < b)),
     float_zero = 0, float_half = 500000, float_ratio = (\<lambda>a b. 1000000 * a div b), float_add = (+), float_less = (<)\<rparr>"

interpretation ws: seq_lib word_seq
  by unfold_locales (simp_all add: word_seq_def)

definition sample_requester :: nack_requester where
  "sample_requester = NackRequester_new\<lparr>initialized := True, newest_seq_num := 65534\<rparr>"

lemma sample_requester_step: "OnReceivedPacket word_seq 0 65534 False False NackRequester_new = Inr (sample_requester, 0, None)"
  by (simp add: OnReceivedPacket_def NackRequester_new_def sample_requester_def)

theorem nack_requester_invariant_witness:
  "nack_ok sample_requester \<and> returns (\<lambda>_. True) (OnReceivedPacket word_seq 20 2 False False sample_requester)"
proof -
  have "nack_reachable word_seq sample_requester"
    by (rule nack_reachable.packet [OF nack_reachable.created _ sample_requester_step]) simp
  then show ?thesis using nack_requester_invariant [OF ws.seq_lib_axioms, of sample_requester 20 2 False False] by simp
qed

text \<open>The numbers 65535, 0 and 1 are skipped at the wrap-around.\<close>

theorem missing_packets_requested_witness:
  "\<exists>st' batch. OnReceivedPacket word_seq 20 2 False False sample_requester = Inr (st', 0, Some batch) \<and> {65535, 0, 1} \<subseteq> set batch \<and>
    map fst (nack_list st') = [65535, 0, 1]"
proof -
  have ok: "nack_ok sample_requester" using new_nack_ok by (simp add: nack_ok_def sample_requester_def NackRequester_new_def)
  have s: "newest_seq_num sample_requester = 65534" "initialized sample_requester" "nack_list sample_requester = []"
    "NumValues (reordering_histogram sample_requester) = 0"
    by (simp_all add: sample_requester_def NackRequester_new_def NumValues_def Histogram_new_def)
  have g: "gap 65535 2 = [65535, 0, 1 :: u16]" by (simp add: gap_def upt_rec)
  have a: "\<not> AheadOf word_seq 65534 2" "AheadOf word_seq 65534 65500" by (simp_all add: word_seq_def)
  have "age 2 65535 = 3" by (simp add: age_def)
  with missing_packets_requested [OF ws.seq_lib_axioms ok, of 2 65500 20 False False] s a g show ?thesis by auto
qed

end
