(* ===== verification/Media_Streams.thy ===== *)
theory Media_Streams
  imports Rtp_Rtcp_Module Frame_Descriptor Nack_Correct
begin

text \<open>
  \<open>video/\<close> and \<open>audio/\<close>: the streams of a peer connection, which join the RTP/RTCP module, the receive statistics and
  the NACK requester. The statistics object that a receive stream shares with its module is the one in the module's sender. \<open>stream_env\<close>
  holds what WebRTC provides at one call: next to the clock of \<open>module_env\<close> the copy-on-write buffer, the unwrapper of frame ids, the reader of
  dependency descriptors, and the values of the objects that the sources default-construct. The timers of the event loop are steps of a history.
\<close>

section \<open>Data of WebRTC\<close>

datatype VideoFrameType = kEmptyFrame | kVideoFrameKey | kVideoFrameDelta

record ('s, 'i) dependency_descriptor =
  attached_structure :: "'s option"
  dd_first_packet_in_frame :: bool
  dd_last_packet_in_frame :: bool
  frame_number :: u16
  spatial_id :: int
  temporal_id :: int
  frame_diffs :: "int list"
  dd_decode_target_indications :: "'i list"
  dd_resolution :: "(int \<times> int) option"

record 'i generic_info =
  gi_frame_id :: int
  spatial_index :: int
  temporal_index :: int
  dependencies :: "int list"
  decode_target_indications :: "'i list"

record 'i video_header =
  is_first_packet_in_frame :: bool
  is_last_packet_in_frame :: bool
  vh_generic :: "'i generic_info option"
  vh_width :: u16
  vh_height :: u16
  vh_frame_type :: VideoFrameType

record ('g, 'u, 'r, 'f, 's, 'i, 'w) stream_env =
  mod_env :: "'g module_env"
  cow_env :: cow_ops
  raw_packet :: rtp_packet
  stat_lib :: "('u, 'r) stat_env"
  seq_numbers :: "'f seq_env"
  ntp_time_ms :: int
  read_dependency_descriptor :: "'s option \<Rightarrow> byte list \<Rightarrow> ('s, 'i) dependency_descriptor option"
  AddFrameDependencyDiff :: add_diff
  descriptor_new :: frame_descriptor
  SpatialLayer :: "frame_descriptor \<Rightarrow> int"
  unwrap_id :: "'w \<Rightarrow> u16 \<Rightarrow> int \<times> 'w"
  header_new :: "'i video_header"

abbreviation env_now_ms :: "('g, 'u, 'r, 'f, 's, 'i, 'w) stream_env \<Rightarrow> int" where
  "env_now_ms env \<equiv> TimeInMilliseconds (snd_env (mod_env env))"

abbreviation env_bytes :: "('g, 'u, 'r, 'f, 's, 'i, 'w) stream_env \<Rightarrow> byte_io" where
  "env_bytes env \<equiv> env_io (clock_env (snd_env (mod_env env)))"

section \<open>Send streams\<close>

record video_send_config =
  vsc_ssrc :: u32
  vsc_clock_rate :: int
  vsc_rtx_ssrc :: u32
  vsc_rtx_payload_type :: int
  vsc_report_interval_ms :: int
  vsc_observer :: bool

record ('g, 'u, 'r) video_send_stream =
  vs_config :: video_send_config
  vs_module :: "('g, 'u, 'r) rtp_rtcp_module"
  rtx_seq :: u16

definition vs_CreateRtpRtcpModule :: "'g \<Rightarrow> video_send_config \<Rightarrow> ('g, 'u, 'r) rtp_rtcp_module" where
  "vs_CreateRtpRtcpModule seed c = ModuleRtpRtcpImpl_new seed
     \<lparr>config_audio = False, receiver_only = False, config_local_ssrc = vsc_ssrc c, config_remote_ssrc = 0, config_clock_rate = vsc_clock_rate c,
      rtcp_report_interval_ms = vsc_report_interval_ms c, config_observer = vsc_observer c, config_statistics = None\<rparr>"

definition VideoSendStream_new ::
  "('g, 'u, 'r, 'f, 's, 'i, 'w) stream_env \<Rightarrow> 'g \<Rightarrow> video_send_config \<Rightarrow> error + ('g, 'u, 'r) video_send_stream" where
  "VideoSendStream_new env seed c =
     bindE (mod_SetRTCPStatus (mod_env env) kCompound (vs_CreateRtpRtcpModule seed c)) (\<lambda>m.
       Inr \<lparr>vs_config = c, vs_module = mod_SetSendingStatus True m, rtx_seq = 1000\<rparr>)"

definition vs_UpdateRtpStats :: "rtp_packet \<Rightarrow> bool \<Rightarrow> bool \<Rightarrow> ('g, 'u, 'r) video_send_stream \<Rightarrow> ('g, 'u, 'r) video_send_stream" where
  "vs_UpdateRtpStats p is_rtx is_retransmit s = s\<lparr>vs_module := UpdateRtpStats p is_rtx is_retransmit (vs_module s)\<rparr>"

definition vs_OnSendingRtpFrame ::
  "('g, 'u, 'r, 'f, 's, 'i, 'w) stream_env \<Rightarrow> u32 \<Rightarrow> int \<Rightarrow> bool \<Rightarrow> ('g, 'u, 'r) video_send_stream \<Rightarrow> error + ('g, 'u, 'r) video_send_stream" where
  "vs_OnSendingRtpFrame env ts capture_time_ms forced s =
     bindE (OnSendingRtpFrame (mod_env env) ts capture_time_ms forced (vs_module s)) (\<lambda>m. Inr (s\<lparr>vs_module := m\<rparr>))"

definition vs_DeliverRtcp ::
  "('g, 'u, 'r, 'f, 's, 'i, 'w) stream_env \<Rightarrow> byte list \<Rightarrow> ('g, 'u, 'r) video_send_stream \<Rightarrow> error + ('g, 'u, 'r) video_send_stream" where
  "vs_DeliverRtcp env packet s = bindE (mod_IncomingRtcpPacket (mod_env env) packet (vs_module s)) (\<lambda>m. Inr (s\<lparr>vs_module := m\<rparr>))"

definition kRtxHeaderSize :: nat where
  "kRtxHeaderSize = 2"

text \<open>\<open>None\<close> stands for \<open>nullptr\<close>.\<close>

definition BuildRtxPacket ::
  "('g, 'u, 'r, 'f, 's, 'i, 'w) stream_env \<Rightarrow> rtp_packet \<Rightarrow> ('g, 'u, 'r) video_send_stream \<Rightarrow>
   error + ('g, 'u, 'r) video_send_stream \<times> rtp_packet option" where
  "BuildRtxPacket env packet s =
     (let io = env_bytes env; cow = cow_env env in
      bindE (RtpPacket_init cow (raw_packet env) kDefaultRtpCapacity) (\<lambda>rtx.
      bindE (SetPayloadType (of_int (vsc_rtx_payload_type (vs_config s))) rtx) (\<lambda>rtx.
      bindE (SetSsrc io (vsc_rtx_ssrc (vs_config s)) rtx) (\<lambda>rtx.
      bindE (SetSequenceNumber io (rtx_seq s) rtx) (\<lambda>rtx.
      let s = s\<lparr>rtx_seq := rtx_seq s + 1\<rparr> in
      bindE (SetMarker (pkt_marker packet) rtx) (\<lambda>rtx.
      bindE (SetTimestamp io (pkt_timestamp packet) rtx) (\<lambda>rtx.
        case AllocatePayload cow (size_add (pkt_payload_size packet) kRtxHeaderSize) rtx of
          (rtx, None) \<Rightarrow> Inr (s, None)
        | (rtx, Some off) \<Rightarrow>
            bindE (WriteAt off (wr16 io (pkt_sequence_number packet)) rtx) (\<lambda>rtx.
            bindE (packet_payload packet) (\<lambda>payload.
            bindE (WriteAt (off + kRtxHeaderSize) payload rtx) (\<lambda>rtx. Inr (s, Some rtx)))))))))))"

record audio_send_config =
  asc_ssrc :: u32
  asc_clock_rate :: int
  asc_report_interval_ms :: int
  asc_observer :: bool

record ('g, 'u, 'r) audio_send_stream =
  as_config :: audio_send_config
  as_module :: "('g, 'u, 'r) rtp_rtcp_module"

definition as_CreateRtpRtcpModule :: "'g \<Rightarrow> audio_send_config \<Rightarrow> ('g, 'u, 'r) rtp_rtcp_module" where
  "as_CreateRtpRtcpModule seed c = ModuleRtpRtcpImpl_new seed
     \<lparr>config_audio = True, receiver_only = False, config_local_ssrc = asc_ssrc c, config_remote_ssrc = 0, config_clock_rate = asc_clock_rate c,
      rtcp_report_interval_ms = asc_report_interval_ms c, config_observer = asc_observer c, config_statistics = None\<rparr>"

definition AudioSendStream_new ::
  "('g, 'u, 'r, 'f, 's, 'i, 'w) stream_env \<Rightarrow> 'g \<Rightarrow> audio_send_config \<Rightarrow> error + ('g, 'u, 'r) audio_send_stream" where
  "AudioSendStream_new env seed c =
     bindE (mod_SetRTCPStatus (mod_env env) kCompound (as_CreateRtpRtcpModule seed c)) (\<lambda>m.
       Inr \<lparr>as_config = c, as_module = mod_SetSendingStatus False m\<rparr>)"

definition as_UpdateRtpStats :: "rtp_packet \<Rightarrow> bool \<Rightarrow> ('g, 'u, 'r) audio_send_stream \<Rightarrow> ('g, 'u, 'r) audio_send_stream" where
  "as_UpdateRtpStats p is_retransmit s = s\<lparr>as_module := UpdateRtpStats p False is_retransmit (as_module s)\<rparr>"

definition as_OnSendingRtpFrame ::
  "('g, 'u, 'r, 'f, 's, 'i, 'w) stream_env \<Rightarrow> u32 \<Rightarrow> int \<Rightarrow> ('g, 'u, 'r) audio_send_stream \<Rightarrow> error + ('g, 'u, 'r) audio_send_stream" where
  "as_OnSendingRtpFrame env ts capture_time_ms s =
     bindE (OnSendingRtpFrame (mod_env env) ts capture_time_ms False (as_module s)) (\<lambda>m. Inr (s\<lparr>as_module := m\<rparr>))"

section \<open>Receive streams\<close>

text \<open>A call of the shared statistics object.\<close>

definition on_statistics ::
  "(('u, 'r) receive_statistics \<Rightarrow> error + ('u, 'r) receive_statistics) \<Rightarrow> ('g, 'u, 'r) rtp_rtcp_module \<Rightarrow> error + ('g, 'u, 'r) rtp_rtcp_module" where
  "on_statistics f m =
     (case snd_statistics (mod_sender m) of
        None \<Rightarrow> Inl UseAfterFree
      | Some rs \<Rightarrow> bindE (f rs) (\<lambda>rs. Inr (m\<lparr>mod_sender := (mod_sender m)\<lparr>snd_statistics := Some rs\<rparr>\<rparr>)))"

text \<open>A received packet: the class has three more members than \<open>RtpPacket\<close>, with default values.\<close>

definition RtpPacketReceived_of :: "rtp_packet \<Rightarrow> rtp_packet_received" where
  "RtpPacketReceived_of p = rtp_packet.extend p (rtp_packet_received.fields None 0 False)"

definition parse_received :: "('g, 'u, 'r, 'f, 's, 'i, 'w) stream_env \<Rightarrow> byte list \<Rightarrow> error + rtp_packet" where
  "parse_received env packet =
     bindE (RtpPacket_init (cow_env env) (raw_packet env) kDefaultRtpCapacity) (\<lambda>p.
     bindE (Parse (env_bytes env) (cow_env env) packet p) (\<lambda>(p, _). Inr p))"

record audio_receive_config =
  arc_remote_ssrc :: u32
  arc_local_ssrc :: u32
  arc_clock_rate :: int
  arc_report_interval_ms :: int
  arc_observer :: bool

record ('g, 'u, 'r) audio_receive_stream =
  ar_config :: audio_receive_config
  ar_module :: "('g, 'u, 'r) rtp_rtcp_module"

definition ar_CreateRtpRtcpModule ::
  "'g \<Rightarrow> audio_receive_config \<Rightarrow> ('u, 'r) receive_statistics \<Rightarrow> ('g, 'u, 'r) rtp_rtcp_module" where
  "ar_CreateRtpRtcpModule seed c rs = ModuleRtpRtcpImpl_new seed
     \<lparr>config_audio = True, receiver_only = False, config_local_ssrc = arc_local_ssrc c, config_remote_ssrc = arc_remote_ssrc c,
      config_clock_rate = arc_clock_rate c, rtcp_report_interval_ms = arc_report_interval_ms c, config_observer = arc_observer c,
      config_statistics = Some rs\<rparr>"

definition AudioReceiveStream_new ::
  "('g, 'u, 'r, 'f, 's, 'i, 'w) stream_env \<Rightarrow> 'g \<Rightarrow> audio_receive_config \<Rightarrow> error + ('g, 'u, 'r) audio_receive_stream" where
  "AudioReceiveStream_new env seed c =
     bindE (on_statistics (\<lambda>rs. Inr (rs_SetMaxReorderingThreshold_of (stat_lib env) (ntp_time_ms env) (env_now_ms env) (arc_remote_ssrc c)
              kDefaultMaxReorderingThreshold rs)) (ar_CreateRtpRtcpModule seed c ReceiveStatisticsImpl_new)) (\<lambda>m.
     bindE (mod_SetRTCPStatus (mod_env env) kCompound m) (\<lambda>m.
       Inr \<lparr>ar_config = c, ar_module = mod_SetSendingStatus False m\<rparr>))"

definition ar_UpdateRtpStats :: "rtp_packet \<Rightarrow> bool \<Rightarrow> ('g, 'u, 'r) audio_receive_stream \<Rightarrow> ('g, 'u, 'r) audio_receive_stream" where
  "ar_UpdateRtpStats p is_retransmit s = s\<lparr>ar_module := UpdateRtpStats p False is_retransmit (ar_module s)\<rparr>"

definition ar_OnSendingRtpFrame ::
  "('g, 'u, 'r, 'f, 's, 'i, 'w) stream_env \<Rightarrow> u32 \<Rightarrow> int \<Rightarrow> ('g, 'u, 'r) audio_receive_stream \<Rightarrow> error + ('g, 'u, 'r) audio_receive_stream" where
  "ar_OnSendingRtpFrame env ts capture_time_ms s =
     bindE (OnSendingRtpFrame (mod_env env) ts capture_time_ms False (ar_module s)) (\<lambda>m. Inr (s\<lparr>ar_module := m\<rparr>))"

definition ar_DeliverRtcp ::
  "('g, 'u, 'r, 'f, 's, 'i, 'w) stream_env \<Rightarrow> byte list \<Rightarrow> ('g, 'u, 'r) audio_receive_stream \<Rightarrow> error + ('g, 'u, 'r) audio_receive_stream" where
  "ar_DeliverRtcp env packet s = bindE (mod_IncomingRtcpPacket (mod_env env) packet (ar_module s)) (\<lambda>m. Inr (s\<lparr>ar_module := m\<rparr>))"

definition ar_DeliverRtp ::
  "('g, 'u, 'r, 'f, 's, 'i, 'w) stream_env \<Rightarrow> byte list \<Rightarrow> ('g, 'u, 'r) audio_receive_stream \<Rightarrow> error + ('g, 'u, 'r) audio_receive_stream" where
  "ar_DeliverRtp env packet s =
     bindE (parse_received env packet) (\<lambda>p.
     bindE (on_statistics (OnRtpPacket (stat_lib env) (ntp_time_ms env) (env_now_ms env) (RtpPacketReceived_of p)) (ar_module s)) (\<lambda>m.
       Inr (s\<lparr>ar_module := m\<rparr>)))"

record video_receive_config =
  vrc_remote_ssrc :: u32
  vrc_local_ssrc :: u32
  vrc_clock_rate :: int
  vrc_rtx_ssrc :: u32
  vrc_report_interval_ms :: int
  vrc_observer :: bool

record ('g, 'u, 'r, 's, 'w) video_receive_stream =
  vr_config :: video_receive_config
  vr_module :: "('g, 'u, 'r) rtp_rtcp_module"
  nack_module :: nack_requester
  video_structure :: "'s option"
  video_structure_frame_id :: "int option"
  frame_id_unwrapper :: 'w
  remote_ssrc :: u32

definition vr_CreateRtpRtcpModule ::
  "'g \<Rightarrow> video_receive_config \<Rightarrow> ('u, 'r) receive_statistics \<Rightarrow> ('g, 'u, 'r) rtp_rtcp_module" where
  "vr_CreateRtpRtcpModule seed c rs = ModuleRtpRtcpImpl_new seed
     \<lparr>config_audio = False, receiver_only = False, config_local_ssrc = vrc_local_ssrc c, config_remote_ssrc = vrc_remote_ssrc c,
      config_clock_rate = vrc_clock_rate c, rtcp_report_interval_ms = vrc_report_interval_ms c, config_observer = vrc_observer c,
      config_statistics = Some rs\<rparr>"

definition VideoReceiveStream_new ::
  "('g, 'u, 'r, 'f, 's, 'i, 'w) stream_env \<Rightarrow> 'g \<Rightarrow> 'w \<Rightarrow> video_receive_config \<Rightarrow> error + ('g, 'u, 'r, 's, 'w) video_receive_stream" where
  "VideoReceiveStream_new env seed w c =
     (let ssrc = vrc_remote_ssrc c; st = stat_lib env; ntp = ntp_time_ms env; now = env_now_ms env in
      bindE (if vrc_rtx_ssrc c = 0
             then on_statistics (\<lambda>rs. Inr (rs_EnableRetransmitDetection st ntp now ssrc True rs)) (vr_CreateRtpRtcpModule seed c ReceiveStatisticsImpl_new)
             else Inr (vr_CreateRtpRtcpModule seed c ReceiveStatisticsImpl_new)) (\<lambda>m.
      bindE (on_statistics (\<lambda>rs. Inr (rs_SetMaxReorderingThreshold_of st ntp now ssrc kDefaultMaxReorderingThreshold rs)) m) (\<lambda>m.
      bindE (mod_SetRTCPStatus (mod_env env) kCompound m) (\<lambda>m.
        Inr \<lparr>vr_config = c, vr_module = mod_SetSendingStatus False m, nack_module = NackRequester_new, video_structure = None,
             video_structure_frame_id = None, frame_id_unwrapper = w, remote_ssrc = ssrc\<rparr>))))"

definition vr_UpdateRtpStats ::
  "rtp_packet \<Rightarrow> bool \<Rightarrow> bool \<Rightarrow> ('g, 'u, 'r, 's, 'w) video_receive_stream \<Rightarrow> ('g, 'u, 'r, 's, 'w) video_receive_stream" where
  "vr_UpdateRtpStats p is_rtx is_retransmit s = s\<lparr>vr_module := UpdateRtpStats p is_rtx is_retransmit (vr_module s)\<rparr>"

definition vr_OnSendingRtpFrame ::
  "('g, 'u, 'r, 'f, 's, 'i, 'w) stream_env \<Rightarrow> u32 \<Rightarrow> int \<Rightarrow> bool \<Rightarrow> ('g, 'u, 'r, 's, 'w) video_receive_stream \<Rightarrow>
   error + ('g, 'u, 'r, 's, 'w) video_receive_stream" where
  "vr_OnSendingRtpFrame env ts capture_time_ms forced s =
     bindE (OnSendingRtpFrame (mod_env env) ts capture_time_ms forced (vr_module s)) (\<lambda>m. Inr (s\<lparr>vr_module := m\<rparr>))"

definition vr_DeliverRtcp ::
  "('g, 'u, 'r, 'f, 's, 'i, 'w) stream_env \<Rightarrow> byte list \<Rightarrow> ('g, 'u, 'r, 's, 'w) video_receive_stream \<Rightarrow>
   error + ('g, 'u, 'r, 's, 'w) video_receive_stream" where
  "vr_DeliverRtcp env packet s = bindE (mod_IncomingRtcpPacket (mod_env env) packet (vr_module s)) (\<lambda>m. Inr (s\<lparr>vr_module := m\<rparr>))"

datatype ParseGenericDependenciesResult = kDropPacket | kHasGenericDescriptor | kNoGenericDescriptor

text \<open>The branch of a packet with a dependency descriptor.\<close>

definition apply_dependency_descriptor ::
  "('g, 'u, 'r, 'f, 's, 'i, 'w) stream_env \<Rightarrow> ('s, 'i) dependency_descriptor \<Rightarrow> 'i video_header \<Rightarrow> ('g, 'u, 'r, 's, 'w) video_receive_stream \<Rightarrow>
   ('g, 'u, 'r, 's, 'w) video_receive_stream \<times> 'i video_header \<times> ParseGenericDependenciesResult" where
  "apply_dependency_descriptor env d vh s =
     (if attached_structure d \<noteq> None \<and> \<not> dd_first_packet_in_frame d then (s, vh, kDropPacket)
      else
        let (fid, w) = unwrap_id env (frame_id_unwrapper s) (frame_number d);
            s = s\<lparr>frame_id_unwrapper := w\<rparr>;
            vh = vh\<lparr>is_first_packet_in_frame := dd_first_packet_in_frame d, is_last_packet_in_frame := dd_last_packet_in_frame d,
                    vh_generic := Some \<lparr>gi_frame_id = fid, spatial_index = spatial_id d, temporal_index = temporal_id d,
                      dependencies = map (\<lambda>fdiff. fid - fdiff) (frame_diffs d), decode_target_indications = dd_decode_target_indications d\<rparr>\<rparr>;
            vh = (case dd_resolution d of None \<Rightarrow> vh | Some (w, h) \<Rightarrow> vh\<lparr>vh_width := of_int w, vh_height := of_int h\<rparr>) in
        case attached_structure d of
          None \<Rightarrow> (s, vh\<lparr>vh_frame_type := kVideoFrameDelta\<rparr>, kHasGenericDescriptor)
        | Some st \<Rightarrow>
            if (case video_structure_frame_id s of None \<Rightarrow> False | Some latest \<Rightarrow> latest > fid) then (s, vh, kDropPacket)
            else (s\<lparr>video_structure := Some st, video_structure_frame_id := Some fid\<rparr>, vh\<lparr>vh_frame_type := kVideoFrameKey\<rparr>, kHasGenericDescriptor))"

definition apply_frame_descriptor ::
  "('g, 'u, 'r, 'f, 's, 'i, 'w) stream_env \<Rightarrow> frame_descriptor \<Rightarrow> 'i video_header \<Rightarrow> ('g, 'u, 'r, 's, 'w) video_receive_stream \<Rightarrow>
   ('g, 'u, 'r, 's, 'w) video_receive_stream \<times> 'i video_header" where
  "apply_frame_descriptor env d vh s =
     (let vh = vh\<lparr>is_first_packet_in_frame := first_in_subframe d, is_last_packet_in_frame := last_in_subframe d\<rparr>;
          (s, vh) = (if first_in_subframe d then
             let (fid, w) = unwrap_id env (frame_id_unwrapper s) (frame_id d) in
             (s\<lparr>frame_id_unwrapper := w\<rparr>,
              vh\<lparr>vh_frame_type := if dependency_diffs d = [] then kVideoFrameKey else kVideoFrameDelta,
                 vh_generic := Some \<lparr>gi_frame_id = fid, spatial_index = SpatialLayer env d, temporal_index = uint (temporal_layer d),
                   dependencies = map (\<lambda>fdiff. fid - uint fdiff) (dependency_diffs d), decode_target_indications = []\<rparr>\<rparr>)
           else (s, vh)) in
      (s, vh\<lparr>vh_width := of_int (res_width d), vh_height := of_int (res_height d)\<rparr>))"

definition ParseGenericDependenciesExtension ::
  "('g, 'u, 'r, 'f, 's, 'i, 'w) stream_env \<Rightarrow> rtp_packet \<Rightarrow> 'i video_header \<Rightarrow> ('g, 'u, 'r, 's, 'w) video_receive_stream \<Rightarrow>
   error + ('g, 'u, 'r, 's, 'w) video_receive_stream \<times> 'i video_header \<times> ParseGenericDependenciesResult" where
  "ParseGenericDependenciesExtension env p vh s =
     (if HasExtension kRtpExtensionGenericFrameDescriptor02 p then
        bindE (GetExtension kRtpExtensionGenericFrameDescriptor02
                 (\<lambda>raw. case read_dependency_descriptor env (video_structure s) raw of None \<Rightarrow> Inl Rejected | Some d \<Rightarrow> Inr d) p) (\<lambda>r.
          case r of None \<Rightarrow> Inr (s, vh, kDropPacket) | Some d \<Rightarrow> Inr (apply_dependency_descriptor env d vh s))
      else
        bindE (GetExtension kRtpExtensionGenericFrameDescriptor00
                 (\<lambda>raw. bindE (gfd_Parse (AddFrameDependencyDiff env) raw (descriptor_new env)) (\<lambda>(d, ok). if ok then Inr d else Inl Rejected)) p) (\<lambda>r.
          case r of
            None \<Rightarrow> Inr (s, vh, kNoGenericDescriptor)
          | Some d \<Rightarrow> let (s, vh) = apply_frame_descriptor env d vh s in Inr (s, vh, kHasGenericDescriptor)))"

text \<open>The slot of \<open>SignalSendNack\<close>, called when the requester raises it.\<close>

definition OnNackSend ::
  "('g, 'u, 'r, 'f, 's, 'i, 'w) stream_env \<Rightarrow> u16 list option \<Rightarrow> ('g, 'u, 'r, 's, 'w) video_receive_stream \<Rightarrow>
   error + ('g, 'u, 'r, 's, 'w) video_receive_stream" where
  "OnNackSend env signal s =
     (case signal of
        None \<Rightarrow> Inr s
      | Some seq_nums \<Rightarrow> bindE (SendNack (mod_env env) seq_nums (vr_module s)) (\<lambda>m. Inr (s\<lparr>vr_module := m\<rparr>)))"

definition vr_DeliverRtp ::
  "('g, 'u, 'r, 'f, 's, 'i, 'w) stream_env \<Rightarrow> byte list \<Rightarrow> ('g, 'u, 'r, 's, 'w) video_receive_stream \<Rightarrow>
   error + ('g, 'u, 'r, 's, 'w) video_receive_stream" where
  "vr_DeliverRtp env packet s =
     bindE (parse_received env packet) (\<lambda>p.
     bindE (on_statistics (OnRtpPacket (stat_lib env) (ntp_time_ms env) (env_now_ms env) (RtpPacketReceived_of p)) (vr_module s)) (\<lambda>m.
     bindE (ParseGenericDependenciesExtension env p (header_new env) (s\<lparr>vr_module := m\<rparr>)) (\<lambda>(s, vh, state).
       if state = kDropPacket then Inr s
       else if remote_ssrc s = pkt_ssrc p then
         let is_keyframe = (is_first_packet_in_frame vh \<and> vh_frame_type vh = kVideoFrameKey) in
         bindE (OnReceivedPacket (seq_numbers env) (env_now_ms env) (pkt_sequence_number p) is_keyframe
                  (recovered (RtpPacketReceived_of p)) (nack_module s)) (\<lambda>(n, _, signal).
           OnNackSend env signal (s\<lparr>nack_module := n\<rparr>))
       else Inr s)))"

text \<open>The requester's timer.\<close>

definition vr_nack_timer ::
  "('g, 'u, 'r, 'f, 's, 'i, 'w) stream_env \<Rightarrow> ('g, 'u, 'r, 's, 'w) video_receive_stream \<Rightarrow> error + ('g, 'u, 'r, 's, 'w) video_receive_stream" where
  "vr_nack_timer env s =
     bindE (ProcessNacks (seq_numbers env) (env_now_ms env) (nack_module s)) (\<lambda>(n, signal). OnNackSend env signal (s\<lparr>nack_module := n\<rparr>))"

end
