(* ===== verification/Media_Streams_Correct.thy ===== *)
theory Media_Streams_Correct
  imports Media_Streams
begin

text \<open>
  Properties of the streams: the RTX packets of a send stream; the way of a received packet through statistics and NACK requester to the requests that reach
  the peer; the dead code behind header extensions; and the division by zero of a stream without RTX.
\<close>

section \<open>Retransmissions\<close>

lemma marker_byte:
  assumes "(pt :: byte) \<le> 0x7F"
  shows "(if m then ((u AND 0x80) OR pt) OR 0x80 else ((u AND 0x80) OR pt) AND 0x7F) = (if m then 0x80 else 0) OR pt"
proof -
  have "pt AND 0x7F = take_bit 7 pt" by (simp add: take_bit_eq_mask mask_eq_exp_minus_1)
  also have "\<dots> = pt" using assms by (simp add: word_unat_eq_iff unat_take_bit word_le_nat_alt)
  finally have pt: "pt AND 0x7F = pt" .
  have "((u AND 0x80) OR pt) OR 0x80 = 0x80 OR pt" by (simp only: or.assoc or.commute[of pt] word_ao_absorbs) (simp only: or.assoc[symmetric] word_ao_absorbs)
  moreover have "((u AND 0x80) OR pt) AND 0x7F = pt" using pt by (simp add: word_ao_dist and.assoc)
  ultimately show ?thesis by simp
qed

text \<open>The header of a packet that is constructed and whose fields are set in the order of \<open>BuildRtxPacket\<close>.\<close>

lemma rtx_header:
  assumes "big_endian_io io" "cow_buffer cow" "pt \<le> 0x7F"
  obtains p where
    "bindE (RtpPacket_init cow raw kDefaultRtpCapacity) (\<lambda>rtx. bindE (SetPayloadType pt rtx) (\<lambda>rtx. bindE (SetSsrc io ss rtx) (SetSequenceNumber io sn))) = Inr p"
    "bindE (SetMarker m p) (SetTimestamp io ts) = Inr (p\<lparr>pkt_marker := m, pkt_timestamp := ts, buffer := fixed_header io False m pt sn ts ss\<rparr>)"
    "payload_offset p = 12" "buffer_capacity p = 1500" "pkt_payload_type p = pt" "pkt_ssrc p = ss" "pkt_sequence_number p = sn" "pkt_padding_size p = 0"
proof -
  define B where "B = resized cow (cow_ops.fresh cow 1500) 1500 12"
  have B: "length B = 12" using assms(2) by (simp add: B_def cow_buffer.resized_length)
  have cap: "resized_cap cow 1500 12 = 1500" using assms(2) by (simp add: cow_buffer.resized_cap_kept)
  note [simp] = big_endian_io.wr16_length [OF assms(1)] big_endian_io.wr32_length [OF assms(1)]
  define p1 where "p1 = raw\<lparr>pkt_marker := False, pkt_payload_type := 0, pkt_sequence_number := 0, pkt_timestamp := 0, pkt_ssrc := 0,
    payload_offset := 12, pkt_payload_size := 0, pkt_padding_size := 0, buffer_capacity := 1500,
    extensions := RtpHeaderExtensionMap_init False, extensions_size := 0, extension_entries := []\<rparr>"
  have init: "RtpPacket_init cow raw kDefaultRtpCapacity = Inr (p1\<lparr>buffer := overwrite 0 [0x80] B\<rparr>)"
    using B cap by (simp add: RtpPacket_init_def Clear_def Let_def WriteAt_def set_size_def kFixedHeaderSize_def kDefaultRtpCapacity_def p1_def B_def [symmetric])
  obtain c0 c1 C where C: "B = c0 # c1 # C" "length C = 10"
    using B that by (cases B; cases "tl B") auto
  let ?b = "(c1 AND 0x80) OR pt"
  define p where "p = p1\<lparr>pkt_payload_type := pt, pkt_ssrc := ss, pkt_sequence_number := sn, buffer := 0x80 # ?b # wr16 io sn @ take 4 (drop 2 C) @ wr32 io ss\<rparr>"
  have "bindE (RtpPacket_init cow raw kDefaultRtpCapacity) (\<lambda>rtx. bindE (SetPayloadType pt rtx) (\<lambda>rtx. bindE (SetSsrc io ss rtx) (SetSequenceNumber io sn))) = Inr p"
    unfolding init using C by (simp add: SetPayloadType_def SetSsrc_def SetSequenceNumber_def WriteAt_def overwrite_def p_def take_drop del: bindE_eq_Inr)
  moreover have "bindE (SetMarker m p) (SetTimestamp io ts) = Inr (p\<lparr>pkt_marker := m, pkt_timestamp := ts, buffer := fixed_header io False m pt sn ts ss\<rparr>)"
    using marker_byte[OF assms(3), of m c1] C
    by (simp add: SetMarker_def SetTimestamp_def WriteAt_def overwrite_def p_def fixed_header_def del: bindE_eq_Inr)
  ultimately show thesis by (rule that) (simp_all add: p_def p1_def)
qed

lemma AllocatePayload_full:
  assumes "payload_offset p = 12" "12 \<le> buffer_capacity p" "buffer_capacity p < 12 + n" "n < 2 ^ 63" "cow_buffer cow"
  shows "snd (AllocatePayload cow n p) = None"
  using assms by (simp add: AllocatePayload_def SetPayloadSize_def set_size_def size_add_def cow_buffer.resized_cap_kept)

text \<open>The packet before its payload is allocated.\<close>

lemma BuildRtxPacket_eq:
  assumes "big_endian_io (env_bytes env)" "cow_buffer (cow_env env)" "of_int (vsc_rtx_payload_type (vs_config s)) \<le> (0x7F :: byte)"
    and "packet_payload packet = Inr pl" "length pl < 2 ^ 62"
  obtains p where "BuildRtxPacket env packet s = (case AllocatePayload (cow_env env) (length pl + 2) p of
      (rtx, None) \<Rightarrow> Inr (s\<lparr>rtx_seq := rtx_seq s + 1\<rparr>, None)
    | (rtx, Some off) \<Rightarrow> bindE (WriteAt off (wr16 (env_bytes env) (pkt_sequence_number packet)) rtx) (\<lambda>rtx. bindE (WriteAt (off + 2) pl rtx) (\<lambda>rtx.
        Inr (s\<lparr>rtx_seq := rtx_seq s + 1\<rparr>, Some rtx))))"
    "buffer p = fixed_header (env_bytes env) False (pkt_marker packet) (of_int (vsc_rtx_payload_type (vs_config s))) (rtx_seq s) (pkt_timestamp packet)
      (vsc_rtx_ssrc (vs_config s))"
    "payload_offset p = 12" "buffer_capacity p = 1500" "pkt_padding_size p = 0"
proof -
  let ?io = "env_bytes env" and ?cow = "cow_env env" and ?pt = "of_int (vsc_rtx_payload_type (vs_config s)) :: byte"
  have size: "pkt_payload_size packet = length pl" using assms(4) by (auto simp: packet_payload_def view_def split: if_splits)
  obtain p where p:
    "bindE (RtpPacket_init ?cow (raw_packet env) kDefaultRtpCapacity) (\<lambda>rtx. bindE (SetPayloadType ?pt rtx) (\<lambda>rtx.
       bindE (SetSsrc ?io (vsc_rtx_ssrc (vs_config s)) rtx) (SetSequenceNumber ?io (rtx_seq s)))) = Inr p"
    "bindE (SetMarker (pkt_marker packet) p) (SetTimestamp ?io (pkt_timestamp packet)) = Inr (p\<lparr>pkt_marker := pkt_marker packet,
       pkt_timestamp := pkt_timestamp packet, buffer := fixed_header ?io False (pkt_marker packet) ?pt (rtx_seq s) (pkt_timestamp packet) (vsc_rtx_ssrc (vs_config s))\<rparr>)"
    "payload_offset p = 12" "buffer_capacity p = 1500" "pkt_padding_size p = 0"
    using rtx_header[OF assms(1-3), where raw = "raw_packet env" and ss = "vsc_rtx_ssrc (vs_config s)" and sn = "rtx_seq s" and m = "pkt_marker packet"
        and ts = "pkt_timestamp packet"] by blast
  let ?s = "s\<lparr>rtx_seq := rtx_seq s + 1\<rparr>" and ?w = "wr16 ?io (pkt_sequence_number packet)"
  have "BuildRtxPacket env packet s = bindE (bindE (bindE (RtpPacket_init ?cow (raw_packet env) kDefaultRtpCapacity) (\<lambda>rtx. bindE (SetPayloadType ?pt rtx) (\<lambda>rtx.
       bindE (SetSsrc ?io (vsc_rtx_ssrc (vs_config s)) rtx) (SetSequenceNumber ?io (rtx_seq s)))))
         (\<lambda>rtx. bindE (SetMarker (pkt_marker packet) rtx) (SetTimestamp ?io (pkt_timestamp packet)))) (\<lambda>rtx.
        case AllocatePayload ?cow (length pl + 2) rtx of
          (rtx, None) \<Rightarrow> Inr (?s, None)
        | (rtx, Some off) \<Rightarrow> bindE (WriteAt off ?w rtx) (\<lambda>rtx. bindE (WriteAt (off + 2) pl rtx) (\<lambda>rtx. Inr (?s, Some rtx))))"
    using size assms(4,5) by (simp add: BuildRtxPacket_def Let_def bindE_assoc kRtxHeaderSize_def size_add_def cong: prod.case_cong option.case_cong)
  then show thesis unfolding p(1,2) bindE_Inr by (rule that) (simp_all add: p)
qed

text \<open>C7. A retransmission carries the original packet. \<open>BuildRtxPacket\<close> consumes one RTX sequence number and returns no packet exactly when
  fourteen bytes and the payload exceed the capacity of 1500; otherwise the bytes of the packet it returns parse, into any packet object, to the
  stream's RTX SSRC, payload type and sequence number, the marker and timestamp of the original, and a payload that is the original sequence number followed
  by the original payload (RFC 4588).\<close>

theorem rtx_packet_roundtrip:
  assumes "big_endian_io (env_bytes env)" "cow_buffer (cow_env env)"
    and "0 \<le> vsc_rtx_payload_type (vs_config s)" "vsc_rtx_payload_type (vs_config s) \<le> 127"
    and "packet_payload packet = Inr pl" "length pl < 2 ^ 62"
  shows "\<exists>r. BuildRtxPacket env packet s = Inr (s\<lparr>rtx_seq := rtx_seq s + 1\<rparr>, r) \<and> (r = None \<longleftrightarrow> 1500 < 14 + length pl) \<and>
    (\<forall>p. r = Some p \<longrightarrow> (\<exists>q. packet_size p = length (buffer p) \<and>
       Parse (env_bytes env) (cow_env env) (buffer p) q0 = Inr (q, True) \<and> pkt_ssrc q = vsc_rtx_ssrc (vs_config s) \<and>
       uint (pkt_payload_type q) = vsc_rtx_payload_type (vs_config s) \<and> pkt_sequence_number q = rtx_seq s \<and>
       pkt_marker q = pkt_marker packet \<and> pkt_timestamp q = pkt_timestamp packet \<and>
       packet_payload q = Inr (wr16 (env_bytes env) (pkt_sequence_number packet) @ pl)))"
proof -
  let ?io = "env_bytes env" and ?cow = "cow_env env" and ?pt = "of_int (vsc_rtx_payload_type (vs_config s)) :: byte"
  have pt: "uint ?pt = vsc_rtx_payload_type (vs_config s)" using assms(3,4) by (simp only: uint_word_of_int) simp
  then have pt7: "?pt \<le> 0x7F" using assms(4) by (simp add: word_le_def)
  let ?s = "s\<lparr>rtx_seq := rtx_seq s + 1\<rparr>" and ?w = "wr16 ?io (pkt_sequence_number packet)"
  obtain p2 where build: "BuildRtxPacket env packet s = (case AllocatePayload ?cow (length pl + 2) p2 of
          (rtx, None) \<Rightarrow> Inr (?s, None)
        | (rtx, Some off) \<Rightarrow> bindE (WriteAt off ?w rtx) (\<lambda>rtx. bindE (WriteAt (off + 2) pl rtx) (\<lambda>rtx. Inr (?s, Some rtx))))"
    and H: "buffer p2 = fixed_header ?io False (pkt_marker packet) ?pt (rtx_seq s) (pkt_timestamp packet) (vsc_rtx_ssrc (vs_config s))"
    and p2: "payload_offset p2 = 12" "buffer_capacity p2 = 1500" "pkt_padding_size p2 = 0"
    using BuildRtxPacket_eq[OF assms(1,2) pt7 assms(5,6)] by blast
  define H where "H = buffer p2"
  have len: "length H = 12" "length ?w = 2" using H big_endian_io.length_fixed_header[OF assms(1)]
    by (simp_all add: H_def big_endian_io.wr16_length [OF assms(1)])
  show ?thesis
  proof (cases "1500 < 14 + length pl")
    case True
    then have "snd (AllocatePayload ?cow (length pl + 2) p2) = None" using AllocatePayload_full[of p2 "length pl + 2" ?cow] p2 assms(2,6) by simp
    then show ?thesis using build True by (cases "AllocatePayload ?cow (length pl + 2) p2") simp
  next
    case False
    then obtain bs where a: "AllocatePayload ?cow (length pl + 2) p2 = (p2\<lparr>buffer := bs, pkt_payload_size := length pl + 2\<rparr>, Some 12)"
      "length bs = 12 + (length pl + 2)" "take 12 bs = H"
      using cow_buffer.AllocatePayload_ok [OF assms(2), of p2 "length pl + 2"] p2 len by (auto simp: H_def)
    let ?p = "p2\<lparr>buffer := H @ ?w @ pl, pkt_payload_size := length pl + 2\<rparr>"
    have "BuildRtxPacket env packet s = Inr (?s, Some ?p)"
      unfolding build a(1) using a(2,3) len by (simp add: WriteAt_def overwrite_def del: bindE_eq_Inr)
    moreover have "packet_size ?p = length (buffer ?p)" using p2 len by (simp add: packet_size_def)
    moreover define q where "q = (fixed_fields (pkt_marker packet) ?pt (rtx_seq s) (pkt_timestamp packet) (vsc_rtx_ssrc (vs_config s)) q0)
      \<lparr>pkt_padding_size := 0, pkt_payload_size := length pl + 2\<rparr>"
    have "ParseBuffer ?io (buffer ?p) q0 = Inr (q, True)"
      using big_endian_io.ParseBuffer_fixed_header [OF assms(1) pt7, of False "pkt_marker packet" "rtx_seq s" "pkt_timestamp packet" "vsc_rtx_ssrc (vs_config s)" "?w @ pl" q0]
        len H by (simp add: H_def ParsePadding_def fixed_fields_def q_def)
    then have "Parse ?io ?cow (buffer ?p) q0 = Inr (q\<lparr>buffer := H @ ?w @ pl, buffer_capacity := assigned_cap ?cow (buffer_capacity q) (length (H @ ?w @ pl))\<rparr>, True)"
      by (simp add: Parse_def)
    ultimately show ?thesis using False pt len by (auto simp: q_def fixed_fields_def packet_payload_def)
  qed
qed

section \<open>Received packets have no extensions\<close>

lemma ParsePadding_extensions: "ParsePadding buf b p = Inr (q, ok) \<Longrightarrow> extensions q = extensions p"
  by (auto simp: ParsePadding_def split: if_splits)

lemma ParseExtensions_extensions: "ParseExtensions io buf p = Inr (q, ok) \<Longrightarrow> extensions q = extensions p"
  by (auto simp: ParseExtensions_def Let_def split: if_splits)

lemma ParseBuffer_extensions: "ParseBuffer io buf p = Inr (q, ok) \<Longrightarrow> extensions q = extensions p"
  by (auto simp: ParseBuffer_def Let_def split: if_splits dest!: ParsePadding_extensions ParseExtensions_extensions)

lemma Clear_extensions: "Clear cow p = Inr q \<Longrightarrow> extensions q = extensions p"
  by (auto simp: Clear_def WriteAt_def set_size_def Let_def)

lemma Parse_extensions: "Parse io cow buf p = Inr (q, ok) \<Longrightarrow> extensions q = extensions p"
  by (auto simp: Parse_def split: if_splits dest!: ParseBuffer_extensions Clear_extensions)

lemma parse_received_extensions: "parse_received env packet = Inr p \<Longrightarrow> extensions p = RtpHeaderExtensionMap_init False"
  by (auto simp: parse_received_def RtpPacket_init_def dest!: Parse_extensions Clear_extensions)

lemma no_descriptor:
  assumes "extensions p = RtpHeaderExtensionMap_init False"
  shows "ParseGenericDependenciesExtension env p vh s = Inr (s, vh, kNoGenericDescriptor)"
  using assms
  by (simp add: ParseGenericDependenciesExtension_def HasExtension_def GetExtension_def FindExtension_def Let_def GetId_def
      RtpHeaderExtensionMap_init_def del: bindE_eq_Inr)

text \<open>What remains of \<open>DeliverRtp\<close>.\<close>

definition deliver_plain ::
  "('g, 'u, 'r, 'f, 's, 'i, 'w) stream_env \<Rightarrow> rtp_packet \<Rightarrow> ('g, 'u, 'r, 's, 'w) video_receive_stream \<Rightarrow>
   error + ('g, 'u, 'r, 's, 'w) video_receive_stream" where
  "deliver_plain env p s =
     bindE (on_statistics (OnRtpPacket (stat_lib env) (ntp_time_ms env) (env_now_ms env) (RtpPacketReceived_of p)) (vr_module s)) (\<lambda>m.
       if remote_ssrc s = pkt_ssrc p then
         bindE (OnReceivedPacket (seq_numbers env) (env_now_ms env) (pkt_sequence_number p) False False (nack_module s)) (\<lambda>(n, _, signal).
           OnNackSend env signal (s\<lparr>vr_module := m, nack_module := n\<rparr>))
       else Inr (s\<lparr>vr_module := m\<rparr>))"

lemma recovered_of [simp]: "recovered (RtpPacketReceived_of p) = False" "payload_type_frequency (RtpPacketReceived_of p) = 0"
  "pkt_ssrc (RtpPacketReceived_of p) = pkt_ssrc p" "pkt_sequence_number (RtpPacketReceived_of p) = pkt_sequence_number p"
  "pkt_timestamp (RtpPacketReceived_of p) = pkt_timestamp p"
  by (simp_all add: RtpPacketReceived_of_def rtp_packet.defs rtp_packet_received.defs)

lemma DeliverRtp_plain:
  assumes "\<not> is_first_packet_in_frame (header_new env)"
  shows "vr_DeliverRtp env packet s = bindE (parse_received env packet) (\<lambda>p. deliver_plain env p s)"
proof (cases "parse_received env packet")
  case (Inr p)
  then have "ParseGenericDependenciesExtension env p vh t = Inr (t, vh, kNoGenericDescriptor)" for vh t
    using no_descriptor[of p env vh t] parse_received_extensions[of env packet p] by simp
  then show ?thesis using Inr assms
    by (simp add: vr_DeliverRtp_def deliver_plain_def Let_def cong: if_cong)
qed (simp add: vr_DeliverRtp_def)

section \<open>Histories of a receive stream\<close>

datatype stream_op =
    RtpIn "byte list"
  | RtcpIn "byte list"
  | NackTimer
  | FrameSent u32 int bool
  | PacketSent rtp_packet bool bool
  | ReportTimerFires
  | PostedFires

fun stream_step ::
  "('g, 'u, 'r, 'f, 's, 'i, 'w) stream_env \<Rightarrow> stream_op \<Rightarrow> ('g, 'u, 'r, 's, 'w) video_receive_stream \<Rightarrow>
   error + ('g, 'u, 'r, 's, 'w) video_receive_stream" where
  "stream_step env (RtpIn packet) s = vr_DeliverRtp env packet s"
| "stream_step env (RtcpIn packet) s = vr_DeliverRtcp env packet s"
| "stream_step env NackTimer s = vr_nack_timer env s"
| "stream_step env (FrameSent ts t forced) s = vr_OnSendingRtpFrame env ts t forced s"
| "stream_step env (PacketSent p is_rtx again) s = Inr (vr_UpdateRtpStats p is_rtx again s)"
| "stream_step env ReportTimerFires s = bindE (SendRTCPReceiveReport (mod_env env) (vr_module s)) (\<lambda>m. Inr (s\<lparr>vr_module := m\<rparr>))"
| "stream_step env PostedFires s = bindE (run_posted_rtcp (mod_env env) (vr_module s)) (\<lambda>m. Inr (s\<lparr>vr_module := m\<rparr>))"

fun stream_run ::
  "(('g, 'u, 'r, 'f, 's, 'i, 'w) stream_env \<times> stream_op) list \<Rightarrow> ('g, 'u, 'r, 's, 'w) video_receive_stream \<Rightarrow>
   error + ('g, 'u, 'r, 's, 'w) video_receive_stream" where
  "stream_run [] s = Inr s"
| "stream_run ((env, op) # ops) s = bindE (stream_step env op s) (stream_run ops)"

text \<open>No key frame is known.\<close>

definition keyless :: "('g, 'u, 'r, 's, 'w) video_receive_stream \<Rightarrow> bool" where
  "keyless s \<longleftrightarrow> keyframe_list (nack_module s) = [] \<and> video_structure s = None \<and> video_structure_frame_id s = None"

lemma OnNackSend_keyless: "OnNackSend env signal s = Inr s' \<Longrightarrow> keyless s' \<longleftrightarrow> keyless s"
  by (auto simp: OnNackSend_def keyless_def split: option.splits)

lemma make_room_keyless: "keyframe_list st = [] \<Longrightarrow> make_room env n st = st"
  by (subst make_room.simps) (simp add: RemovePacketsUntilKeyFrame_def)

lemma AddPackets_keyless: "keyframe_list st = [] \<Longrightarrow> keyframe_list (AddPacketsToNack env now a b st) = []"
  by (simp add: AddPacketsToNack_def make_room_keyless Let_def)

lemma GetNackBatch_keyframes: "GetNackBatch env now options st = Inr (st', batch) \<Longrightarrow> keyframe_list st' = keyframe_list st"
  by (auto simp: GetNackBatch_def)

lemma OnReceivedPacket_keyless:
  assumes "OnReceivedPacket env now seq False rt st = Inr (st', n, signal)" "keyframe_list st = []"
  shows "keyframe_list st' = []"
  using assms
  by (auto simp: OnReceivedPacket_def Let_def UpdateReorderingStat_def AddPackets_keyless dest!: GetNackBatch_keyframes split: if_splits)

lemma ProcessNacks_keyless: "ProcessNacks env now st = Inr (st', signal) \<Longrightarrow> keyframe_list st' = keyframe_list st"
  by (auto simp: ProcessNacks_def dest!: GetNackBatch_keyframes)

lemma deliver_plain_keyless:
  assumes "deliver_plain env p s = Inr s'" "keyless s"
  shows "keyless s'"
proof -
  obtain m where "remote_ssrc s = pkt_ssrc p \<Longrightarrow> \<exists>n signal r. OnReceivedPacket (seq_numbers env) (env_now_ms env) (pkt_sequence_number p) False False (nack_module s) =
      Inr (n, r, signal) \<and> OnNackSend env signal (s\<lparr>vr_module := m, nack_module := n\<rparr>) = Inr s'"
    "remote_ssrc s \<noteq> pkt_ssrc p \<Longrightarrow> s' = s\<lparr>vr_module := m\<rparr>"
    using assms(1) by (auto simp: deliver_plain_def split: if_splits)
  then show ?thesis using assms(2) OnReceivedPacket_keyless OnNackSend_keyless
    by (cases "remote_ssrc s = pkt_ssrc p") (fastforce simp: keyless_def)+
qed

lemma stream_step_keyless:
  assumes "stream_step env op s = Inr s'" "keyless s" "\<not> is_first_packet_in_frame (header_new env)"
  shows "keyless s'"
proof (cases op)
  case (RtpIn packet)
  then show ?thesis using assms deliver_plain_keyless by (auto simp: DeliverRtp_plain)
next
  case NackTimer
  then obtain n signal where "ProcessNacks (seq_numbers env) (env_now_ms env) (nack_module s) = Inr (n, signal)"
    "OnNackSend env signal (s\<lparr>nack_module := n\<rparr>) = Inr s'" using assms(1) by (auto simp: vr_nack_timer_def)
  then show ?thesis using assms(2) ProcessNacks_keyless OnNackSend_keyless by (fastforce simp: keyless_def)
qed (use assms in \<open>auto simp: vr_DeliverRtcp_def vr_OnSendingRtpFrame_def vr_UpdateRtpStats_def keyless_def\<close>)

lemma stream_run_keyless:
  "stream_run ops s = Inr s' \<Longrightarrow> keyless s \<Longrightarrow> list_all (\<lambda>(env, _). \<not> is_first_packet_in_frame (header_new env)) ops \<Longrightarrow> keyless s'"
proof (induction ops arbitrary: s)
  case (Cons x ops)
  then show ?case by (cases x) (auto dest: stream_step_keyless)
qed simp

text \<open>C38. \<open>DeliverRtp\<close> parses every packet without an extension map, so no descriptor extension is ever found and no packet is taken for a key
  frame: in every history of a video receive stream the list of key frames and the video structure stay empty. A gap that does not fit therefore always
  empties the list of missing packets, since there is no key frame up to which it could be trimmed.\<close>

theorem key_frames_never_seen:
  assumes "VideoReceiveStream_new env seed w c = Inr s0" "stream_run ops s0 = Inr s"
    and "list_all (\<lambda>(env, _). \<not> is_first_packet_in_frame (header_new env)) ops"
    and "length (erase_before (DescendingSeqNumComp e) (b - kMaxPacketAge) (nack_list (nack_module s))) + ForwardDiff e a b > kMaxNackPackets"
  shows "keyframe_list (nack_module s) = [] \<and> video_structure s = None \<and> nack_list (AddPacketsToNack e now a b (nack_module s)) = []"
proof -
  have "keyless s0" using assms(1) by (auto simp: VideoReceiveStream_new_def Let_def keyless_def NackRequester_new_def)
  then have "keyless s" using stream_run_keyless assms(2,3) by blast
  then show ?thesis using assms(4) by (simp add: keyless_def AddPacketsToNack_def make_room_keyless Let_def)
qed

section \<open>A gap is requested from the peer\<close>

lemma OnRtpPacket_ok:
  assumes "streams_ok rs" "statisticians rs (pkt_ssrc p) = Some st" "loss_inv n m st" "s = UnwrapWithoutUpdate env (seq_unwrapper st) (pkt_sequence_number p)"
    and "\<bar>s - received_seq_max st\<bar> \<le> max_reordering_threshold st"
    and "enable_retransmit_detection st \<longrightarrow> received_seq_max st < s" "time_diff_samples p now st \<noteq> - (2 ^ 31)"
    and "n + 1 < 2 ^ 29" "\<bar>received_seq_max st - received_seq_first st\<bar> < 2 ^ 29" "\<bar>s - received_seq_first st\<bar> < 2 ^ 29"
    and "max s (received_seq_max st) - last_report_seq_max st < 2 ^ 23"
  shows "\<exists>rs'. OnRtpPacket env ntp now p rs = Inr rs' \<and> streams_ok rs'"
proof -
  obtain st' where u: "UpdateCounters env now p st = Inr st'" "loss_inv (n + 1) m st'" "received_seq_first st' = received_seq_first st"
    "received_seq_max st' = max s (received_seq_max st)" "last_report_seq_max st' = last_report_seq_max st" "stat_ssrc st' = stat_ssrc st"
    using UpdateCounters_ok[OF assms(3,4,5), of now] assms(6-10) by auto
  have "accounted st'" unfolding accounted_def using u(2-5) assms(8-11) by (intro exI[of _ "n + 1"] exI[of _ m]) (auto simp: max_def)
  then have "streams_ok (rs\<lparr>statisticians := (statisticians rs)(pkt_ssrc p \<mapsto> st')\<rparr>)"
    using assms(1,2) u(6) by (auto simp: streams_ok_def)
  then show ?thesis using u(1) assms(2) by (simp add: OnRtpPacket_def GetOrCreateStatistician_def)
qed

lemma schedule_all_sender: "schedule_all env ds m = Inr m' \<Longrightarrow> mod_sender m' = mod_sender m"
proof (induction ds arbitrary: m)
  case (Cons d ds)
  obtain m1 where "ScheduleNextRtcpSend env d m = Inr m1" "schedule_all env ds m1 = Inr m'" using Cons.prems by auto
  then show ?case using Cons.IH[of m1]
    by (auto simp: ScheduleNextRtcpSend_def ScheduleMaybeSendRtcpAtOrAfterTimestamp_def split: if_splits)
qed simp

lemma SendNack_reaches_peer:
  assumes "module_env_ok env" "module_ok m" "report_flags (mod_sender m) = []" "\<not> sending (mod_sender m)" "snd_observer (mod_sender m)"
    and "env_io penv = env_io (clock_env (snd_env env))" "has_observer r"
  shows "\<exists>m' pkts idss. SendNack env nids m = Inr m' \<and> module_ok m' \<and>
    snd_events (mod_sender m') = snd_events (mod_sender m) @ map (OnLocalRtcpPacket (snd_audio (mod_sender m))) pkts \<and>
    receive_all penv sr0 n0 pkts r = Inr (r\<lparr>events := events r @ map (OnNackReceived (audio r)) idss\<rparr>) \<and> set (concat idss) = set nids"
proof -
  let ?fs = "GetFeedbackState env m"
  have io: "big_endian_io (env_io (clock_env (snd_env env)))" "length (buf_new env) = IP_PACKET_SIZE" using assms(1) by (simp_all add: module_env_ok_def)
  have core: "sender_core (mod_sender m)" using assms(2) by (simp add: module_ok_def)
  obtain s' pkts idss where s: "SendRTCP (snd_env env) (buf_new env) ?fs kRtcpNack nids (mod_sender m) = Inr (s', 0)"
    "snd_events s' = snd_events (mod_sender m) @ map (OnLocalRtcpPacket (snd_audio (mod_sender m))) pkts"
    "receive_all penv sr0 n0 pkts r = Inr (r\<lparr>events := events r @ map (OnNackReceived (audio r)) idss\<rparr>)" "set (concat idss) = set nids"
    using nack_reaches_peer[OF io(1) core assms(3-5) io(2) assms(6,7), of ?fs nids sr0 n0] by (elim exE conjE) (rule that)
  obtain m' where m': "SendNack env nids m = Inr m'" "module_ok m'" using send_rtcp_ok[OF assms(1,2)] by (auto simp: SendNack_def)
  then have "schedule_all env (scheduled s') (m\<lparr>mod_sender := s'\<lparr>scheduled := []\<rparr>\<rparr>) = Inr m'"
    using s(1) by (simp add: SendNack_def send_rtcp_def after_sender_def)
  then have "mod_sender m' = s'\<lparr>scheduled := []\<rparr>" using schedule_all_sender by fastforce
  then show ?thesis using m' s by (intro exI[of _ m'] exI[of _ pkts] exI[of _ idss]) simp
qed

text \<open>A packet that continues the stream of a statistician, and is a new one when retransmission detection is on: within the reordering threshold, away from the one
  undefined value of the jitter sample, and far from the limits of the counters.\<close>

definition in_step :: "('u, 'r) stat_env \<Rightarrow> u16 \<Rightarrow> u32 \<Rightarrow> ('u, 'r) statistician \<Rightarrow> bool" where
  "in_step env sn ts st \<longleftrightarrow> (let s = UnwrapWithoutUpdate env (seq_unwrapper st) sn in
     (enable_retransmit_detection st \<longrightarrow> received_seq_max st < s) \<and> \<bar>s - received_seq_max st\<bar> \<le> max_reordering_threshold st \<and> ts - last_received_timestamp st \<noteq> 2 ^ 31 \<and>
     (\<exists>n m. loss_inv n m st \<and> n + 1 < 2 ^ 29) \<and> \<bar>received_seq_max st - received_seq_first st\<bar> < 2 ^ 29 \<and> \<bar>s - received_seq_first st\<bar> < 2 ^ 29 \<and>
     max s (received_seq_max st) - last_report_seq_max st < 2 ^ 23)"

lemma sint_minimum: "sint (w :: u32) = - (2 ^ 31) \<Longrightarrow> w = 2 ^ 31"
proof -
  assume a: "sint w = - (2 ^ 31)"
  have "w = of_int (sint w)" by simp
  also have "\<dots> = 2 ^ 31" unfolding a by simp
  finally show ?thesis .
qed

lemma received_in_step:
  assumes "streams_ok rs" "statisticians rs (pkt_ssrc p) = Some st" "in_step env (pkt_sequence_number p) (pkt_timestamp p) st"
  shows "\<exists>rs'. OnRtpPacket env ntp now (RtpPacketReceived_of p) rs = Inr rs' \<and> streams_ok rs'"
proof -
  let ?p = "RtpPacketReceived_of p"
  have "time_diff_samples ?p now st \<noteq> - (2 ^ 31)"
  proof
    assume "time_diff_samples ?p now st = - (2 ^ 31)"
    then have "0 - (pkt_timestamp p - last_received_timestamp st) = 2 ^ 31"
      using sint_minimum[of "0 - (pkt_timestamp p - last_received_timestamp st)"] by (simp add: time_diff_samples_def tdiv_def)
    then have "pkt_timestamp p - last_received_timestamp st = 0 - 2 ^ 31" by (metis diff_0 minus_minus)
    then show False using assms(3) by (simp add: in_step_def Let_def)
  qed
  moreover obtain n m where "loss_inv n m st" "n + 1 < 2 ^ 29" using assms(3) by (auto simp: in_step_def Let_def)
  ultimately show ?thesis
    using OnRtpPacket_ok[of rs ?p st n m _ env now ntp] assms by (simp add: in_step_def Let_def)
qed

lemma parse_received_header:
  assumes "big_endian_io (env_bytes env)" "cow_buffer (cow_env env)" "pt \<le> 0x7F"
  shows "\<exists>p. parse_received env (fixed_header (env_bytes env) False mk pt sn ts ss @ pl) = Inr p \<and> pkt_ssrc p = ss \<and> pkt_sequence_number p = sn \<and>
    pkt_timestamp p = ts"
proof -
  obtain q where q: "RtpPacket_init (cow_env env) (raw_packet env) kDefaultRtpCapacity = Inr q"
    using cow_buffer.Clear_ok[OF assms(2)] by (force simp: RtpPacket_init_def)
  show ?thesis
    using big_endian_io.ParseBuffer_fixed_header [OF assms(1,3), of False mk sn ts ss pl q] big_endian_io.length_fixed_header[OF assms(1)]
    by (simp add: parse_received_def q Parse_def ParsePadding_def fixed_fields_def del: bindE_eq_Inr)
qed

text \<open>C6. From a gap to a request at the peer, through all components: a video receive stream receives the bytes of a packet that is newer than
  the newest one and skips sequence numbers. \<open>DeliverRtp\<close> returns normally; the skipped numbers enter the list of missing packets; the stream hands
  RTCP packets to its observer, and a peer that receives exactly these packets raises \<open>OnNackReceived\<close> for every skipped number and changes nothing
  else. The conditions: the NACK module has received a packet and has never seen a reordered one, so that its histogram is empty and
  \<open>WaitNumberOfPackets\<close> delays no request (after a reordered packet a request may wait for later packets); the list has room for the skipped
  numbers; the statistics are in step with the packet (\<open>in_step\<close>: it is handled without one of the faults of the loss accounting); the RTCP
  sender is a receiving endpoint with no report pending and an observer to hand its packets to; and the peer has an observer.\<close>

theorem gap_reaches_peer:
  assumes env: "module_env_ok (mod_env env)" "cow_buffer (cow_env env)" "seq_lib (seq_numbers env)" "\<not> is_first_packet_in_frame (header_new env)"
    and sender: "module_ok (vr_module s)" "report_flags (mod_sender (vr_module s)) = []" "\<not> sending (mod_sender (vr_module s))"
      "snd_observer (mod_sender (vr_module s))"
    and stats: "snd_statistics (mod_sender (vr_module s)) = Some rs" "statisticians rs (remote_ssrc s) = Some st" "in_step (stat_lib env) seq ts st"
    and nack: "nack_ok (nack_module s)" "initialized (nack_module s)" "seq \<noteq> newest_seq_num (nack_module s)"
      "\<not> AheadOf (seq_numbers env) (newest_seq_num (nack_module s)) seq"
      "length (recent seq (nack_list (nack_module s))) + age seq (newest_seq_num (nack_module s) + 1) \<le> 1000"
      "NumValues (reordering_histogram (nack_module s)) = 0"
    and "pt \<le> 0x7F" "env_io penv = env_bytes env" "has_observer r"
    and gap: "missing = gap (newest_seq_num (nack_module s) + 1) seq" "missing \<noteq> []"
  shows "\<exists>s' pkts idss. vr_DeliverRtp env (fixed_header (env_bytes env) False mk pt seq ts (remote_ssrc s) @ pl) s = Inr s' \<and>
    module_ok (vr_module s') \<and> map fst (nack_list (nack_module s')) = map fst (recent seq (nack_list (nack_module s))) @ missing \<and>
    snd_events (mod_sender (vr_module s')) = snd_events (mod_sender (vr_module s)) @ map (OnLocalRtcpPacket (snd_audio (mod_sender (vr_module s)))) pkts \<and>
    receive_all penv sr0 n0 pkts r = Inr (r\<lparr>events := events r @ map (OnNackReceived (audio r)) idss\<rparr>) \<and> set missing \<subseteq> set (concat idss)"
proof -
  have be: "big_endian_io (env_bytes env)" using env(1) by (simp add: module_env_ok_def)
  obtain p where p: "parse_received env (fixed_header (env_bytes env) False mk pt seq ts (remote_ssrc s) @ pl) = Inr p" "pkt_ssrc p = remote_ssrc s"
    "pkt_sequence_number p = seq" "pkt_timestamp p = ts" using parse_received_header[OF be env(2) assms(18)] by blast
  have "streams_ok rs" using sender(1) stats(1) by (simp add: module_ok_def sender_core_def)
  then obtain rs' where rs': "OnRtpPacket (stat_lib env) (ntp_time_ms env) (env_now_ms env) (RtpPacketReceived_of p) rs = Inr rs'" "streams_ok rs'"
    using received_in_step[of rs p st "stat_lib env"] stats p by auto
  define m where "m = (vr_module s)\<lparr>mod_sender := (mod_sender (vr_module s))\<lparr>snd_statistics := Some rs'\<rparr>\<rparr>"
  have m: "module_ok m" "report_flags (mod_sender m) = []" "\<not> sending (mod_sender m)" "snd_observer (mod_sender m)"
    using sender rs'(2) by (simp_all add: m_def module_ok_def sender_core_def)
  obtain n signal where n: "OnReceivedPacket (seq_numbers env) (env_now_ms env) seq False False (nack_module s) = Inr (n, 0, signal)"
    "map fst (nack_list n) = map fst (recent seq (nack_list (nack_module s))) @ missing" "\<exists>batch. signal = Some batch \<and> set missing \<subseteq> set batch"
    using gap_requested[OF env(3) nack(1-5), of "env_now_ms env" False False] nack(6) gap by auto
  then obtain batch where b: "signal = Some batch" "set missing \<subseteq> set batch" by blast
  obtain m' pkts idss where m': "SendNack (mod_env env) batch m = Inr m'" "module_ok m'"
    "snd_events (mod_sender m') = snd_events (mod_sender m) @ map (OnLocalRtcpPacket (snd_audio (mod_sender m))) pkts"
    "receive_all penv sr0 n0 pkts r = Inr (r\<lparr>events := events r @ map (OnNackReceived (audio r)) idss\<rparr>)" "set (concat idss) = set batch"
    using SendNack_reaches_peer[OF env(1) m assms(19,20), of batch sr0 n0] by (elim exE conjE) (rule that)
  have "vr_DeliverRtp env (fixed_header (env_bytes env) False mk pt seq ts (remote_ssrc s) @ pl) s = Inr (s\<lparr>vr_module := m', nack_module := n\<rparr>)"
    using p rs'(1) stats(1) n(1) b(1) m'(1) DeliverRtp_plain[OF env(4)]
    by (simp add: deliver_plain_def on_statistics_def OnNackSend_def m_def del: bindE_eq_Inr)
  then show ?thesis using m' n(2) b(2)
    by (intro exI[of _ "s\<lparr>vr_module := m', nack_module := n\<rparr>"] exI[of _ pkts] exI[of _ idss]) (simp add: m_def)
qed

section \<open>A late packet without retransmission stream\<close>

lemma mod_SetRTCPStatus_sender:
  "mod_SetRTCPStatus env mode m = Inr m' \<Longrightarrow> mod_sender m' = (SetRTCPStatus (snd_env env) mode (mod_sender m))\<lparr>scheduled := []\<rparr>"
  using schedule_all_sender by (fastforce simp: mod_SetRTCPStatus_def after_sender_def)

definition statistics_of :: "('g, 'u, 'r, 's, 'w) video_receive_stream \<Rightarrow> ('u, 'r) receive_statistics option" where
  "statistics_of s = snd_statistics (mod_sender (vr_module s))"

text \<open>A new stream without RTX looks for retransmissions in the media stream itself.\<close>

lemma new_stream_statistics:
  fixes env :: "('g, 'u, 'r, 'f, 's, 'i, 'w) stream_env"
  assumes "vrc_rtx_ssrc c = 0" "vrc_report_interval_ms c \<noteq> 1" "vrc_report_interval_ms c < 10 ^ 8"
  shows "\<exists>s rs. VideoReceiveStream_new env seed w c = Inr s \<and> nack_module s = NackRequester_new \<and> remote_ssrc s = vrc_remote_ssrc c \<and>
    statistics_of s = Some rs \<and> statisticians rs (vrc_remote_ssrc c) =
      Some ((StreamStatisticianImpl_new (stat_lib env) (vrc_remote_ssrc c) (ntp_time_ms env) (env_now_ms env) 5)\<lparr>enable_retransmit_detection := True\<rparr>)"
proof -
  let ?st = "(StreamStatisticianImpl_new (stat_lib env) (vrc_remote_ssrc c) (ntp_time_ms env) (env_now_ms env) 5)\<lparr>enable_retransmit_detection := True\<rparr>"
  define rs where "rs = ReceiveStatisticsImpl_new\<lparr>statisticians := [vrc_remote_ssrc c \<mapsto> ?st], all_ssrcs := [vrc_remote_ssrc c]\<rparr>"
  define m where "m = vr_CreateRtpRtcpModule seed c (ReceiveStatisticsImpl_new :: ('u, 'r) receive_statistics)"
  define m1 where "m1 = m\<lparr>mod_sender := (mod_sender m)\<lparr>snd_statistics := Some rs\<rparr>\<rparr>"
  have "streams_ok rs" by (auto simp: streams_ok_def rs_def ReceivedRtpPacket_def StreamStatisticianImpl_new_def split: if_splits)
  then have "sender_core ((mod_sender m1)\<lparr>rtcp_mode := kCompound\<rparr>)" "list_all snd (report_flags (mod_sender m1))" "scheduled (mod_sender m1) = []"
    "rtcp_mode (mod_sender m1) = kOff"
    using assms(2,3) by (auto simp: m1_def m_def vr_CreateRtpRtcpModule_def ModuleRtpRtcpImpl_new_def RTCPSender_new_def sender_core_def IP_PACKET_SIZE_def
        GetReportInterval_def kDefaultVideoRtcpIntervalMs_def)
  then obtain m2 where m2: "mod_SetRTCPStatus (mod_env env) kCompound m1 = Inr m2" using mod_SetRTCPStatus_ok[of m1 "mod_env env"] by auto
  have "snd_statistics (mod_sender m2) = Some rs"
    unfolding mod_SetRTCPStatus_sender[OF m2] by (simp add: SetRTCPStatus_def SetNextRtcpSendEvaluationDuration_def m1_def)
  moreover have "VideoReceiveStream_new env seed w c = Inr \<lparr>vr_config = c, vr_module = mod_SetSendingStatus False m2, nack_module = NackRequester_new,
      video_structure = None, video_structure_frame_id = None, frame_id_unwrapper = w, remote_ssrc = vrc_remote_ssrc c\<rparr>"
  proof -
    have "snd_statistics (mod_sender m) = Some ReceiveStatisticsImpl_new"
      by (simp add: m_def vr_CreateRtpRtcpModule_def ModuleRtpRtcpImpl_new_def RTCPSender_new_def)
    moreover have "rs_SetMaxReorderingThreshold_of (stat_lib env) (ntp_time_ms env) (env_now_ms env) (vrc_remote_ssrc c) kDefaultMaxReorderingThreshold
        (rs_EnableRetransmitDetection (stat_lib env) (ntp_time_ms env) (env_now_ms env) (vrc_remote_ssrc c) True ReceiveStatisticsImpl_new) = rs"
      by (simp add: rs_SetMaxReorderingThreshold_of_def rs_EnableRetransmitDetection_def GetOrCreateStatistician_def ReceiveStatisticsImpl_new_def rs_def
          kDefaultMaxReorderingThreshold_def SetMaxReorderingThreshold_def EnableRetransmitDetection_def StreamStatisticianImpl_new_def Let_def)
    ultimately show ?thesis using m2 assms(1)
      by (simp add: VideoReceiveStream_new_def on_statistics_def m_def[symmetric] m1_def del: bindE_eq_Inr)
  qed
  ultimately show ?thesis by (simp add: statistics_of_def mod_SetSendingStatus_def SetSendingStatus_def rs_def)
qed

lemma first_packet_counters:
  assumes "s = UnwrapWithoutUpdate env (unwrapper_new env) (pkt_sequence_number p)" "0 \<le> s"
  shows "\<exists>st'. UpdateCounters env now p ((StreamStatisticianImpl_new env ssrc ntp t th)\<lparr>enable_retransmit_detection := True\<rparr>) = Inr st' \<and>
    ReceivedRtpPacket st' \<and> received_seq_out_of_order st' = None \<and> enable_retransmit_detection st' \<and> received_seq_max st' = s \<and>
    max_reordering_threshold st' = th \<and> cumulative_loss st' = 0 \<and> seq_unwrapper st' = UpdateLast env s (unwrapper_new env)"
  using assms by (simp add: UpdateCounters_def StreamStatisticianImpl_new_def ReceivedRtpPacket_def Let_def StreamDataCounters_new_def
    counter_zero_def AddPacket_def)

lemma late_packet_faults:
  assumes "\<not> is_first_packet_in_frame (header_new env)" "parse_received env packet = Inr p" "statistics_of s = Some rs" "statisticians rs (pkt_ssrc p) = Some st"
    and "UpdateCounters (stat_lib env) (env_now_ms env) (RtpPacketReceived_of p) st = Inl e"
  shows "vr_DeliverRtp env packet s = Inl e"
  using assms by (simp add: DeliverRtp_plain deliver_plain_def on_statistics_def statistics_of_def OnRtpPacket_def GetOrCreateStatistician_def)

text \<open>C39. A video receive stream without an RTX SSRC turns on the detection of retransmissions, but no packet it delivers has a clock rate: after
  any first packet, a packet with the preceding sequence number makes \<open>DeliverRtp\<close> divide by zero.\<close>

theorem late_packet_without_rtx:
  assumes "big_endian_io (env_bytes env)" "cow_buffer (cow_env env)" "\<not> is_first_packet_in_frame (header_new env)"
    and "vrc_rtx_ssrc c = 0" "vrc_report_interval_ms c \<noteq> 1" "vrc_report_interval_ms c < 10 ^ 8" "pt \<le> 0x7F"
    and "UnwrapWithoutUpdate (stat_lib env) (unwrapper_new (stat_lib env)) a = uint a"
    and "UnwrapWithoutUpdate (stat_lib env) (UpdateLast (stat_lib env) (uint a) (unwrapper_new (stat_lib env))) (a - 1) = uint a - 1"
  shows "\<exists>s0 s1. VideoReceiveStream_new env seed w c = Inr s0 \<and>
    vr_DeliverRtp env (fixed_header (env_bytes env) False mk pt a ts (vrc_remote_ssrc c) @ pl) s0 = Inr s1 \<and>
    vr_DeliverRtp env (fixed_header (env_bytes env) False mk' pt (a - 1) ts' (vrc_remote_ssrc c) @ pl') s1 = Inl DivisionByZero"
proof -
  let ?st = "(StreamStatisticianImpl_new (stat_lib env) (vrc_remote_ssrc c) (ntp_time_ms env) (env_now_ms env) 5)\<lparr>enable_retransmit_detection := True\<rparr>"
  obtain s0 rs where s0: "VideoReceiveStream_new env seed w c = Inr s0" "nack_module s0 = NackRequester_new" "remote_ssrc s0 = vrc_remote_ssrc c"
    "statistics_of s0 = Some rs" "statisticians rs (vrc_remote_ssrc c) = Some ?st" using new_stream_statistics[OF assms(4-6), of env seed w] by (elim exE conjE) (rule that)
  obtain p where p: "parse_received env (fixed_header (env_bytes env) False mk pt a ts (vrc_remote_ssrc c) @ pl) = Inr p" "pkt_ssrc p = vrc_remote_ssrc c"
    "pkt_sequence_number p = a" using parse_received_header[OF assms(1,2,7)] by blast
  obtain q where q: "parse_received env (fixed_header (env_bytes env) False mk' pt (a - 1) ts' (vrc_remote_ssrc c) @ pl') = Inr q"
    "pkt_ssrc q = vrc_remote_ssrc c" "pkt_sequence_number q = a - 1" using parse_received_header[OF assms(1,2,7)] by blast
  obtain st where st: "UpdateCounters (stat_lib env) (env_now_ms env) (RtpPacketReceived_of p) ?st = Inr st" "ReceivedRtpPacket st"
    "received_seq_out_of_order st = None" "enable_retransmit_detection st" "received_seq_max st = uint a" "max_reordering_threshold st = 5"
    "cumulative_loss st = 0" "seq_unwrapper st = UpdateLast (stat_lib env) (uint a) (unwrapper_new (stat_lib env))"
    using first_packet_counters[of "uint a" "stat_lib env" "RtpPacketReceived_of p" "env_now_ms env" "vrc_remote_ssrc c" "ntp_time_ms env" "env_now_ms env" 5]
      p(3) assms(8) by auto
  define s1 where "s1 = s0\<lparr>vr_module := (vr_module s0)\<lparr>mod_sender := (mod_sender (vr_module s0))\<lparr>snd_statistics :=
      Some (rs\<lparr>statisticians := (statisticians rs)(vrc_remote_ssrc c \<mapsto> st)\<rparr>)\<rparr>\<rparr>, nack_module := NackRequester_new\<lparr>newest_seq_num := a, initialized := True\<rparr>\<rparr>"
  have "vr_DeliverRtp env (fixed_header (env_bytes env) False mk pt a ts (vrc_remote_ssrc c) @ pl) s0 = Inr s1"
    using s0 p st(1) DeliverRtp_plain[OF assms(3)]
    by (simp add: deliver_plain_def on_statistics_def statistics_of_def OnRtpPacket_def GetOrCreateStatistician_def OnReceivedPacket_def NackRequester_new_def
        OnNackSend_def s1_def del: bindE_eq_Inr)
  moreover have "UpdateCounters (stat_lib env) (env_now_ms env) (RtpPacketReceived_of q) st = Inl DivisionByZero"
    using st q assms(9) by (intro old_packet_divides_by_zero[where s = "uint a - 1"]) simp_all
  then have "vr_DeliverRtp env (fixed_header (env_bytes env) False mk' pt (a - 1) ts' (vrc_remote_ssrc c) @ pl') s1 = Inl DivisionByZero"
    using q(2) by - (rule late_packet_faults[OF assms(3) q(1)], simp add: statistics_of_def s1_def, simp_all)
  ultimately show ?thesis using s0(1) by blast
qed

section \<open>Concrete streams\<close>

text \<open>An unwrapper that keeps the last number and takes the nearest value to it.\<close>

definition near_unwrap :: "int option \<Rightarrow> u16 \<Rightarrow> int" where
  "near_unwrap u sn = (case u of None \<Rightarrow> uint sn | Some prev \<Rightarrow> prev + sint (sn - of_int prev))"

definition sample_stat_lib :: "(int option, unit) stat_env" where
  "sample_stat_lib = \<lparr>unwrapper_new = None, UnwrapWithoutUpdate = near_unwrap, UpdateLast = (\<lambda>s _. Some s), rate_new = (), rate_update = (\<lambda>_ _ r. r),
     rate_get = (\<lambda>_ _. None), jitter_delay_ms = (\<lambda>_ _. 0)\<rparr>"

definition sample_stream_env :: "(unit, int option, unit, nat, unit, unit, unit) stream_env" where
  "sample_stream_env = \<lparr>mod_env = sample_module_env, cow_env = zero_cow, raw_packet = empty_packet, stat_lib = sample_stat_lib, seq_numbers = word_seq,
     ntp_time_ms = 2208988800000, read_dependency_descriptor = (\<lambda>_ _. None), AddFrameDependencyDiff = sample_add_diff,
     descriptor_new = sample_descriptor, SpatialLayer = (\<lambda>_. 0), unwrap_id = (\<lambda>w f. (uint f, w)),
     header_new = \<lparr>is_first_packet_in_frame = False, is_last_packet_in_frame = False, vh_generic = None, vh_width = 0, vh_height = 0,
       vh_frame_type = kEmptyFrame\<rparr>\<rparr>"

definition sample_receive_config :: video_receive_config where
  "sample_receive_config = \<lparr>vrc_remote_ssrc = 7, vrc_local_ssrc = 5, vrc_clock_rate = 90000, vrc_rtx_ssrc = 0, vrc_report_interval_ms = 1000, vrc_observer = True\<rparr>"

lemma sample_stream_env_ok:
  "big_endian_io (env_bytes sample_stream_env)" "cow_buffer (cow_env sample_stream_env)" "module_env_ok (mod_env sample_stream_env)"
  "seq_lib (seq_numbers sample_stream_env)" "\<not> is_first_packet_in_frame (header_new sample_stream_env)"
  "env_bytes sample_stream_env = be_io"
  using sample_module_env_ok zero.cow_buffer_axioms ws.seq_lib_axioms sample_io
  by (simp_all add: sample_stream_env_def sample_module_env_def sample_sender_env_def sample_clock_def)

theorem late_packet_without_rtx_witness:
  "\<exists>s0 s1. VideoReceiveStream_new sample_stream_env () () sample_receive_config = Inr s0 \<and>
    vr_DeliverRtp sample_stream_env (fixed_header be_io False False 96 10 9000 7 @ [1]) s0 = Inr s1 \<and>
    vr_DeliverRtp sample_stream_env (fixed_header be_io False False 96 9 6000 7 @ [2]) s1 = Inl DivisionByZero"
  using late_packet_without_rtx[OF sample_stream_env_ok(1,2,5), of sample_receive_config 96 10 "()" "()" False 9000 "[1]" False 6000 "[2]"] sample_stream_env_ok(6)
  by (simp add: sample_receive_config_def sample_stream_env_def sample_stat_lib_def near_unwrap_def)

definition sample_video_send :: "(unit, int option, unit) video_send_stream" where
  "sample_video_send = (let c = \<lparr>vsc_ssrc = 1, vsc_clock_rate = 90000, vsc_rtx_ssrc = 2, vsc_rtx_payload_type = 97, vsc_report_interval_ms = 1000,
     vsc_observer = True\<rparr> in \<lparr>vs_config = c, vs_module = vs_CreateRtpRtcpModule () c, rtx_seq = 65535\<rparr>)"

definition sample_sent_packet :: rtp_packet where
  "sample_sent_packet = empty_packet\<lparr>pkt_sequence_number := 300, payload_offset := 12, pkt_payload_size := 2,
     buffer := fixed_header be_io False False 96 300 0 1 @ [8, 9]\<rparr>"

theorem rtx_packet_roundtrip_witness:
  "\<exists>p q. BuildRtxPacket sample_stream_env sample_sent_packet sample_video_send = Inr (sample_video_send\<lparr>rtx_seq := 0\<rparr>, Some p) \<and>
     Parse be_io zero_cow (buffer p) empty_packet = Inr (q, True) \<and> pkt_ssrc q = 2 \<and> pkt_sequence_number q = 65535 \<and> packet_payload q = Inr [1, 44, 8, 9]"
proof -
  have pl: "packet_payload sample_sent_packet = Inr [8, 9]"
    by (simp add: packet_payload_def sample_sent_packet_def view_def be.length_fixed_header)
  have wr: "wr16 be_io 300 = [1, 44]" by code_simp
  have cow: "cow_env sample_stream_env = zero_cow" by (simp add: sample_stream_env_def)
  show ?thesis
    using rtx_packet_roundtrip[OF sample_stream_env_ok(1,2), of sample_video_send sample_sent_packet "[8, 9]" empty_packet] pl wr cow sample_stream_env_ok(6)
    by (auto simp: sample_video_send_def sample_sent_packet_def Let_def)
qed

definition sample_statistician :: "(int option, unit) statistician" where
  "sample_statistician = (StreamStatisticianImpl_new sample_stat_lib 7 2208988800000 0 5)\<lparr>received_seq_first := 10, received_seq_max := 14,
     cumulative_loss := 2, last_report_seq_max := 9, last_receive_time_ms := 100, seq_unwrapper := Some 14\<rparr>"

definition sample_receive_statistics :: "(int option, unit) receive_statistics" where
  "sample_receive_statistics = \<lparr>last_returned_ssrc_idx = 0, all_ssrcs = [7], default_threshold = 5, statisticians = [7 \<mapsto> sample_statistician]\<rparr>"

text \<open>A stream that has received packet 14 last.\<close>

definition sample_receive_stream :: "(unit, int option, unit, unit, unit) video_receive_stream" where
  "sample_receive_stream = (let m = vr_CreateRtpRtcpModule () sample_receive_config sample_receive_statistics in
     \<lparr>vr_config = sample_receive_config, vr_module = m\<lparr>mod_sender := (mod_sender m)\<lparr>rtcp_mode := kCompound, next_time_to_send_rtcp := Some 0\<rparr>\<rparr>,
      nack_module = NackRequester_new\<lparr>initialized := True, newest_seq_num := 14\<rparr>, video_structure = None, video_structure_frame_id = None,
      frame_id_unwrapper = (), remote_ssrc = 7\<rparr>)"

lemma sample_statistician_inv: "loss_inv 3 0 sample_statistician"
  by (simp add: loss_inv_def sample_statistician_def StreamStatisticianImpl_new_def)

lemma sample_in_step: "in_step sample_stat_lib 17 12000 sample_statistician"
proof -
  have "UnwrapWithoutUpdate sample_stat_lib (seq_unwrapper sample_statistician) 17 = 17"
    by (simp add: sample_stat_lib_def sample_statistician_def near_unwrap_def)
  moreover have "\<exists>n m. loss_inv n m sample_statistician \<and> n + 1 < 2 ^ 29"
    by (rule exI[of _ 3], rule exI[of _ 0]) (simp add: sample_statistician_inv)
  ultimately show ?thesis by (simp add: in_step_def sample_statistician_def StreamStatisticianImpl_new_def)
qed

lemma sample_receive_stream_ok:
  "module_ok (vr_module sample_receive_stream)" "report_flags (mod_sender (vr_module sample_receive_stream)) = []"
  "\<not> sending (mod_sender (vr_module sample_receive_stream))" "snd_observer (mod_sender (vr_module sample_receive_stream))"
  "snd_statistics (mod_sender (vr_module sample_receive_stream)) = Some sample_receive_statistics"
  "snd_events (mod_sender (vr_module sample_receive_stream)) = []" "snd_audio (mod_sender (vr_module sample_receive_stream)) = False"
proof -
  have "accounted sample_statistician" unfolding accounted_def
    by (intro exI conjI, rule sample_statistician_inv) (simp_all add: sample_statistician_def)
  then have "streams_ok sample_receive_statistics"
    by (auto simp: streams_ok_def sample_receive_statistics_def sample_statistician_def StreamStatisticianImpl_new_def split: if_splits)
  then show "module_ok (vr_module sample_receive_stream)"
    by (simp add: module_ok_def sender_core_def sample_receive_stream_def vr_CreateRtpRtcpModule_def ModuleRtpRtcpImpl_new_def RTCPSender_new_def
        sample_receive_config_def IP_PACKET_SIZE_def GetReportInterval_def Let_def)
qed (simp_all add: sample_receive_stream_def vr_CreateRtpRtcpModule_def ModuleRtpRtcpImpl_new_def RTCPSender_new_def sample_receive_config_def Let_def)

theorem gap_reaches_peer_witness:
  "\<exists>s' pkts idss. vr_DeliverRtp sample_stream_env (fixed_header be_io False False 96 17 12000 7 @ [1, 2]) sample_receive_stream = Inr s' \<and>
    map fst (nack_list (nack_module s')) = [15, 16] \<and> snd_events (mod_sender (vr_module s')) = map (OnLocalRtcpPacket False) pkts \<and>
    receive_all sample_clock (sr_new sample_module_env) (nack_new sample_module_env) pkts (RTCPReceiver_init False True 5 6) =
      Inr ((RTCPReceiver_init False True 5 6)\<lparr>events := map (OnNackReceived False) idss\<rparr>) \<and> {15, 16} \<subseteq> set (concat idss)"
proof -
  let ?n = "nack_module sample_receive_stream" and ?r = "RTCPReceiver_init False True 5 6"
  have n: "?n = NackRequester_new\<lparr>initialized := True, newest_seq_num := 14\<rparr>" "remote_ssrc sample_receive_stream = 7"
    by (simp_all add: sample_receive_stream_def Let_def)
  have nk: "nack_ok ?n" "initialized ?n" "17 \<noteq> newest_seq_num ?n" "\<not> AheadOf (seq_numbers sample_stream_env) (newest_seq_num ?n) 17"
    "NumValues (reordering_histogram ?n) = 0" "nack_list ?n = []"
    using new_nack_ok by (simp_all add: n nack_ok_def NackRequester_new_def Histogram_new_def NumValues_def sample_stream_env_def word_seq_def)
  have g: "gap (newest_seq_num ?n + 1) 17 = [15, 16]" by (simp add: n) code_simp
  have room: "length (recent 17 (nack_list ?n)) + age 17 (newest_seq_num ?n + 1) \<le> 1000" unfolding nk(6) by (simp add: n) code_simp
  have st: "statisticians sample_receive_statistics (remote_ssrc sample_receive_stream) = Some sample_statistician"
    "in_step (stat_lib sample_stream_env) 17 12000 sample_statistician"
    using sample_in_step by (simp_all add: n sample_receive_statistics_def sample_stream_env_def)
  have io: "env_io sample_clock = env_bytes sample_stream_env" "has_observer ?r" "events ?r = []" "audio ?r = False"
    using sample_stream_env_ok(6) by (simp_all add: sample_clock_def RTCPReceiver_init_def)
  show ?thesis
    using gap_reaches_peer[OF sample_stream_env_ok(3,2,4,5) sample_receive_stream_ok(1-5) st nk(1-4) room nk(5) _ io(1,2) g[symmetric], of 96 False "[1, 2]"
        "sr_new sample_module_env" "nack_new sample_module_env"] sample_stream_env_ok(6) nk(6) n(2) io(3,4) sample_receive_stream_ok(6,7)
    by simp (elim ex_forward conjE, simp)
qed

theorem key_frames_never_seen_witness:
  "\<exists>s0 s. VideoReceiveStream_new sample_stream_env () () sample_receive_config = Inr s0 \<and>
     stream_run [(sample_stream_env, PacketSent sample_sent_packet False False)] s0 = Inr s \<and> keyframe_list (nack_module s) = [] \<and>
     nack_list (AddPacketsToNack word_seq 0 1 2000 (nack_module s)) = []"
proof -
  obtain s0 rs where s0: "VideoReceiveStream_new sample_stream_env () () sample_receive_config = Inr s0" "nack_module s0 = NackRequester_new"
    using new_stream_statistics[of sample_receive_config sample_stream_env "()" "()"] by (auto simp: sample_receive_config_def)
  let ?ops = "[(sample_stream_env, PacketSent sample_sent_packet False False)]" and ?s = "vr_UpdateRtpStats sample_sent_packet False False s0"
  have "stream_run ?ops s0 = Inr ?s" by simp
  moreover have "nack_module ?s = NackRequester_new" using s0(2) by (simp add: vr_UpdateRtpStats_def)
  ultimately show ?thesis
    using key_frames_never_seen[OF s0(1), of ?ops ?s word_seq 2000 1 0] s0(1) sample_stream_env_ok(5)
    by (auto simp: NackRequester_new_def erase_before_def word_seq_def kMaxNackPackets_def)
qed

end
