(* ===== verification/Rtp_Format.thy ===== *)
theory Rtp_Format
  imports Rtp_Packet "HOL-Library.Monad_Syntax"
begin

text \<open>
  \<open>RtpPacketizer\<close> (\<open>modules/rtp_rtcp/rtp_format.{h,cpp}\<close>): the limits of a payload and
  \<open>SplitAboutEqual\<close>, which splits a payload over packets of about equal size.
\<close>

record payload_limits =
  max_payload_len :: int
  single_packet_reduction_len :: int
  first_packet_reduction_len :: int
  last_packet_reduction_len :: int

text \<open>One round of the loop: the bytes of this packet and the number of bytes per packet from now on.\<close>

definition split_step :: "int \<Rightarrow> nat \<Rightarrow> nat \<Rightarrow> nat \<Rightarrow> int \<Rightarrow> bool \<Rightarrow> int \<times> nat" where
  "split_step first_reduction num_larger num_left bytes_per_packet remain_data first_packet =
     (let bytes_per_packet = (if num_left = num_larger then size_add bytes_per_packet 1 else bytes_per_packet);
          current = to_int bytes_per_packet;
          current = (if first_packet
                     then if current - first_reduction > 1 then current - first_reduction else 1
                     else current);
          current = (if current > remain_data then remain_data else current);
          current = (if num_left = 2 \<and> current = remain_data then current - 1 else current)
      in (current, bytes_per_packet))"

text \<open>The \<open>while\<close> loop; \<open>None\<close> is a loop that does not end.\<close>

partial_function (option) split_loop :: "int \<Rightarrow> nat \<Rightarrow> nat \<Rightarrow> nat \<Rightarrow> int \<Rightarrow> bool \<Rightarrow> int list option" where
  [code]: "split_loop first_reduction num_larger num_left bytes_per_packet remain_data first_packet =
     (if remain_data > 0 then
        (case split_step first_reduction num_larger num_left bytes_per_packet remain_data first_packet of
           (current, bytes) \<Rightarrow>
             Option.bind (split_loop first_reduction num_larger (size_sub num_left 1) bytes (remain_data - current) False)
               (\<lambda>rest. Some (current # rest)))
      else Some [])"

definition SplitAboutEqual :: "nat \<Rightarrow> payload_limits \<Rightarrow> error + int list" where
  "SplitAboutEqual payload_size limits =
     (if to_size (max_payload_len limits) \<ge> size_add payload_size (to_size (single_packet_reduction_len limits))
      then Inr [to_int payload_size]
      else if max_payload_len limits - first_packet_reduction_len limits < 1 \<or>
              max_payload_len limits - last_packet_reduction_len limits < 1 then Inr []
      else
        let total_bytes = size_add (size_add payload_size (to_size (first_packet_reduction_len limits)))
                            (to_size (last_packet_reduction_len limits));
            max_len = to_size (max_payload_len limits) in
        if max_len = 0 then Inl DivisionByZero
        else
          let num_packets_left = size_sub (size_add total_bytes max_len) 1 div max_len;
              num_packets_left = (if num_packets_left = 1 then 2 else num_packets_left) in
          if num_packets_left = 0 then Inl DivisionByZero
          else case split_loop (first_packet_reduction_len limits) (total_bytes mod num_packets_left)
                      num_packets_left (total_bytes div num_packets_left) (to_int payload_size) True of
            None \<Rightarrow> Inl Diverges
          | Some sizes \<Rightarrow> Inr sizes)"

section \<open>The loop ends and keeps the limits\<close>

text \<open>\<open>nominal b lg k\<close>: the nominal size of the packet when \<open>k\<close> packets are left, \<open>rest_sum\<close> the sum of
  the nominal sizes of the last \<open>k\<close> packets; the last \<open>lg\<close> packets are one byte larger.\<close>

definition nominal :: "nat \<Rightarrow> nat \<Rightarrow> nat \<Rightarrow> nat" where
  "nominal b lg k = (if k \<le> lg then b + 1 else b)"

definition rest_sum :: "nat \<Rightarrow> nat \<Rightarrow> nat \<Rightarrow> nat" where
  "rest_sum b lg k = k * b + min k lg"

text \<open>The counter the loop keeps when \<open>k\<close> packets are left.\<close>

definition counter :: "nat \<Rightarrow> nat \<Rightarrow> nat \<Rightarrow> nat" where
  "counter b lg k = (if k < lg then b + 1 else b)"

lemma rest_sum_Suc: "rest_sum b lg (Suc k) = rest_sum b lg k + nominal b lg (Suc k)"
  by (simp add: rest_sum_def nominal_def)

lemma rest_sum_mono: "j \<le> k \<Longrightarrow> rest_sum b lg j \<le> rest_sum b lg k"
  by (auto simp: rest_sum_def intro!: add_mono mult_le_mono1)

lemma rest_sum_1: "rest_sum b lg 1 = nominal b lg 1"
  by (simp add: rest_sum_def nominal_def)

lemma split_step_later:
  assumes "nominal b lg k < 2 ^ 31"
  shows "split_step f lg k (counter b lg k) rem False =
    (let c = min (int (nominal b lg k)) rem in if k = 2 \<and> c = rem then c - 1 else c, nominal b lg k)"
proof -
  have eq: "(if k = lg then size_add (counter b lg k) 1 else counter b lg k) = nominal b lg k"
    using assms by (auto simp: counter_def nominal_def)
  have t: "to_int (nominal b lg k) = int (nominal b lg k)" using assms by simp
  show ?thesis unfolding split_step_def Let_def eq t if_False by (auto simp: min_def)
qed

lemma counter_pred: "0 < k \<Longrightarrow> nominal b lg k = counter b lg (k - 1)"
  by (auto simp: nominal_def counter_def)

text \<open>The packets after the first: as long as three or more are left every packet has its nominal size,
  the last but one leaves at least a byte, the last takes what remains.\<close>

lemma split_loop_tail:
  assumes "1 \<le> k" and "0 < rem"
    and "k \<ge> 2 \<Longrightarrow> rem = int (rest_sum b lg k) - D" and "k \<ge> 3 \<Longrightarrow> D < int (rest_sum b lg 2)"
    and "k = 1 \<Longrightarrow> rem \<le> int (nominal b lg 1) \<and> rem \<le> M - l"
    and "b + 1 \<le> 2 ^ 30" and "l \<le> D" and "0 \<le> l" and "1 \<le> M - l" and "1 \<le> nominal b lg 1" and "int (nominal b lg 1) \<le> M"
  shows "\<exists>rs. split_loop f lg k (counter b lg k) rem False = Some rs \<and> length rs = k \<and> sum_list rs = rem \<and>
    (\<forall>r \<in> set rs. 0 \<le> r \<and> r \<le> M) \<and> last rs \<le> M - l"
  using assms
proof (induction k arbitrary: rem)
  case 0
  then show ?case by simp
next
  case (Suc k)
  have small: "nominal b lg j < 2 ^ 31" for j using Suc.prems(6) by (simp add: nominal_def)
  have nom: "int (nominal b lg j) \<le> int (nominal b lg 1)" if "1 \<le> j" for j
    using that by (auto simp: nominal_def)
  define cur where "cur = (let c = min (int (nominal b lg (Suc k))) rem in if Suc k = 2 \<and> c = rem then c - 1 else c)"
  have step: "split_step f lg (Suc k) (counter b lg (Suc k)) rem False = (cur, counter b lg k)"
    using split_step_later [OF small] counter_pred [of "Suc k" b lg] by (simp add: cur_def)
  have loop: "split_loop f lg (Suc k) (counter b lg (Suc k)) rem False =
      Option.bind (split_loop f lg k (counter b lg k) (rem - cur) False) (\<lambda>rest. Some (cur # rest))"
    using Suc.prems(2) by (subst split_loop.simps) (simp add: step)
  have cur: "0 \<le> cur" "cur \<le> M"
    using nom [of "Suc k"] Suc.prems(2,11) by (auto simp: cur_def Let_def)
  show ?case
  proof (cases "k = 0")
    case True
    then have "cur = rem" using Suc.prems(5) by (simp add: cur_def)
    moreover have "split_loop f lg 0 (counter b lg 0) 0 False = Some []" by (subst split_loop.simps) simp
    ultimately show ?thesis using loop True Suc.prems(2,5) cur by simp
  next
    case False
    have rec: "\<exists>rs. split_loop f lg k (counter b lg k) (rem - cur) False = Some rs \<and> length rs = k \<and> sum_list rs = rem - cur \<and>
        (\<forall>r \<in> set rs. 0 \<le> r \<and> r \<le> M) \<and> last rs \<le> M - l"
    proof (rule Suc.IH)
      have rem: "rem = int (rest_sum b lg k) + int (nominal b lg (Suc k)) - D"
        using Suc.prems(3) False by (simp add: rest_sum_Suc)
      have mono: "rest_sum b lg 2 \<le> rest_sum b lg k" if "2 \<le> k"
        using that by (rule rest_sum_mono)
      have big: "cur = int (nominal b lg (Suc k)) \<and> D < int (rest_sum b lg k)" if "2 \<le> k"
        using that mono rem Suc.prems(4) by (auto simp: cur_def Let_def)
      show "0 < rem - cur" using big rem False Suc.prems(2) by (cases "2 \<le> k") (auto simp: cur_def Let_def)
      show "rem - cur = int (rest_sum b lg k) - D" if "k \<ge> 2" using big [OF that] rem by simp
      show "D < int (rest_sum b lg 2)" if "k \<ge> 3" using that Suc.prems(4) by simp
      show "rem - cur \<le> int (nominal b lg 1) \<and> rem - cur \<le> M - l" if "k = 1"
        using that rem Suc.prems(7,8,9,10,11) rest_sum_1 [of b lg] by (auto simp: cur_def Let_def)
    qed (use False Suc.prems in auto)
    then show ?thesis using loop cur False by auto
  qed
qed

definition limits_ok :: "payload_limits \<Rightarrow> bool" where
  "limits_ok L \<longleftrightarrow> 0 \<le> single_packet_reduction_len L \<and> single_packet_reduction_len L < 2 ^ 29 \<and>
     0 \<le> first_packet_reduction_len L \<and> first_packet_reduction_len L < max_payload_len L \<and>
     0 \<le> last_packet_reduction_len L \<and> last_packet_reduction_len L < max_payload_len L \<and>
     max_payload_len L < 2 ^ 29"

text \<open>With three or more packets the two reductions never eat up the last two packets.\<close>

lemma reductions_fit:
  fixes M f l :: int
  assumes "3 \<le> n" and "lg < n" and "int (n * b + lg) \<ge> (int n - 1) * M + 1"
    and "0 \<le> f" "f < M" "0 \<le> l" "l < M"
  shows "l + max 0 (1 + f - int b) < int (rest_sum b lg 2)"
proof (rule ccontr)
  assume "\<not> ?thesis"
  then have c: "int (rest_sum b lg 2) \<le> l + max 0 (1 + f - int b)" by simp
  have "2 * lg \<le> n * min 2 lg"
    using assms(1,2) by (cases "lg = 1") (auto simp: min_def)
  then have "2 * (n * b + lg) \<le> n * rest_sum b lg 2" by (simp add: rest_sum_def algebra_simps)
  then have s: "2 * ((int n - 1) * M + 1) \<le> int n * int (rest_sum b lg 2)"
  proof -
    have "2 * int (n * b + lg) \<le> int (n * rest_sum b lg 2)" using \<open>2 * (n * b + lg) \<le> n * rest_sum b lg 2\<close> by linarith
    with assms(3) show ?thesis by simp
  qed
  also have "\<dots> \<le> int n * (l + max 0 (1 + f - int b))" using c by (intro mult_left_mono) auto
  finally have s: "2 * ((int n - 1) * M + 1) \<le> int n * (l + max 0 (1 + f - int b))" .
  have nb: "int n * int b \<ge> (int n - 1) * M + 2 - int n" using assms(2,3) by (simp add: algebra_simps)
  have nM: "3 * M \<le> int n * M" using assms(1,4,5) by (intro mult_right_mono) auto
  show False
  proof (cases "1 + f - int b \<le> 0")
    case True
    have "int n * l \<le> int n * (M - 1)" using assms(7) by (intro mult_left_mono) auto
    moreover have "max 0 (1 + f - int b) = 0" using True by simp
    ultimately have "2 * ((int n - 1) * M + 1) \<le> int n * (M - 1)" using s by simp
    then show False using nM assms(1,4,5) by (simp only: ring_distribs)
  next
    case False
    have "int n * (l + (1 + f - int b)) \<le> int n * (2 * M - 1 - int b)"
      using assms(5,7) by (intro mult_left_mono) auto
    with s False have "2 * ((int n - 1) * M + 1) \<le> int n * (2 * M - 1 - int b)" by simp
    then show False using nb nM assms(4,5) by (simp only: ring_distribs)
  qed
qed

lemma split_step_first:
  assumes "lg < n" and "b < 2 ^ 31"
  shows "split_step f lg n b rem True =
    (let c = min (max 1 (int b - f)) rem in if n = 2 \<and> c = rem then c - 1 else c, counter b lg (n - 1))"
proof -
  have t: "to_int b = int b" using assms(2) by simp
  have "counter b lg (n - 1) = b" using assms(1) by (simp add: counter_def)
  then show ?thesis using assms(1)
    unfolding split_step_def Let_def by (auto simp: t min_def max_def)
qed

lemma split_loop_all:
  fixes M f l :: int
  assumes T: "ps + f + l = int (n * b + lg)" and n: "2 \<le> n" "lg < n" "3 \<le> n \<Longrightarrow> int (n * b + lg) \<ge> (int n - 1) * M + 1"
    and le: "int (n * b + lg) \<le> int n * M" and pos: "0 < ps"
    and red: "0 \<le> f" "f < M" "0 \<le> l" "l < M" and small: "M < 2 ^ 29"
  shows "\<exists>rs. split_loop f lg n b ps True = Some rs \<and> length rs = n \<and> sum_list rs = ps \<and>
    (\<forall>r \<in> set rs. 0 \<le> r \<and> r \<le> M) \<and> hd rs \<le> M - f \<and> last rs \<le> M - l"
proof -
  have nom: "int (nominal b lg 1) \<le> M"
  proof (cases "lg = 0")
    case True
    then show ?thesis using le n(1) by (simp add: nominal_def)
  next
    case False
    have "int n * int b < int n * M" using le False by simp
    then show ?thesis using n(1) by (auto simp: nominal_def)
  qed
  then have bM: "int b \<le> M" by (simp add: nominal_def split: if_splits)
  have nom1: "1 \<le> nominal b lg 1"
    using T pos red(1,3) by (cases "b = 0") (auto simp: nominal_def)
  define D where "D = l + max 0 (1 + f - int b)"
  define cur where "cur = (let c = min (max 1 (int b - f)) ps in if n = 2 \<and> c = ps then c - 1 else c)"
  have b31: "b < 2 ^ 31" "b + 1 \<le> 2 ^ 30" using bM small by auto
  have loop: "split_loop f lg n b ps True =
      Option.bind (split_loop f lg (n - 1) (counter b lg (n - 1)) (ps - cur) False) (\<lambda>rest. Some (cur # rest))"
    using pos n(1) by (subst split_loop.simps) (simp add: split_step_first [OF n(2) b31(1)] cur_def)
  have cur: "0 \<le> cur" "cur \<le> M - f" using bM red pos by (auto simp: cur_def Let_def)
  have sum: "int (n * b + lg) = int (rest_sum b lg (n - 1)) + int b"
  proof -
    have "n * b = (n - 1) * b + b" using n(1) by (metis Suc_diff_1 add.commute mult_Suc not_numeral_le_zero zero_less_iff_neq_zero gr0I)
    then show ?thesis using n(2) by (auto simp: rest_sum_def min_def)
  qed
  have "\<exists>rs. split_loop f lg (n - 1) (counter b lg (n - 1)) (ps - cur) False = Some rs \<and> length rs = n - 1 \<and>
      sum_list rs = ps - cur \<and> (\<forall>r \<in> set rs. 0 \<le> r \<and> r \<le> M) \<and> last rs \<le> M - l"
  proof (rule split_loop_tail [where D = D])
    have fit: "D < int (rest_sum b lg 2)" if "3 \<le> n"
      using reductions_fit [OF that n(2) n(3) red] that by (simp add: D_def)
    have mono: "rest_sum b lg 2 \<le> rest_sum b lg (n - 1)" if "3 \<le> n"
      using that by (intro rest_sum_mono) simp
    have eq: "ps - max 1 (int b - f) = int (rest_sum b lg (n - 1)) - D"
      using T sum by (simp add: D_def max_def)
    have big: "cur = max 1 (int b - f)" "D < int (rest_sum b lg (n - 1))" if "3 \<le> n"
      using that fit mono eq by (auto simp: cur_def Let_def)
    show "0 < ps - cur" using big eq pos n(1) by (cases "3 \<le> n") (auto simp: cur_def Let_def)
    show "ps - cur = int (rest_sum b lg (n - 1)) - D" if "2 \<le> n - 1" using that big(1) eq by simp
    show "D < int (rest_sum b lg 2)" if "3 \<le> n - 1" using that fit by simp
    show "ps - cur \<le> int (nominal b lg 1) \<and> ps - cur \<le> M - l" if "n - 1 = 1"
      using that eq nom nom1 rest_sum_1 [of b lg] red by (auto simp: cur_def Let_def D_def)
  qed (use n(1) b31 red nom nom1 in \<open>auto simp: D_def\<close>)
  then show ?thesis using loop cur n(1) red by (auto simp del: One_nat_def)
qed

text \<open>The number of packets: the total rounded up to whole packets, but at least two.\<close>

definition packet_count :: "nat \<Rightarrow> payload_limits \<Rightarrow> nat" where
  "packet_count ps L = max 2 (nat ((int ps + first_packet_reduction_len L + last_packet_reduction_len L
     + max_payload_len L - 1) div max_payload_len L))"

lemma ceil_div_bounds:
  fixes T M :: nat
  assumes "0 < M" "0 < T" defines "n \<equiv> (T + M - 1) div M"
  shows "T \<le> n * M" and "(n - 1) * M + 1 \<le> T" and "1 \<le> n"
proof -
  have q: "n * M + (T + M - 1) mod M = T + M - 1" by (simp add: n_def)
  have r: "(T + M - 1) mod M < M" using assms(1) by simp
  show T: "T \<le> n * M" using q r assms by linarith
  show n: "1 \<le> n" using T assms(2) by (cases n) auto
  have "n * M \<le> T + M - 1" using q by linarith
  moreover have "n * M = (n - 1) * M + M" using n by (cases n) auto
  ultimately show "(n - 1) * M + 1 \<le> T" using assms by linarith
qed

lemma SplitAboutEqual_ok:
  assumes "limits_ok L" and "0 < ps" and "ps < 2 ^ 29"
  shows "if int ps + single_packet_reduction_len L \<le> max_payload_len L then SplitAboutEqual ps L = Inr [int ps]
    else \<exists>rs. SplitAboutEqual ps L = Inr rs \<and> length rs = packet_count ps L \<and> sum_list rs = int ps \<and>
      (\<forall>r \<in> set rs. 0 \<le> r \<and> r \<le> max_payload_len L) \<and>
      hd rs \<le> max_payload_len L - first_packet_reduction_len L \<and>
      last rs \<le> max_payload_len L - last_packet_reduction_len L"
proof -
  define M f l where "M = nat (max_payload_len L)" and "f = nat (first_packet_reduction_len L)"
    and "l = nat (last_packet_reduction_len L)"
  define T where "T = ps + f + l"
  have L: "max_payload_len L = int M" "first_packet_reduction_len L = int f" "last_packet_reduction_len L = int l"
    "f < M" "l < M" "M < 2 ^ 29" "0 \<le> single_packet_reduction_len L" "single_packet_reduction_len L < 2 ^ 29"
    using assms(1) by (auto simp: limits_ok_def M_def f_def l_def)
  have fits: "to_size (max_payload_len L) \<ge> size_add ps (to_size (single_packet_reduction_len L)) \<longleftrightarrow>
      int ps + single_packet_reduction_len L \<le> max_payload_len L"
    using L assms(3) by (auto simp: nat_le_iff)
  show ?thesis
  proof (cases "int ps + single_packet_reduction_len L \<le> max_payload_len L")
    case True
    with fits assms(3) show ?thesis by (simp add: SplitAboutEqual_def)
  next
    case False
    define n where "n = max 2 ((T + M - 1) div M)"
    have M: "0 < M" "0 < T" using L(4) assms(2) by (auto simp: T_def)
    note ceil = ceil_div_bounds [OF M]
    have n: "2 \<le> n" "(if (T + M - 1) div M = 1 then 2 else (T + M - 1) div M) = n"
      using ceil(3) by (auto simp: n_def)
    have T_le: "T \<le> n * M" using ceil(1) by (simp add: n_def max_def) (meson le_trans mult_le_mono1 nat_le_linear)
    have T_ge: "(int n - 1) * int M + 1 \<le> int T" if "3 \<le> n"
    proof -
      have "(n - 1) * M + 1 \<le> T" using that ceil(2) by (auto simp: n_def max_def split: if_splits)
      then have "int ((n - 1) * M + 1) \<le> int T" by linarith
      then show ?thesis using n(1) by (simp add: of_nat_diff)
    qed
    have TT: "n * (T div n) + T mod n = T" by simp
    have "\<exists>rs. split_loop (int f) (T mod n) n (T div n) (int ps) True = Some rs \<and> length rs = n \<and> sum_list rs = int ps \<and>
        (\<forall>r \<in> set rs. 0 \<le> r \<and> r \<le> int M) \<and> hd rs \<le> int M - int f \<and> last rs \<le> int M - int l"
    proof (rule split_loop_all)
      show "int ps + int f + int l = int (n * (T div n) + T mod n)" unfolding TT by (simp add: T_def)
      show "int (n * (T div n) + T mod n) \<ge> (int n - 1) * int M + 1" if "3 \<le> n" unfolding TT by (rule T_ge [OF that])
      show "int (n * (T div n) + T mod n) \<le> int n * int M" unfolding TT using T_le by (metis of_nat_le_iff of_nat_mult)
    qed (use n L assms(2) in auto)
    moreover have "packet_count ps L = n"
    proof -
      have "int ps + int f + int l + int M - 1 = int (T + M - 1)" using M by (simp add: T_def of_nat_diff)
      then show ?thesis by (simp add: packet_count_def L n_def zdiv_int [symmetric])
    qed
    moreover have "SplitAboutEqual ps L = (case split_loop (int f) (T mod n) n (T div n) (int ps) True of
        None \<Rightarrow> Inl Diverges | Some sizes \<Rightarrow> Inr sizes)"
    proof -
      have "T + M < 2 ^ 64" using L(4-6) assms(3) by (simp add: T_def)
      then have num: "size_sub (size_add T M) 1 = T + M - 1" using M by simp
      have M': "to_size (int M) = M" using L(6) by simp
      have total: "size_add (size_add ps (to_size (int f))) (to_size (int l)) = T"
        using L(4-6) assms(3) by (simp add: T_def)
      have "\<not> to_size (int M) \<ge> size_add ps (to_size (single_packet_reduction_len L))"
        "\<not> (int M - int f < 1 \<or> int M - int l < 1)" "M \<noteq> 0" "n \<noteq> 0" "to_int ps = int ps"
        using False fits L(1,4,5) M n(1) assms(3) by auto
      then show ?thesis
        unfolding SplitAboutEqual_def L Let_def total M' num n(2) by simp
    qed
    ultimately show ?thesis using False by (auto simp: L)
  qed
qed

section \<open>Property\<close>

text \<open>C15. Splitting a payload. For limits whose reductions are non-negative and smaller than the maximum,
  and a non-empty payload, \<open>SplitAboutEqual\<close> terminates: it returns the payload as one packet exactly when
  it fits with the single-packet reduction, and otherwise as the least number of packets (at least
  two) whose sizes add up to the payload, none above the maximum, the first and the last reduced by
  their reductions.\<close>

theorem split_about_equal_correct:
  assumes "limits_ok L" and "0 < ps" and "ps < 2 ^ 29"
  shows "if int ps + single_packet_reduction_len L \<le> max_payload_len L then SplitAboutEqual ps L = Inr [int ps]
    else \<exists>rs. SplitAboutEqual ps L = Inr rs \<and> length rs = packet_count ps L \<and> sum_list rs = int ps \<and>
      (\<forall>r \<in> set rs. 0 \<le> r \<and> r \<le> max_payload_len L) \<and>
      hd rs \<le> max_payload_len L - first_packet_reduction_len L \<and>
      last rs \<le> max_payload_len L - last_packet_reduction_len L"
  by (rule SplitAboutEqual_ok [OF assms])

theorem split_about_equal_correct_witness:
  "\<exists>rs. SplitAboutEqual 2500 \<lparr>max_payload_len = 1200, single_packet_reduction_len = 0,
      first_packet_reduction_len = 10, last_packet_reduction_len = 20\<rparr> = Inr rs \<and> length rs = 3 \<and> sum_list rs = 2500"
  using split_about_equal_correct [of "\<lparr>max_payload_len = 1200, single_packet_reduction_len = 0,
      first_packet_reduction_len = 10, last_packet_reduction_len = 20\<rparr>" 2500]
  by (auto simp: limits_ok_def packet_count_def)

end
