(* ===== verification/H264_Packetizer.thy ===== *)
theory H264_Packetizer
  imports Rtp_Format
begin

text \<open>
  \<open>RtpPacketizerH264\<close> (\<open>modules/rtp_rtcp/rtp_format_h264.{h,cpp}\<close>): the search for NAL units in an
  Annex B stream, their packetisation as single NAL unit, STAP-A and FU-A packets, and the writing
  of the RTP payloads. A view of the input is the list of its bytes. Reading the first byte of an
  empty NAL unit is an access out of bounds, as is writing through the \<open>nullptr\<close> that
  \<open>AllocatePayload\<close> returns when the packet is too small.
\<close>

section \<open>Finding the NAL units\<close>

record nalu_index =
  start_offset :: nat
  payload_start_offset :: nat
  nalu_payload_size :: nat

definition kNaluShortStartSequenceSize :: nat where
  "kNaluShortStartSequenceSize = 3"

definition set_last_size :: "nat \<Rightarrow> nalu_index list \<Rightarrow> nalu_index list" where
  "set_last_size end_offset sequences =
     (if sequences = [] then []
      else butlast sequences @
        [(last sequences)\<lparr>nalu_payload_size := size_sub end_offset (payload_start_offset (last sequences))\<rparr>])"

text \<open>The start offset: one byte earlier when the start code has four bytes.\<close>

definition start_of_code :: "byte list \<Rightarrow> nat \<Rightarrow> error + nat" where
  "start_of_code buf i =
     (if i > 0 then bindE (byte_at buf (i - 1)) (\<lambda>b. Inr (if b = 0 then i - 1 else i)) else Inr i)"

function find_loop :: "byte list \<Rightarrow> nat \<Rightarrow> nat \<Rightarrow> nalu_index list \<Rightarrow> error + nalu_index list" where
  "find_loop buf end_pos i sequences =
     (if i < end_pos then
        (case byte_at buf (i + 2) of
           Inl e \<Rightarrow> Inl e
         | Inr b2 \<Rightarrow>
             if b2 > 1 then find_loop buf end_pos (i + 3) sequences
             else if b2 = 1 then
               (case bindE (byte_at buf i) (\<lambda>b0. bindE (byte_at buf (i + 1)) (\<lambda>b1.
                       if b0 = 0 \<and> b1 = 0 then
                         bindE (start_of_code buf i) (\<lambda>st.
                           Inr (set_last_size st sequences @
                                [\<lparr>start_offset = st, payload_start_offset = i + 3, nalu_payload_size = 0\<rparr>]))
                       else Inr sequences)) of
                  Inl e \<Rightarrow> Inl e
                | Inr sequences \<Rightarrow> find_loop buf end_pos (i + 3) sequences)
             else find_loop buf end_pos (i + 1) sequences)
      else Inr sequences)"
  by pat_completeness auto
termination
  by (relation "measure (\<lambda>(_, end_pos, i, _). end_pos - i)") auto

declare find_loop.simps [simp del]

definition FindNaluIndices :: "byte list \<Rightarrow> error + nalu_index list" where
  "FindNaluIndices buf =
     (if length buf < kNaluShortStartSequenceSize then Inr []
      else bindE (find_loop buf (length buf - kNaluShortStartSequenceSize) 0 [])
             (\<lambda>sequences. Inr (set_last_size (length buf) sequences)))"

section \<open>Packet units\<close>

record packet_unit =
  source_fragment :: "byte list"
  first_fragment :: bool
  last_fragment :: bool
  aggregated :: bool
  unit_header :: byte

record h264_packetizer =
  limits :: payload_limits
  input_fragments :: "byte list list"
  packets :: "packet_unit list"
  num_packets_left :: nat

definition kFuAHeaderSize :: nat where
  "kFuAHeaderSize = 2"

definition kNaluHeaderSize :: nat where
  "kNaluHeaderSize = 1"

definition kLengthFieldSize :: nat where
  "kLengthFieldSize = 2"

text \<open>The limits \<open>PacketizeFuA\<close> hands to \<open>SplitAboutEqual\<close>.\<close>

definition fu_limits :: "payload_limits \<Rightarrow> nat \<Rightarrow> nat \<Rightarrow> payload_limits" where
  "fu_limits L num_fragments fragment_index =
     (let L = L\<lparr>max_payload_len := max_payload_len L - int kFuAHeaderSize\<rparr>;
          L = (if num_fragments \<noteq> 1 then
                 if fragment_index = num_fragments - 1
                 then L\<lparr>single_packet_reduction_len := last_packet_reduction_len L\<rparr>
                 else if fragment_index = 0
                 then L\<lparr>single_packet_reduction_len := first_packet_reduction_len L\<rparr>
                 else L\<lparr>single_packet_reduction_len := 0\<rparr>
               else L);
          L = (if fragment_index \<noteq> 0 then L\<lparr>first_packet_reduction_len := 0\<rparr> else L)
      in if fragment_index \<noteq> num_fragments - 1 then L\<lparr>last_packet_reduction_len := 0\<rparr> else L)"

text \<open>The loop over the sizes; \<open>left\<close> counts the sizes still to come, so that the last one is marked.\<close>

fun fu_units :: "byte list \<Rightarrow> int list \<Rightarrow> nat \<Rightarrow> bool \<Rightarrow> error + packet_unit list" where
  "fu_units fragment [] offset is_first = Inr []"
| "fu_units fragment (sz # sizes) offset is_first =
     bindE (view fragment offset (to_size sz)) (\<lambda>part.
     bindE (byte_at fragment 0) (\<lambda>h.
     bindE (fu_units fragment sizes (offset + to_size sz) False) (\<lambda>units.
       Inr (\<lparr>source_fragment = part, first_fragment = is_first, last_fragment = (sizes = []),
             aggregated = False, unit_header = h\<rparr> # units))))"

definition PacketizeFuA :: "nat \<Rightarrow> h264_packetizer \<Rightarrow> error + h264_packetizer \<times> bool" where
  "PacketizeFuA fragment_index pk =
     bindE (byte_at (input_fragments pk) fragment_index) (\<lambda>fragment.
     bindE (SplitAboutEqual (size_sub (length fragment) kNaluHeaderSize)
              (fu_limits (limits pk) (length (input_fragments pk)) fragment_index)) (\<lambda>sizes.
       if sizes = [] then Inr (pk, False)
       else bindE (fu_units fragment sizes kNaluHeaderSize True) (\<lambda>units.
         Inr (pk\<lparr>packets := packets pk @ units, num_packets_left := num_packets_left pk + length sizes\<rparr>, True))))"

definition payload_size_needed :: "payload_limits \<Rightarrow> nat \<Rightarrow> byte list \<Rightarrow> nat \<Rightarrow> nat \<Rightarrow> nat" where
  "payload_size_needed L num_fragments fragment fragment_header_length fragment_index =
     (let fragment_size = length fragment + fragment_header_length in
      if num_fragments = 1 then fragment_size
      else if fragment_index = num_fragments - 1
      then size_add fragment_size (to_size (last_packet_reduction_len L))
      else fragment_size)"

text \<open>The \<open>while\<close> loop of \<open>PacketizeStapA\<close>: it returns the units it pushed and the index it stopped at.\<close>

function stap_loop ::
  "payload_limits \<Rightarrow> byte list list \<Rightarrow> nat \<Rightarrow> nat \<Rightarrow> nat \<Rightarrow> nat \<Rightarrow> error + packet_unit list \<times> nat" where
  "stap_loop L fragments payload_size_left aggregated_fragment fragment_header_length fragment_index =
     (if fragment_index < length fragments then
        let fragment = fragments ! fragment_index in
        if payload_size_left \<ge> payload_size_needed L (length fragments) fragment fragment_header_length fragment_index then
          case byte_at fragment 0 of
            Inl e \<Rightarrow> Inl e
          | Inr h \<Rightarrow>
              (case stap_loop L fragments
                      (size_sub (size_sub payload_size_left (length fragment)) fragment_header_length)
                      (aggregated_fragment + 1)
                      (if aggregated_fragment = 0 then kLengthFieldSize + (kNaluHeaderSize + kLengthFieldSize)
                       else kLengthFieldSize)
                      (fragment_index + 1) of
                 Inl e \<Rightarrow> Inl e
               | Inr (units, index) \<Rightarrow>
                   Inr (\<lparr>source_fragment = fragment, first_fragment = (aggregated_fragment = 0),
                         last_fragment = False, aggregated = True, unit_header = h\<rparr> # units, index))
        else Inr ([], fragment_index)
      else Inr ([], fragment_index))"
  by pat_completeness auto
termination
  by (relation "measure (\<lambda>(_, fragments, _, _, _, fragment_index). length fragments - fragment_index)") auto

declare stap_loop.simps [simp del]

definition PacketizeStapA :: "nat \<Rightarrow> h264_packetizer \<Rightarrow> error + h264_packetizer \<times> nat" where
  "PacketizeStapA fragment_index pk =
     (let L = limits pk;
          payload_size_left = to_size (max_payload_len L);
          payload_size_left =
            (if length (input_fragments pk) = 1
             then size_sub payload_size_left (to_size (single_packet_reduction_len L))
             else if fragment_index = 0
             then size_sub payload_size_left (to_size (first_packet_reduction_len L))
             else payload_size_left) in
      bindE (stap_loop L (input_fragments pk) payload_size_left 0 0 fragment_index) (\<lambda>(units, index).
        let pushed = packets pk @ units in
        if pushed = [] then Inl OutOfBounds
        else Inr (pk\<lparr>packets := butlast pushed @ [(last pushed)\<lparr>last_fragment := True\<rparr>],
                     num_packets_left := num_packets_left pk + 1\<rparr>, index)))"

definition single_packet_capacity :: "payload_limits \<Rightarrow> nat \<Rightarrow> nat \<Rightarrow> nat" where
  "single_packet_capacity L num_fragments i =
     (let capacity = to_size (max_payload_len L) in
      if num_fragments = 1 then size_sub capacity (to_size (single_packet_reduction_len L))
      else if i = 0 then size_sub capacity (to_size (first_packet_reduction_len L))
      else if i + 1 = num_fragments then size_sub capacity (to_size (last_packet_reduction_len L))
      else capacity)"

text \<open>The loop of \<open>GeneratePackets\<close>. A round that does not advance the index repeats for ever.\<close>

function generate_loop :: "nat \<Rightarrow> nat \<Rightarrow> h264_packetizer \<Rightarrow> error + h264_packetizer \<times> bool" where
  "generate_loop n i pk =
     (if i < n then
        (case byte_at (input_fragments pk) i of
           Inl e \<Rightarrow> Inl e
         | Inr fragment \<Rightarrow>
             if length fragment > single_packet_capacity (limits pk) (length (input_fragments pk)) i then
               (case PacketizeFuA i pk of
                  Inl e \<Rightarrow> Inl e
                | Inr (pk, ok) \<Rightarrow> if \<not> ok then Inr (pk, False) else generate_loop n (i + 1) pk)
             else
               (case PacketizeStapA i pk of
                  Inl e \<Rightarrow> Inl e
                | Inr (pk, j) \<Rightarrow> if j \<le> i then Inl Diverges else generate_loop n j pk))
      else Inr (pk, True))"
  by pat_completeness auto
termination
  by (relation "measure (\<lambda>(n, i, _). n - i)") auto

declare generate_loop.simps [simp del]

definition GeneratePackets :: "h264_packetizer \<Rightarrow> error + h264_packetizer \<times> bool" where
  "GeneratePackets pk = generate_loop (length (input_fragments pk)) 0 pk"

fun subviews :: "byte list \<Rightarrow> nalu_index list \<Rightarrow> error + byte list list" where
  "subviews payload [] = Inr []"
| "subviews payload (x # xs) =
     bindE (view payload (payload_start_offset x) (nalu_payload_size x)) (\<lambda>v.
     bindE (subviews payload xs) (\<lambda>vs. Inr (v # vs)))"

definition RtpPacketizerH264_init :: "byte list \<Rightarrow> payload_limits \<Rightarrow> error + h264_packetizer" where
  "RtpPacketizerH264_init payload L =
     bindE (FindNaluIndices payload) (\<lambda>indices.
     bindE (subviews payload indices) (\<lambda>fragments.
     bindE (GeneratePackets \<lparr>limits = L, input_fragments = fragments, packets = [], num_packets_left = 0\<rparr>)
       (\<lambda>(pk, ok). Inr (if ok then pk else pk\<lparr>packets := [], num_packets_left := 0\<rparr>))))"

section \<open>Writing the payloads\<close>

definition NumPackets :: "h264_packetizer \<Rightarrow> nat" where
  "NumPackets pk = num_packets_left pk"

text \<open>Allocating \<open>bs\<close> bytes of payload and writing them.\<close>

definition write_payload :: "cow_ops \<Rightarrow> byte list \<Rightarrow> rtp_packet \<Rightarrow> error + rtp_packet" where
  "write_payload cow bs p =
     (case AllocatePayload cow (length bs) p of
        (p, None) \<Rightarrow> Inl OutOfBounds
      | (p, Some off) \<Rightarrow> WriteAt off bs p)"

definition pop_input :: "h264_packetizer \<Rightarrow> error + h264_packetizer" where
  "pop_input pk = (case input_fragments pk of
     [] \<Rightarrow> Inl OutOfBounds | _ # fs \<Rightarrow> Inr (pk\<lparr>input_fragments := fs\<rparr>))"

definition kFBit_kNriMask :: byte where
  "kFBit_kNriMask = 0xE0"

definition kTypeMask :: byte where
  "kTypeMask = 0x1F"

text \<open>The loop of \<open>NextAggregatedPacket\<close>: the bytes after the STAP-A header, written unit by unit; it
  pops a unit and an input fragment in every round.\<close>

function aggregate_loop ::
  "byte_io \<Rightarrow> nat \<Rightarrow> nat \<Rightarrow> rtp_packet \<Rightarrow> h264_packetizer \<Rightarrow> error + nat \<times> rtp_packet \<times> h264_packetizer" where
  "aggregate_loop io off index p pk =
     (case packets pk of
        [] \<Rightarrow> Inl OutOfBounds
      | u # us \<Rightarrow>
          if aggregated u then
            (case WriteAt (off + index) (wr16 io (of_nat (length (source_fragment u)))) p of
               Inl e \<Rightarrow> Inl e
             | Inr p \<Rightarrow>
                 (case WriteAt (off + index + kLengthFieldSize) (source_fragment u) p of
                    Inl e \<Rightarrow> Inl e
                  | Inr p \<Rightarrow>
                      (case pop_input (pk\<lparr>packets := us\<rparr>) of
                         Inl e \<Rightarrow> Inl e
                       | Inr pk' \<Rightarrow>
                           let index = index + kLengthFieldSize + length (source_fragment u) in
                           if last_fragment u then Inr (index, p, pk'\<lparr>packets := us\<rparr>)
                           else aggregate_loop io off index p (pk'\<lparr>packets := us\<rparr>))))
          else Inr (index, p, pk))"
  by pat_completeness auto
termination
  by (relation "measure (\<lambda>(_, _, _, _, pk). length (packets pk))") auto

declare aggregate_loop.simps [simp del]

definition NextAggregatedPacket ::
  "byte_io \<Rightarrow> cow_ops \<Rightarrow> h264_packetizer \<Rightarrow> rtp_packet \<Rightarrow> error + h264_packetizer \<times> rtp_packet" where
  "NextAggregatedPacket io cow pk p =
     (case AllocatePayload cow (FreeCapacity p) p of
        (p, None) \<Rightarrow> Inl OutOfBounds
      | (p, Some off) \<Rightarrow>
          bindE (byte_at (packets pk) 0) (\<lambda>u.
          bindE (WriteAt off [(unit_header u AND kFBit_kNriMask) OR 24] p) (\<lambda>p.
          bindE (aggregate_loop io off kNaluHeaderSize p pk) (\<lambda>(index, p, pk).
            Inr (pk, fst (SetPayloadSize cow index p))))))"

definition fu_payload :: "packet_unit \<Rightarrow> byte list" where
  "fu_payload u =
     [(unit_header u AND kFBit_kNriMask) OR 28,
      (if first_fragment u then 0x80 else 0) OR (if last_fragment u then 0x40 else 0) OR (unit_header u AND kTypeMask)]
     @ source_fragment u"

text \<open>\<open>NextFragmentPacket\<close> looks at \<open>last_fragment\<close> through its pointer to the front of the queue after \<open>packets_.pop()\<close> has destroyed that
  element. C++ says nothing of what is read there: \<open>freed_flag\<close> gives it as a function of the destroyed unit, \<open>None\<close> when the access faults.\<close>

type_synonym freed_flag = "packet_unit \<Rightarrow> bool option"

definition NextFragmentPacket ::
  "cow_ops \<Rightarrow> freed_flag \<Rightarrow> h264_packetizer \<Rightarrow> rtp_packet \<Rightarrow> error + h264_packetizer \<times> rtp_packet" where
  "NextFragmentPacket cow freed pk p =
     bindE (byte_at (packets pk) 0) (\<lambda>u.
     bindE (write_payload cow (fu_payload u) p) (\<lambda>p.
       let pk = pk\<lparr>packets := tl (packets pk)\<rparr> in
       case freed u of
         None \<Rightarrow> Inl UseAfterFree
       | Some read_flag \<Rightarrow> bindE (if read_flag then pop_input pk else Inr pk) (\<lambda>pk. Inr (pk, p))))"

definition RtpPacketizerH264_NextPacket ::
  "byte_io \<Rightarrow> cow_ops \<Rightarrow> freed_flag \<Rightarrow> h264_packetizer \<Rightarrow> rtp_packet \<Rightarrow> error + h264_packetizer \<times> rtp_packet \<times> bool" where
  "RtpPacketizerH264_NextPacket io cow freed pk p =
     (case packets pk of
        [] \<Rightarrow> Inr (pk, p, False)
      | u # us \<Rightarrow>
          bindE (if first_fragment u \<and> last_fragment u then
                   bindE (write_payload cow (source_fragment u) p) (\<lambda>p.
                   bindE (pop_input (pk\<lparr>packets := us\<rparr>)) (\<lambda>pk. Inr (pk, p)))
                 else if aggregated u then NextAggregatedPacket io cow pk p
                 else NextFragmentPacket cow freed pk p) (\<lambda>(pk, p).
            let pk = pk\<lparr>num_packets_left := size_sub (num_packets_left pk) 1\<rparr> in
            bindE (SetMarker (packets pk = []) p) (\<lambda>p. Inr (pk, p, True))))"

section \<open>The search finds exactly the start codes\<close>

definition is_start :: "byte list \<Rightarrow> nat \<Rightarrow> bool" where
  "is_start buf i \<longleftrightarrow> buf ! i = 0 \<and> buf ! (i + 1) = 0 \<and> buf ! (i + 2) = 1"

definition code_start :: "byte list \<Rightarrow> nat \<Rightarrow> nat" where
  "code_start buf i = (if i > 0 \<and> buf ! (i - 1) = 0 then i - 1 else i)"

text \<open>The reference: all positions of start codes that are followed by at least one byte, and the bytes
  between one start code and the next.\<close>

definition start_positions :: "byte list \<Rightarrow> nat list" where
  "start_positions buf = filter (is_start buf) [0..<length buf - 3]"

fun nalus_between :: "byte list \<Rightarrow> nat list \<Rightarrow> byte list list" where
  "nalus_between buf [] = []"
| "nalus_between buf [p] = [drop (p + 3) buf]"
| "nalus_between buf (p # q # ps) =
     take (code_start buf q - (p + 3)) (drop (p + 3) buf) # nalus_between buf (q # ps)"

text \<open>The indices the loop has built for the positions it has passed.\<close>

fun nalu_indices :: "byte list \<Rightarrow> nat list \<Rightarrow> nalu_index list" where
  "nalu_indices buf [] = []"
| "nalu_indices buf [p] = [\<lparr>start_offset = code_start buf p, payload_start_offset = p + 3, nalu_payload_size = 0\<rparr>]"
| "nalu_indices buf (p # q # ps) =
     \<lparr>start_offset = code_start buf p, payload_start_offset = p + 3,
      nalu_payload_size = size_sub (code_start buf q) (p + 3)\<rparr> # nalu_indices buf (q # ps)"

lemma nalu_indices_Nil [simp]: "nalu_indices buf ps = [] \<longleftrightarrow> ps = []"
  by (induction buf ps rule: nalu_indices.induct) auto

lemma set_last_size_Cons: "xs \<noteq> [] \<Longrightarrow> set_last_size n (x # xs) = x # set_last_size n xs"
  by (simp add: set_last_size_def)

lemma nalu_indices_snoc:
  "nalu_indices buf (ps @ [q]) = set_last_size (code_start buf q) (nalu_indices buf ps) @
     [\<lparr>start_offset = code_start buf q, payload_start_offset = q + 3, nalu_payload_size = 0\<rparr>]"
proof (induction buf ps rule: nalu_indices.induct)
  case (3 buf p r ps)
  then show ?case by (simp add: set_last_size_Cons)
qed (simp_all add: set_last_size_def)

lemma start_of_code_ok: "i \<le> length buf \<Longrightarrow> start_of_code buf i = Inr (code_start buf i)"
  by (simp add: start_of_code_def code_start_def)

lemma upt_skip3: "filter P [i..<e] = filter P [i + 3..<e]"
  if "\<not> P i" "\<not> P (i + 1)" "\<not> P (i + 2)" for i e :: nat
proof -
  have "filter P [j..<e] = filter P [Suc j..<e]" if "\<not> P j" for j
    using that by (cases "j < e") (auto simp: upt_conv_Cons)
  then show ?thesis using that by (simp add: numeral_3_eq_3)
qed

lemma find_loop_correct:
  assumes "e + 3 \<le> length buf"
  shows "find_loop buf e i (nalu_indices buf ps) = Inr (nalu_indices buf (ps @ filter (is_start buf) [i..<e]))"
proof (induction "e - i" arbitrary: i ps rule: less_induct)
  case less
  show ?case
  proof (cases "i < e")
    case False
    then show ?thesis by (simp add: find_loop.simps)
  next
    case True
    have bytes: "byte_at buf (i + 2) = Inr (buf ! (i + 2))" "byte_at buf i = Inr (buf ! i)"
      "byte_at buf (i + 1) = Inr (buf ! (i + 1))" using True assms by simp_all
    note unfold = find_loop.simps [of buf e i "nalu_indices buf ps"]
    have no2: "\<not> is_start buf (i + 1)" "\<not> is_start buf (i + 2)" if "buf ! (i + 2) \<noteq> 0"
      using that by (auto simp: is_start_def)
    consider "buf ! (i + 2) > 1" | "buf ! (i + 2) = 1" | "buf ! (i + 2) = 0"
      by (metis word_le_0_iff word_less_1 linorder_not_less order_le_less word_neq_0_conv)
    then show ?thesis
    proof cases
      case 1
      then have "filter (is_start buf) [i..<e] = filter (is_start buf) [i + 3..<e]"
        using no2 by (intro upt_skip3) (auto simp: is_start_def)
      with 1 less.hyps [of "i + 3" ps] True show ?thesis unfolding unfold bytes by simp
    next
      case 2
      then have skip: "filter (is_start buf) [i + 1..<e] = filter (is_start buf) [i + 3..<e]"
        using no2 by (cases "i + 1 < e"; cases "i + 2 < e") (auto simp: upt_conv_Cons numeral_3_eq_3)
      show ?thesis
      proof (cases "is_start buf i")
        case yes: True
        then have "filter (is_start buf) [i..<e] = i # filter (is_start buf) [i + 3..<e]"
          using True skip by (simp add: upt_conv_Cons)
        with yes 2 less.hyps [of "i + 3" "ps @ [i]"] True assms show ?thesis
          unfolding unfold bytes by (simp add: is_start_def start_of_code_ok nalu_indices_snoc)
      next
        case no: False
        then have "filter (is_start buf) [i..<e] = filter (is_start buf) [i + 3..<e]"
          using True skip by (simp add: upt_conv_Cons)
        with no 2 less.hyps [of "i + 3" ps] True show ?thesis
          unfolding unfold bytes by (auto simp: is_start_def)
      qed
    next
      case 3
      then have "filter (is_start buf) [i..<e] = filter (is_start buf) [i + 1..<e]"
        using True by (simp add: upt_conv_Cons is_start_def)
      with 3 less.hyps [of "i + 1" ps] True show ?thesis unfolding unfold bytes by simp
    qed
  qed
qed

lemma FindNaluIndices_correct:
  "FindNaluIndices buf = Inr (set_last_size (length buf) (nalu_indices buf (start_positions buf)))"
proof (cases "length buf < 3")
  case True
  then show ?thesis by (simp add: FindNaluIndices_def kNaluShortStartSequenceSize_def start_positions_def set_last_size_def)
next
  case False
  then show ?thesis using find_loop_correct [of "length buf - 3" buf 0 "[]"]
    by (simp add: FindNaluIndices_def kNaluShortStartSequenceSize_def start_positions_def)
qed

text \<open>Start codes do not overlap.\<close>

lemma is_start_apart:
  assumes "is_start buf p" and "is_start buf q" and "p < q"
  shows "p + 3 \<le> code_start buf q"
proof -
  have "q \<noteq> p + 1" "q \<noteq> p + 2" using assms by (auto simp: is_start_def)
  then have q: "p + 3 \<le> q" using assms(3) by linarith
  show ?thesis
  proof (cases "q = p + 3")
    case True
    then show ?thesis using assms(1) by (simp add: code_start_def is_start_def)
  next
    case False
    then show ?thesis using q by (auto simp: code_start_def)
  qed
qed

lemma subviews_nalus:
  assumes "sorted_wrt (<) ps" and "\<forall>p \<in> set ps. is_start buf p \<and> p + 3 < length buf"
  shows "subviews buf (set_last_size (length buf) (nalu_indices buf ps)) = Inr (nalus_between buf ps)"
  using assms
proof (induction buf ps rule: nalu_indices.induct)
  case (3 buf p q ps)
  have "p + 3 \<le> code_start buf q" using 3 by (intro is_start_apart) auto
  moreover have "code_start buf q \<le> length buf" using 3 by (auto simp: code_start_def)
  ultimately show ?case using 3 by (simp add: set_last_size_Cons)
qed (auto simp: set_last_size_def)

lemma start_positions_props:
  "sorted_wrt (<) (start_positions buf)" "\<forall>p \<in> set (start_positions buf). is_start buf p \<and> p + 3 < length buf"
  by (auto simp: start_positions_def sorted_wrt_filter)

lemma nalus_found:
  "bindE (FindNaluIndices buf) (subviews buf) = Inr (nalus_between buf (start_positions buf))"
  using subviews_nalus [OF start_positions_props] by (simp add: FindNaluIndices_correct)

section \<open>The units of a frame\<close>

text \<open>A frame is packetised in groups: a NAL unit cut into fragmentation units, or a run of whole NAL
  units that share a packet.\<close>

datatype unit_group = FuA "byte list" "byte list list" | Agg "byte list list"

fun fu_group_units :: "byte \<Rightarrow> byte list list \<Rightarrow> bool \<Rightarrow> packet_unit list" where
  "fu_group_units h [] is_first = []"
| "fu_group_units h (part # parts) is_first =
     \<lparr>source_fragment = part, first_fragment = is_first, last_fragment = (parts = []),
      aggregated = False, unit_header = h\<rparr> # fu_group_units h parts False"

fun agg_units :: "byte list list \<Rightarrow> bool \<Rightarrow> packet_unit list" where
  "agg_units [] is_first = []"
| "agg_units (x # xs) is_first =
     \<lparr>source_fragment = x, first_fragment = is_first, last_fragment = (xs = []),
      aggregated = True, unit_header = x ! 0\<rparr> # agg_units xs False"

fun group_units :: "unit_group \<Rightarrow> packet_unit list" where
  "group_units (FuA x parts) = fu_group_units (x ! 0) parts True"
| "group_units (Agg xs) = agg_units xs True"

fun group_nalus :: "unit_group \<Rightarrow> byte list list" where
  "group_nalus (FuA x parts) = [x]"
| "group_nalus (Agg xs) = xs"

fun group_packets :: "unit_group \<Rightarrow> nat" where
  "group_packets (FuA x parts) = length parts"
| "group_packets (Agg xs) = 1"

definition stap_size :: "byte list list \<Rightarrow> nat" where
  "stap_size xs = 1 + sum_list (map (\<lambda>x. 2 + length x) xs)"

fun group_ok :: "nat \<Rightarrow> unit_group \<Rightarrow> bool" where
  "group_ok M (FuA x parts) \<longleftrightarrow> x \<noteq> [] \<and> 2 \<le> length parts \<and> concat parts = tl x \<and>
     (\<forall>part \<in> set parts. 2 + length part \<le> M)"
| "group_ok M (Agg xs) \<longleftrightarrow> xs \<noteq> [] \<and> (\<forall>x \<in> set xs. x \<noteq> []) \<and>
     (if length xs = 1 then length (hd xs) \<le> M else stap_size xs \<le> M)"

subsection \<open>Fragmentation\<close>

fun parts_of :: "byte list \<Rightarrow> int list \<Rightarrow> byte list list" where
  "parts_of bs [] = []"
| "parts_of bs (n # ns) = take (nat n) bs # parts_of (drop (nat n) bs) ns"

lemma parts_of_props:
  assumes "\<forall>n \<in> set ns. 0 \<le> n" and "sum_list ns = int (length bs)"
  shows "concat (parts_of bs ns) = bs" and "length (parts_of bs ns) = length ns"
    and "\<forall>n \<in> set ns. n \<le> M \<Longrightarrow> \<forall>part \<in> set (parts_of bs ns). int (length part) \<le> M"
proof -
  show "length (parts_of bs ns) = length ns" by (induction ns arbitrary: bs) auto
  show "concat (parts_of bs ns) = bs" using assms
  proof (induction ns arbitrary: bs)
    case (Cons n ns)
    have "0 \<le> sum_list ns" using Cons.prems(1) by (auto intro: sum_list_nonneg)
    then have "sum_list ns = int (length (drop (nat n) bs))" using Cons.prems by auto
    with Cons show ?case by simp
  qed simp
  show "\<forall>part \<in> set (parts_of bs ns). int (length part) \<le> M" if "\<forall>n \<in> set ns. n \<le> M"
    using assms(1) that by (induction ns arbitrary: bs) (auto simp: min_def)
qed

lemma fu_units_correct:
  assumes "\<forall>n \<in> set ns. 0 \<le> n \<and> n < 2 ^ 30" and "offset + nat (sum_list ns) = length x" and "0 < offset"
  shows "fu_units x ns offset is_first = Inr (fu_group_units (x ! 0) (parts_of (drop offset x) ns) is_first)"
  using assms
proof (induction ns arbitrary: offset is_first)
  case Nil
  then show ?case by simp
next
  case (Cons n ns)
  have nn: "0 \<le> n" "to_size n = nat n" and s: "0 \<le> sum_list ns" using Cons.prems(1) by (auto intro: sum_list_nonneg)
  then have sum: "nat (sum_list (n # ns)) = nat n + nat (sum_list ns)" by (simp add: nat_add_distrib)
  have e: "parts_of bs ns = [] \<longleftrightarrow> ns = []" for bs by (cases ns) auto
  have "x \<noteq> []" using Cons.prems(2,3) by auto
  then have h: "byte_at x 0 = Inr (x ! 0)" by simp
  have "fu_units x ns (offset + nat n) False = Inr (fu_group_units (x ! 0) (parts_of (drop (offset + nat n) x) ns) False)"
    using Cons.prems sum nn by (intro Cons.IH) auto
  then show ?case using Cons.prems(2) sum nn h e by (simp add: ac_simps)
qed

text \<open>The limits the packetiser needs: room for the FU-A header beyond the reductions.\<close>

definition packetizer_limits_ok :: "payload_limits \<Rightarrow> bool" where
  "packetizer_limits_ok L \<longleftrightarrow>
     0 \<le> single_packet_reduction_len L \<and> single_packet_reduction_len L + 2 < max_payload_len L \<and>
     0 \<le> first_packet_reduction_len L \<and> first_packet_reduction_len L + 2 < max_payload_len L \<and>
     0 \<le> last_packet_reduction_len L \<and> last_packet_reduction_len L + 2 < max_payload_len L \<and>
     max_payload_len L < 2 ^ 16"

lemma PacketizeFuA_ok:
  assumes "packetizer_limits_ok (limits pk)" and "i < length (input_fragments pk)"
    and "x = input_fragments pk ! i" and "length x < 2 ^ 29"
    and "length x > single_packet_capacity (limits pk) (length (input_fragments pk)) i"
  shows "\<exists>parts. PacketizeFuA i pk = Inr (pk\<lparr>packets := packets pk @ group_units (FuA x parts),
      num_packets_left := num_packets_left pk + group_packets (FuA x parts)\<rparr>, True) \<and>
    group_ok (nat (max_payload_len (limits pk))) (FuA x parts)"
proof -
  define L where "L = limits pk"
  define N where "N = length (input_fragments pk)"
  define F where "F = fu_limits L N i"
  have L: "packetizer_limits_ok L" using assms(1) by (simp add: L_def)
  have F: "limits_ok F" "max_payload_len F = max_payload_len L - 2"
    using L by (auto simp: F_def fu_limits_def packetizer_limits_ok_def limits_ok_def Let_def kFuAHeaderSize_def)
  have cap: "int (length x) - 1 + single_packet_reduction_len F > max_payload_len F"
  proof -
    have "int (length x) > max_payload_len L - single_packet_reduction_len F"
      using assms(2,5) L
      by (auto simp: F_def fu_limits_def single_packet_capacity_def packetizer_limits_ok_def Let_def
          L_def [symmetric] N_def [symmetric] kFuAHeaderSize_def nat_diff_distrib' split: if_splits)
    with F(2) show ?thesis by simp
  qed
  have red: "single_packet_reduction_len F < max_payload_len F"
    using L by (auto simp: F_def fu_limits_def packetizer_limits_ok_def Let_def kFuAHeaderSize_def)
  have len: "2 \<le> length x" using cap red by linarith
  define ps where "ps = length x - 1"
  have ps: "0 < ps" "ps < 2 ^ 29" "size_sub (length x) kNaluHeaderSize = ps" "int ps = int (length x) - 1"
    using len assms(4) by (auto simp: ps_def kNaluHeaderSize_def)
  obtain rs where rs: "SplitAboutEqual ps F = Inr rs" "length rs = packet_count ps F" "sum_list rs = int ps"
    "\<forall>r \<in> set rs. 0 \<le> r \<and> r \<le> max_payload_len F"
    using SplitAboutEqual_ok [OF F(1) ps(1,2)] cap ps(4) by auto
  have two: "2 \<le> length rs" using rs(2) by (simp add: packet_count_def)
  have ml: "max_payload_len F < 2 ^ 30" using F(1) by (simp add: limits_ok_def)
  define parts where "parts = parts_of (drop 1 x) rs"
  have "fu_units x rs kNaluHeaderSize True = Inr (fu_group_units (x ! 0) parts True)"
    unfolding parts_def kNaluHeaderSize_def
    using rs(3,4) ml ps(4) len by (intro fu_units_correct) auto
  moreover have "concat parts = tl x" "length parts = length rs" "\<forall>part \<in> set parts. int (length part) \<le> max_payload_len F"
    using parts_of_props(1,2) [of rs "drop 1 x"] parts_of_props(3) [of rs "drop 1 x" "max_payload_len F"] rs(3,4) ps(4)
    by (auto simp: parts_def drop_Suc)
  moreover have "rs \<noteq> []" "x \<noteq> []" using two len by auto
  ultimately show ?thesis
    using rs(1) two F(2) assms(2,3) ps(3)
    by (intro exI [of _ parts])
      (auto simp: PacketizeFuA_def L_def [symmetric] N_def [symmetric] F_def [symmetric] simp del: bindE_eq_Inr)
qed

subsection \<open>Aggregation\<close>

text \<open>The units as the loop pushes them, before the last one is marked, and the payload bytes they take.\<close>

fun agg_raw :: "byte list list \<Rightarrow> bool \<Rightarrow> packet_unit list" where
  "agg_raw [] is_first = []"
| "agg_raw (x # xs) is_first =
     \<lparr>source_fragment = x, first_fragment = is_first, last_fragment = False,
      aggregated = True, unit_header = x ! 0\<rparr> # agg_raw xs False"

lemma agg_raw_Nil [simp]: "agg_raw xs b = [] \<longleftrightarrow> xs = []"
  by (cases xs) auto

lemma agg_raw_mark_last:
  "xs \<noteq> [] \<Longrightarrow> butlast (agg_raw xs b) @ [(last (agg_raw xs b))\<lparr>last_fragment := True\<rparr>] = agg_units xs b"
  by (induction xs b rule: agg_raw.induct) auto

fun agg_cost :: "nat \<Rightarrow> nat \<Rightarrow> byte list list \<Rightarrow> nat" where
  "agg_cost a h [] = 0"
| "agg_cost a h (x # xs) = h + length x + agg_cost (a + 1) (if a = 0 then 5 else 2) xs"

lemma agg_cost_later: "0 < a \<Longrightarrow> agg_cost a 2 xs = sum_list (map (\<lambda>x. 2 + length x) xs)"
  by (induction xs arbitrary: a) auto

lemma agg_cost_stap: "agg_cost 0 0 xs = (if length xs \<le> 1 then sum_list (map length xs) else stap_size xs)"
proof (cases xs)
  case (Cons x ys)
  then show ?thesis by (cases ys) (simp_all add: stap_size_def agg_cost_later)
qed simp

lemma payload_size_needed_bounds:
  assumes "packetizer_limits_ok L" and "length x < 2 ^ 29" and "h < 2 ^ 29"
  shows "payload_size_needed L N x h i = length x + h +
    (if N \<noteq> 1 \<and> i = N - 1 then nat (last_packet_reduction_len L) else 0)"
  using assms by (auto simp: payload_size_needed_def packetizer_limits_ok_def Let_def)

lemma stap_loop_ok:
  assumes "packetizer_limits_ok L" and "\<forall>x \<in> set fs. x \<noteq> [] \<and> length x < 2 ^ 29" and "i \<le> length fs" and "h < 2 ^ 29"
  shows "\<exists>xs. stap_loop L fs left a h i = Inr (agg_raw xs (a = 0), i + length xs) \<and>
    xs = take (length xs) (drop i fs) \<and> agg_cost a h xs \<le> left \<and>
    (i < length fs \<and> payload_size_needed L (length fs) (fs ! i) h i \<le> left \<longrightarrow> xs \<noteq> [])"
  using assms(3,4)
proof (induction "length fs - i" arbitrary: i left a h)
  case 0
  then show ?case by (intro exI [of _ "[]"]) (simp add: stap_loop.simps)
next
  case (Suc n)
  then have lt: "i < length fs" by simp
  show ?case
  proof (cases "payload_size_needed L (length fs) (fs ! i) h i \<le> left")
    case False
    then show ?thesis using lt by (intro exI [of _ "[]"]) (simp add: stap_loop.simps [of L fs left])
  next
    case True
    define x where "x = fs ! i"
    have x: "x \<noteq> []" "length x < 2 ^ 29" using assms(2) lt by (auto simp: x_def)
    have fit: "length x + h \<le> left"
      using True payload_size_needed_bounds [OF assms(1) x(2) Suc.prems(2)] by (simp add: x_def)
    define h' where "h' = (if a = 0 then kLengthFieldSize + (kNaluHeaderSize + kLengthFieldSize) else kLengthFieldSize)"
    have h': "h' = (if a = 0 then 5 else 2)" by (simp add: h'_def kLengthFieldSize_def kNaluHeaderSize_def)
    have pre: "n = length fs - (i + 1)" "i + 1 \<le> length fs" "h' < 2 ^ 29" using Suc.hyps(2) lt h' by auto
    obtain ys where ys: "stap_loop L fs (left - length x - h) (a + 1) h' (i + 1) = Inr (agg_raw ys False, i + 1 + length ys)"
      "ys = take (length ys) (drop (i + 1) fs)" "agg_cost (a + 1) h' ys \<le> left - length x - h"
      using Suc.hyps(1) [OF pre, of "left - length x - h" "a + 1"] by auto
    have d: "drop i fs = x # drop (i + 1) fs" using lt by (simp add: x_def Cons_nth_drop_Suc)
    have "stap_loop L fs left a h i = Inr (agg_raw (x # ys) (a = 0), i + length (x # ys))"
      using lt True x(1) ys(1) fit
      by (subst stap_loop.simps) (simp add: x_def [symmetric] h'_def [symmetric] Let_def)
    moreover have "x # ys = take (length (x # ys)) (drop i fs)" using ys(2) d by simp
    moreover have "agg_cost a h (x # ys) \<le> left" using ys(3) fit h' by simp
    ultimately show ?thesis by blast
  qed
qed

lemma PacketizeStapA_ok:
  assumes "packetizer_limits_ok (limits pk)" and "fs = input_fragments pk" and "\<forall>x \<in> set fs. x \<noteq> [] \<and> length x < 2 ^ 29"
    and "i < length fs" and "length (fs ! i) \<le> single_packet_capacity (limits pk) (length fs) i"
  shows "\<exists>xs. PacketizeStapA i pk = Inr (pk\<lparr>packets := packets pk @ group_units (Agg xs),
      num_packets_left := num_packets_left pk + group_packets (Agg xs)\<rparr>, i + length xs) \<and>
    xs = take (length xs) (drop i fs) \<and> group_ok (nat (max_payload_len (limits pk))) (Agg xs)"
proof -
  define L where "L = limits pk"
  define left where "left = (if length fs = 1 then size_sub (to_size (max_payload_len L)) (to_size (single_packet_reduction_len L))
    else if i = 0 then size_sub (to_size (max_payload_len L)) (to_size (first_packet_reduction_len L)) else to_size (max_payload_len L))"
  have L: "packetizer_limits_ok L" using assms(1) by (simp add: L_def)
  have left: "left \<le> nat (max_payload_len L)"
    using L by (auto simp: left_def packetizer_limits_ok_def)
  have x: "length (fs ! i) < 2 ^ 29" using assms(3,4) by simp
  have "nat (last_packet_reduction_len L) \<le> nat (max_payload_len L)" using L by (auto simp: packetizer_limits_ok_def)
  then have "payload_size_needed L (length fs) (fs ! i) 0 i \<le> left"
    using assms(4,5) L payload_size_needed_bounds [OF L x, of 0 "length fs" i]
    by (auto simp: left_def single_packet_capacity_def packetizer_limits_ok_def L_def [symmetric] Let_def le_diff_conv2 split: if_splits)
  then obtain xs where xs: "stap_loop L fs left 0 0 i = Inr (agg_raw xs True, i + length xs)"
    "xs = take (length xs) (drop i fs)" "agg_cost 0 0 xs \<le> left" "xs \<noteq> []"
    using stap_loop_ok [OF L assms(3), of i 0 left 0] assms(4) by auto
  have mark: "butlast (packets pk @ agg_raw xs True) @ [(last (packets pk @ agg_raw xs True))\<lparr>last_fragment := True\<rparr>] =
      packets pk @ agg_units xs True"
    using agg_raw_mark_last [OF xs(4), of True] xs(4) by (simp add: butlast_append)
  have "PacketizeStapA i pk = Inr (pk\<lparr>packets := packets pk @ group_units (Agg xs),
      num_packets_left := num_packets_left pk + group_packets (Agg xs)\<rparr>, i + length xs)"
    using xs(1,4) mark unfolding PacketizeStapA_def Let_def assms(2) [symmetric] L_def [symmetric] left_def [symmetric]
    by (simp del: bindE_eq_Inr)
  moreover have "\<forall>x \<in> set xs. x \<noteq> []" using assms(3) xs(2) by (metis in_set_dropD in_set_takeD)
  moreover have "if length xs = 1 then length (hd xs) \<le> nat (max_payload_len L) else stap_size xs \<le> nat (max_payload_len L)"
    using xs(3,4) left unfolding agg_cost_stap by (cases xs) (auto split: if_splits)
  ultimately show ?thesis using xs(2,4) by (auto simp: L_def)
qed

subsection \<open>The whole frame\<close>

text \<open>A NAL unit is fragmented only when it is longer than what its place in the frame leaves in one packet.\<close>

fun group_cause :: "payload_limits \<Rightarrow> byte list list \<Rightarrow> unit_group \<Rightarrow> bool" where
  "group_cause L fs (FuA x parts) \<longleftrightarrow> (\<exists>i<length fs. x = fs ! i \<and> length x > single_packet_capacity L (length fs) i)"
| "group_cause L fs (Agg xs) \<longleftrightarrow> True"

lemma generate_loop_ok:
  assumes "packetizer_limits_ok (limits pk)" and "fs = input_fragments pk" and "\<forall>x \<in> set fs. x \<noteq> [] \<and> length x < 2 ^ 29"
    and "i \<le> length fs"
  shows "\<exists>gs. generate_loop (length fs) i pk = Inr (pk\<lparr>packets := packets pk @ concat (map group_units gs),
      num_packets_left := num_packets_left pk + sum_list (map group_packets gs)\<rparr>, True) \<and>
    concat (map group_nalus gs) = drop i fs \<and> (\<forall>g \<in> set gs. group_ok (nat (max_payload_len (limits pk))) g) \<and>
    (\<forall>g \<in> set gs. group_cause (limits pk) fs g)"
  using assms
proof (induction "length fs - i" arbitrary: i pk rule: less_induct)
  case less
  show ?case
  proof (cases "i < length fs")
    case False
    then show ?thesis using less.prems by (intro exI [of _ "[]"]) (simp add: generate_loop.simps)
  next
    case lt: True
    have b: "byte_at (input_fragments pk) i = Inr (fs ! i)" using lt less.prems(2) by simp
    show ?thesis
    proof (cases "length (fs ! i) > single_packet_capacity (limits pk) (length fs) i")
      case True
      from PacketizeFuA_ok [OF less.prems(1), of i "fs ! i"] lt less.prems(2,3) True
      obtain parts where g: "PacketizeFuA i pk = Inr (pk\<lparr>packets := packets pk @ group_units (FuA (fs ! i) parts),
          num_packets_left := num_packets_left pk + group_packets (FuA (fs ! i) parts)\<rparr>, True)"
        "group_ok (nat (max_payload_len (limits pk))) (FuA (fs ! i) parts)" by auto
      define pk1 where "pk1 = pk\<lparr>packets := packets pk @ group_units (FuA (fs ! i) parts),
          num_packets_left := num_packets_left pk + group_packets (FuA (fs ! i) parts)\<rparr>"
      have dec: "length fs - (i + 1) < length fs - i" and prems: "packetizer_limits_ok (limits pk1)" "fs = input_fragments pk1"
        "\<forall>x \<in> set fs. x \<noteq> [] \<and> length x < 2 ^ 29" "i + 1 \<le> length fs" and keep: "limits pk1 = limits pk"
        using less.prems(1-3) lt by (auto simp: pk1_def)
      obtain gs where gs: "generate_loop (length fs) (i + 1) pk1 = Inr (pk1\<lparr>packets := packets pk1 @ concat (map group_units gs),
          num_packets_left := num_packets_left pk1 + sum_list (map group_packets gs)\<rparr>, True)"
        "concat (map group_nalus gs) = drop (i + 1) fs" "\<forall>g \<in> set gs. group_ok (nat (max_payload_len (limits pk))) g"
        "\<forall>g \<in> set gs. group_cause (limits pk) fs g"
        using less.hyps [OF dec prems] keep by auto
      have "generate_loop (length fs) i pk = generate_loop (length fs) (i + 1) pk1"
        using lt b True g(1) less.prems(2) by (simp add: generate_loop.simps [of _ i] pk1_def)
      moreover have "drop i fs = fs ! i # drop (i + 1) fs" using lt by (simp add: Cons_nth_drop_Suc)
      moreover have "group_cause (limits pk) fs (FuA (fs ! i) parts)" using True lt by auto
      ultimately show ?thesis using gs g(2)
        by (intro exI [of _ "FuA (fs ! i) parts # gs"]) (simp add: pk1_def del: group_cause.simps)
    next
      case False
      then have "length (fs ! i) \<le> single_packet_capacity (limits pk) (length fs) i" by simp
      from PacketizeStapA_ok [OF less.prems(1-3) lt this]
      obtain xs where g: "PacketizeStapA i pk = Inr (pk\<lparr>packets := packets pk @ group_units (Agg xs),
          num_packets_left := num_packets_left pk + group_packets (Agg xs)\<rparr>, i + length xs)"
        "xs = take (length xs) (drop i fs)" "group_ok (nat (max_payload_len (limits pk))) (Agg xs)" by blast
      define pk1 where "pk1 = pk\<lparr>packets := packets pk @ group_units (Agg xs),
          num_packets_left := num_packets_left pk + group_packets (Agg xs)\<rparr>"
      have "length xs \<le> length fs - i" by (subst g(2)) simp
      with lt g(3) have xs: "xs \<noteq> []" "0 < length xs" "i + length xs \<le> length fs" by auto
      have dec: "length fs - (i + length xs) < length fs - i" using xs(2,3) lt by linarith
      have prems: "packetizer_limits_ok (limits pk1)" "fs = input_fragments pk1"
        "\<forall>x \<in> set fs. x \<noteq> [] \<and> length x < 2 ^ 29" "i + length xs \<le> length fs" and keep: "limits pk1 = limits pk"
        using less.prems(1-3) lt xs(2,3) by (auto simp: pk1_def)
      obtain gs where gs: "generate_loop (length fs) (i + length xs) pk1 = Inr (pk1\<lparr>packets := packets pk1 @ concat (map group_units gs),
          num_packets_left := num_packets_left pk1 + sum_list (map group_packets gs)\<rparr>, True)"
        "concat (map group_nalus gs) = drop (i + length xs) fs" "\<forall>g \<in> set gs. group_ok (nat (max_payload_len (limits pk))) g"
        "\<forall>g \<in> set gs. group_cause (limits pk) fs g"
        using less.hyps [OF dec prems] keep by auto
      have "generate_loop (length fs) i pk = generate_loop (length fs) (i + length xs) pk1"
        using lt b False g(1) xs(1,2) less.prems(2) by (simp add: generate_loop.simps [of _ i] pk1_def)
      moreover have "drop i fs = xs @ drop (i + length xs) fs"
        using g(2) by (metis add.commute append_take_drop_id drop_drop)
      ultimately show ?thesis using gs g(3) by (intro exI [of _ "Agg xs # gs"]) (simp add: pk1_def)
    qed
  qed
qed

end
