(* ===== verification/H264_Payloads.thy ===== *)
theory H264_Payloads
  imports H264_Packetizer
begin

text \<open>
  The payloads that \<open>RtpPacketizerH264::NextPacket\<close> (\<open>modules/rtp_rtcp/rtp_format_h264.cpp\<close>) writes, as a
  function of the groups of NAL units that \<open>GeneratePackets\<close> formed, a reference receiver for RFC 6184,
  and the round trip of a whole frame.
\<close>

section \<open>The payloads of a frame\<close>

definition stap_element :: "byte_io \<Rightarrow> byte list \<Rightarrow> byte list" where
  "stap_element io x = wr16 io (of_nat (length x)) @ x"

fun group_payloads :: "byte_io \<Rightarrow> unit_group \<Rightarrow> byte list list" where
  "group_payloads io (FuA x parts) = map fu_payload (fu_group_units (x ! 0) parts True)"
| "group_payloads io (Agg xs) =
     [if length xs = 1 then hd xs
      else ((hd xs ! 0 AND kFBit_kNriMask) OR 24) # concat (map (stap_element io) xs)]"

text \<open>Calling \<open>NextPacket\<close> \<open>n\<close> times, each time with a new packet \<open>p0\<close>: payloads and marker bits.\<close>

fun drain :: "byte_io \<Rightarrow> cow_ops \<Rightarrow> freed_flag \<Rightarrow> rtp_packet \<Rightarrow> nat \<Rightarrow> h264_packetizer \<Rightarrow>
    error + (byte list \<times> bool) list \<times> h264_packetizer" where
  "drain io cow freed p0 0 pk = Inr ([], pk)"
| "drain io cow freed p0 (Suc n) pk =
     bindE (RtpPacketizerH264_NextPacket io cow freed pk p0) (\<lambda>(pk, p, ok).
     bindE (packet_payload p) (\<lambda>pl.
     bindE (drain io cow freed p0 n pk) (\<lambda>(rest, pk). Inr ((pl, pkt_marker p) # rest, pk))))"

fun mark_last :: "bool \<Rightarrow> 'a list \<Rightarrow> ('a \<times> bool) list" where
  "mark_last m [] = []"
| "mark_last m (x # xs) = (x, m \<and> xs = []) # mark_last m xs"

lemma mark_last_append: "mark_last m (xs @ ys) = mark_last (m \<and> ys = []) xs @ mark_last m ys"
  by (induction xs) auto

lemma map_fst_mark_last [simp]: "map fst (mark_last m xs) = xs"
  by (induction xs) auto

definition fresh_packet :: "nat \<Rightarrow> rtp_packet \<Rightarrow> bool" where
  "fresh_packet M p \<longleftrightarrow> length (buffer p) = 12 \<and> payload_offset p = 12 \<and> pkt_payload_size p = 0 \<and>
     pkt_padding_size p = 0 \<and> 12 + M \<le> buffer_capacity p \<and> buffer_capacity p < 2 ^ 64"

lemma SetMarker_ok:
  assumes "12 \<le> length (buffer p)" and "payload_offset p = 12" and "packet_payload p = Inr pl"
  shows "\<exists>p'. SetMarker m p = Inr p' \<and> packet_payload p' = Inr pl \<and> pkt_marker p' = m"
proof -
  define b where "b = (if m then buffer p ! 1 OR 0x80 else buffer p ! 1 AND 0x7F)"
  have "SetMarker m p = Inr (p\<lparr>pkt_marker := m, buffer := overwrite 1 [b] (buffer p)\<rparr>)"
    using assms(1) by (simp add: SetMarker_def WriteAt_def b_def Let_def)
  moreover have "drop 12 (overwrite 1 [b] (buffer p)) = drop 12 (buffer p)"
    using assms(1) by (simp add: overwrite_def)
  ultimately show ?thesis using assms by (auto simp: packet_payload_def view_def split: if_splits)
qed

context cow_buffer
begin

lemma write_payload_ok:
  assumes "fresh_packet M p" and "length bs \<le> M"
  shows "\<exists>p'. write_payload cow bs p = Inr p' \<and> packet_payload p' = Inr bs \<and> 12 \<le> length (buffer p') \<and> payload_offset p' = 12"
proof -
  have f: "length (buffer p) = 12" "payload_offset p = 12" "12 + length bs \<le> buffer_capacity p" "buffer_capacity p < 2 ^ 64"
    using assms by (auto simp: fresh_packet_def)
  obtain b where "AllocatePayload cow (length bs) p = (p\<lparr>buffer := b, pkt_payload_size := length bs\<rparr>, Some 12)"
    and b: "length b = 12 + length bs" "take 12 b = buffer p"
    using AllocatePayload_ok [OF f] by blast
  then have "write_payload cow bs p = Inr (p\<lparr>buffer := overwrite 12 bs b, pkt_payload_size := length bs\<rparr>)"
    by (simp add: write_payload_def WriteAt_def)
  moreover have "drop 12 (overwrite 12 bs b) = bs" using b f by (simp add: overwrite_def)
  ultimately show ?thesis using b f by (simp add: packet_payload_def)
qed

end

text \<open>The loop of an aggregated packet writes one element after the other.\<close>

lemma aggregate_loop_ok:
  assumes "big_endian_io io" and "xs \<noteq> []" and "packets pk = agg_units xs is_first @ rest"
    and "input_fragments pk = xs @ later" and "buffer p = overwrite 12 acc B" and "length acc = index"
    and "12 + index + sum_list (map (\<lambda>x. 2 + length x) xs) \<le> length B"
  shows "aggregate_loop io 12 index p pk = Inr (index + sum_list (map (\<lambda>x. 2 + length x) xs),
    p\<lparr>buffer := overwrite 12 (acc @ concat (map (stap_element io) xs)) B\<rparr>, pk\<lparr>packets := rest, input_fragments := later\<rparr>)"
  using assms(2-)
proof (induction xs arbitrary: is_first acc index p pk)
  case Nil
  then show ?case by simp
next
  case (Cons x xs)
  define w where "w = wr16 io (of_nat (length x))"
  have w: "length w = 2" by (simp add: w_def big_endian_io.wr16_length [OF assms(1)])
  define acc' where "acc' = acc @ stap_element io x"
  define p' where "p' = p\<lparr>buffer := overwrite 12 acc' B\<rparr>"
  have len: "length acc' = index + 2 + length x" using Cons.prems(5) w by (simp add: acc'_def stap_element_def w_def)
  have "WriteAt (12 + index) w p = Inr (p\<lparr>buffer := overwrite 12 (acc @ w) B\<rparr>)"
    using Cons.prems(4-6) w by (simp add: WriteAt_def buf_simps)
  moreover have "WriteAt (12 + index + kLengthFieldSize) x (p\<lparr>buffer := overwrite 12 (acc @ w) B\<rparr>) = Inr p'"
    using Cons.prems(5,6) w by (simp add: WriteAt_def buf_simps kLengthFieldSize_def p'_def acc'_def stap_element_def w_def)
  moreover obtain u where u: "packets pk = u # agg_units xs False @ rest" "source_fragment u = x" "aggregated u"
    "last_fragment u \<longleftrightarrow> xs = []" using Cons.prems(2) by simp
  moreover have "pop_input (pk\<lparr>packets := agg_units xs False @ rest\<rparr>) =
      Inr (pk\<lparr>packets := agg_units xs False @ rest, input_fragments := xs @ later\<rparr>)"
    using Cons.prems(3) by (simp add: pop_input_def)
  ultimately have step: "aggregate_loop io 12 index p pk =
      (if xs = [] then Inr (index + 2 + length x, p', pk\<lparr>packets := rest, input_fragments := later\<rparr>)
       else aggregate_loop io 12 (index + 2 + length x) p'
              (pk\<lparr>input_fragments := xs @ later, packets := agg_units xs False @ rest\<rparr>))"
    by (subst aggregate_loop.simps) (simp add: w_def kLengthFieldSize_def Let_def)
  show ?case
  proof (cases "xs = []")
    case True
    then show ?thesis by (simp add: step p'_def acc'_def)
  next
    case False
    have "aggregate_loop io 12 (index + 2 + length x) p' (pk\<lparr>input_fragments := xs @ later, packets := agg_units xs False @ rest\<rparr>) =
        Inr (index + 2 + length x + sum_list (map (\<lambda>x. 2 + length x) xs),
          p'\<lparr>buffer := overwrite 12 (acc' @ concat (map (stap_element io) xs)) B\<rparr>,
          (pk\<lparr>input_fragments := xs @ later, packets := agg_units xs False @ rest\<rparr>)\<lparr>packets := rest, input_fragments := later\<rparr>)"
      using Cons.prems(6) len False by (intro Cons.IH) (auto simp: p'_def)
    then show ?thesis using False by (simp add: step p'_def acc'_def)
  qed
qed

lemma NextAggregatedPacket_ok:
  assumes io: "big_endian_io io" and cow: "cow_buffer cow" and p: "fresh_packet M p" and xs: "xs \<noteq> []"
    and pk: "packets pk = agg_units xs True @ rest" "input_fragments pk = xs @ later" and size: "stap_size xs \<le> M"
  shows "\<exists>p'. NextAggregatedPacket io cow pk p = Inr (pk\<lparr>packets := rest, input_fragments := later\<rparr>, p') \<and>
    packet_payload p' = Inr (((hd xs ! 0 AND kFBit_kNriMask) OR 24) # concat (map (stap_element io) xs)) \<and>
    12 \<le> length (buffer p') \<and> payload_offset p' = 12"
proof -
  define C where "C = buffer_capacity p - 12"
  define h where "h = (hd xs ! 0 AND kFBit_kNriMask) OR 24"
  define n where "n = sum_list (map (\<lambda>x. 2 + length x) xs)"
  have f: "length (buffer p) = 12" "payload_offset p = 12" "12 + C \<le> buffer_capacity p" "buffer_capacity p < 2 ^ 64"
    "FreeCapacity p = C" "1 + n \<le> C" "12 + C = buffer_capacity p"
    using p size by (auto simp: fresh_packet_def C_def FreeCapacity_def packet_size_def stap_size_def n_def)
  obtain B where a: "AllocatePayload cow C p = (p\<lparr>buffer := B, pkt_payload_size := C\<rparr>, Some 12)" and B: "length B = 12 + C"
    using cow_buffer.AllocatePayload_ok [OF cow f(1-4)] by blast
  define p1 where "p1 = p\<lparr>buffer := overwrite 12 [h] B, pkt_payload_size := C\<rparr>"
  obtain u where u: "packets pk = u # tl (packets pk)" "unit_header u = hd xs ! 0"
    using pk(1) xs by (cases xs) auto
  then have "byte_at (packets pk) 0 = Inr u" by (metis byte_at_ok length_greater_0_conv list.distinct(1) nth_Cons_0)
  moreover have "WriteAt 12 [h] (p\<lparr>buffer := B, pkt_payload_size := C\<rparr>) = Inr p1"
    using B f(6) by (simp add: WriteAt_def p1_def)
  moreover have "aggregate_loop io 12 1 p1 pk = Inr (1 + n,
      p1\<lparr>buffer := overwrite 12 ([h] @ concat (map (stap_element io) xs)) B\<rparr>, pk\<lparr>packets := rest, input_fragments := later\<rparr>)"
    unfolding n_def using B f(6) by (intro aggregate_loop_ok [OF io xs pk]) (auto simp: p1_def n_def)
  ultimately have r: "NextAggregatedPacket io cow pk p = Inr (pk\<lparr>packets := rest, input_fragments := later\<rparr>,
      fst (SetPayloadSize cow (1 + n) (p1\<lparr>buffer := overwrite 12 ([h] @ concat (map (stap_element io) xs)) B\<rparr>)))"
    using a u(2) f(5) by (simp add: NextAggregatedPacket_def h_def kNaluHeaderSize_def del: bindE_eq_Inr)
  define pl where "pl = h # concat (map (stap_element io) xs)"
  have el: "length (stap_element io x) = 2 + length x" for x
    by (simp add: stap_element_def big_endian_io.wr16_length [OF io])
  have len: "length pl = 1 + n"
    by (simp add: pl_def n_def length_concat comp_def el)
  define R where "R = resized cow (overwrite 12 pl B) (buffer_capacity p) (12 + (1 + n))"
  have "length (overwrite 12 pl B) = 12 + C" using B len f(6) by simp
  then have "take (13 + n) R = take (13 + n) (overwrite 12 pl B)"
    using cow_buffer.resized_prefix [OF cow, of "13 + n" "overwrite 12 pl B" "buffer_capacity p"] f(6)
    by (simp add: R_def min_absorb1)
  moreover have lenR: "length R = 13 + n" by (simp add: R_def cow_buffer.resized_length [OF cow])
  ultimately have "R = take (13 + n) (overwrite 12 pl B)" by simp
  then have R: "drop 12 R = pl" using B len f(6) by (simp add: overwrite_def)
  define p2 where "p2 = p1\<lparr>buffer := R, pkt_payload_size := 1 + n\<rparr>"
  have "fst (SetPayloadSize cow (1 + n) (p1\<lparr>buffer := overwrite 12 ([h] @ concat (map (stap_element io) xs)) B\<rparr>)) = p2"
    using f cow_buffer.resized_cap_kept [OF cow, of "13 + n" "buffer_capacity p"]
    by (simp add: SetPayloadSize_def set_size_def p2_def p1_def R_def pl_def)
  moreover have "packet_payload p2 = Inr pl" "12 \<le> length (buffer p2)" "payload_offset p2 = 12"
    using lenR R f(2) len by (simp_all add: packet_payload_def p2_def p1_def)
  ultimately show ?thesis using r by (simp add: pl_def h_def)
qed

text \<open>One call of \<open>NextPacket\<close>, for each kind of unit at the front of the queue.\<close>

lemma NextPacket_finish:
  assumes "packets pk = u # us"
    and "(if first_fragment u \<and> last_fragment u then
            bindE (write_payload cow (source_fragment u) p) (\<lambda>p.
            bindE (pop_input (pk\<lparr>packets := us\<rparr>)) (\<lambda>pk. Inr (pk, p)))
          else if aggregated u then NextAggregatedPacket io cow pk p
          else NextFragmentPacket cow freed pk p) = Inr (pk', p1)"
    and "SetMarker (packets pk' = []) p1 = Inr p2"
  shows "RtpPacketizerH264_NextPacket io cow freed pk p =
    Inr (pk'\<lparr>num_packets_left := size_sub (num_packets_left pk') 1\<rparr>, p2, True)"
  unfolding RtpPacketizerH264_NextPacket_def assms(1) list.case assms(2)
  using assms(3) by (simp add: Let_def del: bindE_eq_Inr)

lemma NextPacket_agg:
  assumes io: "big_endian_io io" and cow: "cow_buffer cow" and p: "fresh_packet M p" and g: "group_ok M (Agg xs)"
    and pk: "packets pk = group_units (Agg xs) @ rest" "input_fragments pk = xs @ later"
  shows "\<exists>p'. RtpPacketizerH264_NextPacket io cow freed pk p = Inr (pk\<lparr>packets := rest, input_fragments := later,
      num_packets_left := size_sub (num_packets_left pk) 1\<rparr>, p', True) \<and>
    packet_payload p' = Inr (hd (group_payloads io (Agg xs))) \<and> pkt_marker p' = (rest = [])"
proof -
  obtain x ys where xs: "xs = x # ys" using g by (cases xs) auto
  define pk' where "pk' = pk\<lparr>packets := rest, input_fragments := later\<rparr>"
  have "\<exists>p1. (if first_fragment (hd (packets pk)) \<and> last_fragment (hd (packets pk)) then
                   bindE (write_payload cow (source_fragment (hd (packets pk))) p) (\<lambda>p.
                   bindE (pop_input (pk\<lparr>packets := tl (packets pk)\<rparr>)) (\<lambda>pk. Inr (pk, p)))
                 else if aggregated (hd (packets pk)) then NextAggregatedPacket io cow pk p
                 else NextFragmentPacket cow freed pk p) = Inr (pk', p1) \<and>
      packet_payload p1 = Inr (hd (group_payloads io (Agg xs))) \<and> 12 \<le> length (buffer p1) \<and> payload_offset p1 = 12"
  proof (cases "ys = []")
    case True
    then have "length x \<le> M" using g xs by simp
    then obtain p1 where "write_payload cow x p = Inr p1" "packet_payload p1 = Inr x" "12 \<le> length (buffer p1)" "payload_offset p1 = 12"
      using cow_buffer.write_payload_ok [OF cow p] by blast
    then show ?thesis using True pk xs by (simp add: pop_input_def pk'_def)
  next
    case False
    then have "stap_size xs \<le> M" using g xs by (simp split: if_splits)
    moreover have "packets pk = agg_units xs True @ rest" "xs \<noteq> []" using pk(1) xs by simp_all
    ultimately show ?thesis
      using NextAggregatedPacket_ok [OF io cow p _ _ pk(2)] False xs by (simp add: pk'_def)
  qed
  then obtain p1 where p1: "(if first_fragment (hd (packets pk)) \<and> last_fragment (hd (packets pk)) then
                   bindE (write_payload cow (source_fragment (hd (packets pk))) p) (\<lambda>p.
                   bindE (pop_input (pk\<lparr>packets := tl (packets pk)\<rparr>)) (\<lambda>pk. Inr (pk, p)))
                 else if aggregated (hd (packets pk)) then NextAggregatedPacket io cow pk p
                 else NextFragmentPacket cow freed pk p) = Inr (pk', p1)"
      "packet_payload p1 = Inr (hd (group_payloads io (Agg xs)))" "12 \<le> length (buffer p1)" "payload_offset p1 = 12" by blast
  obtain p2 where p2: "SetMarker (rest = []) p1 = Inr p2" "packet_payload p2 = Inr (hd (group_payloads io (Agg xs)))" "pkt_marker p2 = (rest = [])"
    using SetMarker_ok [OF p1(3,4,2)] by blast
  have "packets pk = hd (packets pk) # tl (packets pk)" using pk(1) xs by simp
  from NextPacket_finish [OF this p1(1)] p2 show ?thesis by (simp add: pk'_def del: bindE_eq_Inr)
qed

lemma NextPacket_fu:
  assumes cow: "cow_buffer cow" and p: "fresh_packet M p"
    and u: "\<not> aggregated u" "\<not> (first_fragment u \<and> last_fragment u)" "2 + length (source_fragment u) \<le> M"
    and pk: "packets pk = u # rest" "last_fragment u \<Longrightarrow> input_fragments pk = x # later"
      "\<not> last_fragment u \<Longrightarrow> input_fragments pk = later"
    and freed: "freed u = Some (last_fragment u)"
  shows "\<exists>p'. RtpPacketizerH264_NextPacket io cow freed pk p = Inr (pk\<lparr>packets := rest, input_fragments := later,
      num_packets_left := size_sub (num_packets_left pk) 1\<rparr>, p', True) \<and>
    packet_payload p' = Inr (fu_payload u) \<and> pkt_marker p' = (rest = [])"
proof -
  have "length (fu_payload u) \<le> M" using u(3) by (simp add: fu_payload_def)
  then obtain p1 where p1: "write_payload cow (fu_payload u) p = Inr p1" "packet_payload p1 = Inr (fu_payload u)"
    "12 \<le> length (buffer p1)" "payload_offset p1 = 12"
    using cow_buffer.write_payload_ok [OF cow p] by blast
  obtain p2 where p2: "SetMarker (rest = []) p1 = Inr p2" "packet_payload p2 = Inr (fu_payload u)" "pkt_marker p2 = (rest = [])"
    using SetMarker_ok [OF p1(3,4,2)] by blast
  have "NextFragmentPacket cow freed pk p = Inr (pk\<lparr>packets := rest, input_fragments := later\<rparr>, p1)"
    using pk p1(1) freed by (cases "last_fragment u") (simp_all add: NextFragmentPacket_def pop_input_def del: bindE_eq_Inr)
  then have "(if first_fragment u \<and> last_fragment u then
            bindE (write_payload cow (source_fragment u) p) (\<lambda>p.
            bindE (pop_input (pk\<lparr>packets := rest\<rparr>)) (\<lambda>pk. Inr (pk, p)))
          else if aggregated u then NextAggregatedPacket io cow pk p
          else NextFragmentPacket cow freed pk p) = Inr (pk\<lparr>packets := rest, input_fragments := later\<rparr>, p1)"
    using u(1,2) by argo
  from NextPacket_finish [OF pk(1) this] p2 show ?thesis by simp
qed

text \<open>After a FU-A packet the flag of the destroyed unit is read; where this faults, the packet is lost.\<close>

lemma fragment_read_after_pop:
  assumes "packets pk = u # us" and "\<not> aggregated u" and "\<not> (first_fragment u \<and> last_fragment u)"
    and "write_payload cow (fu_payload u) p = Inr q" and "freed u = None"
  shows "RtpPacketizerH264_NextPacket io cow freed pk p = Inl UseAfterFree"
  using assms by (auto simp: RtpPacketizerH264_NextPacket_def NextFragmentPacket_def simp del: bindE_eq_Inr)

lemma drain_append:
  "drain io cow freed p0 (m + n) pk =
     bindE (drain io cow freed p0 m pk) (\<lambda>(a, pk). bindE (drain io cow freed p0 n pk) (\<lambda>(b, pk). Inr (a @ b, pk)))"
proof (induction m arbitrary: pk)
  case 0
  then show ?case by (cases "drain io cow freed p0 n pk") (auto simp del: bindE_eq_Inr)
next
  case (Suc m)
  show ?case
    by (simp add: Suc.IH bindE_def split: sum.splits)
qed

lemma drain_Suc:
  assumes "RtpPacketizerH264_NextPacket io cow freed pk p0 = Inr (pk1, p, True)" and "packet_payload p = Inr pl"
    and "drain io cow freed p0 n pk1 = Inr (rest, pk2)"
  shows "drain io cow freed p0 (Suc n) pk = Inr ((pl, pkt_marker p) # rest, pk2)"
  using assms by (simp del: bindE_eq_Inr)

lemma fu_group_units_Nil [simp]: "fu_group_units h parts b = [] \<longleftrightarrow> parts = []"
  by (cases parts) auto

lemma agg_units_Nil [simp]: "agg_units xs b = [] \<longleftrightarrow> xs = []"
  by (cases xs) auto

lemma drain_Suc_fault:
  assumes "RtpPacketizerH264_NextPacket io cow freed pk p0 = Inr (pk1, p, True)" and "packet_payload p = Inr pl"
    and "drain io cow freed p0 n pk1 = Inl e"
  shows "drain io cow freed p0 (Suc n) pk = Inl e"
  using assms by (simp del: bindE_eq_Inr)

text \<open>The units whose flag is read after they are destroyed are those of the FU-A packets.\<close>

definition read_after_pop :: "packet_unit \<Rightarrow> bool" where
  "read_after_pop u \<longleftrightarrow> \<not> aggregated u \<and> \<not> (first_fragment u \<and> last_fragment u)"

definition flag_kept :: "freed_flag \<Rightarrow> packet_unit \<Rightarrow> bool" where
  "flag_kept freed u \<longleftrightarrow> freed u = Some (last_fragment u)"

lemma fu_rest_reads: "u \<in> set (fu_group_units h parts False) \<Longrightarrow> read_after_pop u"
  by (induction parts) (auto simp: read_after_pop_def)

lemma fu_group_reads:
  assumes "2 \<le> length parts"
  shows "u \<in> set (fu_group_units h parts True) \<Longrightarrow> read_after_pop u"
  using assms fu_rest_reads by (cases parts) (auto simp: read_after_pop_def)

lemma agg_group_reads: "u \<in> set (agg_units xs is_first) \<Longrightarrow> \<not> read_after_pop u"
  by (induction xs arbitrary: is_first) (auto simp: read_after_pop_def)

lemma group_reads:
  assumes "group_ok M g"
  shows "filter read_after_pop (group_units g) = (case g of FuA x parts \<Rightarrow> fu_group_units (x ! 0) parts True | Agg xs \<Rightarrow> [])"
  using assms fu_group_reads agg_group_reads by (cases g) (auto simp: filter_id_conv filter_empty_conv)

lemma drain_fu:
  assumes "cow_buffer cow" and "fresh_packet M p0" and "\<forall>part \<in> set parts. 2 + length part \<le> M"
    and "is_first \<longrightarrow> 2 \<le> length parts" and "packets pk = fu_group_units h parts is_first @ rest"
    and "parts \<noteq> []" and "input_fragments pk = x # later" and "length parts \<le> num_packets_left pk"
    and "list_all (flag_kept freed) (fu_group_units h parts is_first)"
  shows "drain io cow freed p0 (length parts) pk =
    Inr (mark_last (rest = []) (map fu_payload (fu_group_units h parts is_first)),
         pk\<lparr>packets := rest, input_fragments := later, num_packets_left := num_packets_left pk - length parts\<rparr>)"
  using assms(3-)
proof (induction parts arbitrary: is_first pk)
  case Nil
  then show ?case by simp
next
  case (Cons part parts)
  define u where "u = \<lparr>source_fragment = part, first_fragment = is_first, last_fragment = (parts = []), aggregated = False, unit_header = h\<rparr>"
  define rest' where "rest' = fu_group_units h parts False @ rest"
  define later' where "later' = (if parts = [] then later else x # later)"
  define pk1 where "pk1 = pk\<lparr>packets := rest', input_fragments := later', num_packets_left := size_sub (num_packets_left pk) 1\<rparr>"
  have kept: "freed u = Some (last_fragment u)" using Cons.prems(7) by (simp add: u_def flag_kept_def)
  have "\<exists>p. RtpPacketizerH264_NextPacket io cow freed pk p0 = Inr (pk1, p, True) \<and>
      packet_payload p = Inr (fu_payload u) \<and> pkt_marker p = (rest' = [])"
    unfolding pk1_def using Cons.prems(1-6) kept
    by (intro NextPacket_fu [OF assms(1,2)]) (auto simp: u_def rest'_def later'_def)
  then obtain p where p: "RtpPacketizerH264_NextPacket io cow freed pk p0 = Inr (pk1, p, True)"
    "packet_payload p = Inr (fu_payload u)" "pkt_marker p = (rest' = [])" by blast
  have "drain io cow freed p0 (length parts) pk1 = Inr (mark_last (rest = []) (map fu_payload (fu_group_units h parts False)),
      pk\<lparr>packets := rest, input_fragments := later, num_packets_left := num_packets_left pk - Suc (length parts)\<rparr>)"
  proof (cases "parts = []")
    case True
    then show ?thesis using Cons.prems(6) by (simp add: pk1_def rest'_def later'_def)
  next
    case False
    then have "drain io cow freed p0 (length parts) pk1 = Inr (mark_last (rest = []) (map fu_payload (fu_group_units h parts False)),
      pk1\<lparr>packets := rest, input_fragments := later, num_packets_left := num_packets_left pk1 - length parts\<rparr>)"
      using Cons.prems by (intro Cons.IH) (auto simp: pk1_def rest'_def later'_def)
    then show ?thesis using Cons.prems(6) by (simp add: pk1_def)
  qed
  from drain_Suc [OF p(1,2) this] show ?case by (simp add: p(3) rest'_def u_def conj_commute)
qed

lemma drain_group:
  assumes "big_endian_io io" and "cow_buffer cow" and "fresh_packet M p0" and "group_ok M g"
    and "packets pk = group_units g @ rest" and "input_fragments pk = group_nalus g @ later"
    and "group_packets g \<le> num_packets_left pk" and "list_all (flag_kept freed) (filter read_after_pop (group_units g))"
  shows "drain io cow freed p0 (group_packets g) pk = Inr (mark_last (rest = []) (group_payloads io g),
    pk\<lparr>packets := rest, input_fragments := later, num_packets_left := num_packets_left pk - group_packets g\<rparr>)"
proof (cases g)
  case (FuA x parts)
  moreover have "parts \<noteq> []" using assms(4) FuA by auto
  moreover have "filter read_after_pop (group_units g) = fu_group_units (x ! 0) parts True" using group_reads [OF assms(4)] FuA by simp
  ultimately show ?thesis using assms(4-) drain_fu [OF assms(2,3), of parts True pk "x ! 0" rest x later] by auto
next
  case (Agg xs)
  from NextPacket_agg [OF assms(1-3), of xs pk rest later freed] assms(4-7) Agg
  obtain p where p: "RtpPacketizerH264_NextPacket io cow freed pk p0 = Inr (pk\<lparr>packets := rest, input_fragments := later,
      num_packets_left := size_sub (num_packets_left pk) 1\<rparr>, p, True)"
    "packet_payload p = Inr (hd (group_payloads io (Agg xs)))" "pkt_marker p = (rest = [])" by auto
  have "drain io cow freed p0 1 pk = Inr ([(hd (group_payloads io (Agg xs)), rest = [])], pk\<lparr>packets := rest, input_fragments := later,
      num_packets_left := size_sub (num_packets_left pk) 1\<rparr>)"
    using drain_Suc [OF p(1,2), of 0] p(3) by simp
  then show ?thesis using assms(7) Agg by simp
qed

lemma drain_groups:
  assumes "big_endian_io io" and "cow_buffer cow" and "fresh_packet M p0" and "\<forall>g \<in> set gs. group_ok M g"
    and "packets pk = concat (map group_units gs)" and "input_fragments pk = concat (map group_nalus gs)"
    and "sum_list (map group_packets gs) = num_packets_left pk"
    and "list_all (flag_kept freed) (filter read_after_pop (packets pk))"
  shows "drain io cow freed p0 (num_packets_left pk) pk = Inr (mark_last True (concat (map (group_payloads io) gs)),
    pk\<lparr>packets := [], input_fragments := [], num_packets_left := 0\<rparr>)"
  using assms(4-)
proof (induction gs arbitrary: pk)
  case Nil
  then show ?case by simp
next
  case (Cons g gs)
  define rest where "rest = concat (map group_units gs)"
  define later where "later = concat (map group_nalus gs)"
  define pk1 where "pk1 = pk\<lparr>packets := rest, input_fragments := later, num_packets_left := num_packets_left pk - group_packets g\<rparr>"
  have one: "drain io cow freed p0 (group_packets g) pk = Inr (mark_last (rest = []) (group_payloads io g), pk1)"
    unfolding pk1_def using Cons.prems by (intro drain_group [OF assms(1-3)]) (auto simp: rest_def later_def)
  have two: "drain io cow freed p0 (num_packets_left pk1) pk1 = Inr (mark_last True (concat (map (group_payloads io) gs)),
    pk1\<lparr>packets := [], input_fragments := [], num_packets_left := 0\<rparr>)"
    using Cons.prems by (intro Cons.IH) (auto simp: pk1_def rest_def later_def)
  have n: "num_packets_left pk = group_packets g + num_packets_left pk1" using Cons.prems(4) by (simp add: pk1_def)
  have ne: "group_ok M g \<Longrightarrow> group_units g \<noteq> [] \<and> group_payloads io g \<noteq> []" for g by (cases g) auto
  have "rest = [] \<longleftrightarrow> gs = []" "concat (map (group_payloads io) gs) = [] \<longleftrightarrow> gs = []"
    using Cons.prems(1) ne unfolding rest_def by (cases gs; auto)+
  then show ?case
    unfolding n drain_append one bindE_Inr prod.case two by (simp add: mark_last_append) (simp add: pk1_def)
qed

lemma drain_fu_fault:
  assumes "cow_buffer cow" and "fresh_packet M p0" and "\<forall>part \<in> set parts. 2 + length part \<le> M"
    and "is_first \<longrightarrow> 2 \<le> length parts" and "packets pk = fu_group_units h parts is_first @ rest"
    and "input_fragments pk = x # later"
    and "dropWhile (flag_kept freed) (fu_group_units h parts is_first) = v # vs" and "freed v = None"
  shows "drain io cow freed p0 (length parts) pk = Inl UseAfterFree"
  using assms(3-)
proof (induction parts arbitrary: is_first pk)
  case (Cons part parts)
  define u where "u = \<lparr>source_fragment = part, first_fragment = is_first, last_fragment = (parts = []), aggregated = False, unit_header = h\<rparr>"
  define rest' where "rest' = fu_group_units h parts False @ rest"
  define later' where "later' = (if parts = [] then later else x # later)"
  define pk1 where "pk1 = pk\<lparr>packets := rest', input_fragments := later', num_packets_left := size_sub (num_packets_left pk) 1\<rparr>"
  have u: "\<not> aggregated u" "\<not> (first_fragment u \<and> last_fragment u)" "2 + length (source_fragment u) \<le> M" "packets pk = u # rest'"
    using Cons.prems(1-3) by (auto simp: u_def rest'_def)
  show ?case
  proof (cases "flag_kept freed u")
    case False
    then have "freed u = None" using Cons.prems(5,6) by (simp add: u_def)
    moreover have "length (fu_payload u) \<le> M" using u(3) by (simp add: fu_payload_def)
    then obtain p1 where "write_payload cow (fu_payload u) p0 = Inr p1"
      using cow_buffer.write_payload_ok [OF assms(1,2)] by blast
    ultimately show ?thesis using fragment_read_after_pop [OF u(4,1,2)] by (simp del: bindE_eq_Inr)
  next
    case True
    then have "\<exists>p. RtpPacketizerH264_NextPacket io cow freed pk p0 = Inr (pk1, p, True) \<and>
        packet_payload p = Inr (fu_payload u) \<and> pkt_marker p = (rest' = [])"
      unfolding pk1_def flag_kept_def using u Cons.prems(4)
      by (intro NextPacket_fu [OF assms(1,2)]) (auto simp: u_def later'_def)
    then obtain p where p: "RtpPacketizerH264_NextPacket io cow freed pk p0 = Inr (pk1, p, True)"
      "packet_payload p = Inr (fu_payload u)" by blast
    have d: "dropWhile (flag_kept freed) (fu_group_units h parts False) = v # vs" using Cons.prems(5) True by (simp add: u_def)
    then have "parts \<noteq> []" by auto
    then have "drain io cow freed p0 (length parts) pk1 = Inl UseAfterFree"
      using Cons.prems(1,6) d by (intro Cons.IH) (auto simp: pk1_def rest'_def later'_def)
    then show ?thesis using drain_Suc_fault [OF p] by simp
  qed
qed simp

lemma dropWhile_append_fault: "dropWhile P (xs @ ys) = v # vs \<Longrightarrow>
    list_all P xs \<and> dropWhile P ys = v # vs \<or> (\<exists>us. dropWhile P xs = v # us)"
  by (induction xs) (auto split: if_splits)

lemma drain_groups_fault:
  assumes "big_endian_io io" and "cow_buffer cow" and "fresh_packet M p0" and "\<forall>g \<in> set gs. group_ok M g"
    and "packets pk = concat (map group_units gs)" and "input_fragments pk = concat (map group_nalus gs)"
    and "sum_list (map group_packets gs) = num_packets_left pk"
    and "dropWhile (flag_kept freed) (filter read_after_pop (packets pk)) = v # vs" and "freed v = None"
  shows "drain io cow freed p0 (num_packets_left pk) pk = Inl UseAfterFree"
  using assms(4-)
proof (induction gs arbitrary: pk)
  case Nil
  then show ?case by simp
next
  case (Cons g gs)
  define rest where "rest = concat (map group_units gs)"
  define later where "later = concat (map group_nalus gs)"
  define pk1 where "pk1 = pk\<lparr>packets := rest, input_fragments := later, num_packets_left := num_packets_left pk - group_packets g\<rparr>"
  have n: "num_packets_left pk = group_packets g + num_packets_left pk1" using Cons.prems(4) by (simp add: pk1_def)
  have pk: "packets pk = group_units g @ rest" "input_fragments pk = group_nalus g @ later" "group_ok M g"
    using Cons.prems(1-3) by (simp_all add: rest_def later_def)
  consider "list_all (flag_kept freed) (filter read_after_pop (group_units g))"
      "dropWhile (flag_kept freed) (filter read_after_pop rest) = v # vs"
    | us where "dropWhile (flag_kept freed) (filter read_after_pop (group_units g)) = v # us"
    using dropWhile_append_fault [of "flag_kept freed" "filter read_after_pop (group_units g)" "filter read_after_pop rest" v vs]
      Cons.prems(5) pk(1) by auto
  then show ?case
  proof cases
    case 1
    have one: "drain io cow freed p0 (group_packets g) pk = Inr (mark_last (rest = []) (group_payloads io g), pk1)"
      unfolding pk1_def using pk 1(1) n by (intro drain_group [OF assms(1-3)]) auto
    have two: "drain io cow freed p0 (num_packets_left pk1) pk1 = Inl UseAfterFree"
      using Cons.prems 1(2) by (intro Cons.IH) (auto simp: pk1_def rest_def later_def)
    show ?thesis unfolding n drain_append one bindE_Inr prod.case two by simp
  next
    case (2 us)
    then obtain x parts where g: "g = FuA x parts" using group_reads [OF pk(3)] by (cases g) auto
    then have "dropWhile (flag_kept freed) (fu_group_units (x ! 0) parts True) = v # us" using 2 group_reads [OF pk(3)] by simp
    then have "drain io cow freed p0 (group_packets g) pk = Inl UseAfterFree"
      using pk g Cons.prems(6) by (auto intro!: drain_fu_fault [OF assms(2,3)])
    then show ?thesis unfolding n drain_append by simp
  qed
qed

section \<open>Depacketisation\<close>

text \<open>The receiver of RFC 6184, as a reference: single NAL unit packets, STAP-A and FU-A. The first
  argument is the NAL unit under reassembly.\<close>

function stap_split :: "byte list \<Rightarrow> byte list list option" where
  "stap_split [] = Some []"
| "stap_split [a] = None"
| "stap_split (a # b # bs) =
     (let n = unat a * 256 + unat b in
      if n \<le> length bs then map_option ((#) (take n bs)) (stap_split (drop n bs)) else None)"
  by pat_completeness auto
termination
  by (relation "measure length") auto

definition fu_append :: "byte list option \<Rightarrow> byte \<Rightarrow> byte \<Rightarrow> byte list \<Rightarrow> byte list option" where
  "fu_append acc indicator fu part =
     (if fu AND 0x80 \<noteq> 0
      then (if acc = None then Some (((indicator AND 0xE0) OR (fu AND 0x1F)) # part) else None)
      else map_option (\<lambda>a. a @ part) acc)"

fun depacketize :: "byte list option \<Rightarrow> byte list list \<Rightarrow> byte list list option" where
  "depacketize acc [] = (if acc = None then Some [] else None)"
| "depacketize acc ([] # ps) = None"
| "depacketize acc ((h # bs) # ps) =
     (if h AND 0x1F = 28 then
        (case bs of
           [] \<Rightarrow> None
         | fu # part \<Rightarrow>
             (case fu_append acc h fu part of
                None \<Rightarrow> None
              | Some a \<Rightarrow> if fu AND 0x40 \<noteq> 0 then map_option ((#) a) (depacketize None ps)
                          else depacketize (Some a) ps))
      else if acc \<noteq> None then None
      else if h AND 0x1F = 24 then
        (case stap_split bs of None \<Rightarrow> None | Some xs \<Rightarrow> map_option ((@) xs) (depacketize None ps))
      else if h AND 0x1F < 24 then map_option ((#) (h # bs)) (depacketize None ps)
      else None)"

definition nalu_ok :: "byte list \<Rightarrow> bool" where
  "nalu_ok x \<longleftrightarrow> x \<noteq> [] \<and> x ! 0 AND 0x1F < 24"

lemma header_bits:
  fixes h t :: byte
  shows "(h AND 0xE0) OR (h AND 0x1F) = h" and "((h AND 0xE0) OR 28) AND 0x1F = 28"
    and "((h AND 0xE0) OR 24) AND 0x1F = 24" and "((h AND 0xE0) OR 28) AND 0xE0 = h AND 0xE0"
proof -
  have "(h AND 0xE0) OR (h AND 0x1F) = h AND (0xE0 OR 0x1F)" by (simp only: bit.conj_disj_distrib)
  then show "(h AND 0xE0) OR (h AND 0x1F) = h" by (simp add: and_0xFF take_bit_word_eq_self)
qed (simp_all add: bit.conj_disj_distrib2 and.assoc)

lemma fu_bits:
  fixes h :: byte
  shows "(((if f then 0x80 else 0) OR (if l then 0x40 else 0)) OR (h AND 0x1F)) AND 0x80 \<noteq> 0 \<longleftrightarrow> f"
    and "(((if f then 0x80 else 0) OR (if l then 0x40 else 0)) OR (h AND 0x1F)) AND 0x40 \<noteq> 0 \<longleftrightarrow> l"
    and "(((if f then 0x80 else 0) OR (if l then 0x40 else 0)) OR (h AND 0x1F)) AND 0x1F = h AND 0x1F"
  by (simp_all add: bit.conj_disj_distrib2 and.assoc)

lemma stap_split_elements:
  assumes "big_endian_io io" and "\<forall>x \<in> set xs. length x < 65536"
  shows "stap_split (concat (map (stap_element io) xs)) = Some xs"
  using assms(2)
proof (induction xs)
  case (Cons x xs)
  obtain a b where ab: "wr16 io (of_nat (length x)) = [a, b]"
    using big_endian_io.wr16_length [OF assms(1), of "of_nat (length x)"]
    by (auto simp: length_Suc_conv numeral_2_eq_2)
  have "unat a * 256 + unat b = unat (of_nat (length x) :: u16)"
    using big_endian_io.read_wr16_only [OF assms(1), of "of_nat (length x)"]
      big_endian_io.read_two [OF assms(1), of a b "[]"] by (simp add: ab)
  then have "unat a * 256 + unat b = length x" using Cons.prems by (simp add: unat_of_nat_small)
  with Cons show ?case by (simp add: stap_element_def ab)
qed simp

lemma depacketize_fu:
  assumes "parts \<noteq> []"
  shows "depacketize (if is_first then None else Some acc) (map fu_payload (fu_group_units h parts is_first) @ ps) =
    map_option ((#) ((if is_first then [h] else acc) @ concat parts)) (depacketize None ps)"
  using assms
proof (induction parts arbitrary: is_first acc)
  case (Cons part parts)
  define acc' where "acc' = (if is_first then [h] else acc) @ part"
  define fu where "fu = ((if is_first then 0x80 else 0) OR (if parts = [] then 0x40 else 0)) OR (h AND 0x1F)"
  have fu: "fu AND 0x80 \<noteq> 0 \<longleftrightarrow> is_first" "fu AND 0x40 \<noteq> 0 \<longleftrightarrow> parts = []" "fu AND 0x1F = h AND 0x1F"
    unfolding fu_def by (rule fu_bits)+
  define us where "us = map fu_payload (fu_group_units h parts False)"
  have split: "map fu_payload (fu_group_units h (part # parts) is_first) = (((h AND 0xE0) OR 28) # fu # part) # us"
    by (simp add: fu_payload_def kFBit_kNriMask_def kTypeMask_def fu_def us_def or.assoc [symmetric])
  have "fu_append (if is_first then None else Some acc) ((h AND 0xE0) OR 28) fu part = Some acc'"
    unfolding fu_append_def fu header_bits by (auto simp: acc'_def)
  then have step: "depacketize (if is_first then None else Some acc) (map fu_payload (fu_group_units h (part # parts) is_first) @ ps) =
      (if parts = [] then map_option ((#) acc') (depacketize None (us @ ps)) else depacketize (Some acc') (us @ ps))"
    unfolding split append_Cons depacketize.simps header_bits fu(2) list.case by (simp only: option.case if_True HOL.simp_thms)
  show ?case
    using Cons.IH [of False acc'] unfolding step us_def by (cases "parts = []") (simp_all add: acc'_def)
qed simp

lemma depacketize_group:
  assumes "big_endian_io io" and "group_ok M g" and "M < 65536" and "\<forall>x \<in> set (group_nalus g). nalu_ok x"
  shows "depacketize None (group_payloads io g @ ps) = map_option ((@) (group_nalus g)) (depacketize None ps)"
proof (cases g)
  case (FuA x parts)
  have "parts \<noteq> []" "x ! 0 # concat parts = x" using assms(2) FuA by (auto simp: hd_conv_nth [symmetric])
  then show ?thesis using depacketize_fu [of parts True "[]" "x ! 0" ps] FuA
    by (cases "depacketize None ps") auto
next
  case (Agg xs)
  show ?thesis
  proof (cases "length xs = 1")
    case True
    then obtain h bs where x: "xs = [h # bs]" "h AND 0x1F < 24" using assms(2,4) Agg
      by (cases xs; cases "hd xs") (auto simp: nalu_ok_def)
    moreover have "h AND 0x1F \<noteq> 28" "h AND 0x1F \<noteq> 24" using x(2) by auto
    ultimately show ?thesis using Agg by (cases "depacketize None ps") auto
  next
    case False
    then have "stap_size xs \<le> M" using assms(2) Agg by simp
    moreover have "length x \<le> stap_size xs" if "x \<in> set xs" for x
      using member_le_sum_list [of "2 + length x" "map (\<lambda>x. 2 + length x) xs"] that by (auto simp: stap_size_def)
    ultimately have "\<forall>x \<in> set xs. length x < 65536" using assms(3) by fastforce
    from stap_split_elements [OF assms(1) this] False show ?thesis using Agg
      by (simp add: kFBit_kNriMask_def header_bits)
  qed
qed

lemma depacketize_groups:
  assumes "big_endian_io io" and "M < 65536" and "\<forall>g \<in> set gs. group_ok M g"
    and "\<forall>x \<in> set (concat (map group_nalus gs)). nalu_ok x"
  shows "depacketize None (concat (map (group_payloads io) gs)) = Some (concat (map group_nalus gs))"
  using assms(3,4)
proof (induction gs)
  case (Cons g gs)
  then show ?case using depacketize_group [OF assms(1) _ assms(2), of g] by simp
qed simp

lemma group_payload_size:
  assumes "big_endian_io io" and "group_ok M g" and "pl \<in> set (group_payloads io g)"
  shows "length pl \<le> M"
proof (cases g)
  case (FuA x parts)
  have "source_fragment u \<in> set parts" if "u \<in> set (fu_group_units h parts b)" for u h b
    using that by (induction parts arbitrary: b) auto
  with FuA assms(2,3) show ?thesis by (fastforce simp: fu_payload_def)
next
  case (Agg xs)
  have "length (stap_element io x) = 2 + length x" for x
    by (simp add: stap_element_def big_endian_io.wr16_length [OF assms(1)])
  with Agg assms(2,3) show ?thesis
    by (auto simp: length_concat comp_def stap_size_def split: if_splits)
qed

lemma sum_group_packets: "length (concat (map (group_payloads io) gs)) = sum_list (map group_packets gs)"
proof -
  have "length (fu_group_units h parts b) = length parts" for h parts b
    by (induction parts arbitrary: b) auto
  then have "length (group_payloads io g) = group_packets g" for g by (cases g) auto
  then show ?thesis by (induction gs) auto
qed


lemma nalus_between_length: "x \<in> set (nalus_between buf ps) \<Longrightarrow> length x \<le> length buf"
  by (induction buf ps rule: nalu_indices.induct) auto

section \<open>Packetising a frame\<close>

text \<open>C14. The fast scan of \<open>FindNaluIndices\<close>, which skips three bytes at a time, finds exactly the NAL
  units of the byte-by-byte definition of the Annex B format: what stands between one start code
  \<open>00 00 01\<close> (or \<open>00 00 00 01\<close>) and the next. It never reads outside the buffer.\<close>

theorem find_nalu_indices_equiv:
  "bindE (FindNaluIndices buf) (subviews buf) = Inr (nalus_between buf (start_positions buf))"
  by (rule nalus_found)

lemma no_reads:
  assumes "\<forall>g \<in> set gs. group_ok M g" and "\<forall>g \<in> set gs. group_cause L fs g"
    and "\<forall>i<length fs. length (fs ! i) \<le> single_packet_capacity L (length fs) i"
  shows "filter read_after_pop (packets \<lparr>limits = L', input_fragments = fs', packets = concat (map group_units gs), num_packets_left = n\<rparr>) = []"
proof -
  have "filter read_after_pop (group_units g) = []" if g: "g \<in> set gs" for g
  proof (cases g)
    case (FuA x parts)
    then obtain i where "i < length fs" "length (fs ! i) > single_packet_capacity L (length fs) i" using assms(2) g by fastforce
    then show ?thesis using assms(3) by (simp add: not_le [symmetric])
  next
    case (Agg xs)
    then have "group_ok M (Agg xs)" using assms(1) g by blast
    from group_reads [OF this] show ?thesis using Agg by simp
  qed
  then show ?thesis by (induction gs) auto
qed

text \<open>C13. Packetising an Annex B frame whose NAL units are not empty and carry types below 24, with limits that leave room for a FU-A header.
  The queue of units stands for exactly \<open>NumPackets\<close> payloads within the limit, from which an RFC 6184 receiver that is given them in order gets back
  exactly the NAL units of the frame. Draining the packetizer succeeds with these payloads, sets the marker bit on the last packet only and leaves the
  packetizer empty, so that \<open>NextPacket\<close> reports the end, as far as one undefined access of the source allows: \<open>NextFragmentPacket\<close> reads the flag
  \<open>last_fragment\<close> of a unit that it has destroyed (\<open>rtp_format_h264.cpp:335\<close>). The units concerned are those of FU-A packets
  (\<open>read_after_pop\<close>); there are none in a frame whose NAL units fit the packets, and draining such a frame always succeeds. In
  other frames it succeeds when the freed memory still holds the flag of each of these units (\<open>flag_kept\<close>), and ends in a
  use after free when the read faults for the first of them whose flag is not kept.\<close>

theorem h264_packetize_roundtrip:
  assumes "big_endian_io io" and "cow_buffer cow" and "packetizer_limits_ok L"
    and "fresh_packet (nat (max_payload_len L)) p0" and "length buf < 2 ^ 29"
    and "nalus = nalus_between buf (start_positions buf)" and "list_all nalu_ok nalus"
  shows "\<exists>pk payloads pk'. RtpPacketizerH264_init buf L = Inr pk \<and>
    length payloads = NumPackets pk \<and> (\<forall>pl \<in> set payloads. int (length pl) \<le> max_payload_len L) \<and>
    depacketize None payloads = Some nalus \<and>
    (case dropWhile (flag_kept freed) (filter read_after_pop (packets pk)) of
       [] \<Rightarrow> drain io cow freed p0 (NumPackets pk) pk = Inr (mark_last True payloads, pk') \<and>
         NumPackets pk' = 0 \<and> input_fragments pk' = [] \<and> RtpPacketizerH264_NextPacket io cow freed pk' p0 = Inr (pk', p0, False)
     | u # us \<Rightarrow> freed u = None \<longrightarrow> drain io cow freed p0 (NumPackets pk) pk = Inl UseAfterFree) \<and>
    (list_all (\<lambda>i. length (nalus ! i) \<le> single_packet_capacity L (length nalus) i) [0..<length nalus] \<longrightarrow>
       filter read_after_pop (packets pk) = [])"
proof -
  define fs where "fs = nalus_between buf (start_positions buf)"
  define M where "M = nat (max_payload_len L)"
  define pk0 where "pk0 = \<lparr>limits = L, input_fragments = fs, packets = [], num_packets_left = 0\<rparr>"
  have ok: "\<forall>x \<in> set fs. nalu_ok x" using assms(6,7) by (simp add: fs_def list_all_iff)
  then have fs: "\<forall>x \<in> set fs. x \<noteq> [] \<and> length x < 2 ^ 29"
    using nalus_between_length assms(5) by (fastforce simp: fs_def nalu_ok_def)
  obtain gs where gs: "generate_loop (length fs) 0 pk0 = Inr (pk0\<lparr>packets := packets pk0 @ concat (map group_units gs),
      num_packets_left := num_packets_left pk0 + sum_list (map group_packets gs)\<rparr>, True)"
    "concat (map group_nalus gs) = fs" "\<forall>g \<in> set gs. group_ok M g" "\<forall>g \<in> set gs. group_cause L fs g"
  proof -
    have pk0: "packetizer_limits_ok (limits pk0)" "fs = input_fragments pk0" "M = nat (max_payload_len (limits pk0))" "L = limits pk0"
      using assms(3) by (simp_all add: pk0_def M_def)
    from generate_loop_ok [OF pk0(1,2) fs le0] show ?thesis
      unfolding pk0(4) [symmetric] M_def [symmetric] drop_0 using that by blast
  qed
  define pk where "pk = \<lparr>limits = L, input_fragments = fs, packets = concat (map group_units gs),
    num_packets_left = sum_list (map group_packets gs)\<rparr>"
  define pls where "pls = concat (map (group_payloads io) gs)"
  define pk' where "pk' = pk\<lparr>packets := [], input_fragments := [], num_packets_left := 0\<rparr>"
  have init: "RtpPacketizerH264_init buf L = Inr pk"
  proof -
    have "RtpPacketizerH264_init buf L = bindE (Inr fs) (\<lambda>fragments.
       bindE (GeneratePackets \<lparr>limits = L, input_fragments = fragments, packets = [], num_packets_left = 0\<rparr>)
         (\<lambda>(pk, ok). Inr (if ok then pk else pk\<lparr>packets := [], num_packets_left := 0\<rparr>)))"
      unfolding RtpPacketizerH264_init_def fs_def nalus_found [symmetric] bindE_assoc ..
    then show ?thesis unfolding bindE_Inr pk0_def [symmetric] GeneratePackets_def
      using gs(1) by (simp add: pk0_def pk_def del: bindE_eq_Inr)
  qed
  define d where "d = dropWhile (flag_kept freed) (filter read_after_pop (packets pk))"
  have drained: "case d of
       [] \<Rightarrow> drain io cow freed p0 (num_packets_left pk) pk = Inr (mark_last True pls, pk')
     | u # us \<Rightarrow> freed u = None \<longrightarrow> drain io cow freed p0 (num_packets_left pk) pk = Inl UseAfterFree"
  proof (cases d)
    case Nil
    then have "list_all (flag_kept freed) (filter read_after_pop (packets pk))" by (simp add: d_def list_all_iff dropWhile_eq_Nil_conv)
    then show ?thesis unfolding Nil list.case pls_def pk'_def using gs(2,3) assms(4)
      by (intro drain_groups [OF assms(1,2)]) (auto simp: pk_def M_def)
  next
    case (Cons v vs)
    then show ?thesis using gs(2,3) assms(4)
      by (auto intro!: drain_groups_fault [OF assms(1,2), of M p0 gs] simp: M_def) (auto simp: pk_def d_def)
  qed
  moreover have "depacketize None pls = Some nalus"
    unfolding pls_def assms(6) fs_def [symmetric] gs(2) [symmetric] using assms(3) gs(2,3) ok
    by (intro depacketize_groups [OF assms(1)]) (auto simp: M_def packetizer_limits_ok_def)
  moreover have "int (length pl) \<le> max_payload_len L" if "pl \<in> set pls" for pl
  proof -
    have "length pl \<le> M" using group_payload_size [OF assms(1)] gs(3) that by (auto simp: pls_def)
    moreover have "0 \<le> max_payload_len L" using assms(3) by (auto simp: packetizer_limits_ok_def)
    ultimately show ?thesis by (simp add: M_def)
  qed
  moreover have "length pls = num_packets_left pk" by (simp add: pls_def sum_group_packets pk_def)
  moreover have "filter read_after_pop (packets pk) = []"
    if "list_all (\<lambda>i. length (nalus ! i) \<le> single_packet_capacity L (length nalus) i) [0..<length nalus]"
    using gs(3,4) that unfolding assms(6) fs_def [symmetric] pk_def by (intro no_reads) (auto simp: list_all_iff)
  moreover have "NumPackets pk' = 0 \<and> input_fragments pk' = [] \<and> RtpPacketizerH264_NextPacket io cow freed pk' p0 = Inr (pk', p0, False)"
    by (simp add: pk'_def NumPackets_def RtpPacketizerH264_NextPacket_def)
  ultimately show ?thesis using init unfolding NumPackets_def
    by - (rule exI [of _ pk], rule exI [of _ pls], rule exI [of _ pk'], unfold d_def [symmetric], cases d, simp_all)
qed

theorem h264_packetize_roundtrip_witness:
  "\<exists>pk payloads pk'. RtpPacketizerH264_init [0, 0, 1, 0x67, 5, 0, 0, 1, 0x65, 1, 2, 3, 4, 5, 6, 7, 8]
      \<lparr>max_payload_len = 6, single_packet_reduction_len = 0, first_packet_reduction_len = 0, last_packet_reduction_len = 0\<rparr> = Inr pk \<and>
    drain be_io zero_cow (\<lambda>u. Some (last_fragment u)) (empty_packet\<lparr>buffer := replicate 12 0, payload_offset := 12, buffer_capacity := 1500\<rparr>)
      (NumPackets pk) pk = Inr (mark_last True payloads, pk') \<and>
    depacketize None payloads = Some [[0x67, 5], [0x65, 1, 2, 3, 4, 5, 6, 7, 8]]"
proof -
  define buf :: "byte list" where "buf = [0, 0, 1, 0x67, 5, 0, 0, 1, 0x65, 1, 2, 3, 4, 5, 6, 7, 8]"
  define L where "L = \<lparr>max_payload_len = 6, single_packet_reduction_len = 0, first_packet_reduction_len = 0, last_packet_reduction_len = 0\<rparr>"
  define p0 where "p0 = empty_packet\<lparr>buffer := replicate 12 0, payload_offset := 12, buffer_capacity := 1500\<rparr>"
  have n: "nalus_between buf (start_positions buf) = [[0x67, 5], [0x65, 1, 2, 3, 4, 5, 6, 7, 8]]"
    unfolding buf_def by code_simp
  have "packetizer_limits_ok L" "length buf < 2 ^ 29" by (simp_all add: L_def packetizer_limits_ok_def buf_def)
  moreover have "fresh_packet (nat (max_payload_len L)) p0"
    by (simp add: fresh_packet_def p0_def L_def empty_packet_def)
  moreover have "list_all nalu_ok (nalus_between buf (start_positions buf))" unfolding n by code_simp
  moreover have all_kept: "dropWhile (flag_kept (\<lambda>u. Some (last_fragment u))) us = []" for us
    by (simp add: flag_kept_def dropWhile_eq_Nil_conv)
  ultimately show ?thesis
    using h264_packetize_roundtrip [OF be.big_endian_io_axioms zero.cow_buffer_axioms, of L p0 buf _ "\<lambda>u. Some (last_fragment u)"]
    unfolding n buf_def [symmetric] L_def [symmetric] p0_def [symmetric] all_kept by (simp only: list.case) blast
qed

end
