(* ===== verification/Ice_Checks.thy ===== *)
theory Ice_Checks
  imports Ice_Connection
begin

text \<open>
  Correctness of \<open>ice/candidate.cpp\<close>, \<open>ice/ice_connection.cpp\<close> and \<open>ice/udp_port.cpp\<close>: the priorities of RFC
  5245, the connectivity check between two endpoints, and the authentication of binding requests.
\<close>

section \<open>Priorities\<close>

lemma int_pack:
  assumes "0 \<le> b" and "b < 2 ^ k"
  shows "push_bit k a OR b = a * 2 ^ k + (b :: int)"
proof -
  have "b = take_bit k b" using assms by (simp add: take_bit_int_eq_self)
  then have "push_bit k a AND b = push_bit k a AND take_bit k b" by simp
  also have "\<dots> = 0" by (simp add: bit_eq_iff bit_simps)
  finally show ?thesis by (metis disjunctive_add_eq_or push_bit_eq_mult)
qed

lemma get_priority_value:
  assumes "unat tp < 128" and "0 \<le> nap" and "0 \<le> IPAddressPrecedence ie (ipaddr (address c))"
    and "IPAddressPrecedence ie (ipaddr (address c)) < 256" and "0 \<le> relay"
    and "lp = nap * 256 + IPAddressPrecedence ie (ipaddr (address c)) + relay" and "lp < 65536"
  shows "unat (get_priority ie tp nap relay c) = 2 ^ 24 * unat tp + 2 ^ 8 * nat lp + nat (256 - component_id (component c))"
proof -
  define k where "k = nat (256 - component_id (component c))"
  have k: "k < 256" "256 - component_id (component c) = int k" by (cases "component c"; simp add: k_def)+
  define n where "n = nat lp"
  have n: "n < 65536" "lp = int n" using assms by (auto simp: n_def)
  have "(push_bit 8 nap OR IPAddressPrecedence ie (ipaddr (address c))) + relay = lp"
    using int_pack [of "IPAddressPrecedence ie (ipaddr (address c))" 8 nap] assms by simp
  moreover have "(of_int (push_bit 8 lp) :: u32) = push_bit 8 (of_nat n)"
    by (simp add: n push_bit_eq_mult)
  ultimately have "get_priority ie tp nap relay c = push_bit 24 tp OR (push_bit 8 (of_nat n) OR of_nat k)"
    by (simp add: get_priority_def k or.assoc)
  moreover have low: "unat (push_bit 8 (of_nat n) OR of_nat k :: u32) = n * 2 ^ 8 + k"
    using n k by (subst unat_pack) (auto simp: unat_of_nat_small)
  moreover have "n * 2 ^ 8 + k < 2 ^ 24" using n k by simp
  ultimately show ?thesis using assms(1)
    by (simp add: unat_pack n_def [symmetric] k_def [symmetric] mult.commute)
qed

lemma unat_ucast_64 [simp]: "unat (ucast (w :: u32) :: 64 word) = unat w"
  using unat_lt [of w] by (simp add: unsigned_ucast_eq take_bit_nat_eq_self)

lemma pair_priority_value:
  "unat (pair_priority g d) = 2 ^ 32 * unat (min g d) + 2 * unat (max g d) mod 2 ^ 32 + (if g > d then 1 else 0)"
proof -
  define lo where "lo = unat (min g d)"
  define hi where "hi = (2 * unat (max g d)) mod 2 ^ 32"
  have lo: "lo < 2 ^ 32" and hi: "hi < 2 ^ 32"
    using unat_lt [of "min g d"] by (simp_all add: lo_def hi_def)
  have ev: "even hi" unfolding hi_def by (intro dvd_mod) auto
  have "hi \<noteq> 2 ^ 32 - 1" using ev by auto
  then have le: "hi + 1 < 2 ^ 32" using hi by simp
  have "lo * 2 ^ 32 \<le> (2 ^ 32 - 1) * 2 ^ 32" using lo by (intro mult_right_mono) auto
  then have fits: "lo * 2 ^ 32 + hi + 1 < 2 ^ 64" using le by simp
  define P where "P = push_bit 32 (ucast (min g d) :: 64 word)"
  define H where "H = (ucast (2 * max g d) :: 64 word)"
  have a: "unat P = lo * 2 ^ 32"
    unfolding P_def using lo by (subst unat_push_bit) (auto simp: lo_def)
  have b: "unat H = hi" by (simp add: H_def hi_def unat_word_ariths)
  have "unat (P + H) = lo * 2 ^ 32 + hi" using fits by (simp add: unat_word_ariths a b)
  then have "unat (P + H + (if g > d then 1 else 0)) = lo * 2 ^ 32 + hi + (if g > d then 1 else 0)"
    using fits by (simp add: unat_word_ariths)
  then show ?thesis by (simp add: pair_priority_def P_def H_def lo_def hi_def Let_def)
qed

section \<open>Building and answering connectivity checks\<close>

text \<open>What the code relies on beside the STUN library: \<open>rtc::split\<close> at a separator that occurs once.\<close>

locale ice_lib = stun_lib "ice_stun ie" for ie :: ice_env +
  assumes split_once: "sep \<notin> set as \<Longrightarrow> sep \<notin> set bs \<Longrightarrow> Split ie sep (as @ [sep] @ bs) = [as, bs]"

text \<open>The messages before they are signed.\<close>

definition request_body :: "udp_port \<Rightarrow> candidate \<Rightarrow> candidate \<Rightarrow> 64 word \<Rightarrow> byte list \<Rightarrow> stun_message" where
  "request_body port l remote tiebreaker tid =
     add_attribute (StunUInt32Attribute_new STUN_ATTR_PRIORITY (push_bit 24 ICE_TYPE_PREFERENCE_PRFLX OR (cand_priority l AND 0x00FFFFFF)))
      (add_attribute (StunByteStringAttribute_length STUN_ATTR_USE_CANDIDATE 0)
       (add_attribute (StunUInt64Attribute_new STUN_ATTR_ICE_CONTROLLED tiebreaker)
        (add_attribute (StunByteStringAttribute_new STUN_ATTR_USERNAME (create_stun_username port (username remote)))
         (set_type STUN_BINDING_REQUEST (set_transaction_id tid StunMessage_new)))))"

definition response_body :: "socket_address \<Rightarrow> byte list \<Rightarrow> stun_message" where
  "response_body addr tid =
     add_attribute (StunXorAddressAttribute_new STUN_ATTR_XOR_MAPPED_ADDRESS addr)
       (set_transaction_id tid (set_type STUN_BINDING_RESPONSE StunMessage_new))"

lemma base_ok:
  assumes "length tid = 12" and "of_int t AND (0x0800 :: u16) = 0"
  shows "msg_ok (set_type t (set_transaction_id tid StunMessage_new))" "msg_ok (set_transaction_id tid (set_type t StunMessage_new))"
  using assms by (simp_all add: msg_ok_def set_type_def set_transaction_id_def StunMessage_new_def)

lemma add_attribute_attrs [simp]:
  "msg_attrs (add_attribute a m) = msg_attrs m @ [a]" "msg_type (add_attribute a m) = msg_type m"
  "msg_transaction_id (add_attribute a m) = msg_transaction_id m"
  by (simp_all add: add_attribute_def Let_def)

lemma username_attr_ok:
  assumes "length u < 1000"
  shows "attr_ok (StunByteStringAttribute_new STUN_ATTR_USERNAME u)" "known (StunByteStringAttribute_new STUN_ATTR_USERNAME u)"
    "attr_size (StunByteStringAttribute_new STUN_ATTR_USERNAME u) < 1004"
    "get_string (StunByteStringAttribute_new STUN_ATTR_USERNAME u) = u"
    "attr_type (StunByteStringAttribute_new STUN_ATTR_USERNAME u) = STUN_ATTR_USERNAME"
  using assms by (auto simp: attr_defs get_string_def unat_of_nat_small)

lemma request_body_ok:
  fixes port l remote tiebreaker tid
  defines "m \<equiv> request_body port l remote tiebreaker tid"
  assumes "length tid = 12" and "length (create_stun_username port (username remote)) < 1000"
  shows "msg_ok m" and "attrs_size (msg_attrs m) < 2000" and "msg_type m = 1" and "msg_transaction_id m = tid"
    and "list_all (\<lambda>a. attr_type a \<noteq> STUN_ATTR_MESSAGE_INTEGRITY) (msg_attrs m)"
    and "find (\<lambda>a. attr_type a = STUN_ATTR_USERNAME) (filter known (msg_attrs m) @ rest) =
      Some (StunByteStringAttribute_new STUN_ATTR_USERNAME (create_stun_username port (username remote)))"
proof -
  let ?u = "StunByteStringAttribute_new STUN_ATTR_USERNAME (create_stun_username port (username remote))"
  let ?c = "StunUInt64Attribute_new STUN_ATTR_ICE_CONTROLLED tiebreaker"
  let ?s = "StunByteStringAttribute_length STUN_ATTR_USE_CANDIDATE 0"
  let ?p = "StunUInt32Attribute_new STUN_ATTR_PRIORITY (push_bit 24 ICE_TYPE_PREFERENCE_PRFLX OR (cand_priority l AND 0x00FFFFFF))"
  have u: "attr_ok ?u" "known ?u" "attr_size ?u < 1004" "attr_type ?u = STUN_ATTR_USERNAME"
    using username_attr_ok [OF assms(3)] by simp_all
  have o: "attr_ok ?c" "attr_ok ?s" "attr_ok ?p" "attr_size ?c = 8" "attr_size ?s = 0" "attr_size ?p = 4"
    by (simp_all add: attr_defs StunUInt64Attribute_new_def)
  have base: "msg_ok (set_type STUN_BINDING_REQUEST (set_transaction_id tid StunMessage_new))"
    using assms(2) by (intro base_ok) (auto simp: STUN_BINDING_REQUEST_def)
  have attrs: "msg_attrs (set_type STUN_BINDING_REQUEST (set_transaction_id tid StunMessage_new)) = []"
    by (simp add: set_type_def set_transaction_id_def StunMessage_new_def)
  then have m_attrs: "msg_attrs m = [?u, ?c, ?s, ?p]" by (simp add: m_def request_body_def)
  show "msg_ok m"
    unfolding m_def request_body_def using base u o attrs by (intro add_attribute_ok) auto
  show "attrs_size (msg_attrs m) < 2000" using u o by (simp add: m_attrs)
  show "msg_type m = 1" "msg_transaction_id m = tid"
    by (simp_all add: m_def request_body_def set_type_def set_transaction_id_def STUN_BINDING_REQUEST_def)
  show "list_all (\<lambda>a. attr_type a \<noteq> STUN_ATTR_MESSAGE_INTEGRITY) (msg_attrs m)"
    using u by (simp add: m_attrs attr_defs StunUInt64Attribute_new_def)
  show "find (\<lambda>a. attr_type a = STUN_ATTR_USERNAME) (filter known (msg_attrs m) @ rest) = Some ?u"
    using u by (simp add: m_attrs)
qed

lemma response_body_ok:
  fixes addr tid
  defines "m \<equiv> response_body addr tid"
  assumes "length tid = 12" and "ipaddr addr = IPv4 a"
  shows "msg_ok m" and "attrs_size (msg_attrs m) < 2000" and "msg_type m = 0x101" and "msg_transaction_id m = tid"
    and "list_all (\<lambda>a. attr_type a \<noteq> STUN_ATTR_MESSAGE_INTEGRITY) (msg_attrs m)"
proof -
  let ?x = "StunXorAddressAttribute_new STUN_ATTR_XOR_MAPPED_ADDRESS addr"
  have x: "attr_ok ?x" "attr_size ?x = 8" using assms(3)
    by (simp_all add: attr_defs StunXorAddressAttribute_new_def address_length_def)
  have base: "msg_ok (set_transaction_id tid (set_type STUN_BINDING_RESPONSE StunMessage_new))"
    using assms(2) by (intro base_ok) (auto simp: STUN_BINDING_RESPONSE_def)
  have attrs: "msg_attrs (set_transaction_id tid (set_type STUN_BINDING_RESPONSE StunMessage_new)) = []"
    by (simp add: set_type_def set_transaction_id_def StunMessage_new_def)
  show "msg_ok m" unfolding m_def response_body_def using base x attrs by (intro add_attribute_ok) auto
  show "attrs_size (msg_attrs m) < 2000" using x attrs by (simp add: m_def response_body_def)
  show "msg_type m = 0x101" "msg_transaction_id m = tid"
    by (simp_all add: m_def response_body_def set_type_def set_transaction_id_def STUN_BINDING_RESPONSE_def)
  show "list_all (\<lambda>a. attr_type a \<noteq> STUN_ATTR_MESSAGE_INTEGRITY) (msg_attrs m)"
    using attrs by (simp add: m_def response_body_def StunXorAddressAttribute_new_def stun_attr_types)
qed

lemma mi_of_type [simp]: "attr_type (mi_of d) = STUN_ATTR_MESSAGE_INTEGRITY"
  by (simp add: mi_of_def attr_defs)

text \<open>Signing a message, as \<open>prepare\<close> and \<open>send_stun_binding_response\<close> do it.\<close>

definition sign :: "stun_env \<Rightarrow> byte list \<Rightarrow> stun_message \<Rightarrow> error + stun_message" where
  "sign env pw m = bindE (add_message_integrity env pw m) (\<lambda>(m, _). bindE (add_fingerprint env m) (\<lambda>(m, _). Inr m))"

lemma prepare_sign:
  "local_candidate ie port = Inr l \<Longrightarrow>
   prepare ie port c tb (set_transaction_id tid StunMessage_new) =
     sign (ice_stun ie) (password (remote_candidate c)) (request_body port l (remote_candidate c) tb tid)"
  by (simp add: prepare_def request_body_def sign_def Let_def del: bindE_eq_Inr)

lemma binding_response_sign:
  "binding_response ie port c m = sign (ice_stun ie) (ice_pwd (ice_params port))
     (response_body (address (remote_candidate c)) (msg_transaction_id m))"
  by (simp add: binding_response_def response_body_def sign_def Let_def del: bindE_eq_Inr)

lemma sign_ok:
  assumes "stun_lib env" and "msg_ok m" and "attrs_size (msg_attrs m) < 2000"
    and "list_all (\<lambda>a. attr_type a \<noteq> STUN_ATTR_MESSAGE_INTEGRITY) (msg_attrs m)"
  obtains m2 bs r r' digest where "sign env pw m = Inr m2" "StunMessage_write env m2 = Inr bs" "validate_fingerprint env bs = Inr True"
    "StunMessage_read env bs StunMessage_new = Inr (r, [], True)" "msg_type r = msg_type m" "msg_transaction_id r = msg_transaction_id m"
    "msg_attrs r = filter known (msg_attrs m) @ [mi_of digest]" "validate_message_integrity env pw r = Inr (r', k_integrity_ok)"
proof -
  have "attrs_size (msg_attrs m) + 32 < 65536" using assms(3) by simp
  from signed_roundtrip [OF assms(1,2) this assms(4), of pw StunMessage_new]
  obtain m1 m2 bs r r' digest where s: "add_message_integrity env pw m = Inr (m1, True)" "add_fingerprint env m1 = Inr (m2, True)"
    and r: "StunMessage_write env m2 = Inr bs" "validate_fingerprint env bs = Inr True"
    "StunMessage_read env bs StunMessage_new = Inr (r, [], True)" "msg_type r = msg_type m" "msg_transaction_id r = msg_transaction_id m"
    "msg_attrs r = filter known (msg_attrs m) @ [mi_of digest]" "validate_message_integrity env pw r = Inr (r', k_integrity_ok)"
    by blast
  have "sign env pw m = Inr m2" using s by (simp add: sign_def del: bindE_eq_Inr)
  from that [OF this r] show ?thesis .
qed

context ice_lib
begin

text \<open>A request from a peer that knows the credentials passes the filter; so does any response.\<close>

lemma request_accepted:
  assumes "local_candidate ie port = Inr l" and "length tid = 12" and "async_socket port"
    and "0x3A \<notin> set (username (remote_candidate c))" and "0x3A \<notin> set (ice_ufrag (ice_params port))"
    and "length (create_stun_username port (username (remote_candidate c))) < 1000"
    and "ice_params port' = \<lparr>ice_ufrag = username (remote_candidate c), ice_pwd = password (remote_candidate c)\<rparr>"
  obtains c' buf m where "ping ie port tid tb now ts c = Inr (c', [(address (remote_candidate c), buf)])"
    "tid \<in> dom (requests c')" "remote_candidate c' = remote_candidate c"
    "get_stun_message ie port' buf src = Inr \<lparr>is_stun = True, out_msg = Some m, out_username = ice_ufrag (ice_params port), replies = []\<rparr>"
    "message_type m = STUN_BINDING_REQUEST" "msg_transaction_id m = tid" "get_byte_string STUN_ATTR_USERNAME m \<noteq> None"
proof -
  let ?m = "request_body port l (remote_candidate c) tb tid"
  let ?u = "create_stun_username port (username (remote_candidate c))"
  note body = request_body_ok [OF assms(2,6), of l tb]
  obtain m2 bs r r' digest where s: "sign (ice_stun ie) (password (remote_candidate c)) ?m = Inr m2"
    "StunMessage_write (ice_stun ie) m2 = Inr bs" "validate_fingerprint (ice_stun ie) bs = Inr True"
    "StunMessage_read (ice_stun ie) bs StunMessage_new = Inr (r, [], True)" "msg_type r = msg_type ?m" "msg_transaction_id r = msg_transaction_id ?m"
    "msg_attrs r = filter known (msg_attrs ?m) @ [mi_of digest]"
    "validate_message_integrity (ice_stun ie) (password (remote_candidate c)) r = Inr (r', k_integrity_ok)"
    by (rule sign_ok [OF stun_lib_axioms body(1,2,5)])
  have r': "msg_type r' = msg_type r" "msg_transaction_id r' = msg_transaction_id r" "msg_attrs r' = msg_attrs r"
    using s(8) by (auto simp: validate_message_integrity_def Let_def split: if_splits)
  have user: "get_byte_string STUN_ATTR_USERNAME r = Some (StunByteStringAttribute_new STUN_ATTR_USERNAME ?u)"
    using body(6) by (simp add: get_byte_string_def get_attribute_def s(7))
  have mi: "get_byte_string STUN_ATTR_MESSAGE_INTEGRITY r \<noteq> None"
    by (auto simp: get_byte_string_def get_attribute_def s(7) find_None_iff)
  have "Split ie 0x3A ?u = [username (remote_candidate c), ice_ufrag (ice_params port)]"
    unfolding create_stun_username_def using assms(4,5) by (rule split_once)
  then have parse: "parse_stun_username ie r = Some (username (remote_candidate c), ice_ufrag (ice_params port))"
    using username_attr_ok(4) [OF assms(6)] by (simp add: parse_stun_username_def user)
  have type: "message_type r = STUN_BINDING_REQUEST" by (simp add: message_type_def s(5) body(3) STUN_BINDING_REQUEST_def)
  have get: "get_stun_message ie port' bs src = Inr \<lparr>is_stun = True, out_msg = Some r', out_username = ice_ufrag (ice_params port), replies = []\<rparr>"
    using s(3,4,8) type user mi parse assms(7) by (auto simp: get_stun_message_def authenticate_request_def simp del: bindE_eq_Inr)
  let ?c = "c\<lparr>last_ping_sent := now,
                pings_since_last_response := pings_since_last_response c @ [\<lparr>ping_id = tid, sent_time = now\<rparr>]\<rparr>"
  have "prepare ie port ?c tb (set_transaction_id tid StunMessage_new) = Inr m2"
    using prepare_sign [OF assms(1), of ?c] s(1) by simp
  then have "\<exists>c'. ping ie port tid tb now ts c = Inr (c', [(address (remote_candidate c), bs)]) \<and> tid \<in> dom (requests c') \<and>
      remote_candidate c' = remote_candidate c"
    using s(2) assms(3) by (simp add: ping_def StunRequest_send_def send_to_def set_state_def Let_def)
  then obtain c' where "ping ie port tid tb now ts c = Inr (c', [(address (remote_candidate c), bs)])" "tid \<in> dom (requests c')"
    "remote_candidate c' = remote_candidate c" by blast
  then show ?thesis using that [of c' bs r'] get type user r' s(6) body(4)
    by (simp add: message_type_def get_byte_string_def get_attribute_def)
qed

lemma response_accepted:
  assumes "length (msg_transaction_id m) = 12" and "async_socket port" and "get_byte_string STUN_ATTR_USERNAME m \<noteq> None"
    and "ipaddr (address (remote_candidate c)) = IPv4 a"
  obtains buf r r' where "send_stun_binding_response ie port c m = Inr [(address (remote_candidate c), buf)]"
    "get_stun_message ie port' buf src = Inr \<lparr>is_stun = True, out_msg = Some r, out_username = [], replies = []\<rparr>"
    "message_type r = STUN_BINDING_RESPONSE" "msg_transaction_id r = msg_transaction_id m"
    "validate_message_integrity (ice_stun ie) (ice_pwd (ice_params port)) r = Inr (r', k_integrity_ok)"
proof -
  let ?m = "response_body (address (remote_candidate c)) (msg_transaction_id m)"
  note body = response_body_ok [OF assms(1,4)]
  obtain m2 bs r r' digest where s: "sign (ice_stun ie) (ice_pwd (ice_params port)) ?m = Inr m2"
    "StunMessage_write (ice_stun ie) m2 = Inr bs" "validate_fingerprint (ice_stun ie) bs = Inr True"
    "StunMessage_read (ice_stun ie) bs StunMessage_new = Inr (r, [], True)" "msg_type r = msg_type ?m" "msg_transaction_id r = msg_transaction_id ?m"
    "msg_attrs r = filter known (msg_attrs ?m) @ [mi_of digest]"
    "validate_message_integrity (ice_stun ie) (ice_pwd (ice_params port)) r = Inr (r', k_integrity_ok)"
    by (rule sign_ok [OF stun_lib_axioms body(1,2,5)])
  have type: "message_type r = STUN_BINDING_RESPONSE" by (simp add: message_type_def s(5) body(3) STUN_BINDING_RESPONSE_def)
  then have "message_type r \<noteq> STUN_BINDING_REQUEST" by (simp add: STUN_BINDING_REQUEST_def STUN_BINDING_RESPONSE_def)
  then have "get_stun_message ie port' bs src = Inr \<lparr>is_stun = True, out_msg = Some r, out_username = [], replies = []\<rparr>"
    using s(3,4) by (simp add: get_stun_message_def del: bindE_eq_Inr)
  moreover have "send_stun_binding_response ie port c m = Inr [(address (remote_candidate c), bs)]"
    using s(1,2) assms(2,3)
    by (simp add: send_stun_binding_response_def binding_response_sign send_response_message_def send_to_def del: bindE_eq_Inr)
  ultimately show ?thesis using that type s(6,8) body(4) by simp
qed

end

lemma validate_message_integrity_keeps:
  assumes "validate_message_integrity env pw r = Inr (m, st)"
  shows "message_type m = message_type r" "parse_stun_username ie m = parse_stun_username ie r" "msg_buffer m = msg_buffer r"
    "st = k_integrity_ok \<Longrightarrow> validate_message_integrity_of_type env STUN_ATTR_MESSAGE_INTEGRITY k_stun_message_integrity_size (msg_buffer r) pw = Inr True"
  using assms by (auto simp: validate_message_integrity_def message_type_def parse_stun_username_def get_byte_string_def
      get_attribute_def Let_def split: if_splits)

lemma authenticate_request_ok:
  assumes "authenticate_request ie port r addr = Inr res" and "out_msg res = Some m"
  shows "is_stun res \<and> replies res = [] \<and> parse_stun_username ie m = Some (ice_ufrag (ice_params port), out_username res) \<and>
    validate_message_integrity_of_type (ice_stun ie) STUN_ATTR_MESSAGE_INTEGRITY k_stun_message_integrity_size
      (msg_buffer m) (ice_pwd (ice_params port)) = Inr True \<and> message_type m = message_type r"
proof -
  have refused: "out_msg (stun_refused sent) = None" for sent by (simp add: stun_refused_def)
  from assms obtain remote where p: "parse_stun_username ie r = Some (ice_ufrag (ice_params port), remote)"
    by (auto simp: authenticate_request_def refused split: if_splits option.splits)
  with assms obtain m' st where v: "validate_message_integrity (ice_stun ie) (ice_pwd (ice_params port)) r = Inr (m', st)"
    by (auto simp: authenticate_request_def refused split: if_splits)
  with assms p have "st = k_integrity_ok" "res = \<lparr>is_stun = True, out_msg = Some m', out_username = remote, replies = []\<rparr>"
    by (auto simp: authenticate_request_def refused split: if_splits)
  with assms(2) p v validate_message_integrity_keeps [OF v] show ?thesis by simp
qed

section \<open>Properties\<close>

text \<open>C19. A connectivity check, end to end. Let a connection of one endpoint hold the credentials of the other. Its port has a candidate, and \<open>ping\<close>
  reads the priority of that candidate through the dangling reference of \<open>local_candidate\<close>. When this access faults, so does \<open>ping\<close>. Otherwise, whatever
  candidate is read from the freed memory, \<open>ping\<close> sends one datagram to the remote address and remembers its transaction; the other
  endpoint's port accepts it as a binding request and learns the sender's fragment; the binding
  response it sends to an IPv4 address is accepted by the first endpoint's port, carries the same
  transaction id, and its integrity validates under the remote password.\<close>

theorem connectivity_check:
  assumes "ice_lib ie" and "candidates port = k # ks" and "length tid = 12" and "async_socket port" and "async_socket port'"
    and "0x3A \<notin> set (username (remote_candidate c))" and "0x3A \<notin> set (ice_ufrag (ice_params port))"
    and "length (create_stun_username port (username (remote_candidate c))) < 1000"
    and "ice_params port' = \<lparr>ice_ufrag = username (remote_candidate c), ice_pwd = password (remote_candidate c)\<rparr>"
    and "ipaddr (address (remote_candidate d)) = IPv4 a"
  shows "case freed_candidate ie k of
      None \<Rightarrow> ping ie port tid tb now ts c = Inl UseAfterFree
    | Some l \<Rightarrow> \<exists>c' buf m buf' r r'. ping ie port tid tb now ts c = Inr (c', [(address (remote_candidate c), buf)]) \<and> tid \<in> dom (requests c') \<and>
        get_stun_message ie port' buf src =
          Inr \<lparr>is_stun = True, out_msg = Some m, out_username = ice_ufrag (ice_params port), replies = []\<rparr> \<and>
        message_type m = STUN_BINDING_REQUEST \<and>
        send_stun_binding_response ie port' d m = Inr [(address (remote_candidate d), buf')] \<and>
        get_stun_message ie port buf' src' = Inr \<lparr>is_stun = True, out_msg = Some r, out_username = [], replies = []\<rparr> \<and>
        message_type r = STUN_BINDING_RESPONSE \<and> msg_transaction_id r = tid \<and>
        validate_message_integrity (ice_stun ie) (password (remote_candidate c')) r = Inr (r', k_integrity_ok)"
proof (cases "freed_candidate ie k")
  case None
  then have "local_candidate ie port = Inl UseAfterFree" using assms(2) by (simp add: local_candidate_def)
  then show ?thesis using None by (simp add: ping_def prepare_def Let_def)
next
  case (Some l)
  then have l: "local_candidate ie port = Inr l" using assms(2) by (simp add: local_candidate_def)
  obtain c' buf m where q: "ping ie port tid tb now ts c = Inr (c', [(address (remote_candidate c), buf)])"
    "tid \<in> dom (requests c')" "remote_candidate c' = remote_candidate c"
    "get_stun_message ie port' buf src = Inr \<lparr>is_stun = True, out_msg = Some m, out_username = ice_ufrag (ice_params port), replies = []\<rparr>"
    "message_type m = STUN_BINDING_REQUEST" "msg_transaction_id m = tid" "get_byte_string STUN_ATTR_USERNAME m \<noteq> None"
    using ice_lib.request_accepted [OF assms(1) l assms(3,4,6-9)] by blast
  have "length (msg_transaction_id m) = 12" using q(6) assms(3) by simp
  from ice_lib.response_accepted [OF assms(1) this assms(5) q(7) assms(10), of port src']
  obtain buf' r r' where "send_stun_binding_response ie port' d m = Inr [(address (remote_candidate d), buf')]"
    "get_stun_message ie port buf' src' = Inr \<lparr>is_stun = True, out_msg = Some r, out_username = [], replies = []\<rparr>"
    "message_type r = STUN_BINDING_RESPONSE" "msg_transaction_id r = msg_transaction_id m"
    "validate_message_integrity (ice_stun ie) (ice_pwd (ice_params port')) r = Inr (r', k_integrity_ok)" by blast
  then show ?thesis using q assms(9) Some by auto
qed

text \<open>C20. No binding request gets through the filter of a port without authentication: if \<open>get_stun_message\<close>
  hands out a message of that type, then the packet's fingerprint is valid, its USERNAME splits into
  the port's own fragment and the one handed out, and its MESSAGE-INTEGRITY is valid under the port's
  password. The refused requests were answered or dropped, and no error response was sent for the
  accepted one.\<close>

theorem binding_request_authenticated:
  assumes "get_stun_message ie port data addr = Inr res" and "out_msg res = Some m" and "message_type m = STUN_BINDING_REQUEST"
  shows "validate_fingerprint (ice_stun ie) data = Inr True \<and> is_stun res \<and> replies res = [] \<and>
    parse_stun_username ie m = Some (ice_ufrag (ice_params port), out_username res) \<and>
    validate_message_integrity_of_type (ice_stun ie) STUN_ATTR_MESSAGE_INTEGRITY k_stun_message_integrity_size
      (msg_buffer m) (ice_pwd (ice_params port)) = Inr True"
proof -
  obtain fp where fp: "validate_fingerprint (ice_stun ie) data = Inr fp" "fp"
    using assms(1,2) by (auto simp: get_stun_message_def not_stun_def split: if_splits)
  then obtain r where r: "message_type r = STUN_BINDING_REQUEST \<Longrightarrow> authenticate_request ie port r addr = Inr res"
    "message_type r \<noteq> STUN_BINDING_REQUEST \<Longrightarrow> m = r"
  proof -
    from fp assms(1) obtain q where "StunMessage_read (ice_stun ie) data StunMessage_new = Inr q"
      by (auto simp: get_stun_message_def)
    with fp assms(1,2) show ?thesis
      by (cases q) (auto simp: get_stun_message_def not_stun_def intro!: that split: if_split_asm)
  qed
  with assms(3) have "authenticate_request ie port r addr = Inr res" by blast
  then show ?thesis using authenticate_request_ok [OF _ assms(2)] fp by simp
qed

text \<open>C21. Priorities follow RFC 5245: for a type preference below 128 and a 16-bit local preference, the
  candidate priority is \<open>2\<^sup>2\<^sup>4\<cdot>type + 2\<^sup>8\<cdot>local + (256 - component)\<close>, which is below \<open>2\<^sup>3\<^sup>1\<close>; and for such
  priorities \<open>g\<close> and \<open>d\<close> the priority of a pair is \<open>2\<^sup>3\<^sup>2\<cdot>min g d + 2\<cdot>max g d + (1 if g > d)\<close>. For larger
  ones the doubled maximum wraps around at \<open>2\<^sup>3\<^sup>2\<close>.\<close>

theorem ice_priorities:
  assumes "unat tp < 128" and "0 \<le> nap" and "0 \<le> IPAddressPrecedence ie (ipaddr (address c))"
    and "IPAddressPrecedence ie (ipaddr (address c)) < 256" and "0 \<le> relay"
    and "nap * 256 + IPAddressPrecedence ie (ipaddr (address c)) + relay < 65536"
  shows "unat (get_priority ie tp nap relay c) =
      2 ^ 24 * unat tp + 2 ^ 8 * nat (nap * 256 + IPAddressPrecedence ie (ipaddr (address c)) + relay) + nat (256 - component_id (component c)) \<and>
    unat (get_priority ie tp nap relay c) < 2 ^ 31 \<and>
    unat (pair_priority g d) = 2 ^ 32 * unat (min g d) + 2 * unat (max g d) mod 2 ^ 32 + (if g > d then 1 else 0) \<and>
    (unat (max g d) < 2 ^ 31 \<longrightarrow>
      unat (pair_priority g d) = 2 ^ 32 * unat (min g d) + 2 * unat (max g d) + (if g > d then 1 else 0))"
proof -
  define lp where "lp = nap * 256 + IPAddressPrecedence ie (ipaddr (address c)) + relay"
  have v: "unat (get_priority ie tp nap relay c) = 2 ^ 24 * unat tp + 2 ^ 8 * nat lp + nat (256 - component_id (component c))"
    using assms by (intro get_priority_value) (auto simp: lp_def)
  have "nat lp < 65536" using assms(6) by (simp add: lp_def)
  moreover have "nat (256 - component_id (component c)) < 256" by (cases "component c") simp_all
  ultimately have "unat (get_priority ie tp nap relay c) < 2 ^ 31" using v assms(1) by simp
  then show ?thesis using v pair_priority_value [of g d] by (simp add: lp_def)
qed

section \<open>An instance of the library\<close>

fun split_list :: "byte \<Rightarrow> byte list \<Rightarrow> byte list list" where
  "split_list sep [] = [[]]"
| "split_list sep (x # xs) =
     (if x = sep then [] # split_list sep xs
      else (case split_list sep xs of [] \<Rightarrow> [[x]] | y # ys \<Rightarrow> (x # y) # ys))"

lemma split_list_none: "sep \<notin> set bs \<Longrightarrow> split_list sep bs = [bs]"
  by (induction bs) auto

definition list_ice :: ice_env where
  "list_ice = \<lparr>ice_stun = list_env, Split = split_list,
     GetNextMovingAverage = (\<lambda>prev_average cur ratio. tdiv (ratio * prev_average + cur) (ratio + 1)),
     IPAddressPrecedence = (\<lambda>ip. case ip of IPv4 _ \<Rightarrow> 30 | IPv6 _ \<Rightarrow> 40 | UnspecIP \<Rightarrow> 0), HostAsURIString = (\<lambda>_. []),
     socket_send = (\<lambda>buf _. int (length buf)), freed_candidate = Some\<rparr>"

lemma split_list_once: "sep \<notin> set as \<Longrightarrow> sep \<notin> set bs \<Longrightarrow> split_list sep (as @ [sep] @ bs) = [as, bs]"
  by (induction as) (auto simp: split_list_none)

interpretation li: ice_lib list_ice
proof (rule ice_lib.intro)
  show "stun_lib (ice_stun list_ice)" using le.stun_lib_axioms by (simp add: list_ice_def)
  show "ice_lib_axioms list_ice" using split_list_once by (simp add: ice_lib_axioms_def list_ice_def)
qed

definition sample_candidate :: "u32 \<Rightarrow> byte list \<Rightarrow> byte list \<Rightarrow> candidate" where
  "sample_candidate ip ufrag pwd = \<lparr>component = RTP, protocol = [], address = \<lparr>ipaddr = IPv4 ip, sock_port = 9000\<rparr>, cand_port = 9000,
     cand_priority = 0x7E001EFF, username = ufrag, password = pwd, cand_type = [], foundation = []\<rparr>"

definition sample_port :: "byte list \<Rightarrow> byte list \<Rightarrow> u32 \<Rightarrow> udp_port" where
  "sample_port ufrag pwd ip = \<lparr>ice_params = \<lparr>ice_ufrag = ufrag, ice_pwd = pwd\<rparr>, candidates = [sample_candidate ip ufrag pwd],
     async_socket = True, connections = Map.empty\<rparr>"

definition sample_addr :: socket_address where
  "sample_addr = \<lparr>ipaddr = IPv4 1, sock_port = 9000\<rparr>"

theorem connectivity_check_witness:
  "\<exists>c' buf m buf' r r'. ping list_ice (sample_port [1] [2] 5) (replicate 12 7) 9 100 101 (IceConnection_new 0 (sample_candidate 6 [3] [4])) =
      Inr (c', [(\<lparr>ipaddr = IPv4 6, sock_port = 9000\<rparr>, buf)]) \<and>
    get_stun_message list_ice (sample_port [3] [4] 6) buf sample_addr =
      Inr \<lparr>is_stun = True, out_msg = Some m, out_username = [1], replies = []\<rparr> \<and>
    send_stun_binding_response list_ice (sample_port [3] [4] 6) (IceConnection_new 0 (sample_candidate 5 [1] [2])) m =
      Inr [(\<lparr>ipaddr = IPv4 5, sock_port = 9000\<rparr>, buf')] \<and>
    get_stun_message list_ice (sample_port [1] [2] 5) buf' sample_addr =
      Inr \<lparr>is_stun = True, out_msg = Some r, out_username = [], replies = []\<rparr> \<and>
    msg_transaction_id r = replicate 12 7 \<and>
    validate_message_integrity (ice_stun list_ice) (password (remote_candidate c')) r = Inr (r', k_integrity_ok)"
  using connectivity_check [OF li.ice_lib_axioms, of "sample_port [1] [2] 5" "sample_candidate 5 [1] [2]" "[]" "replicate 12 7"
      "sample_port [3] [4] 6" "IceConnection_new 0 (sample_candidate 6 [3] [4])" "IceConnection_new 0 (sample_candidate 5 [1] [2])" 5 9 100 101
      sample_addr sample_addr]
  by (auto simp: sample_port_def sample_candidate_def list_ice_def IceConnection_new_def create_stun_username_def)

theorem binding_request_authenticated_witness:
  "\<exists>data res m. get_stun_message list_ice (sample_port [3] [4] 6) data sample_addr = Inr res \<and> out_msg res = Some m \<and>
    message_type m = STUN_BINDING_REQUEST \<and> parse_stun_username list_ice m = Some ([3], out_username res)"
proof -
  obtain c' buf m where
    "get_stun_message list_ice (sample_port [3] [4] 6) buf sample_addr =
       Inr \<lparr>is_stun = True, out_msg = Some m, out_username = ice_ufrag (ice_params (sample_port [1] [2] 5)), replies = []\<rparr>"
    "message_type m = STUN_BINDING_REQUEST"
    by (rule li.request_accepted [of "sample_port [1] [2] 5" "sample_candidate 5 [1] [2]" "replicate 12 7"
          "IceConnection_new 0 (sample_candidate 6 [3] [4])" "sample_port [3] [4] 6" 9 100 101 sample_addr])
      (auto simp: sample_port_def sample_candidate_def local_candidate_def list_ice_def IceConnection_new_def create_stun_username_def)
  then show ?thesis using binding_request_authenticated [of list_ice "sample_port [3] [4] 6" buf sample_addr _ m]
    by (fastforce simp: sample_port_def)
qed

theorem ice_priorities_witness:
  "unat (get_priority list_ice ICE_TYPE_PREFERENCE_HOST 0 0 (sample_candidate 5 [] [])) = 0x7E001EFF \<and>
   unat (pair_priority 0x7E001EFF 3) = 2 ^ 32 * 3 + 2 * 0x7E001EFF + 1"
proof -
  have "(max 0x7E001EFF 3 :: u32) = 0x7E001EFF" "(min 0x7E001EFF 3 :: u32) = 3" by (simp_all add: max_def min_def)
  then show ?thesis
    using ice_priorities [of ICE_TYPE_PREFERENCE_HOST 0 list_ice "sample_candidate 5 [] []" 0 "0x7E001EFF" 3]
    by (simp add: ICE_TYPE_PREFERENCE_HOST_def list_ice_def sample_candidate_def)
qed

end
