(* ===== verification/Ice_Controller.thy ===== *)
theory Ice_Controller
  imports Ice_Checks "HOL-Library.Multiset"
begin

text \<open>
  \<open>IceController\<close> (\<open>ice/ice_controller.{h,cpp}\<close>): which connection is pinged next and which one carries the
  data. Connections are objects on the heap that the controller refers to by pointer: the model has a
  store from connection numbers (in the order of the addresses, which is the order in which a
  \<open>std::set\<close> of pointers is traversed) to connections, and following the pointer of a deleted connection
  is \<open>UseAfterFree\<close>.
\<close>

section \<open>The store\<close>

type_synonym store = "nat \<rightharpoonup> ice_connection"

definition deref :: "store \<Rightarrow> nat \<Rightarrow> error + ice_connection" where
  "deref st c = (case st c of None \<Rightarrow> Inl UseAfterFree | Some x \<Rightarrow> Inr x)"

lemma deref_ok [simp]: "st c = Some x \<Longrightarrow> deref st c = Inr x"
  by (simp add: deref_def)

lemma deref_none [simp]: "st c = None \<Longrightarrow> deref st c = Inl UseAfterFree"
  by (simp add: deref_def)

text \<open>A loop over connections that ends at the first one with the property.\<close>

fun exists_conn :: "(nat \<Rightarrow> error + bool) \<Rightarrow> nat list \<Rightarrow> error + bool" where
  "exists_conn p [] = Inr False"
| "exists_conn p (c # cs) = bindE (p c) (\<lambda>b. if b then Inr True else exists_conn p cs)"

lemma exists_conn_ok: "(\<And>c. c \<in> set cs \<Longrightarrow> p c = Inr (q c)) \<Longrightarrow> exists_conn p cs = Inr (\<exists>c \<in> set cs. q c)"
  by (induction cs) auto

section \<open>The controller\<close>

record ice_controller =
  ctl_selected :: "nat option"
  ctl_connections :: "nat list"
  unpinged_connections :: "nat set"
  pinged_connections :: "nat set"

definition IceController_new :: ice_controller where
  "IceController_new = \<lparr>ctl_selected = None, ctl_connections = [], unpinged_connections = {}, pinged_connections = {}\<rparr>"

definition WEAK_PING_INTERVAL :: int where
  "WEAK_PING_INTERVAL = 48"

definition STRONG_PING_INTERVAL :: int where
  "STRONG_PING_INTERVAL = 480"

definition MIN_PINGS_AT_WEAK_PING_INTERVAL :: int where
  "MIN_PINGS_AT_WEAK_PING_INTERVAL = 3"

definition STABLING_CONNECTION_PING_INTERVAL :: int where
  "STABLING_CONNECTION_PING_INTERVAL = 900"

definition STABLE_CONNECTION_PING_INTERVAL :: int where
  "STABLE_CONNECTION_PING_INTERVAL = 2500"

definition k_min_improvement :: int where
  "k_min_improvement = 10"

definition ctl_add_connection :: "nat \<Rightarrow> ice_controller \<Rightarrow> ice_controller" where
  "ctl_add_connection c ctl = ctl\<lparr>ctl_connections := ctl_connections ctl @ [c],
     unpinged_connections := insert c (unpinged_connections ctl)\<rparr>"

definition ctl_weak :: "store \<Rightarrow> ice_controller \<Rightarrow> error + bool" where
  "ctl_weak st ctl = (case ctl_selected ctl of
     None \<Rightarrow> Inr True
   | Some c \<Rightarrow> bindE (deref st c) (\<lambda>x. Inr (conn_weak x)))"

definition get_connection_ping_interval :: "store \<Rightarrow> ice_controller \<Rightarrow> ice_connection \<Rightarrow> int \<Rightarrow> error + int" where
  "get_connection_ping_interval st ctl x now =
     (if num_pings_sent x < MIN_PINGS_AT_WEAK_PING_INTERVAL then Inr WEAK_PING_INTERVAL
      else bindE (ctl_weak st ctl) (\<lambda>w.
        Inr (if w \<or> \<not> stable now x then STABLING_CONNECTION_PING_INTERVAL else STABLE_CONNECTION_PING_INTERVAL)))"

definition is_connection_past_ping_interval :: "store \<Rightarrow> ice_controller \<Rightarrow> ice_connection \<Rightarrow> int \<Rightarrow> error + bool" where
  "is_connection_past_ping_interval st ctl x now =
     bindE (get_connection_ping_interval st ctl x now) (\<lambda>interval. Inr (now \<ge> last_ping_sent x + interval))"

definition is_pingable :: "store \<Rightarrow> ice_controller \<Rightarrow> int \<Rightarrow> nat \<Rightarrow> error + bool" where
  "is_pingable st ctl now c =
     bindE (deref st c) (\<lambda>x.
     let remote = remote_candidate x in
     if username remote = [] \<or> password remote = [] then Inr False
     else bindE (ctl_weak st ctl) (\<lambda>w.
       if w then Inr True else is_connection_past_ping_interval st ctl x now))"

definition has_pingable_connection :: "store \<Rightarrow> ice_controller \<Rightarrow> int \<Rightarrow> error + bool" where
  "has_pingable_connection st ctl now = exists_conn (is_pingable st ctl now) (ctl_connections ctl)"

definition more_pingable :: "ice_connection \<Rightarrow> ice_connection option \<Rightarrow> bool" where
  "more_pingable x1 x2 = (case x2 of None \<Rightarrow> True | Some x2 \<Rightarrow> last_ping_sent x1 < last_ping_sent x2)"

text \<open>The search loop over the unpinged connections.\<close>

fun pick_loop :: "store \<Rightarrow> ice_controller \<Rightarrow> int \<Rightarrow> nat list \<Rightarrow> nat option \<Rightarrow> error + nat option" where
  "pick_loop st ctl now [] found = Inr found"
| "pick_loop st ctl now (c # cs) found =
     bindE (is_pingable st ctl now c) (\<lambda>ok.
     if \<not> ok then pick_loop st ctl now cs found
     else bindE (deref st c) (\<lambda>x.
       bindE (case found of None \<Rightarrow> Inr None | Some f \<Rightarrow> bindE (deref st f) (\<lambda>y. Inr (Some y))) (\<lambda>y.
         pick_loop st ctl now cs (if more_pingable x y then Some c else found))))"

definition find_next_pingable_connection :: "store \<Rightarrow> int \<Rightarrow> ice_controller \<Rightarrow> error + ice_controller \<times> nat option" where
  "find_next_pingable_connection st now ctl =
     bindE (case ctl_selected ctl of
              None \<Rightarrow> Inr False
            | Some c \<Rightarrow> bindE (deref st c) (\<lambda>x.
                if writable x then is_connection_past_ping_interval st ctl x now else Inr False)) (\<lambda>use_selected.
     if use_selected then Inr (ctl, ctl_selected ctl)
     else bindE (exists_conn (is_pingable st ctl now) (sorted_list_of_set (unpinged_connections ctl))) (\<lambda>has_pingable.
       let ctl = (if \<not> has_pingable
                  then ctl\<lparr>unpinged_connections := unpinged_connections ctl \<union> pinged_connections ctl, pinged_connections := {}\<rparr>
                  else ctl) in
       bindE (pick_loop st ctl now (sorted_list_of_set (unpinged_connections ctl)) None) (\<lambda>found. Inr (ctl, found))))"

text \<open>\<open>now\<close> is the clock reading in the middle of the function. The result is the connection, if any, and the
  interval to the next check.\<close>

definition select_connection_to_ping :: "store \<Rightarrow> int \<Rightarrow> int \<Rightarrow> ice_controller \<Rightarrow> error + ice_controller \<times> nat option \<times> int" where
  "select_connection_to_ping st last_ping_sent_ms now ctl =
     bindE (exists_conn (\<lambda>c. bindE (deref st c) (\<lambda>x. Inr (num_pings_sent x < MIN_PINGS_AT_WEAK_PING_INTERVAL))) (ctl_connections ctl))
       (\<lambda>need_ping_more_at_weak.
     bindE (ctl_weak st ctl) (\<lambda>w.
       let ping_interval = (if w \<or> need_ping_more_at_weak then WEAK_PING_INTERVAL else STRONG_PING_INTERVAL) in
       if now \<ge> last_ping_sent_ms + ping_interval
       then bindE (find_next_pingable_connection st now ctl) (\<lambda>(ctl, conn). Inr (ctl, conn, ping_interval))
       else Inr (ctl, None, ping_interval)))"

subsection \<open>Ranking\<close>

text \<open>\<open>_compare_connections\<close> on two connections with their pair priorities: 1, 0 or -1.\<close>

definition compare_connections :: "ice_connection \<times> 64 word \<Rightarrow> ice_connection \<times> 64 word \<Rightarrow> int" where
  "compare_connections ap bp =
     (case ap of (a, pa) \<Rightarrow> case bp of (b, pb) \<Rightarrow>
      if writable a \<and> \<not> writable b then 1
      else if \<not> writable a \<and> writable b then - 1
      else if write_state_value (write_state a) < write_state_value (write_state b) then 1
      else if write_state_value (write_state a) > write_state_value (write_state b) then - 1
      else if receiving a \<and> \<not> receiving b then 1
      else if \<not> receiving a \<and> receiving b then - 1
      else if pa > pb then 1
      else if pa < pb then - 1
      else 0)"

text \<open>The order given to \<open>absl::c_stable_sort\<close>: whether the first argument goes before the second.\<close>

definition goes_before :: "ice_connection \<times> 64 word \<Rightarrow> ice_connection \<times> 64 word \<Rightarrow> bool" where
  "goes_before a b =
     (let cmp = compare_connections a b in
      if cmp \<noteq> 0 then cmp > 0 else rtt (fst a) < rtt (fst b))"

text \<open>A stable sort by a strict order: an element is inserted after the elements it does not precede.\<close>

fun insert_after :: "('a \<Rightarrow> 'a \<Rightarrow> bool) \<Rightarrow> 'a \<Rightarrow> 'a list \<Rightarrow> 'a list" where
  "insert_after lt x [] = [x]"
| "insert_after lt x (y # ys) = (if lt y x then y # insert_after lt x ys else x # y # ys)"

definition stable_sort :: "('a \<Rightarrow> 'a \<Rightarrow> bool) \<Rightarrow> 'a list \<Rightarrow> 'a list" where
  "stable_sort lt xs = foldr (insert_after lt) xs []"

text \<open>The connections to be sorted, with the priorities the comparison asks for. It asks for the priorities of two connections that tie in all
  that it compares before. Connections that tie with one another are neighbours in the sorted list, and every sort by comparisons has to compare
  neighbours: so exactly those connections are asked that tie with another one. The priority of the others is not read, and 0 stands for it.
  The log line after the sort follows every pointer once.\<close>

definition tied :: "ice_connection \<Rightarrow> ice_connection \<Rightarrow> bool" where
  "tied x y \<longleftrightarrow> compare_connections (x, 0) (y, 0) = 0"

fun load_conns :: "store \<Rightarrow> nat list \<Rightarrow> error + (nat \<times> ice_connection) list" where
  "load_conns st [] = Inr []"
| "load_conns st (c # cs) = bindE (deref st c) (\<lambda>x. bindE (load_conns st cs) (\<lambda>rest. Inr ((c, x) # rest)))"

definition needs_priority :: "(nat \<times> ice_connection) list \<Rightarrow> nat \<times> ice_connection \<Rightarrow> bool" where
  "needs_priority conns cx \<longleftrightarrow> list_ex (\<lambda>(d, y). d \<noteq> fst cx \<and> tied (snd cx) y) conns"

fun read_priorities ::
  "ice_env \<Rightarrow> udp_port list \<Rightarrow> (nat \<times> ice_connection) list \<Rightarrow> (nat \<times> ice_connection) list \<Rightarrow> error + (nat \<times> ice_connection \<times> 64 word) list" where
  "read_priorities ie ports conns [] = Inr []"
| "read_priorities ie ports conns ((c, x) # cs) =
     bindE (if needs_priority conns (c, x) then bindE (byte_at ports (conn_port x)) (\<lambda>port. priority ie port x) else Inr 0) (\<lambda>p.
     bindE (read_priorities ie ports conns cs) (\<lambda>rest. Inr ((c, x, p) # rest)))"

definition load_all :: "ice_env \<Rightarrow> udp_port list \<Rightarrow> store \<Rightarrow> nat list \<Rightarrow> error + (nat \<times> ice_connection \<times> 64 word) list" where
  "load_all ie ports st cs = bindE (load_conns st cs) (\<lambda>conns. read_priorities ie ports conns conns)"

definition ready_to_send :: "ice_connection option \<Rightarrow> bool" where
  "ready_to_send x = (case x of None \<Rightarrow> False | Some x \<Rightarrow> writable x \<or> write_state x = STATE_WRITE_UNRELIABLE)"

definition sort_and_switch_connection :: "ice_env \<Rightarrow> udp_port list \<Rightarrow> store \<Rightarrow> ice_controller \<Rightarrow> error + ice_controller \<times> nat option" where
  "sort_and_switch_connection ie ports st ctl =
     bindE (load_all ie ports st (ctl_connections ctl)) (\<lambda>loaded.
     let sorted = stable_sort (\<lambda>a b. goes_before (snd a) (snd b)) loaded;
         ctl = ctl\<lparr>ctl_connections := map fst sorted\<rparr> in
     case sorted of
       [] \<Rightarrow> Inr (ctl, None)
     | (best, x, _) # _ \<Rightarrow>
         if \<not> ready_to_send (Some x) \<or> ctl_selected ctl = Some best then Inr (ctl, None)
         else (case ctl_selected ctl of
             None \<Rightarrow> Inr (ctl, Some best)
           | Some s \<Rightarrow> bindE (deref st s) (\<lambda>y.
               if rtt x \<le> rtt y - k_min_improvement then Inr (ctl, Some best) else Inr (ctl, None))))"

definition mark_connection_pinged :: "nat \<Rightarrow> ice_controller \<Rightarrow> ice_controller" where
  "mark_connection_pinged c ctl =
     (if c \<notin> pinged_connections ctl
      then ctl\<lparr>pinged_connections := insert c (pinged_connections ctl), unpinged_connections := unpinged_connections ctl - {c}\<rparr>
      else ctl)"

definition ctl_on_connection_destroyed :: "nat \<Rightarrow> ice_controller \<Rightarrow> ice_controller" where
  "ctl_on_connection_destroyed c ctl =
     ctl\<lparr>pinged_connections := pinged_connections ctl - {c}, unpinged_connections := unpinged_connections ctl - {c},
         ctl_connections := remove1 c (ctl_connections ctl)\<rparr>"

end
