(* ===== verification/Ice_Channel.thy ===== *)
theory Ice_Channel
  imports Ice_Controller
begin

text \<open>
  \<open>IceTransportChannel\<close> (\<open>ice/ice_transport_channel.{h,cpp}\<close>) with the operations of its ports and
  connections that raise signals. The channel's slots run inside the call that raises the signal, so the
  state of channel, controller, ports and connections is one record, and an operation of a connection
  takes the whole record. \<open>out\<close> is the trace of what leaves the channel: datagrams, timer commands and
  the channel's own signals.
\<close>

section \<open>State\<close>

datatype IceTransportState = k_new | k_checking | k_connected | k_completed | k_failed | k_disconnected | k_closed

datatype ice_event =
    SendTo socket_address "byte list"
  | SignalWritable bool
  | SignalReceiving bool
  | SignalIceState IceTransportState
  | SignalReadPacket "byte list" int
  | SignalCandidates "candidate list"
  | StartTimer int
  | StopTimer
  | DeleteTimer

record ice_channel =
  ch_component :: IceCandidateComponent
  ch_ice_params :: ice_parameters
  remote_ice_params :: ice_parameters
  local_candidates :: "candidate list"
  ports :: "udp_port list"
  controller :: ice_controller
  start_pinging :: bool
  cur_ping_interval :: int
  last_ping_sent_ms :: int
  ch_selected :: "nat option"
  ch_receiving :: bool
  ch_writable :: bool
  ch_state :: IceTransportState
  had_connection :: bool
  has_been_connection :: bool
  heap :: store
  tick :: nat
  out :: "ice_event list"

text \<open>The clock and the random source: the \<open>n\<close>-th reading of each.\<close>

record world =
  ice :: ice_env
  TimeMillis :: "nat \<Rightarrow> int"
  CreateRandomString :: "nat \<Rightarrow> byte list"
  CreateRandomId64 :: "nat \<Rightarrow> 64 word"

definition PING_INTERVAL_DIFF :: int where
  "PING_INTERVAL_DIFF = 5"

definition IceTransportChannel_new :: "IceCandidateComponent \<Rightarrow> ice_channel" where
  "IceTransportChannel_new cmp =
     \<lparr>ch_component = cmp, ch_ice_params = \<lparr>ice_ufrag = [], ice_pwd = []\<rparr>, remote_ice_params = \<lparr>ice_ufrag = [], ice_pwd = []\<rparr>,
      local_candidates = [], ports = [], controller = IceController_new, start_pinging = False,
      cur_ping_interval = WEAK_PING_INTERVAL, last_ping_sent_ms = 0, ch_selected = None, ch_receiving = False,
      ch_writable = False, ch_state = k_new, had_connection = False, has_been_connection = False,
      heap = Map.empty, tick = 0, out = []\<rparr>"

definition emit :: "ice_event list \<Rightarrow> ice_channel \<Rightarrow> ice_channel" where
  "emit es ch = ch\<lparr>out := out ch @ es\<rparr>"

definition emit_datagrams :: "datagram list \<Rightarrow> ice_channel \<Rightarrow> ice_channel" where
  "emit_datagrams ds = emit (map (\<lambda>(a, b). SendTo a b) ds)"

definition next_tick :: "ice_channel \<Rightarrow> ice_channel" where
  "next_tick ch = ch\<lparr>tick := tick ch + 1\<rparr>"

definition put_conn :: "nat \<Rightarrow> ice_connection \<Rightarrow> ice_channel \<Rightarrow> ice_channel" where
  "put_conn c x ch = ch\<lparr>heap := (heap ch)(c \<mapsto> x)\<rparr>"

definition port_of :: "ice_channel \<Rightarrow> ice_connection \<Rightarrow> error + udp_port" where
  "port_of ch x = byte_at (ports ch) (conn_port x)"

section \<open>The state of the channel\<close>

definition set_writable :: "bool \<Rightarrow> ice_channel \<Rightarrow> ice_channel" where
  "set_writable w ch =
     (if ch_writable ch = w then ch
      else emit [SignalWritable w] (ch\<lparr>has_been_connection := has_been_connection ch \<or> w, ch_writable := w\<rparr>))"

definition set_receiving :: "bool \<Rightarrow> ice_channel \<Rightarrow> ice_channel" where
  "set_receiving r ch =
     (if ch_receiving ch = r then ch else emit [SignalReceiving r] (ch\<lparr>ch_receiving := r\<rparr>))"

definition compute_ice_transport_state :: "ice_channel \<Rightarrow> error + IceTransportState" where
  "compute_ice_transport_state ch =
     bindE (exists_conn (\<lambda>c. bindE (deref (heap ch) c) (\<lambda>x. Inr (active x))) (ctl_connections (controller ch))) (\<lambda>has_connection.
       Inr (if had_connection ch \<and> \<not> has_connection then k_failed
            else if has_been_connection ch \<and> \<not> ch_writable ch then k_disconnected
            else if \<not> had_connection ch \<and> \<not> has_connection then k_new
            else if has_connection \<and> \<not> ch_writable ch then k_checking
            else k_connected))"

definition update_state :: "ice_channel \<Rightarrow> error + ice_channel" where
  "update_state ch =
     bindE (case ch_selected ch of None \<Rightarrow> Inr False | Some c \<Rightarrow> bindE (deref (heap ch) c) (\<lambda>x. Inr (writable x))) (\<lambda>w.
     let ch = set_writable w ch in
     bindE (exists_conn (\<lambda>c. bindE (deref (heap ch) c) (\<lambda>x. Inr (receiving x))) (ctl_connections (controller ch))) (\<lambda>r.
     let ch = set_receiving r ch in
     bindE (compute_ice_transport_state ch) (\<lambda>st.
       Inr (if st \<noteq> ch_state ch then emit [SignalIceState st] (ch\<lparr>ch_state := st\<rparr>) else ch))))"

text \<open>\<open>_switch_selected_connection\<close>: the controller is told of a new connection, but not that there is none.\<close>

definition switch_selected_connection :: "nat option \<Rightarrow> ice_channel \<Rightarrow> error + ice_channel" where
  "switch_selected_connection conn ch =
     (let old = ch_selected ch; ch = ch\<lparr>ch_selected := conn\<rparr> in
      bindE (case old of
               None \<Rightarrow> Inr ch
             | Some c \<Rightarrow> bindE (deref (heap ch) c) (\<lambda>x. Inr (put_conn c (x\<lparr>selected := False\<rparr>) ch))) (\<lambda>ch.
      case conn of
        None \<Rightarrow> Inr ch
      | Some c \<Rightarrow> bindE (deref (heap ch) c) (\<lambda>x.
          Inr (put_conn c (x\<lparr>selected := True\<rparr>) (ch\<lparr>controller := (controller ch)\<lparr>ctl_selected := Some c\<rparr>\<rparr>)))))"

definition maybe_switch_selected_connection :: "nat option \<Rightarrow> ice_channel \<Rightarrow> error + ice_channel" where
  "maybe_switch_selected_connection conn ch = (if conn = None then Inr ch else switch_selected_connection conn ch)"

definition maybe_start_pinging :: "world \<Rightarrow> ice_channel \<Rightarrow> error + ice_channel" where
  "maybe_start_pinging w ch =
     (if start_pinging ch then Inr ch
      else bindE (has_pingable_connection (heap ch) (controller ch) (TimeMillis w (tick ch))) (\<lambda>has.
        let ch = next_tick ch in
        Inr (if has then emit [StartTimer (cur_ping_interval ch * 1000)] (ch\<lparr>start_pinging := True\<rparr>) else ch)))"

definition sort_connections_and_update_state :: "world \<Rightarrow> ice_channel \<Rightarrow> error + ice_channel" where
  "sort_connections_and_update_state w ch =
     bindE (sort_and_switch_connection (ice w) (ports ch) (heap ch) (controller ch)) (\<lambda>(ctl, conn).
     bindE (maybe_switch_selected_connection conn (ch\<lparr>controller := ctl\<rparr>)) (\<lambda>ch.
     bindE (update_state ch) (\<lambda>ch. maybe_start_pinging w ch)))"

section \<open>Connections that signal\<close>

definition update_receiving :: "world \<Rightarrow> nat \<Rightarrow> int \<Rightarrow> ice_channel \<Rightarrow> error + ice_channel" where
  "update_receiving w c now ch =
     bindE (deref (heap ch) c) (\<lambda>x.
     let r = compute_receiving now x in
     if receiving x = r then Inr ch
     else sort_connections_and_update_state w (put_conn c (x\<lparr>receiving := r\<rparr>) ch))"

definition set_write_state :: "world \<Rightarrow> nat \<Rightarrow> WriteState \<Rightarrow> ice_channel \<Rightarrow> error + ice_channel" where
  "set_write_state w c st ch =
     bindE (deref (heap ch) c) (\<lambda>x.
     let old = write_state x; ch = put_conn c (x\<lparr>write_state := st\<rparr>) ch in
     if old \<noteq> st then sort_connections_and_update_state w ch else Inr ch)"

definition received_ping_response :: "world \<Rightarrow> nat \<Rightarrow> int \<Rightarrow> ice_channel \<Rightarrow> error + ice_channel" where
  "received_ping_response w c rtt_sample ch =
     bindE (deref (heap ch) c) (\<lambda>x.
     let x = (if rtt_samples x > 0 then x\<lparr>rtt := GetNextMovingAverage (ice w) (rtt x) rtt_sample RTT_RATIO\<rparr>
              else x\<lparr>rtt := rtt_sample\<rparr>);
         now = TimeMillis w (tick ch);
         x = x\<lparr>rtt_samples := rtt_samples x + 1, last_ping_response_received := now, pings_since_last_response := []\<rparr> in
     bindE (update_receiving w c now (put_conn c x (next_tick ch))) (\<lambda>ch.
     bindE (set_write_state w c STATE_WRITABLE ch) (\<lambda>ch.
     bindE (deref (heap ch) c) (\<lambda>x. Inr (put_conn c (set_state SUCCEEDED x) ch)))))"

definition rtt_bound :: "ice_connection \<Rightarrow> int" where
  "rtt_bound x = (let r = 2 * rtt x in if r < MIN_RTT then MIN_RTT else if r > MAX_RTT then MAX_RTT else r)"

definition conn_update_state :: "world \<Rightarrow> int \<Rightarrow> nat \<Rightarrow> ice_channel \<Rightarrow> error + ice_channel" where
  "conn_update_state w now c ch =
     bindE (deref (heap ch) c) (\<lambda>x.
     let r = rtt_bound x in
     bindE (if write_state x = STATE_WRITABLE \<and> too_many_ping_fails CONNECTION_WRITE_CONNECT_FAILS r now x \<and>
               too_long_without_response CONNECTION_WRITE_CONNECT_TIMEOUT now x
            then set_write_state w c STATE_WRITE_UNRELIABLE ch else Inr ch) (\<lambda>ch.
     bindE (deref (heap ch) c) (\<lambda>x.
     bindE (if (write_state x = STATE_WRITE_UNRELIABLE \<or> write_state x = STATE_WRITE_INIT) \<and>
               too_long_without_response CONNECTION_WRITE_TIMEOUT now x
            then set_write_state w c STATE_WRITE_TIMEOUT ch else Inr ch) (\<lambda>ch.
       update_receiving w c now ch))))"

section \<open>Destruction\<close>

definition on_connection_destroyed :: "world \<Rightarrow> nat \<Rightarrow> ice_channel \<Rightarrow> error + ice_channel" where
  "on_connection_destroyed w c ch =
     (let ch = ch\<lparr>controller := ctl_on_connection_destroyed c (controller ch)\<rparr> in
      if ch_selected ch = Some c
      then bindE (switch_selected_connection None ch) (\<lambda>ch. sort_connections_and_update_state w ch)
      else update_state ch)"

text \<open>\<open>IceConnection::destroy\<close>: the signal, then \<open>delete this\<close>. The entry in the port's map is not removed.\<close>

definition destroy :: "world \<Rightarrow> nat \<Rightarrow> ice_channel \<Rightarrow> error + ice_channel" where
  "destroy w c ch =
     bindE (deref (heap ch) c) (\<lambda>_.
     bindE (on_connection_destroyed w c ch) (\<lambda>ch. Inr (ch\<lparr>heap := (heap ch)(c := None)\<rparr>)))"

definition fail_and_destroy :: "world \<Rightarrow> nat \<Rightarrow> ice_channel \<Rightarrow> error + ice_channel" where
  "fail_and_destroy w c ch =
     bindE (deref (heap ch) c) (\<lambda>x. destroy w c (put_conn c (set_state FAILED x) ch))"

section \<open>Responses\<close>

definition on_connection_request_error_response :: "world \<Rightarrow> nat \<Rightarrow> stun_message \<Rightarrow> ice_channel \<Rightarrow> error + ice_channel" where
  "on_connection_request_error_response w c msg ch =
     (let error_code = get_error_code_value msg; ch = next_tick ch in
      if error_code = error_code_value STUN_ERROR_UNAUTHORIZED \<or> error_code = error_code_value STUN_ERROR_UNKNOWN_ATTRIBUTE \<or>
         error_code = error_code_value STUN_ERROR_SERVER_ERROR
      then Inr ch else fail_and_destroy w c ch)"

text \<open>\<open>StunRequestManager::check_response\<close> of connection \<open>c\<close>. Afterwards the request is deleted, which touches the
  request and its manager: both belong to the connection.\<close>

definition delete_request :: "nat \<Rightarrow> byte list \<Rightarrow> ice_channel \<Rightarrow> error + ice_channel" where
  "delete_request c tid ch =
     bindE (deref (heap ch) c) (\<lambda>x. Inr (put_conn c (x\<lparr>requests := (requests x)(tid := None)\<rparr>) ch))"

definition check_response :: "world \<Rightarrow> nat \<Rightarrow> stun_message \<Rightarrow> ice_channel \<Rightarrow> error + ice_channel \<times> bool" where
  "check_response w c msg ch =
     bindE (deref (heap ch) c) (\<lambda>x.
     case requests x (msg_transaction_id msg) of
       None \<Rightarrow> Inr (ch, False)
     | Some request \<Rightarrow>
         if message_type msg = get_stun_success_response (message_type (req_msg request)) then
           bindE (received_ping_response w c (to_i32 (TimeMillis w (tick ch) - req_ts request)) (next_tick ch)) (\<lambda>ch.
           bindE (delete_request c (msg_transaction_id msg) ch) (\<lambda>ch. Inr (ch, True)))
         else if message_type msg = get_stun_error_response (message_type (req_msg request)) then
           bindE (on_connection_request_error_response w c msg ch) (\<lambda>ch.
           bindE (delete_request c (msg_transaction_id msg) ch) (\<lambda>ch. Inr (ch, True)))
         else bindE (delete_request c (msg_transaction_id msg) ch) (\<lambda>ch. Inr (ch, False)))"

section \<open>Packets\<close>

definition on_read_packet :: "world \<Rightarrow> nat \<Rightarrow> byte list \<Rightarrow> int \<Rightarrow> ice_channel \<Rightarrow> error + ice_channel" where
  "on_read_packet w c buf timestamp ch =
     bindE (deref (heap ch) c) (\<lambda>x.
     bindE (port_of ch x) (\<lambda>port.
     let remote = remote_candidate x in
     bindE (get_stun_message (ice w) port buf (address remote)) (\<lambda>res.
     let ch = emit_datagrams (replies res) ch in
     if \<not> is_stun res then Inr (emit [SignalReadPacket buf timestamp] ch)
     else (case out_msg res of
         None \<Rightarrow> Inr ch
       | Some stun_msg \<Rightarrow>
           if message_type stun_msg = STUN_BINDING_REQUEST then
             (if out_username res \<noteq> username remote
              then bindE (send_binding_error_response (ice w) port stun_msg (address remote)
                            STUN_ERROR_UNAUTHORIZED STUN_ERROR_REASON_UNAUTHORIZED) (\<lambda>sent. Inr (emit_datagrams sent ch))
              else bindE (handle_stun_binding_request (ice w) port x stun_msg) (\<lambda>sent. Inr (emit_datagrams sent ch)))
           else if message_type stun_msg = STUN_BINDING_RESPONSE \<or> message_type stun_msg = STUN_BINDING_ERROR_RESPONSE then
             bindE (validate_message_integrity (ice_stun (ice w)) (password remote) stun_msg) (\<lambda>(stun_msg, status).
               if msg_integrity stun_msg = k_integrity_ok
               then bindE (check_response w c stun_msg ch) (\<lambda>(ch, _). Inr ch)
               else Inr ch)
           else Inr ch))))"

definition ch_add_connection :: "nat \<Rightarrow> ice_channel \<Rightarrow> ice_channel" where
  "ch_add_connection c ch = ch\<lparr>had_connection := True, controller := ctl_add_connection c (controller ch)\<rparr>"

text \<open>\<open>UDPPort::create_connection\<close> at the address \<open>c\<close> that \<open>new\<close> returned; an entry for the same remote address
  is replaced.\<close>

definition create_connection :: "nat \<Rightarrow> nat \<Rightarrow> candidate \<Rightarrow> ice_channel \<Rightarrow> error + ice_channel" where
  "create_connection c p cand ch =
     bindE (byte_at (ports ch) p) (\<lambda>port.
       Inr (put_conn c (IceConnection_new p cand)
             (ch\<lparr>ports := (ports ch)[p := port\<lparr>connections := (connections port)(address cand \<mapsto> c)\<rparr>]\<rparr>)))"

definition on_unknown_address ::
  "world \<Rightarrow> nat \<Rightarrow> nat \<Rightarrow> socket_address \<Rightarrow> stun_message \<Rightarrow> byte list \<Rightarrow> ice_channel \<Rightarrow> error + ice_channel" where
  "on_unknown_address w c p addr msg remote_ufrag ch =
     bindE (byte_at (ports ch) p) (\<lambda>port.
     case get_attribute STUN_ATTR_PRIORITY msg of
       None \<Rightarrow>
         bindE (send_binding_error_response (ice w) port msg addr STUN_ERROR_BAD_REQUEST STUN_ERROR_REASON_BAD_REQUEST)
           (\<lambda>sent. Inr (emit_datagrams sent ch))
     | Some a \<Rightarrow>
         let remote_priority = (case attr_body a of UInt32 v \<Rightarrow> v | _ \<Rightarrow> 0);
             cand = \<lparr>component = ch_component ch, protocol = map of_char ''udp'', address = addr, cand_port = 0,
                     cand_priority = remote_priority, username = remote_ufrag, password = ice_pwd (remote_ice_params ch),
                     cand_type = map of_char ''prflx'', foundation = []\<rparr> in
         bindE (create_connection c p cand ch) (\<lambda>ch.
         let ch = ch_add_connection c ch in
         bindE (handle_stun_binding_request (ice w) port (IceConnection_new p cand) msg) (\<lambda>sent.
           sort_connections_and_update_state w (emit_datagrams sent ch))))"

text \<open>\<open>UDPPort::_on_read_packet\<close> of port \<open>p\<close>; \<open>c\<close> is the address of the connection that may be created.\<close>

definition port_on_read_packet ::
  "world \<Rightarrow> nat \<Rightarrow> nat \<Rightarrow> byte list \<Rightarrow> socket_address \<Rightarrow> int \<Rightarrow> ice_channel \<Rightarrow> error + ice_channel" where
  "port_on_read_packet w c p buf addr timestamp ch =
     bindE (byte_at (ports ch) p) (\<lambda>port.
     case connections port addr of
       Some d \<Rightarrow> on_read_packet w d buf timestamp ch
     | None \<Rightarrow>
         bindE (get_stun_message (ice w) port buf addr) (\<lambda>res.
         let ch = emit_datagrams (replies res) ch in
         if \<not> is_stun res then Inr ch
         else (case out_msg res of
             None \<Rightarrow> Inr ch
           | Some stun_msg \<Rightarrow>
               if message_type stun_msg = STUN_BINDING_REQUEST
               then on_unknown_address w c p addr stun_msg (out_username res) ch
               else Inr ch)))"

section \<open>The interface of the channel\<close>

definition set_ice_params :: "ice_parameters \<Rightarrow> ice_channel \<Rightarrow> ice_channel" where
  "set_ice_params params ch = ch\<lparr>ch_ice_params := params\<rparr>"

fun set_params_loop :: "ice_parameters \<Rightarrow> nat list \<Rightarrow> ice_channel \<Rightarrow> error + ice_channel" where
  "set_params_loop params [] ch = Inr ch"
| "set_params_loop params (c # cs) ch =
     bindE (deref (heap ch) c) (\<lambda>x. set_params_loop params cs (put_conn c (maybe_set_remote_ice_params params x) ch))"

definition set_remote_ice_params :: "world \<Rightarrow> ice_parameters \<Rightarrow> ice_channel \<Rightarrow> error + ice_channel" where
  "set_remote_ice_params w params ch =
     bindE (set_params_loop params (ctl_connections (controller ch)) (ch\<lparr>remote_ice_params := params\<rparr>)) (\<lambda>ch.
       sort_connections_and_update_state w ch)"

text \<open>\<open>gathering_candidate\<close>: for every network, the configured address and the outcome of binding a socket.\<close>

fun gather_loop :: "world \<Rightarrow> (ip_address \<times> nat option) list \<Rightarrow> ice_channel \<Rightarrow> ice_channel" where
  "gather_loop w [] ch = ch"
| "gather_loop w ((ip, bound) # networks) ch =
     (let (port, c) = create_ice_candidate (ice w) (ch_component ch) ip bound (UDPPort_new (ch_ice_params ch));
          ch = ch\<lparr>ports := ports ch @ [port]\<rparr>;
          ch = (case c of None \<Rightarrow> ch | Some c \<Rightarrow> ch\<lparr>local_candidates := local_candidates ch @ [c]\<rparr>)
      in gather_loop w networks ch)"

definition gathering_candidate :: "world \<Rightarrow> (ip_address \<times> nat option) list \<Rightarrow> ice_channel \<Rightarrow> ice_channel" where
  "gathering_candidate w networks ch =
     (if ice_ufrag (ch_ice_params ch) = [] \<or> ice_pwd (ch_ice_params ch) = [] then ch
      else if networks = [] then ch
      else let ch = gather_loop w networks ch in emit [SignalCandidates (local_candidates ch)] ch)"

fun update_connection_states :: "world \<Rightarrow> int \<Rightarrow> nat list \<Rightarrow> ice_channel \<Rightarrow> error + ice_channel" where
  "update_connection_states w now [] ch = Inr ch"
| "update_connection_states w now (c # cs) ch =
     bindE (conn_update_state w now c ch) (\<lambda>ch. update_connection_states w now cs ch)"

definition ping_connection :: "world \<Rightarrow> nat \<Rightarrow> ice_channel \<Rightarrow> error + ice_channel" where
  "ping_connection w c ch =
     (let now = TimeMillis w (tick ch); ch = next_tick (ch\<lparr>last_ping_sent_ms := now\<rparr>) in
      bindE (deref (heap ch) c) (\<lambda>x.
      bindE (port_of ch x) (\<lambda>port.
      bindE (ping (ice w) port (CreateRandomString w (tick ch)) (CreateRandomId64 w (tick ch)) now (TimeMillis w (tick ch)) x)
        (\<lambda>(x, sent). Inr (emit_datagrams sent (put_conn c x (next_tick ch)))))))"

definition on_check_and_ping :: "world \<Rightarrow> ice_channel \<Rightarrow> error + ice_channel" where
  "on_check_and_ping w ch =
     bindE (update_connection_states w (TimeMillis w (tick ch)) (ctl_connections (controller ch)) (next_tick ch)) (\<lambda>ch.
     bindE (select_connection_to_ping (heap ch) (last_ping_sent_ms ch - PING_INTERVAL_DIFF) (TimeMillis w (tick ch)) (controller ch))
       (\<lambda>(ctl, conn, ping_interval).
     let ch = next_tick (ch\<lparr>controller := ctl\<rparr>) in
     bindE (case conn of
              None \<Rightarrow> Inr ch
            | Some c \<Rightarrow> bindE (ping_connection w c ch) (\<lambda>ch.
                Inr (ch\<lparr>controller := mark_connection_pinged c (controller ch)\<rparr>))) (\<lambda>ch.
       Inr (if cur_ping_interval ch \<noteq> ping_interval
            then emit [StopTimer, StartTimer (ping_interval * 1000)] (ch\<lparr>cur_ping_interval := ping_interval\<rparr>)
            else ch))))"

definition ch_send_packet :: "world \<Rightarrow> byte list \<Rightarrow> ice_channel \<Rightarrow> error + ice_channel \<times> int" where
  "ch_send_packet w data ch =
     bindE (case ch_selected ch of None \<Rightarrow> Inr None | Some c \<Rightarrow> bindE (deref (heap ch) c) (\<lambda>x. Inr (Some x))) (\<lambda>conn.
     if \<not> ready_to_send conn then Inr (ch, - 1)
     else (case conn of
         None \<Rightarrow> Inr (ch, - 1)
       | Some x \<Rightarrow> bindE (port_of ch x) (\<lambda>port.
           let (sent, ret) = send_to (ice w) port data (address (remote_candidate x)) in
           Inr (emit_datagrams sent ch, ret))))"

fun destroy_all :: "world \<Rightarrow> nat list \<Rightarrow> ice_channel \<Rightarrow> error + ice_channel" where
  "destroy_all w [] ch = Inr ch"
| "destroy_all w (c # cs) ch = bindE (destroy w c ch) (\<lambda>ch. destroy_all w cs ch)"

definition channel_destroy :: "world \<Rightarrow> ice_channel \<Rightarrow> error + ice_channel" where
  "channel_destroy w ch =
     bindE (destroy_all w (ctl_connections (controller ch)) (emit [DeleteTimer] ch)) (\<lambda>ch.
       Inr (ch\<lparr>ports := [], controller := IceController_new\<rparr>))"

end
