(* ===== verification/Ice_Channel_Inv.thy ===== *)
theory Ice_Channel_Inv
  imports Ice_Channel
begin

text \<open>
  The invariant of the ICE channel and its preservation: what the operations of the controller, the
  connections and the channel keep, from the update of one connection to the handling of a packet and
  the timer tick. The operations return values of the error type, so every lemma also says that no
  pointer dangles and no index is out of range.
\<close>

section \<open>Well-formed channels\<close>

abbreviation conns :: "ice_channel \<Rightarrow> nat list" where
  "conns ch \<equiv> ctl_connections (controller ch)"

definition port_ok :: "udp_port list \<Rightarrow> ice_connection \<Rightarrow> bool" where
  "port_ok ps x \<longleftrightarrow> conn_port x < length ps \<and> candidates (ps ! conn_port x) \<noteq> []"

text \<open>Pointers lead to live connections, the ping lists partition the connections, and every connection
  belongs to a port with a candidate.\<close>

definition base_ok :: "ice_channel \<Rightarrow> bool" where
  "base_ok ch \<longleftrightarrow> distinct (conns ch) \<and> set (conns ch) \<subseteq> dom (heap ch) \<and>
     pinged_connections (controller ch) \<union> unpinged_connections (controller ch) = set (conns ch) \<and>
     pinged_connections (controller ch) \<inter> unpinged_connections (controller ch) = {} \<and>
     (\<forall>s. ctl_selected (controller ch) = Some s \<longrightarrow> s \<in> dom (heap ch)) \<and>
     (\<forall>s. ch_selected ch = Some s \<longrightarrow> s \<in> dom (heap ch)) \<and>
     (\<forall>x \<in> ran (heap ch). port_ok (ports ch) x)"

text \<open>Channel and controller agree on the selected connection, which is one of the connections.\<close>

definition sel_ok :: "ice_channel \<Rightarrow> bool" where
  "sel_ok ch \<longleftrightarrow> ctl_selected (controller ch) = ch_selected ch \<and> (\<forall>s. ch_selected ch = Some s \<longrightarrow> s \<in> set (conns ch))"

text \<open>The state the channel reports is the state of its connections.\<close>

definition conn_at :: "ice_channel \<Rightarrow> nat \<Rightarrow> ice_connection" where
  "conn_at ch c = the (heap ch c)"

definition sync :: "ice_channel \<Rightarrow> bool" where
  "sync ch \<longleftrightarrow> ch_writable ch = (case ch_selected ch of None \<Rightarrow> False | Some s \<Rightarrow> writable (conn_at ch s)) \<and>
     ch_receiving ch = (\<exists>c \<in> set (conns ch). receiving (conn_at ch c)) \<and>
     compute_ice_transport_state ch = Inr (ch_state ch)"

text \<open>What sorting and updating leave alone: everything but the selection and the reported state.\<close>

definition conn_eq :: "ice_connection \<Rightarrow> ice_connection \<Rightarrow> bool" where
  "conn_eq x y \<longleftrightarrow> y = x\<lparr>selected := selected y\<rparr>"

definition frame :: "ice_channel \<Rightarrow> ice_channel \<Rightarrow> bool" where
  "frame ch ch' \<longleftrightarrow> ports ch' = ports ch \<and> set (conns ch') = set (conns ch) \<and>
     unpinged_connections (controller ch') = unpinged_connections (controller ch) \<and>
     pinged_connections (controller ch') = pinged_connections (controller ch) \<and>
     had_connection ch' = had_connection ch \<and> (\<forall>c. rel_option conn_eq (heap ch c) (heap ch' c))"

lemma conn_eq_refl [simp]: "conn_eq x x"
  by (simp add: conn_eq_def)

lemma conn_eq_selected [simp]: "conn_eq x (x\<lparr>selected := b\<rparr>)"
  by (simp add: conn_eq_def)

lemma conn_eq_trans: "conn_eq x y \<Longrightarrow> conn_eq y z \<Longrightarrow> conn_eq x z"
  unfolding conn_eq_def by (metis ice_connection.surjective ice_connection.update_convs(5))

lemma conn_eqD:
  assumes "conn_eq x y"
  shows "conn_port y = conn_port x" "write_state y = write_state x" "receiving y = receiving x"
    "pings_since_last_response y = pings_since_last_response x" "remote_candidate y = remote_candidate x"
    "requests y = requests x"
  using assms by (simp_all add: conn_eq_def) (metis ice_connection.select_convs ice_connection.surjective ice_connection.update_convs(5))+

lemma rel_option_refl_conn [simp]: "rel_option conn_eq x x"
  by (cases x) auto

lemma frame_refl [simp]: "frame ch ch"
  by (simp add: frame_def)

lemma rel_option_trans_conn: "rel_option conn_eq x y \<Longrightarrow> rel_option conn_eq y z \<Longrightarrow> rel_option conn_eq x z"
  by (cases x; cases y; cases z) (auto intro: conn_eq_trans)

lemma frame_trans: "frame a b \<Longrightarrow> frame b c \<Longrightarrow> frame a c"
  unfolding frame_def using rel_option_trans_conn by (metis (no_types, lifting))

lemma frame_heap:
  assumes "frame ch ch'"
  shows "dom (heap ch') = dom (heap ch)" and "heap ch c = Some x \<Longrightarrow> \<exists>y. heap ch' c = Some y \<and> conn_eq x y"
    and "heap ch' c = Some y \<Longrightarrow> \<exists>x. heap ch c = Some x \<and> conn_eq x y"
proof -
  have r: "rel_option conn_eq (heap ch c) (heap ch' c)" for c using assms by (simp add: frame_def)
  show "heap ch c = Some x \<Longrightarrow> \<exists>y. heap ch' c = Some y \<and> conn_eq x y" using r [of c] by (auto simp: option_rel_Some1)
  show "heap ch' c = Some y \<Longrightarrow> \<exists>x. heap ch c = Some x \<and> conn_eq x y" using r [of c] by (auto simp: option_rel_Some2)
  show "dom (heap ch') = dom (heap ch)"
    using r by (auto simp: dom_def) (metis option.rel_distinct not_None_eq)+
qed


lemma frame_base_ok:
  assumes "frame ch ch'" and "base_ok ch" and "distinct (conns ch')"
    and "\<forall>s. ctl_selected (controller ch') = Some s \<longrightarrow> s \<in> dom (heap ch)" and "\<forall>s. ch_selected ch' = Some s \<longrightarrow> s \<in> dom (heap ch)"
  shows "base_ok ch'"
proof -
  have "port_ok (ports ch') y" if "y \<in> ran (heap ch')" for y
  proof -
    from that obtain c where "heap ch' c = Some y" by (auto simp: ran_def)
    from frame_heap(3) [OF assms(1) this] obtain x where x: "heap ch c = Some x" "conn_eq x y" by blast
    then have "port_ok (ports ch) x" using assms(2) by (auto simp: base_ok_def ran_def)
    then show ?thesis using assms(1) conn_eqD(1) [OF x(2)] by (simp add: port_ok_def frame_def)
  qed
  then show ?thesis using assms frame_heap(1) [OF assms(1)] by (simp add: base_ok_def frame_def)
qed

lemma base_okD:
  assumes "base_ok ch"
  shows "c \<in> set (conns ch) \<Longrightarrow> \<exists>x. heap ch c = Some x \<and> port_ok (ports ch) x"
    and "ch_selected ch = Some c \<Longrightarrow> \<exists>x. heap ch c = Some x"
    and "ctl_selected (controller ch) = Some c \<Longrightarrow> \<exists>x. heap ch c = Some x"
    and "heap ch c = Some x \<Longrightarrow> port_ok (ports ch) x"
    and "distinct (conns ch)"
    and "finite (pinged_connections (controller ch))" "finite (unpinged_connections (controller ch))"
proof -
  have "pinged_connections (controller ch) \<union> unpinged_connections (controller ch) = set (conns ch)"
    using assms by (simp add: base_ok_def)
  then show "finite (pinged_connections (controller ch))" "finite (unpinged_connections (controller ch))"
    by (metis List.finite_set finite_Un)+
  show "\<exists>x. heap ch c = Some x \<and> port_ok (ports ch) x" if "c \<in> set (conns ch)"
    using assms that by (force simp: base_ok_def ran_def dom_def)
qed (use assms in \<open>auto simp: base_ok_def ran_def dom_def\<close>)

section \<open>Sorting and selecting\<close>

lemma mset_insert_after [simp]: "mset (insert_after lt x xs) = add_mset x (mset xs)"
  by (induction xs) auto

lemma mset_stable_sort [simp]: "mset (stable_sort lt xs) = mset xs"
  by (induction xs) (auto simp: stable_sort_def)

lemma load_conns_ok:
  assumes "\<forall>c \<in> set cs. c \<in> dom st"
  shows "load_conns st cs = Inr (map (\<lambda>c. (c, the (st c))) cs)"
  using assms by (induction cs) auto

lemma priority_cases:
  assumes "port_ok ps x"
  shows "bindE (byte_at ps (conn_port x)) (\<lambda>port. priority ie port x) = Inl UseAfterFree \<and> (\<exists>k. freed_candidate ie k = None) \<or>
    (\<exists>p. bindE (byte_at ps (conn_port x)) (\<lambda>port. priority ie port x) = Inr p)"
  using assms by (auto simp: port_ok_def priority_def local_candidate_def simp del: bindE_eq_Inr split: option.split)

lemma read_priorities_cases:
  assumes "\<forall>(c, x) \<in> set ls. port_ok ps x"
  shows "read_priorities ie ps cs0 ls = Inl UseAfterFree \<and> (\<exists>k. freed_candidate ie k = None) \<or>
    (\<exists>rs. read_priorities ie ps cs0 ls = Inr rs \<and> map (\<lambda>(c, x, p). (c, x)) rs = ls)"
  using assms
proof (induction ls)
  case (Cons l ls)
  obtain c x where l: "l = (c, x)" by (cases l)
  have "port_ok ps x" using Cons.prems l by simp
  from priority_cases [OF this, of ie] Cons l show ?case by (auto simp del: bindE_eq_Inr)
qed simp

text \<open>Loading fails only when the memory behind \<open>local_candidate\<close> cannot be read.\<close>

lemma load_all_cases:
  assumes "\<forall>c \<in> set cs. \<exists>x. st c = Some x \<and> port_ok ps x"
  shows "load_all ie ps st cs = Inl UseAfterFree \<and> (\<exists>k. freed_candidate ie k = None) \<or>
    (\<exists>ls. load_all ie ps st cs = Inr ls \<and> map fst ls = cs \<and> (\<forall>(c, x, p) \<in> set ls. st c = Some x))"
proof -
  let ?cxs = "map (\<lambda>c. (c, the (st c))) cs"
  have "\<forall>c \<in> set cs. c \<in> dom st" and "\<forall>(c, x) \<in> set ?cxs. port_ok ps x" using assms by force+
  then have l: "load_all ie ps st cs = read_priorities ie ps ?cxs ?cxs" by (simp add: load_all_def load_conns_ok)
  have "map fst rs = cs \<and> (\<forall>(c, x, p) \<in> set rs. st c = Some x)" if r: "map (\<lambda>(c, x, p). (c, x)) rs = ?cxs" for rs :: "(nat \<times> ice_connection \<times> 64 word) list"
  proof -
    have "map fst (map (\<lambda>(c, x, p). (c, x)) rs) = map fst rs" by (induction rs) auto
    then have "map fst rs = cs" using r by (simp add: comp_def)
    moreover have "st c = Some x" if "(c, x, p) \<in> set rs" for c x p
    proof -
      have "(c, x) \<in> set (map (\<lambda>(c, x, p). (c, x)) rs)" using that by force
      then show ?thesis using assms unfolding r by auto
    qed
    ultimately show ?thesis by auto
  qed
  with read_priorities_cases [OF \<open>\<forall>(c, x) \<in> set ?cxs. port_ok ps x\<close>, of ie ?cxs] show ?thesis unfolding l by blast
qed

lemma sort_and_switch_ok:
  assumes "\<forall>c \<in> set (ctl_connections ctl). \<exists>x. st c = Some x \<and> port_ok ps x"
    and "\<forall>s. ctl_selected ctl = Some s \<longrightarrow> s \<in> dom st" and "load_all ie ps st (ctl_connections ctl) \<noteq> Inl UseAfterFree"
  shows "\<exists>cs conn. sort_and_switch_connection ie ps st ctl = Inr (ctl\<lparr>ctl_connections := cs\<rparr>, conn) \<and>
    mset cs = mset (ctl_connections ctl) \<and> (\<forall>c. conn = Some c \<longrightarrow> c \<in> set (ctl_connections ctl))"
proof -
  obtain ls where ls: "load_all ie ps st (ctl_connections ctl) = Inr ls" "map fst ls = ctl_connections ctl"
    using load_all_cases [OF assms(1), of ie] assms(3) by blast
  define sorted where "sorted = stable_sort (\<lambda>a b. goes_before (snd a) (snd b)) ls"
  have m: "mset sorted = mset ls" by (simp add: sorted_def)
  then have cs: "mset (map fst sorted) = mset (ctl_connections ctl)" using ls(2) by (metis mset_map)
  show ?thesis
  proof (cases sorted)
    case Nil
    then show ?thesis using ls(1) cs by (intro exI [of _ "[]"]) (simp add: sort_and_switch_connection_def sorted_def)
  next
    case (Cons t ts)
    obtain b x p where t: "t = (b, x, p)" by (cases t)
    have "b \<in> set (map fst sorted)" using Cons t by simp
    then have b: "b \<in> set (ctl_connections ctl)" using cs by (metis set_mset_mset)
    have e: "sort_and_switch_connection ie ps st ctl =
        (if \<not> ready_to_send (Some x) \<or> ctl_selected ctl = Some b then Inr (ctl\<lparr>ctl_connections := map fst sorted\<rparr>, None)
         else (case ctl_selected ctl of
             None \<Rightarrow> Inr (ctl\<lparr>ctl_connections := map fst sorted\<rparr>, Some b)
           | Some s \<Rightarrow> bindE (deref st s) (\<lambda>y.
               if rtt x \<le> rtt y - k_min_improvement then Inr (ctl\<lparr>ctl_connections := map fst sorted\<rparr>, Some b)
               else Inr (ctl\<lparr>ctl_connections := map fst sorted\<rparr>, None))))"
      unfolding sort_and_switch_connection_def ls(1) bindE_Inr sorted_def [symmetric] Let_def using Cons t by simp
    have "\<exists>conn. sort_and_switch_connection ie ps st ctl = Inr (ctl\<lparr>ctl_connections := map fst sorted\<rparr>, conn) \<and>
        (\<forall>c. conn = Some c \<longrightarrow> c \<in> set (ctl_connections ctl))"
      unfolding e using assms(2) b by (cases "ctl_selected ctl") (auto simp del: bindE_eq_Inr)
    with cs show ?thesis by blast
  qed
qed

lemma channel_flags [simp]:
  "heap (set_writable w ch) = heap ch" "controller (set_writable w ch) = controller ch" "ch_selected (set_writable w ch) = ch_selected ch"
  "ports (set_writable w ch) = ports ch" "had_connection (set_writable w ch) = had_connection ch"
  "cur_ping_interval (set_writable w ch) = cur_ping_interval ch" "ch_writable (set_writable w ch) = w"
  "heap (set_receiving r ch) = heap ch" "controller (set_receiving r ch) = controller ch" "ch_selected (set_receiving r ch) = ch_selected ch"
  "ports (set_receiving r ch) = ports ch" "had_connection (set_receiving r ch) = had_connection ch"
  "cur_ping_interval (set_receiving r ch) = cur_ping_interval ch" "ch_receiving (set_receiving r ch) = r"
  "ch_writable (set_receiving r ch) = ch_writable ch" "has_been_connection (set_receiving r ch) = has_been_connection ch"
  by (auto simp: set_writable_def set_receiving_def emit_def)

lemma emit_fields [simp]:
  "heap (emit es ch) = heap ch" "controller (emit es ch) = controller ch" "ch_selected (emit es ch) = ch_selected ch"
  "ports (emit es ch) = ports ch" "had_connection (emit es ch) = had_connection ch" "cur_ping_interval (emit es ch) = cur_ping_interval ch"
  "ch_writable (emit es ch) = ch_writable ch" "ch_receiving (emit es ch) = ch_receiving ch" "ch_state (emit es ch) = ch_state ch"
  "has_been_connection (emit es ch) = has_been_connection ch" "start_pinging (emit es ch) = start_pinging ch"
  "remote_ice_params (emit es ch) = remote_ice_params ch" "tick (emit es ch) = tick ch"
  by (simp_all add: emit_def)

lemma next_tick_fields [simp]:
  "heap (next_tick ch) = heap ch" "controller (next_tick ch) = controller ch" "ch_selected (next_tick ch) = ch_selected ch"
  "ports (next_tick ch) = ports ch" "had_connection (next_tick ch) = had_connection ch" "cur_ping_interval (next_tick ch) = cur_ping_interval ch"
  "ch_writable (next_tick ch) = ch_writable ch" "ch_receiving (next_tick ch) = ch_receiving ch" "ch_state (next_tick ch) = ch_state ch"
  "has_been_connection (next_tick ch) = has_been_connection ch" "start_pinging (next_tick ch) = start_pinging ch"
  by (simp_all add: next_tick_def)

text \<open>The reported state depends only on these fields.\<close>

lemma compute_state_cong:
  assumes "heap ch' = heap ch" "conns ch' = conns ch" "had_connection ch' = had_connection ch"
    "has_been_connection ch' = has_been_connection ch" "ch_writable ch' = ch_writable ch"
  shows "compute_ice_transport_state ch' = compute_ice_transport_state ch"
  unfolding compute_ice_transport_state_def assms ..

definition same_view :: "ice_channel \<Rightarrow> ice_channel \<Rightarrow> bool" where
  "same_view ch ch' \<longleftrightarrow> heap ch' = heap ch \<and> controller ch' = controller ch \<and> ch_selected ch' = ch_selected ch \<and>
     ports ch' = ports ch \<and> had_connection ch' = had_connection ch"

lemma same_view_frame: "same_view ch ch' \<Longrightarrow> frame ch ch'"
  by (simp add: same_view_def frame_def)

lemma same_view_ok: "same_view ch ch' \<Longrightarrow> base_ok ch' = base_ok ch" "same_view ch ch' \<Longrightarrow> sel_ok ch' = sel_ok ch"
  by (simp_all add: same_view_def base_ok_def sel_ok_def)

lemma same_view_sync:
  assumes "same_view ch ch'" "ch_writable ch' = ch_writable ch" "ch_receiving ch' = ch_receiving ch" "ch_state ch' = ch_state ch"
    "has_been_connection ch' = has_been_connection ch"
  shows "sync ch' = sync ch"
proof -
  have e: "heap ch' = heap ch" "controller ch' = controller ch" "ch_selected ch' = ch_selected ch" "had_connection ch' = had_connection ch"
    using assms(1) by (simp_all add: same_view_def)
  have c: "compute_ice_transport_state ch' = compute_ice_transport_state ch"
    using e assms by (intro compute_state_cong) simp_all
  show ?thesis unfolding sync_def conn_at_def e c assms ..
qed

lemma exists_conn_live:
  assumes "\<forall>c \<in> set cs. c \<in> dom st"
  shows "exists_conn (\<lambda>c. bindE (deref st c) (\<lambda>x. Inr (q x))) cs = Inr (\<exists>c \<in> set cs. q (the (st c)))"
  using assms by (intro exists_conn_ok) (auto simp: dom_def)

lemma compute_state_total:
  assumes "set (conns ch) \<subseteq> dom (heap ch)"
  obtains st where "compute_ice_transport_state ch = Inr st"
  unfolding compute_ice_transport_state_def using assms by (subst (asm) exists_conn_live) auto

lemma update_state_ok:
  assumes "base_ok ch"
  shows "returns (\<lambda>ch'. same_view ch ch' \<and> sync ch') (update_state ch)"
proof -
  define w where "w = (case ch_selected ch of None \<Rightarrow> False | Some s \<Rightarrow> writable (conn_at ch s))"
  define ch1 where "ch1 = set_writable w ch"
  define r where "r = (\<exists>c \<in> set (conns ch). receiving (conn_at ch c))"
  define ch2 where "ch2 = set_receiving r ch1"
  have live: "\<forall>c \<in> set (conns ch). c \<in> dom (heap ch)" using assms by (auto simp: base_ok_def)
  have w: "(case ch_selected ch of None \<Rightarrow> Inr False | Some c \<Rightarrow> bindE (deref (heap ch) c) (\<lambda>x. Inr (writable x))) = Inr w"
    using base_okD(2) [OF assms] by (cases "ch_selected ch") (force simp: w_def conn_at_def)+
  have r: "exists_conn (\<lambda>c. bindE (deref (heap ch1) c) (\<lambda>x. Inr (receiving x))) (conns ch1) = Inr r"
    using exists_conn_live [of "conns ch1" "heap ch1" receiving] live by (simp add: ch1_def r_def conn_at_def)
  obtain st where st: "compute_ice_transport_state ch2 = Inr st"
    using compute_state_total [of ch2] live by (auto simp: ch2_def ch1_def)
  define ch3 where "ch3 = (if st \<noteq> ch_state ch2 then emit [SignalIceState st] (ch2\<lparr>ch_state := st\<rparr>) else ch2)"
  have "update_state ch = Inr ch3"
    unfolding update_state_def w bindE_Inr Let_def ch1_def [symmetric] r ch2_def [symmetric] st ch3_def ..
  moreover have v: "same_view ch ch3" by (simp add: ch3_def ch2_def ch1_def same_view_def)
  moreover have "compute_ice_transport_state ch3 = Inr st"
    using compute_state_cong [of ch3 ch2] st by (simp add: ch3_def)
  moreover have "ch_writable ch3 = w" "ch_receiving ch3 = r" "ch_state ch3 = st"
    by (simp_all add: ch3_def ch2_def ch1_def)
  ultimately show ?thesis using v by (simp add: sync_def same_view_def w_def r_def conn_at_def split: option.split)
qed

lemma is_pingable_total:
  assumes "c \<in> dom st" and "\<forall>s. ctl_selected ctl = Some s \<longrightarrow> s \<in> dom st"
  shows "\<exists>b. is_pingable st ctl now c = Inr b"
proof -
  obtain x where x: "st c = Some x" using assms(1) by auto
  have "\<exists>w. ctl_weak st ctl = Inr w" using assms(2) by (cases "ctl_selected ctl") (auto simp: ctl_weak_def)
  then obtain w where w: "ctl_weak st ctl = Inr w" by blast
  show ?thesis
    by (auto simp: is_pingable_def x w is_connection_past_ping_interval_def get_connection_ping_interval_def Let_def simp del: bindE_eq_Inr)
qed

lemma exists_conn_total: "(\<And>c. c \<in> set cs \<Longrightarrow> \<exists>b. p c = Inr b) \<Longrightarrow> \<exists>b. exists_conn p cs = Inr b"
proof (induction cs)
  case (Cons c cs)
  then obtain b b' where "p c = Inr b" "exists_conn p cs = Inr b'" by (metis list.set_intros)
  then show ?case by (auto simp del: bindE_eq_Inr)
qed auto

lemma maybe_start_pinging_ok:
  assumes "base_ok ch" and "sync ch"
  shows "returns (\<lambda>ch'. same_view ch ch' \<and> sync ch') (maybe_start_pinging w ch)"
proof (cases "start_pinging ch")
  case True
  then show ?thesis using assms by (simp add: maybe_start_pinging_def same_view_def)
next
  case False
  have "\<exists>b. is_pingable (heap ch) (controller ch) t c = Inr b" if "c \<in> set (conns ch)" for c t
    using assms(1) that by (intro is_pingable_total) (auto simp: base_ok_def)
  then obtain b where "has_pingable_connection (heap ch) (controller ch) (TimeMillis w (tick ch)) = Inr b"
    unfolding has_pingable_connection_def using exists_conn_total by metis
  moreover have "sync (emit es (next_tick ch\<lparr>start_pinging := True\<rparr>))" "sync (next_tick ch)" for es
    using assms(2) by (subst same_view_sync [of ch]; simp add: same_view_def)+
  ultimately show ?thesis using False by (simp add: maybe_start_pinging_def same_view_def Let_def)
qed

definition settled :: "ice_channel \<Rightarrow> ice_channel \<Rightarrow> bool" where
  "settled ch ch' \<longleftrightarrow> frame ch ch' \<and> base_ok ch' \<and> sync ch' \<and> (sel_ok ch \<longrightarrow> sel_ok ch')"

lemma switch_selected_ok:
  assumes "base_ok ch" and "\<forall>c. conn = Some c \<longrightarrow> c \<in> set (conns ch)"
  shows "returns (\<lambda>ch'. frame ch ch' \<and> base_ok ch' \<and> ch_selected ch' = conn \<and> conns ch' = conns ch \<and>
    ctl_selected (controller ch') = (if conn = None then ctl_selected (controller ch) else conn))
    (switch_selected_connection conn ch)"
proof -
  define ch1 where "ch1 = (case ch_selected ch of None \<Rightarrow> ch\<lparr>ch_selected := conn\<rparr>
    | Some c \<Rightarrow> put_conn c ((conn_at ch c)\<lparr>selected := False\<rparr>) (ch\<lparr>ch_selected := conn\<rparr>))"
  have one: "(case ch_selected ch of None \<Rightarrow> Inr (ch\<lparr>ch_selected := conn\<rparr>)
      | Some c \<Rightarrow> bindE (deref (heap (ch\<lparr>ch_selected := conn\<rparr>)) c) (\<lambda>x. Inr (put_conn c (x\<lparr>selected := False\<rparr>) (ch\<lparr>ch_selected := conn\<rparr>)))) = Inr ch1"
    using base_okD(2) [OF assms(1)] by (cases "ch_selected ch") (force simp: ch1_def conn_at_def)+
  have f1: "frame ch ch1" and k1: "controller ch1 = controller ch" "ch_selected ch1 = conn"
    using base_okD(2) [OF assms(1)]
    by (cases "ch_selected ch"; force simp: ch1_def frame_def put_conn_def conn_at_def)+
  define ch2 where "ch2 = (case conn of None \<Rightarrow> ch1
    | Some c \<Rightarrow> put_conn c ((conn_at ch1 c)\<lparr>selected := True\<rparr>) (ch1\<lparr>controller := (controller ch1)\<lparr>ctl_selected := Some c\<rparr>\<rparr>))"
  have live: "\<exists>x. heap ch1 c = Some x" if "conn = Some c" for c
    using that assms frame_heap(1) [OF f1] by (auto simp: base_ok_def dom_def)
  then have two: "(case conn of None \<Rightarrow> Inr ch1
      | Some c \<Rightarrow> bindE (deref (heap ch1) c) (\<lambda>x. Inr (put_conn c (x\<lparr>selected := True\<rparr>) (ch1\<lparr>controller := (controller ch1)\<lparr>ctl_selected := Some c\<rparr>\<rparr>)))) = Inr ch2"
    by (cases conn) (force simp: ch2_def conn_at_def)+
  have k2: "ch_selected ch2 = conn" "conns ch2 = conns ch" "ctl_selected (controller ch2) = (if conn = None then ctl_selected (controller ch) else conn)"
    using k1 by (cases conn; simp add: ch2_def put_conn_def)+
  have "frame ch1 ch2" using live by (cases conn; force simp: ch2_def frame_def put_conn_def conn_at_def)
  with f1 have f2: "frame ch ch2" by (rule frame_trans)
  have "base_ok ch2"
    using assms k2 by (intro frame_base_ok [OF f2 assms(1)]) (auto simp: base_ok_def)
  then show ?thesis
    unfolding switch_selected_connection_def Let_def one bindE_Inr two using f2 k2 by simp
qed

lemma settle_loaded:
  assumes "base_ok ch" and "load_all (ice w) (ports ch) (heap ch) (conns ch) \<noteq> Inl UseAfterFree"
  shows "returns (settled ch) (sort_connections_and_update_state w ch)"
proof -
  obtain cs conn where s: "sort_and_switch_connection (ice w) (ports ch) (heap ch) (controller ch) = Inr ((controller ch)\<lparr>ctl_connections := cs\<rparr>, conn)"
    "mset cs = mset (conns ch)" "\<forall>c. conn = Some c \<longrightarrow> c \<in> set (conns ch)"
    using sort_and_switch_ok [of "controller ch" "heap ch" "ports ch" "ice w"] assms base_okD(1) [OF assms(1)] by (auto simp: base_ok_def)
  define ch1 where "ch1 = ch\<lparr>controller := (controller ch)\<lparr>ctl_connections := cs\<rparr>\<rparr>"
  have cs: "set cs = set (conns ch)" "distinct cs"
    using s(2) assms by (auto simp: base_ok_def dest: mset_eq_setD mset_eq_imp_distinct_iff)
  then have f1: "frame ch ch1" and b1: "base_ok ch1" and k1: "ctl_selected (controller ch1) = ctl_selected (controller ch)"
    "ch_selected ch1 = ch_selected ch" "set (conns ch1) = set (conns ch)"
    using assms by (auto simp: ch1_def frame_def base_ok_def)
  have "returns (\<lambda>ch'. frame ch ch' \<and> base_ok ch' \<and> (sel_ok ch \<longrightarrow> sel_ok ch')) (maybe_switch_selected_connection conn ch1)"
  proof (cases conn)
    case None
    then show ?thesis using f1 b1 k1 by (simp add: maybe_switch_selected_connection_def sel_ok_def)
  next
    case (Some c)
    have "\<forall>c. conn = Some c \<longrightarrow> c \<in> set (conns ch1)" using s(3) k1 by simp
    from switch_selected_ok [OF b1 this] show ?thesis
      unfolding maybe_switch_selected_connection_def using Some s(3) k1 f1
      by (auto elim!: returns_weaken simp: sel_ok_def intro: frame_trans)
  qed
  then show ?thesis
    unfolding sort_connections_and_update_state_def s(1) bindE_Inr prod.case ch1_def [symmetric]
  proof (rule returns_bind)
    fix ch2 assume 2: "frame ch ch2 \<and> base_ok ch2 \<and> (sel_ok ch \<longrightarrow> sel_ok ch2)"
    show "returns (settled ch) (bindE (update_state ch2) (maybe_start_pinging w))"
    proof (rule returns_bind [OF update_state_ok])
      show "base_ok ch2" using 2 by blast
      fix ch3 assume 3: "same_view ch2 ch3 \<and> sync ch3"
      then have b3: "base_ok ch3" using 2 same_view_ok by blast
      show "returns (settled ch) (maybe_start_pinging w ch3)"
      proof (rule returns_weaken [OF maybe_start_pinging_ok [OF b3]])
        show "sync ch3" using 3 by blast
        fix ch4 assume "same_view ch3 ch4 \<and> sync ch4"
        then show "settled ch ch4"
          using 2 3 b3 same_view_ok same_view_frame frame_trans unfolding settled_def by meson
      qed
    qed
  qed
qed

lemma settle_cases:
  assumes "base_ok ch"
  shows "sort_connections_and_update_state w ch = Inl UseAfterFree \<or> returns (settled ch) (sort_connections_and_update_state w ch)"
proof (cases "load_all (ice w) (ports ch) (heap ch) (conns ch) = Inl UseAfterFree")
  case True
  then show ?thesis by (simp add: sort_connections_and_update_state_def sort_and_switch_connection_def)
qed (use settle_loaded [OF assms] in blast)

text \<open>The operations below return in every world in which the freed memory behind \<open>local_candidate\<close> can be read, whatever is read there.\<close>

locale readable_memory =
  fixes w :: world
  assumes readable: "freed_candidate (ice w) k \<noteq> None"
begin

lemma sort_connections_and_update_state_ok:
  assumes "base_ok ch"
  shows "returns (settled ch) (sort_connections_and_update_state w ch)"
  using load_all_cases [of "conns ch" "heap ch" "ports ch" "ice w"] base_okD(1) [OF assms] readable
  by (intro settle_loaded [OF assms]) auto

end

section \<open>Operations of a connection\<close>

definition evolves :: "ice_channel \<Rightarrow> ice_channel \<Rightarrow> bool" where
  "evolves ch ch' \<longleftrightarrow> base_ok ch' \<and> (sel_ok ch \<longrightarrow> sel_ok ch') \<and> ports ch' = ports ch \<and> set (conns ch') = set (conns ch) \<and>
     dom (heap ch') = dom (heap ch) \<and> unpinged_connections (controller ch') = unpinged_connections (controller ch) \<and>
     pinged_connections (controller ch') = pinged_connections (controller ch) \<and> had_connection ch' = had_connection ch"

lemma evolves_trans: "evolves a b \<Longrightarrow> evolves b c \<Longrightarrow> evolves a c"
  by (simp add: evolves_def)

lemma settled_evolves: "settled ch ch' \<Longrightarrow> evolves ch ch'"
  by (simp add: settled_def evolves_def frame_heap(1)) (simp add: frame_def)

definition touches :: "nat \<Rightarrow> ice_channel \<Rightarrow> ice_channel \<Rightarrow> bool" where
  "touches c ch ch' \<longleftrightarrow> (\<forall>d. d \<noteq> c \<longrightarrow> rel_option conn_eq (heap ch d) (heap ch' d))"

lemma touches_trans: "touches c a b \<Longrightarrow> touches c b d \<Longrightarrow> touches c a d"
  unfolding touches_def using rel_option_trans_conn by metis

lemma frame_touches: "frame ch ch' \<Longrightarrow> touches c ch ch'"
  by (simp add: frame_def touches_def)

lemma put_conn_fields [simp]:
  "heap (put_conn c x ch) = (heap ch)(c \<mapsto> x)" "controller (put_conn c x ch) = controller ch" "ch_selected (put_conn c x ch) = ch_selected ch"
  "ports (put_conn c x ch) = ports ch" "had_connection (put_conn c x ch) = had_connection ch"
  "cur_ping_interval (put_conn c x ch) = cur_ping_interval ch" "ch_writable (put_conn c x ch) = ch_writable ch"
  "ch_receiving (put_conn c x ch) = ch_receiving ch" "ch_state (put_conn c x ch) = ch_state ch"
  "has_been_connection (put_conn c x ch) = has_been_connection ch" "tick (put_conn c x ch) = tick ch"
  by (simp_all add: put_conn_def)

lemma put_conn_touches [simp]: "touches c ch (put_conn c x ch)"
  by (simp add: touches_def)

lemma put_conn_ok:
  assumes "base_ok ch" and "heap ch c = Some x" and "conn_port y = conn_port x"
  shows "base_ok (put_conn c y ch)" and "sel_ok (put_conn c y ch) = sel_ok ch" and "evolves ch (put_conn c y ch)"
proof -
  have "port_ok (ports ch) y" using base_okD(4) [OF assms(1,2)] assms(3) by (simp add: port_ok_def)
  then show b: "base_ok (put_conn c y ch)"
    using assms(1) unfolding base_ok_def by (auto simp: ran_def)
  show "sel_ok (put_conn c y ch) = sel_ok ch" by (simp add: sel_ok_def)
  with b show "evolves ch (put_conn c y ch)" using assms(2) by (auto simp: evolves_def)
qed

lemma sync_put_conn:
  assumes "base_ok ch" and "heap ch c = Some x" and "write_state y = write_state x" and "receiving y = receiving x" and "sync ch"
  shows "sync (put_conn c y ch)"
proof -
  have live: "\<forall>c \<in> set (conns ch). c \<in> dom (heap ch)" using assms(1) by (auto simp: base_ok_def)
  have e: "writable (conn_at (put_conn c y ch) d) = writable (conn_at ch d)" "receiving (conn_at (put_conn c y ch) d) = receiving (conn_at ch d)"
    "active (the (((heap ch)(c \<mapsto> y)) d)) = active (the (heap ch d))" for d
    using assms(2-4) by (auto simp: conn_at_def writable_def active_def)
  have "compute_ice_transport_state (put_conn c y ch) = compute_ice_transport_state ch"
    unfolding compute_ice_transport_state_def using live
    by (simp add: exists_conn_live e del: fun_upd_apply)
  then show ?thesis using assms(5) by (simp add: sync_def e split: option.split)
qed

context readable_memory
begin

lemma update_receiving_ok:
  assumes "base_ok ch" and "sync ch" and "heap ch c = Some x"
  shows "returns (\<lambda>ch'. evolves ch ch' \<and> sync ch' \<and> touches c ch ch' \<and>
    (\<exists>r s. heap ch' c = Some (x\<lparr>receiving := r, selected := s\<rparr>))) (update_receiving w c now ch)"
proof (cases "receiving x = compute_receiving now x")
  case True
  moreover have "\<exists>r s. heap ch c = Some (x\<lparr>receiving := r, selected := s\<rparr>)"
    using assms(3) by (intro exI [of _ "receiving x"] exI [of _ "selected x"]) simp
  ultimately show ?thesis using assms by (simp add: update_receiving_def evolves_def touches_def Let_def)
next
  case False
  define y where "y = x\<lparr>receiving := compute_receiving now x\<rparr>"
  have y: "base_ok (put_conn c y ch)" "evolves ch (put_conn c y ch)" using put_conn_ok [OF assms(1,3)] by (simp_all add: y_def)
  have "returns (settled (put_conn c y ch)) (update_receiving w c now ch)"
    using sort_connections_and_update_state_ok [OF y(1)] False assms(3) by (simp add: update_receiving_def y_def Let_def)
  then show ?thesis
  proof (rule returns_weaken)
    fix ch' assume s: "settled (put_conn c y ch) ch'"
    then have f: "frame (put_conn c y ch) ch'" by (simp add: settled_def)
    obtain z where z: "heap ch' c = Some z" "conn_eq y z" using frame_heap(2) [OF f, of c y] by auto
    then have "heap ch' c = Some (x\<lparr>receiving := compute_receiving now x, selected := selected z\<rparr>)"
      by (simp add: conn_eq_def y_def)
    moreover have "touches c ch ch'" using frame_touches [OF f] put_conn_touches touches_trans by blast
    ultimately show "evolves ch ch' \<and> sync ch' \<and> touches c ch ch' \<and> (\<exists>r s. heap ch' c = Some (x\<lparr>receiving := r, selected := s\<rparr>))"
      using s evolves_trans [OF y(2) settled_evolves [OF s]] by (auto simp: settled_def)
  qed
qed

lemma set_write_state_ok:
  assumes "base_ok ch" and "sync ch" and "heap ch c = Some x"
  shows "returns (\<lambda>ch'. evolves ch ch' \<and> sync ch' \<and> touches c ch ch' \<and>
    (\<exists>s. heap ch' c = Some (x\<lparr>write_state := st, selected := s\<rparr>))) (set_write_state w c st ch)"
proof -
  define y where "y = x\<lparr>write_state := st\<rparr>"
  have y: "base_ok (put_conn c y ch)" "evolves ch (put_conn c y ch)" using put_conn_ok [OF assms(1,3)] by (simp_all add: y_def)
  show ?thesis
  proof (cases "write_state x = st")
    case True
    then have "sync (put_conn c y ch)" using sync_put_conn [OF assms(1,3) _ _ assms(2)] by (simp add: y_def)
    moreover have "\<exists>s. heap (put_conn c y ch) c = Some (x\<lparr>write_state := st, selected := s\<rparr>)"
      by (intro exI [of _ "selected x"]) (simp add: y_def)
    moreover have "set_write_state w c st ch = Inr (put_conn c y ch)"
      using True assms(3) by (simp add: set_write_state_def y_def Let_def)
    ultimately show ?thesis using y by simp
  next
    case False
    have "returns (settled (put_conn c y ch)) (set_write_state w c st ch)"
      using sort_connections_and_update_state_ok [OF y(1)] False assms(3) by (simp add: set_write_state_def y_def Let_def)
    then show ?thesis
    proof (rule returns_weaken)
      fix ch' assume s: "settled (put_conn c y ch) ch'"
      then have f: "frame (put_conn c y ch) ch'" by (simp add: settled_def)
      obtain z where z: "heap ch' c = Some z" "conn_eq y z" using frame_heap(2) [OF f, of c y] by auto
      then have "heap ch' c = Some (x\<lparr>write_state := st, selected := selected z\<rparr>)"
        by (simp add: conn_eq_def y_def)
      moreover have "touches c ch ch'" using frame_touches [OF f] put_conn_touches touches_trans by blast
      ultimately show "evolves ch ch' \<and> sync ch' \<and> touches c ch ch' \<and> (\<exists>s. heap ch' c = Some (x\<lparr>write_state := st, selected := s\<rparr>))"
        using s evolves_trans [OF y(2) settled_evolves [OF s]] by (auto simp: settled_def)
    qed
  qed
qed

end

text \<open>The write state after an update, as a function of the connection alone.\<close>

definition next_write_state :: "int \<Rightarrow> ice_connection \<Rightarrow> WriteState" where
  "next_write_state now x =
     (let ws = (if write_state x = STATE_WRITABLE \<and> too_many_ping_fails CONNECTION_WRITE_CONNECT_FAILS (rtt_bound x) now x \<and>
                   too_long_without_response CONNECTION_WRITE_CONNECT_TIMEOUT now x
                then STATE_WRITE_UNRELIABLE else write_state x)
      in if (ws = STATE_WRITE_UNRELIABLE \<or> ws = STATE_WRITE_INIT) \<and> too_long_without_response CONNECTION_WRITE_TIMEOUT now x
         then STATE_WRITE_TIMEOUT else ws)"

context readable_memory
begin

lemma conn_update_state_ok:
  assumes "base_ok ch" and "sync ch" and "heap ch c = Some x"
  shows "returns (\<lambda>ch'. evolves ch ch' \<and> sync ch' \<and> touches c ch ch' \<and>
    (\<exists>r s. heap ch' c = Some (x\<lparr>write_state := next_write_state now x, receiving := r, selected := s\<rparr>))) (conn_update_state w now c ch)"
proof -
  define down where "down \<longleftrightarrow> write_state x = STATE_WRITABLE \<and> too_many_ping_fails CONNECTION_WRITE_CONNECT_FAILS (rtt_bound x) now x \<and>
    too_long_without_response CONNECTION_WRITE_CONNECT_TIMEOUT now x"
  define ws where "ws = (if down then STATE_WRITE_UNRELIABLE else write_state x)"
  define dead where "dead \<longleftrightarrow> (ws = STATE_WRITE_UNRELIABLE \<or> ws = STATE_WRITE_INIT) \<and> too_long_without_response CONNECTION_WRITE_TIMEOUT now x"
  have next_ws: "next_write_state now x = (if dead then STATE_WRITE_TIMEOUT else ws)"
    by (simp add: next_write_state_def dead_def ws_def down_def)
  have same: "too_long_without_response t now (x\<lparr>write_state := a, selected := s\<rparr>) = too_long_without_response t now x" for t a s
    by (simp add: too_long_without_response_def)
  define I where "I v ch' \<longleftrightarrow> evolves ch ch' \<and> sync ch' \<and> touches c ch ch' \<and> (\<exists>s. heap ch' c = Some (x\<lparr>write_state := v, selected := s\<rparr>))" for v ch'
  have step: "returns (I v') (if b then set_write_state w c v' ch1 else Inr ch1)" if "I v ch1" "\<not> b \<Longrightarrow> v' = v" for v v' b ch1
  proof -
    from that(1) obtain s where s: "heap ch1 c = Some (x\<lparr>write_state := v, selected := s\<rparr>)" and e: "evolves ch ch1" "sync ch1" "touches c ch ch1"
      by (auto simp: I_def)
    then have b1: "base_ok ch1" by (simp add: evolves_def)
    show ?thesis
    proof (cases b)
      case True
      have "returns (I v') (set_write_state w c v' ch1)"
        by (rule returns_weaken [OF set_write_state_ok [OF b1 e(2) s]])
          (use e evolves_trans touches_trans in \<open>auto simp: I_def\<close>)
      then show ?thesis using True by simp
    qed (use that in simp)
  qed
  have "I (write_state x) ch" using assms by (auto simp: I_def evolves_def touches_def intro!: exI [of _ "selected x"])
  from step [OF this, of down STATE_WRITE_UNRELIABLE] have one: "returns (I ws) (if down then set_write_state w c STATE_WRITE_UNRELIABLE ch else Inr ch)"
    using \<open>I (write_state x) ch\<close> by (cases down) (simp_all add: ws_def)
  have two: "returns (\<lambda>ch'. evolves ch ch' \<and> sync ch' \<and> touches c ch ch' \<and>
      (\<exists>r s. heap ch' c = Some (x\<lparr>write_state := next_write_state now x, receiving := r, selected := s\<rparr>)))
      (bindE (deref (heap ch1) c) (\<lambda>x1.
        bindE (if (write_state x1 = STATE_WRITE_UNRELIABLE \<or> write_state x1 = STATE_WRITE_INIT) \<and>
               too_long_without_response CONNECTION_WRITE_TIMEOUT now x1
            then set_write_state w c STATE_WRITE_TIMEOUT ch1 else Inr ch1) (\<lambda>ch. update_receiving w c now ch)))"
    if i1: "I ws ch1" for ch1
  proof -
    obtain s where s: "heap ch1 c = Some (x\<lparr>write_state := ws, selected := s\<rparr>)" using i1 by (auto simp: I_def)
    have r: "returns (I (next_write_state now x)) (if dead then set_write_state w c STATE_WRITE_TIMEOUT ch1 else Inr ch1)"
      using step [OF i1, of dead "next_write_state now x"] by (simp add: next_ws split: if_splits)
    have d: "deref (heap ch1) c = Inr (x\<lparr>write_state := ws, selected := s\<rparr>)" using s by simp
    show ?thesis
      unfolding d bindE_Inr
    proof (rule returns_bind)
      show "returns (I (next_write_state now x)) (if (write_state (x\<lparr>write_state := ws, selected := s\<rparr>) = STATE_WRITE_UNRELIABLE \<or>
          write_state (x\<lparr>write_state := ws, selected := s\<rparr>) = STATE_WRITE_INIT) \<and>
          too_long_without_response CONNECTION_WRITE_TIMEOUT now (x\<lparr>write_state := ws, selected := s\<rparr>)
          then set_write_state w c STATE_WRITE_TIMEOUT ch1 else Inr ch1)"
        using r by (simp add: same dead_def)
      fix ch2 assume "I (next_write_state now x) ch2"
      then obtain s2 where s2: "heap ch2 c = Some (x\<lparr>write_state := next_write_state now x, selected := s2\<rparr>)"
        and e2: "evolves ch ch2" "sync ch2" "touches c ch ch2" by (auto simp: I_def)
      then have "base_ok ch2" by (simp add: evolves_def)
      from update_receiving_ok [OF this e2(2) s2] show "returns (\<lambda>ch'. evolves ch ch' \<and> sync ch' \<and> touches c ch ch' \<and>
          (\<exists>r s. heap ch' c = Some (x\<lparr>write_state := next_write_state now x, receiving := r, selected := s\<rparr>))) (update_receiving w c now ch2)"
        by (rule returns_weaken) (use e2 evolves_trans touches_trans in \<open>auto\<close>)
    qed
  qed
  show ?thesis
    unfolding conn_update_state_def deref_ok [of "heap ch" c x, OF assms(3)] bindE_Inr Let_def down_def [symmetric]
    by (rule returns_bind [OF one two])
qed

end

lemma conn_eq_next_write_state: "conn_eq x y \<Longrightarrow> next_write_state now y = next_write_state now x"
proof -
  assume "conn_eq x y"
  then obtain s where y: "y = x\<lparr>selected := s\<rparr>" unfolding conn_eq_def by blast
  show ?thesis
    unfolding y by (simp add: next_write_state_def too_long_without_response_def too_many_ping_fails_def rtt_bound_def)
qed

context readable_memory
begin

lemma update_connection_states_ok:
  assumes "base_ok ch" and "sync ch" and "distinct cs" and "set cs \<subseteq> dom (heap ch)"
  shows "returns (\<lambda>ch'. evolves ch ch' \<and> sync ch' \<and>
    (\<forall>c \<in> set cs. write_state (conn_at ch' c) = next_write_state now (conn_at ch c)) \<and>
    (\<forall>c. c \<notin> set cs \<longrightarrow> rel_option conn_eq (heap ch c) (heap ch' c))) (update_connection_states w now cs ch)"
  using assms
proof (induction cs arbitrary: ch)
  case Nil
  then show ?case by (simp add: evolves_def)
next
  case (Cons c cs)
  then obtain x where x: "heap ch c = Some x" by auto
  show ?case unfolding update_connection_states.simps
  proof (rule returns_bind [OF conn_update_state_ok [OF Cons.prems(1,2) x]])
    fix ch1 assume a: "evolves ch ch1 \<and> sync ch1 \<and> touches c ch ch1 \<and>
      (\<exists>r s. heap ch1 c = Some (x\<lparr>write_state := next_write_state now x, receiving := r, selected := s\<rparr>))"
    then have ws: "write_state (conn_at ch1 c) = next_write_state now x" by (auto simp: conn_at_def)
    have other: "conn_eq (conn_at ch d) (conn_at ch1 d)" if "d \<noteq> c" "d \<in> dom (heap ch)" for d
    proof -
      have "rel_option conn_eq (heap ch d) (heap ch1 d)" using a that by (simp add: touches_def)
      then show ?thesis using that by (auto simp: conn_at_def option_rel_Some1)
    qed
    have "returns (\<lambda>ch'. evolves ch1 ch' \<and> sync ch' \<and>
        (\<forall>d \<in> set cs. write_state (conn_at ch' d) = next_write_state now (conn_at ch1 d)) \<and>
        (\<forall>d. d \<notin> set cs \<longrightarrow> rel_option conn_eq (heap ch1 d) (heap ch' d))) (update_connection_states w now cs ch1)"
      using a Cons.prems by (intro Cons.IH) (auto simp: evolves_def)
    then show "returns (\<lambda>ch'. evolves ch ch' \<and> sync ch' \<and>
        (\<forall>d \<in> set (c # cs). write_state (conn_at ch' d) = next_write_state now (conn_at ch d)) \<and>
        (\<forall>d. d \<notin> set (c # cs) \<longrightarrow> rel_option conn_eq (heap ch d) (heap ch' d))) (update_connection_states w now cs ch1)"
    proof (rule returns_weaken)
      fix ch2 assume b: "evolves ch1 ch2 \<and> sync ch2 \<and>
        (\<forall>d \<in> set cs. write_state (conn_at ch2 d) = next_write_state now (conn_at ch1 d)) \<and>
        (\<forall>d. d \<notin> set cs \<longrightarrow> rel_option conn_eq (heap ch1 d) (heap ch2 d))"
      have "c \<notin> set cs" using Cons.prems(3) by simp
      then have "rel_option conn_eq (heap ch1 c) (heap ch2 c)" using b by blast
      then have "conn_eq (conn_at ch1 c) (conn_at ch2 c)"
        using a by (auto simp: conn_at_def option_rel_Some1)
      then have "write_state (conn_at ch2 c) = write_state (conn_at ch1 c)" by (rule conn_eqD(2))
      then have "write_state (conn_at ch2 c) = next_write_state now (conn_at ch c)" using ws x by (simp add: conn_at_def)
      moreover have "next_write_state now (conn_at ch1 d) = next_write_state now (conn_at ch d)" if "d \<in> set cs" for d
      proof -
        have "d \<noteq> c" "d \<in> dom (heap ch)" using that Cons.prems(3,4) by auto
        then show ?thesis by (intro conn_eq_next_write_state other)
      qed
      moreover have "rel_option conn_eq (heap ch d) (heap ch2 d)" if "d \<notin> set (c # cs)" for d
        using that a b rel_option_trans_conn unfolding touches_def by (metis list.set_intros)
      ultimately show "evolves ch ch2 \<and> sync ch2 \<and>
        (\<forall>d \<in> set (c # cs). write_state (conn_at ch2 d) = next_write_state now (conn_at ch d)) \<and>
        (\<forall>d. d \<notin> set (c # cs) \<longrightarrow> rel_option conn_eq (heap ch d) (heap ch2 d))"
        using a b evolves_trans by auto
    qed
  qed
qed

end

subsection \<open>Requests can always be built\<close>

definition attr_fits :: "stun_attr \<Rightarrow> bool" where
  "attr_fits a = (case attr_body a of ByteString bs \<Rightarrow> unat (attr_length a) \<le> length bs | _ \<Rightarrow> True)"

lemma attr_write_rejects: "attr_fits a \<Longrightarrow> only_rejects (attr_write env a)"
  by (auto simp: attr_fits_def attr_write_defs xor_address_bytes_def address_bytes_def only_rejects_bindE
      split: attr_body.splits ip_address.splits)

lemma write_rejects: "list_all attr_fits (msg_attrs m) \<Longrightarrow> only_rejects (StunMessage_write env m)"
proof -
  have "only_rejects (write_attrs env as)" if "list_all attr_fits as" for as
    using that by (induction as) (simp_all add: only_rejects_bindE attr_write_rejects)
  then show "list_all attr_fits (msg_attrs m) \<Longrightarrow> only_rejects (StunMessage_write env m)"
    by (simp add: StunMessage_write_def only_rejects_bindE)
qed

lemma fits_copy [simp]: "attr_fits (copy_bytes bs a)"
  by (simp add: attr_fits_def copy_bytes_def unat_of_nat)

lemma fits_new [simp]:
  "attr_fits (StunByteStringAttribute_new t bs)" "attr_fits (StunUInt32Attribute_new t v)" "attr_fits (StunUInt64Attribute_new t u)"
  "attr_fits (StunByteStringAttribute_length t 0)" "attr_fits (StunXorAddressAttribute_new t addr)" "attr_fits (a\<lparr>attr_body := UInt32 v\<rparr>)"
  "attr_fits (set_reason r (set_code n create_error_code))"
  by (simp_all add: attr_fits_def StunByteStringAttribute_new_def copy_bytes_def StunUInt32Attribute_new_def
      StunUInt64Attribute_new_def StunByteStringAttribute_length_def StunXorAddressAttribute_new_def unat_of_nat
      set_reason_def set_code_def create_error_code_def)

lemma fits_add: "list_all attr_fits (msg_attrs m) \<Longrightarrow> attr_fits a \<Longrightarrow> list_all attr_fits (msg_attrs (add_attribute a m))"
  by simp

lemma fits_butlast: "list_all attr_fits as \<Longrightarrow> list_all attr_fits (butlast as)"
  by (simp add: list_all_iff in_set_butlastD)

lemma add_message_integrity_returns:
  assumes "list_all attr_fits (msg_attrs m)"
  shows "returns (\<lambda>(m', _). list_all attr_fits (msg_attrs m')) (add_message_integrity env pw m)"
proof -
  define m1 where "m1 = add_attribute (StunByteStringAttribute_new STUN_ATTR_MESSAGE_INTEGRITY (replicate 20 0x30)) m"
  have m1: "list_all attr_fits (msg_attrs m1)" using assms by (simp add: m1_def)
  then have "only_rejects (StunMessage_write env m1)" by (rule write_rejects)
  then consider "StunMessage_write env m1 = Inl Rejected" | bs where "StunMessage_write env m1 = Inr bs"
    by (auto elim: only_rejectsE)
  then show ?thesis
    unfolding add_message_integrity_def add_message_integrity_of_type_def Let_def k_stun_message_integrity_size_def m1_def [symmetric]
    using m1 fits_butlast by cases (auto simp: update_last_attr_def)
qed

lemma add_fingerprint_returns:
  assumes "list_all attr_fits (msg_attrs m)"
  shows "returns (\<lambda>(m', _). list_all attr_fits (msg_attrs m')) (add_fingerprint env m)"
proof -
  define m1 where "m1 = add_attribute (StunUInt32Attribute_new STUN_ATTR_FINGERPRINT 0) m"
  have m1: "list_all attr_fits (msg_attrs m1)" using assms by (simp add: m1_def)
  then have "only_rejects (StunMessage_write env m1)" by (rule write_rejects)
  then consider "StunMessage_write env m1 = Inl Rejected" | bs where "StunMessage_write env m1 = Inr bs"
    by (auto elim: only_rejectsE)
  then show ?thesis
    unfolding add_fingerprint_def Let_def m1_def [symmetric]
    using m1 fits_butlast by cases (auto simp: update_last_attr_def)
qed

lemma sign_returns:
  assumes "list_all attr_fits (msg_attrs m)"
  shows "returns (\<lambda>m'. list_all attr_fits (msg_attrs m')) (sign env pw m)"
  unfolding sign_def
proof (rule returns_bind [OF add_message_integrity_returns [OF assms]], clarsimp)
  fix m1 :: stun_message assume "list_all attr_fits (msg_attrs m1)"
  from add_fingerprint_returns [OF this] show "returns (\<lambda>m'. list_all attr_fits (msg_attrs m')) (bindE (add_fingerprint env m1) (\<lambda>(m, _). Inr m))"
    by (rule returns_bind) auto
qed

lemma ping_returns:
  assumes "local_candidate ie port = Inr l"
  shows "returns (\<lambda>(y, _). conn_port y = conn_port x \<and> write_state y = write_state x \<and> receiving y = receiving x)
    (ping ie port tid tb now ts x)"
proof -
  let ?x = "x\<lparr>last_ping_sent := now, pings_since_last_response := pings_since_last_response x @ [\<lparr>ping_id = tid, sent_time = now\<rparr>]\<rparr>"
  have "list_all attr_fits (msg_attrs (request_body port l (remote_candidate x) tb tid))"
    by (simp add: request_body_def set_type_def set_transaction_id_def StunMessage_new_def)
  then have p: "returns (\<lambda>m. list_all attr_fits (msg_attrs m)) (prepare ie port ?x tb (set_transaction_id tid StunMessage_new))"
    using sign_returns prepare_sign [OF assms, of ?x] by simp
  show ?thesis
    unfolding ping_def Let_def
  proof (rule returns_bind [OF p])
    fix m :: stun_message assume "list_all attr_fits (msg_attrs m)"
    then have "only_rejects (StunMessage_write (ice_stun ie) m)" by (rule write_rejects)
    then have "\<exists>q. StunRequest_send ie port a t m = Inr q" for a t
      by (auto elim!: only_rejectsE simp: StunRequest_send_def)
    then obtain q where "StunRequest_send ie port (address (remote_candidate ?x)) ts m = Inr q" by blast
    then show "returns (\<lambda>(y, _). conn_port y = conn_port x \<and> write_state y = write_state x \<and> receiving y = receiving x)
      (bindE (StunRequest_send ie port (address (remote_candidate ?x)) ts m) (\<lambda>(req, sent).
        Inr ((set_state IN_PROGRESS (?x\<lparr>requests := (requests ?x)(tid \<mapsto> req)\<rparr>))
          \<lparr>num_pings_sent := num_pings_sent (set_state IN_PROGRESS (?x\<lparr>requests := (requests ?x)(tid \<mapsto> req)\<rparr>)) + 1\<rparr>, sent)))"
      by (cases q) (simp add: set_state_def del: bindE_eq_Inr)
  qed
qed

section \<open>The timer\<close>

lemma ctl_weak_total: "\<forall>s. ctl_selected ctl = Some s \<longrightarrow> s \<in> dom st \<Longrightarrow> \<exists>w. ctl_weak st ctl = Inr w"
  by (cases "ctl_selected ctl") (auto simp: ctl_weak_def)

lemma pick_loop_ok:
  assumes "\<forall>c \<in> set cs. c \<in> dom st" and "\<forall>s. ctl_selected ctl = Some s \<longrightarrow> s \<in> dom st" and "\<forall>f. found = Some f \<longrightarrow> f \<in> dom st"
  shows "returns (\<lambda>r. \<forall>c. r = Some c \<longrightarrow> c \<in> set cs \<or> found = Some c) (pick_loop st ctl now cs found)"
  using assms
proof (induction cs arbitrary: found)
  case (Cons c cs)
  obtain x where x: "st c = Some x" using Cons.prems(1) by auto
  obtain b where b: "is_pingable st ctl now c = Inr b" using is_pingable_total [of c st ctl now] Cons.prems(1,2) by auto
  obtain y where y: "(case found of None \<Rightarrow> Inr None | Some f \<Rightarrow> bindE (deref st f) (\<lambda>y. Inr (Some y))) = Inr y"
    using Cons.prems(3) by (cases found) auto
  define found' where "found' = (if \<not> b then found else if more_pingable x y then Some c else found)"
  have "\<forall>f. found' = Some f \<longrightarrow> f \<in> dom st" using Cons.prems(1,3) by (simp add: found'_def)
  then have "returns (\<lambda>r. \<forall>c. r = Some c \<longrightarrow> c \<in> set cs \<or> found' = Some c) (pick_loop st ctl now cs found')"
    using Cons.prems by (intro Cons.IH) auto
  moreover have "pick_loop st ctl now (c # cs) found = pick_loop st ctl now cs found'"
    using b x y by (simp add: found'_def del: bindE_eq_Inr)
  ultimately show ?case by (auto elim!: returns_weaken simp: found'_def split: if_splits)
qed simp

text \<open>Moving between the ping lists keeps the partition.\<close>

definition ping_lists_ok :: "ice_controller \<Rightarrow> bool" where
  "ping_lists_ok ctl \<longleftrightarrow> pinged_connections ctl \<union> unpinged_connections ctl = set (ctl_connections ctl) \<and>
     pinged_connections ctl \<inter> unpinged_connections ctl = {}"

lemma find_next_ok:
  assumes "ping_lists_ok ctl" and "\<forall>c \<in> set (ctl_connections ctl). c \<in> dom st" and "\<forall>s. ctl_selected ctl = Some s \<longrightarrow> s \<in> dom st"
  shows "returns (\<lambda>(ctl', conn). ping_lists_ok ctl' \<and> ctl_selected ctl' = ctl_selected ctl \<and> ctl_connections ctl' = ctl_connections ctl \<and>
    (\<forall>c. conn = Some c \<longrightarrow> c \<in> set (ctl_connections ctl) \<or> ctl_selected ctl = Some c)) (find_next_pingable_connection st now ctl)"
proof -
  obtain w where w: "ctl_weak st ctl = Inr w" using ctl_weak_total [OF assms(3)] by blast
  have "\<exists>u. (case ctl_selected ctl of None \<Rightarrow> Inr False | Some c \<Rightarrow> bindE (deref st c) (\<lambda>x.
      if writable x then is_connection_past_ping_interval st ctl x now else Inr False)) = Inr u"
    using assms(3) w by (cases "ctl_selected ctl") (auto simp: is_connection_past_ping_interval_def get_connection_ping_interval_def simp del: bindE_eq_Inr)
  then obtain u where u: "(case ctl_selected ctl of None \<Rightarrow> Inr False | Some c \<Rightarrow> bindE (deref st c) (\<lambda>x.
      if writable x then is_connection_past_ping_interval st ctl x now else Inr False)) = Inr u" by blast
  have fin: "finite (unpinged_connections ctl)" "finite (pinged_connections ctl)"
    using assms(1) unfolding ping_lists_ok_def by (metis List.finite_set finite_Un)+
  have live: "c \<in> dom st" if "c \<in> pinged_connections ctl \<union> unpinged_connections ctl" for c
    using that assms(1,2) unfolding ping_lists_ok_def by blast
  obtain h where h: "exists_conn (is_pingable st ctl now) (sorted_list_of_set (unpinged_connections ctl)) = Inr h"
    using exists_conn_total [of "sorted_list_of_set (unpinged_connections ctl)" "is_pingable st ctl now"] is_pingable_total [OF _ assms(3)] live fin
    by auto
  define ctl' where "ctl' = (if \<not> h then ctl\<lparr>unpinged_connections := unpinged_connections ctl \<union> pinged_connections ctl, pinged_connections := {}\<rparr> else ctl)"
  have c': "ping_lists_ok ctl'" "ctl_selected ctl' = ctl_selected ctl" "ctl_connections ctl' = ctl_connections ctl"
    "set (sorted_list_of_set (unpinged_connections ctl')) \<subseteq> set (ctl_connections ctl)"
    using assms(1) fin by (auto simp: ctl'_def ping_lists_ok_def)
  have "returns (\<lambda>r. \<forall>c. r = Some c \<longrightarrow> c \<in> set (sorted_list_of_set (unpinged_connections ctl')) \<or> None = Some c)
      (pick_loop st ctl' now (sorted_list_of_set (unpinged_connections ctl')) None)"
    using c' assms(2,3) by (intro pick_loop_ok) auto
  then have "returns (\<lambda>(ctl'', conn). ctl'' = ctl' \<and> (\<forall>c. conn = Some c \<longrightarrow> c \<in> set (ctl_connections ctl)))
      (bindE (pick_loop st ctl' now (sorted_list_of_set (unpinged_connections ctl')) None) (\<lambda>found. Inr (ctl', found)))"
    by (rule returns_bind) (use c'(4) in auto)
  then show ?thesis
    unfolding find_next_pingable_connection_def u bindE_Inr
    using assms(1) c'(1-3) h by (auto elim!: returns_weaken simp: Let_def ctl'_def [symmetric] simp del: bindE_eq_Inr)
qed

lemma select_connection_ok:
  assumes "ping_lists_ok ctl" and "\<forall>c \<in> set (ctl_connections ctl). c \<in> dom st" and "\<forall>s. ctl_selected ctl = Some s \<longrightarrow> s \<in> dom st"
  shows "returns (\<lambda>(ctl', conn, i). ping_lists_ok ctl' \<and> ctl_selected ctl' = ctl_selected ctl \<and> ctl_connections ctl' = ctl_connections ctl \<and>
    (\<forall>c. conn = Some c \<longrightarrow> c \<in> set (ctl_connections ctl) \<or> ctl_selected ctl = Some c)) (select_connection_to_ping st l now ctl)"
proof -
  obtain w where w: "ctl_weak st ctl = Inr w" using ctl_weak_total [OF assms(3)] by blast
  show ?thesis
    unfolding select_connection_to_ping_def exists_conn_live [OF assms(2)] bindE_Inr w Let_def
    using assms(1)
    by (auto intro!: returns_bind [OF find_next_ok [OF assms]])
qed

definition ok :: "ice_channel \<Rightarrow> bool" where
  "ok ch \<longleftrightarrow> base_ok ch \<and> sel_ok ch \<and> sync ch"

lemma emit_ok [simp]: "base_ok (emit es ch) = base_ok ch" "sel_ok (emit es ch) = sel_ok ch" "sync (emit es ch) = sync ch"
  using same_view_ok [of ch "emit es ch"] same_view_sync [of ch "emit es ch"] by (simp_all add: same_view_def)

lemma next_tick_ok [simp]: "base_ok (next_tick ch) = base_ok ch" "sel_ok (next_tick ch) = sel_ok ch" "sync (next_tick ch) = sync ch"
  using same_view_ok [of ch "next_tick ch"] same_view_sync [of ch "next_tick ch"] by (simp_all add: same_view_def)

lemma emit_datagrams_ok [simp]:
  "base_ok (emit_datagrams ds ch) = base_ok ch" "sel_ok (emit_datagrams ds ch) = sel_ok ch" "sync (emit_datagrams ds ch) = sync ch"
  "heap (emit_datagrams ds ch) = heap ch" "controller (emit_datagrams ds ch) = controller ch" "ports (emit_datagrams ds ch) = ports ch"
  "tick (emit_datagrams ds ch) = tick ch" "ch_selected (emit_datagrams ds ch) = ch_selected ch"
  by (simp_all add: emit_datagrams_def)

lemma controller_ok:
  assumes "ok ch" and "ping_lists_ok ctl" and "ctl_selected ctl = ctl_selected (controller ch)" and "ctl_connections ctl = conns ch"
  shows "ok (ch\<lparr>controller := ctl\<rparr>)"
proof -
  have "compute_ice_transport_state (ch\<lparr>controller := ctl\<rparr>) = compute_ice_transport_state ch"
    using assms(4) by (intro compute_state_cong) simp_all
  then show ?thesis
    using assms by (simp add: ok_def base_ok_def sel_ok_def sync_def conn_at_def ping_lists_ok_def split: option.split)
qed

lemma ok_ping_lists: "base_ok ch \<Longrightarrow> ping_lists_ok (controller ch)"
  by (simp add: base_ok_def ping_lists_ok_def)

context readable_memory
begin

lemma ping_connection_ok:
  assumes "ok ch" and "heap ch c = Some x"
  shows "returns (\<lambda>ch'. ok ch' \<and> controller ch' = controller ch \<and> ch_state ch' = ch_state ch \<and> ports ch' = ports ch) (ping_connection w c ch)"
proof -
  define ch1 where "ch1 = next_tick (ch\<lparr>last_ping_sent_ms := TimeMillis w (tick ch)\<rparr>)"
  have v: "same_view ch ch1" by (simp add: same_view_def ch1_def next_tick_def)
  have ok1: "base_ok ch1" "sel_ok ch1" "sync ch1" and h1: "heap ch1 c = Some x"
    using same_view_ok [OF v] same_view_sync [OF v] assms by (simp_all add: ok_def ch1_def next_tick_def)
  then have "port_ok (ports ch1) x" using base_okD(4) by blast
  then have port: "port_of ch1 x = Inr (ports ch1 ! conn_port x)" "candidates (ports ch1 ! conn_port x) \<noteq> []"
    by (simp_all add: port_ok_def port_of_def)
  then obtain l where p: "port_of ch1 x = Inr (ports ch1 ! conn_port x)" "local_candidate (ice w) (ports ch1 ! conn_port x) = Inr l"
    using readable [of "candidates (ports ch1 ! conn_port x) ! 0"] by (auto simp: local_candidate_def)
  have "returns (\<lambda>ch'. ok ch' \<and> controller ch' = controller ch1 \<and> ch_state ch' = ch_state ch1 \<and> ports ch' = ports ch1)
     (bindE (ping (ice w) (ports ch1 ! conn_port x) (CreateRandomString w (tick ch1)) (CreateRandomId64 w (tick ch1))
          (TimeMillis w (tick ch)) (TimeMillis w (tick ch1)) x)
        (\<lambda>(x, sent). Inr (emit_datagrams sent (put_conn c x (next_tick ch1)))))"
  proof (rule returns_bind [OF ping_returns [OF p(2)]], clarsimp)
    fix y :: ice_connection and sent assume y: "conn_port y = conn_port x" "write_state y = write_state x" "receiving y = receiving x"
    have "base_ok (next_tick ch1)" "sync (next_tick ch1)" "heap (next_tick ch1) c = Some x" using ok1 h1 by simp_all
    from put_conn_ok(1,2) [OF this(1,3) y(1)] sync_put_conn [OF this(1,3) y(2,3) this(2)] ok1
    show "ok (emit_datagrams sent (put_conn c y (next_tick ch1))) \<and>
        ch_state (emit_datagrams sent (put_conn c y (next_tick ch1))) = ch_state ch1"
      by (simp add: ok_def emit_datagrams_def)
  qed
  moreover have "controller ch1 = controller ch" "ch_state ch1 = ch_state ch" "ports ch1 = ports ch" by (simp_all add: ch1_def next_tick_def)
  ultimately show ?thesis
    using h1 p(1) unfolding ping_connection_def Let_def ch1_def [symmetric] by (simp del: bindE_eq_Inr)
qed

end

lemma mark_ok: "ping_lists_ok ctl \<Longrightarrow> c \<in> set (ctl_connections ctl) \<Longrightarrow> ping_lists_ok (mark_connection_pinged c ctl)"
  by (auto simp: ping_lists_ok_def mark_connection_pinged_def)

lemma mark_fields [simp]: "ctl_selected (mark_connection_pinged c ctl) = ctl_selected ctl"
  "ctl_connections (mark_connection_pinged c ctl) = ctl_connections ctl"
  by (simp_all add: mark_connection_pinged_def)

text \<open>One round of the timer: the write states move on, then the channel pings.\<close>

context readable_memory
begin

lemma on_check_and_ping_ok:
  assumes "ok ch"
  shows "returns (\<lambda>ch'. ok ch' \<and> ports ch' = ports ch \<and> set (conns ch') = set (conns ch) \<and>
    (\<exists>ch1. sync ch1 \<and> set (conns ch1) = set (conns ch) \<and> ch_state ch' = ch_state ch1 \<and> had_connection ch1 = had_connection ch \<and>
       base_ok ch1 \<and> (\<forall>c \<in> set (conns ch). write_state (conn_at ch1 c) = next_write_state (TimeMillis w (tick ch)) (conn_at ch c))))
    (on_check_and_ping w ch)"
    (is "returns ?P _")
  unfolding on_check_and_ping_def
proof (rule returns_bind)
  show "returns (\<lambda>ch'. evolves ch ch' \<and> sync ch' \<and>
    (\<forall>c \<in> set (conns ch). write_state (conn_at ch' c) = next_write_state (TimeMillis w (tick ch)) (conn_at ch c)))
    (update_connection_states w (TimeMillis w (tick ch)) (conns ch) (next_tick ch))"
  proof (rule returns_weaken [OF update_connection_states_ok])
    show "base_ok (next_tick ch)" "sync (next_tick ch)" "distinct (conns ch)" "set (conns ch) \<subseteq> dom (heap (next_tick ch))"
      using assms by (simp_all add: ok_def base_ok_def)
  qed (simp add: evolves_def conn_at_def)
next
  fix ch1 assume 1: "evolves ch ch1 \<and> sync ch1 \<and>
    (\<forall>c \<in> set (conns ch). write_state (conn_at ch1 c) = next_write_state (TimeMillis w (tick ch)) (conn_at ch c))"
  then have ok1: "ok ch1" and e: "ports ch1 = ports ch" "set (conns ch1) = set (conns ch)" "had_connection ch1 = had_connection ch"
    using assms by (simp_all add: ok_def evolves_def)
  have b1: "base_ok ch1" "sel_ok ch1" using ok1 by (simp_all add: ok_def)
  show "returns ?P (bindE (select_connection_to_ping (heap ch1) (last_ping_sent_ms ch1 - PING_INTERVAL_DIFF) (TimeMillis w (tick ch1)) (controller ch1))
       (\<lambda>(ctl, conn, ping_interval).
     let ch = next_tick (ch1\<lparr>controller := ctl\<rparr>) in
     bindE (case conn of
              None \<Rightarrow> Inr ch
            | Some c \<Rightarrow> bindE (ping_connection w c ch) (\<lambda>ch.
                Inr (ch\<lparr>controller := mark_connection_pinged c (controller ch)\<rparr>))) (\<lambda>ch.
       Inr (if cur_ping_interval ch \<noteq> ping_interval
            then emit [StopTimer, StartTimer (ping_interval * 1000)] (ch\<lparr>cur_ping_interval := ping_interval\<rparr>)
            else ch))))"
  proof (rule returns_bind [OF select_connection_ok], goal_cases)
    case 1
    then show ?case using b1 by (simp add: ok_ping_lists)
  next
    case 2
    then show ?case using b1 by (auto simp: base_ok_def)
  next
    case 3
    then show ?case using b1 by (auto simp: base_ok_def)
  next
    case (4 r)
    obtain ctl conn i where r: "r = (ctl, conn, i)" by (cases r)
    have c: "ping_lists_ok ctl" "ctl_selected ctl = ctl_selected (controller ch1)" "ctl_connections ctl = conns ch1"
      "\<forall>c. conn = Some c \<longrightarrow> c \<in> set (conns ch1)"
      using 4 r b1(2) by (auto simp: sel_ok_def)
    define ch2 where "ch2 = next_tick (ch1\<lparr>controller := ctl\<rparr>)"
    have ok2: "ok ch2" and k2: "conns ch2 = conns ch1" "ports ch2 = ports ch1" "had_connection ch2 = had_connection ch1" "ch_state ch2 = ch_state ch1" "controller ch2 = ctl"
      using controller_ok [OF ok1 c(1-3)] c(3) by (simp_all add: ch2_def ok_def)
    have pinged: "returns (\<lambda>ch3. ok ch3 \<and> conns ch3 = conns ch1 \<and> ports ch3 = ports ch1 \<and> ch_state ch3 = ch_state ch1)
      (case conn of None \<Rightarrow> Inr ch2 | Some c \<Rightarrow> bindE (ping_connection w c ch2) (\<lambda>ch.
                Inr (ch\<lparr>controller := mark_connection_pinged c (controller ch)\<rparr>)))"
    proof (cases conn)
      case None
      then show ?thesis using ok2 k2 by simp
    next
      case (Some d)
      then have d: "d \<in> set (conns ch2)" using c(4) k2 by simp
      then obtain x where x: "heap ch2 d = Some x" using ok2 by (force simp: ok_def base_ok_def)
      show ?thesis unfolding Some option.case
      proof (rule returns_bind [OF ping_connection_ok [OF ok2 x]], clarsimp)
        fix ch3 assume 3: "ok ch3" "controller ch3 = controller ch2" "ch_state ch3 = ch_state ch2" "ports ch3 = ports ch2"
        have "ping_lists_ok (mark_connection_pinged d (controller ch2))" using c(1) d k2 by (intro mark_ok) simp_all
        with controller_ok [OF 3(1)] 3 k2 c(3) show "ok (ch3\<lparr>controller := mark_connection_pinged d (controller ch2)\<rparr>) \<and>
            conns ch2 = conns ch1 \<and> ports ch2 = ports ch1 \<and> ch_state ch2 = ch_state ch1" by simp
      qed
    qed
    show ?case unfolding r prod.case Let_def ch2_def [symmetric]
    proof (rule returns_bind [OF pinged])
      fix ch3 assume 3: "ok ch3 \<and> conns ch3 = conns ch1 \<and> ports ch3 = ports ch1 \<and> ch_state ch3 = ch_state ch1"
      show "returns ?P (Inr (if cur_ping_interval ch3 \<noteq> i
            then emit [StopTimer, StartTimer (i * 1000)] (ch3\<lparr>cur_ping_interval := i\<rparr>) else ch3))"
      proof -
        have "same_view ch3 (ch3\<lparr>cur_ping_interval := i\<rparr>)" by (simp add: same_view_def)
        from same_view_ok [OF this] same_view_sync [OF this] have "ok (ch3\<lparr>cur_ping_interval := i\<rparr>) = ok ch3" by (simp add: ok_def)
        moreover have "ok (emit es ch') = ok ch'" for es ch' by (simp add: ok_def)
        ultimately show ?thesis using 1 3 e b1(1) by (auto intro!: exI [of _ ch1])
      qed
    qed
  qed
qed

end

section \<open>Packets and parameters\<close>

text \<open>Ports refer to live connections, and a port with a socket has a candidate.\<close>

definition ports_ok :: "ice_channel \<Rightarrow> bool" where
  "ports_ok ch \<longleftrightarrow> (\<forall>port \<in> set (ports ch). (async_socket port \<longrightarrow> candidates port \<noteq> []) \<and> ran (connections port) \<subseteq> set (conns ch))"

definition chan_inv :: "ice_channel \<Rightarrow> bool" where
  "chan_inv ch \<longleftrightarrow> ok ch \<and> ports_ok ch"

lemma inv_cong:
  "ok ch' \<Longrightarrow> chan_inv ch \<Longrightarrow> ports ch' = ports ch \<Longrightarrow> set (conns ch') = set (conns ch) \<Longrightarrow> chan_inv ch'"
  by (simp add: chan_inv_def ports_ok_def)

lemma inv_emit [simp]: "chan_inv (emit es ch) = chan_inv ch" "chan_inv (emit_datagrams ds ch) = chan_inv ch" "chan_inv (next_tick ch) = chan_inv ch"
  by (simp_all add: chan_inv_def ok_def ports_ok_def emit_datagrams_def)

lemma inv_put_conn:
  assumes "chan_inv ch" and "heap ch c = Some x" and "conn_port y = conn_port x" and "write_state y = write_state x" and "receiving y = receiving x"
  shows "chan_inv (put_conn c y ch)"
proof -
  have b: "base_ok ch" "sync ch" "sel_ok ch" using assms(1) by (simp_all add: chan_inv_def ok_def)
  show ?thesis
    using put_conn_ok [OF b(1) assms(2,3)] sync_put_conn [OF b(1) assms(2,4,5) b(2)] b assms(1)
    by (simp add: chan_inv_def ok_def ports_ok_def)
qed

lemma inv_evolves:
  assumes "chan_inv ch" and "evolves ch ch'" and "sync ch'"
  shows "chan_inv ch'"
  using assms by (simp add: chan_inv_def ok_def evolves_def ports_ok_def)

lemma inv_live: "chan_inv ch \<Longrightarrow> c \<in> set (conns ch) \<Longrightarrow> \<exists>x. heap ch c = Some x"
  by (auto simp: chan_inv_def ok_def dest: base_okD(1))

context readable_memory
begin

lemma received_ping_response_ok:
  assumes "chan_inv ch" and "heap ch c = Some x"
  shows "returns (\<lambda>ch'. chan_inv ch' \<and> (\<exists>y. heap ch' c = Some y \<and> write_state y = STATE_WRITABLE)) (received_ping_response w c sample ch)"
proof -
  define x1 where "x1 = (if rtt_samples x > 0 then x\<lparr>rtt := GetNextMovingAverage (ice w) (rtt x) sample RTT_RATIO\<rparr> else x\<lparr>rtt := sample\<rparr>)"
  define now where "now = TimeMillis w (tick ch)"
  define x2 where "x2 = x1\<lparr>rtt_samples := rtt_samples x1 + 1, last_ping_response_received := now, pings_since_last_response := []\<rparr>"
  define ch1 where "ch1 = put_conn c x2 (next_tick ch)"
  have inv1: "chan_inv ch1" unfolding ch1_def using assms
    by (intro inv_put_conn [where x = x]) (auto simp: x2_def x1_def)
  have h1: "heap ch1 c = Some x2" by (simp add: ch1_def)
  have b1: "base_ok ch1" "sync ch1" using inv1 by (simp_all add: chan_inv_def ok_def)
  show ?thesis
    unfolding received_ping_response_def deref_ok [of "heap ch" c x, OF assms(2)] bindE_Inr Let_def
      x1_def [symmetric] now_def [symmetric] x2_def [symmetric] ch1_def [symmetric]
  proof (rule returns_bind [OF update_receiving_ok [OF b1 h1]])
    fix ch2 assume 2: "evolves ch1 ch2 \<and> sync ch2 \<and> touches c ch1 ch2 \<and> (\<exists>r s. heap ch2 c = Some (x2\<lparr>receiving := r, selected := s\<rparr>))"
    then have inv2: "chan_inv ch2" using inv_evolves [OF inv1] by blast
    then have b2: "base_ok ch2" "sync ch2" by (simp_all add: chan_inv_def ok_def)
    obtain y2 where h2: "heap ch2 c = Some y2" using 2 by blast
    show "returns (\<lambda>ch'. chan_inv ch' \<and> (\<exists>y. heap ch' c = Some y \<and> write_state y = STATE_WRITABLE))
      (bindE (set_write_state w c STATE_WRITABLE ch2) (\<lambda>ch. bindE (deref (heap ch) c) (\<lambda>x. Inr (put_conn c (set_state SUCCEEDED x) ch))))"
    proof (rule returns_bind [OF set_write_state_ok [OF b2 h2]])
      fix ch3 assume 3: "evolves ch2 ch3 \<and> sync ch3 \<and> touches c ch2 ch3 \<and> (\<exists>s. heap ch3 c = Some (y2\<lparr>write_state := STATE_WRITABLE, selected := s\<rparr>))"
      then have inv3: "chan_inv ch3" using inv_evolves [OF inv2] by blast
      obtain y3 where h3: "heap ch3 c = Some y3" "write_state y3 = STATE_WRITABLE" using 3 by auto
      have "chan_inv (put_conn c (set_state SUCCEEDED y3) ch3)"
        using inv_put_conn [OF inv3 h3(1)] by (simp add: set_state_def)
      with h3 show "returns (\<lambda>ch'. chan_inv ch' \<and> (\<exists>y. heap ch' c = Some y \<and> write_state y = STATE_WRITABLE))
          (bindE (deref (heap ch3) c) (\<lambda>x. Inr (put_conn c (set_state SUCCEEDED x) ch3)))"
        by (simp add: set_state_def del: bindE_eq_Inr)
    qed
  qed
qed

end

lemma delete_request_inv:
  assumes "chan_inv ch" and "delete_request c tid ch = Inr ch'"
  shows "chan_inv ch'"
proof -
  obtain x where x: "heap ch c = Some x" "ch' = put_conn c (x\<lparr>requests := (requests x)(tid := None)\<rparr>) ch"
    using assms(2) by (cases "heap ch c") (auto simp: delete_request_def)
  then show ?thesis using inv_put_conn [OF assms(1) x(1)] by simp
qed

text \<open>A connection that was destroyed on the way makes the deletion of the request fail.\<close>

lemma destroy_deletes: "destroy w c ch = Inr ch' \<Longrightarrow> heap ch' c = None"
  by (auto simp: destroy_def)

lemma fail_and_destroy_deletes: "fail_and_destroy w c ch = Inr ch' \<Longrightarrow> heap ch' c = None"
  by (auto simp: fail_and_destroy_def dest: destroy_deletes)

context readable_memory
begin

lemma check_response_inv:
  assumes "chan_inv ch" and "check_response w c msg ch = Inr (ch', r)"
  shows "chan_inv ch'"
proof -
  obtain x where x: "heap ch c = Some x" using assms(2) by (cases "heap ch c") (auto simp: check_response_def)
  have err: "chan_inv ch1" if "on_connection_request_error_response w c msg ch = Inr ch1" "delete_request c tid ch1 = Inr ch2" for ch1 ch2 tid
  proof -
    have "heap ch1 c \<noteq> None" using that(2) by (cases "heap ch1 c") (auto simp: delete_request_def)
    then have "ch1 = next_tick ch" using that(1) fail_and_destroy_deletes
      by (auto simp: on_connection_request_error_response_def Let_def split: if_splits)
    then show ?thesis using assms(1) by simp
  qed
  have good: "chan_inv ch1" if "received_ping_response w c t (next_tick ch) = Inr ch1" for t ch1
  proof -
    have "chan_inv (next_tick ch)" "heap (next_tick ch) c = Some x" using assms(1) x by simp_all
    from returnsD [OF received_ping_response_ok [OF this] that] show ?thesis by simp
  qed
  show ?thesis
  proof (cases "requests x (msg_transaction_id msg)")
    case None
    then show ?thesis using assms x by (simp add: check_response_def)
  next
    case (Some q)
    then show ?thesis using assms x err good delete_request_inv
      by (simp add: check_response_def split: if_splits) blast+
  qed
qed

lemma on_read_packet_inv:
  assumes "chan_inv ch" and "on_read_packet w c buf ts ch = Inr ch'"
  shows "chan_inv ch'"
proof -
  obtain x where x: "heap ch c = Some x" using assms(2) by (cases "heap ch c") (auto simp: on_read_packet_def)
  obtain port where port: "port_of ch x = Inr port" using assms(2) x by (auto simp: on_read_packet_def)
  obtain res where res: "get_stun_message (ice w) port buf (address (remote_candidate x)) = Inr res"
    using assms(2) x port by (auto simp: on_read_packet_def Let_def)
  define ch1 where "ch1 = emit_datagrams (replies res) ch"
  have inv1: "chan_inv ch1" using assms(1) by (simp add: ch1_def)
  have step: "chan_inv ch2" if "check_response w c m ch1 = Inr (ch2, r)" for m ch2 r by (rule check_response_inv [OF inv1 that])
  show ?thesis
  proof (cases "out_msg res")
    case None
    then show ?thesis using assms(2) x port res inv1
      by (auto simp: on_read_packet_def Let_def ch1_def split: if_splits)
  next
    case (Some m)
    show ?thesis
    proof (cases "is_stun res")
      case False
      then show ?thesis using assms(2) x port res inv1 by (auto simp: on_read_packet_def Let_def ch1_def)
    next
      case True
      from assms(2) x port res Some True inv1 show ?thesis
        unfolding on_read_packet_def Let_def
        by (auto simp: ch1_def [symmetric] dest: step split: if_split_asm)
    qed
  qed
qed

lemma on_unknown_address_inv:
  assumes "chan_inv ch" and "p < length (ports ch)" and "async_socket (ports ch ! p)" and "heap ch c = None"
    and "on_unknown_address w c p addr msg ufrag ch = Inr ch'"
  shows "chan_inv ch'"
proof (cases "get_attribute STUN_ATTR_PRIORITY msg")
  case None
  then show ?thesis using assms by (auto simp: on_unknown_address_def)
next
  case (Some a)
  define cand where "cand = \<lparr>component = ch_component ch, protocol = map of_char ''udp'', address = addr, cand_port = 0,
    cand_priority = (case attr_body a of UInt32 v \<Rightarrow> v | _ \<Rightarrow> 0), username = ufrag, password = ice_pwd (remote_ice_params ch),
    cand_type = map of_char ''prflx'', foundation = []\<rparr>"
  define port where "port = ports ch ! p"
  define ch1 where "ch1 = ch_add_connection c (put_conn c (IceConnection_new p cand)
    (ch\<lparr>ports := (ports ch)[p := port\<lparr>connections := (connections port)(addr \<mapsto> c)\<rparr>]\<rparr>))"
  obtain sent where s: "sort_connections_and_update_state w (emit_datagrams sent ch1) = Inr ch'"
  proof -
    have cc: "create_connection c p cand ch = Inr (put_conn c (IceConnection_new p cand)
        (ch\<lparr>ports := (ports ch)[p := port\<lparr>connections := (connections port)(addr \<mapsto> c)\<rparr>]\<rparr>))"
      using assms(2) by (simp add: create_connection_def port_def cand_def)
    from assms(5) Some assms(2) have "bindE (create_connection c p cand ch) (\<lambda>ch.
        let ch = ch_add_connection c ch in
        bindE (handle_stun_binding_request (ice w) port (IceConnection_new p cand) msg) (\<lambda>sent.
          sort_connections_and_update_state w (emit_datagrams sent ch))) = Inr ch'"
      by (simp add: on_unknown_address_def port_def cand_def Let_def del: bindE_eq_Inr)
    then show ?thesis using that unfolding cc bindE_Inr Let_def ch1_def [symmetric] by auto
  qed
  have okc: "base_ok ch" "sel_ok ch" "ports_ok ch" using assms(1) by (simp_all add: chan_inv_def ok_def)
  have fresh: "c \<notin> set (conns ch)" using assms(4) okc(1) by (auto simp: base_ok_def)
  have cands: "candidates port \<noteq> []" using okc(3) assms(2,3) by (simp add: ports_ok_def port_def)
  have pk: "port_ok (ports ch1) x = port_ok (ports ch) x" for x
    using assms(2) by (auto simp: port_ok_def ch1_def ch_add_connection_def nth_list_update port_def)
  have b1: "base_ok ch1"
  proof -
    have "port_ok (ports ch) (IceConnection_new p cand)" using assms(2) cands by (simp add: port_ok_def IceConnection_new_def port_def)
    moreover have "ran (heap ch1) \<subseteq> insert (IceConnection_new p cand) (ran (heap ch))"
      by (auto simp: ch1_def ch_add_connection_def ran_def split: if_splits)
    ultimately have "\<forall>x \<in> ran (heap ch1). port_ok (ports ch1) x" using okc(1) pk by (auto simp: base_ok_def)
    then show ?thesis using okc(1) fresh
      unfolding base_ok_def by (auto simp: ch1_def ch_add_connection_def ctl_add_connection_def)
  qed
  have s1: "sel_ok ch1" using okc(2) by (auto simp: sel_ok_def ch1_def ch_add_connection_def ctl_add_connection_def)
  have p1: "ports_ok ch1"
  proof -
    have "ran ((connections port)(addr \<mapsto> c)) \<subseteq> insert c (ran (connections port))" by (auto simp: ran_def)
    moreover have "port \<in> set (ports ch)" using assms(2) by (simp add: port_def)
    ultimately show ?thesis using okc(3)
      by (auto simp: ports_ok_def ch1_def ch_add_connection_def ctl_add_connection_def dest!: set_update_subset_insert [THEN subsetD]) blast
  qed
  have "base_ok (emit_datagrams sent ch1)" using b1 by simp
  from returnsD [OF sort_connections_and_update_state_ok [OF this] s]
  have st: "settled (emit_datagrams sent ch1) ch'" .
  then have e: "evolves (emit_datagrams sent ch1) ch'" "sync ch'" by (simp_all add: settled_evolves) (simp add: settled_def)
  then show ?thesis using s1 p1 by (simp add: chan_inv_def ok_def evolves_def ports_ok_def)
qed

lemma port_on_read_packet_inv:
  assumes "chan_inv ch" and "p < length (ports ch)" and "async_socket (ports ch ! p)" and "heap ch c = None"
    and "port_on_read_packet w c p buf addr ts ch = Inr ch'"
  shows "chan_inv ch'"
proof (cases "connections (ports ch ! p) addr")
  case (Some d)
  then show ?thesis using assms on_read_packet_inv by (simp add: port_on_read_packet_def)
next
  case None
  obtain res where res: "get_stun_message (ice w) (ports ch ! p) buf addr = Inr res"
    using assms(2,5) None by (auto simp: port_on_read_packet_def)
  have step: "chan_inv ch2" if "on_unknown_address w c p addr m u (emit_datagrams (replies res) ch) = Inr ch2" for m u ch2
    using assms(1-4) by (intro on_unknown_address_inv [OF _ _ _ _ that]) simp_all
  from assms(2,5) None res show ?thesis
    unfolding port_on_read_packet_def Let_def
    by (cases "out_msg res") (auto simp: assms(1) dest: step split: if_split_asm)
qed

end

lemma set_params_loop_ok:
  assumes "chan_inv ch" and "set cs \<subseteq> dom (heap ch)"
  shows "returns chan_inv (set_params_loop params cs ch)"
  using assms
proof (induction cs arbitrary: ch)
  case (Cons c cs)
  then obtain x where x: "heap ch c = Some x" by auto
  have "chan_inv (put_conn c (maybe_set_remote_ice_params params x) ch)"
    using inv_put_conn [OF Cons.prems(1) x] by (simp add: maybe_set_remote_ice_params_def)
  then have "returns chan_inv (set_params_loop params cs (put_conn c (maybe_set_remote_ice_params params x) ch))"
    using Cons.prems by (intro Cons.IH) auto
  then show ?case using x by (simp del: bindE_eq_Inr)
qed simp

context readable_memory
begin

lemma inv_settle: "chan_inv ch \<Longrightarrow> returns chan_inv (sort_connections_and_update_state w ch)"
proof -
  assume i: "chan_inv ch"
  then have "base_ok ch" by (simp add: chan_inv_def ok_def)
  from sort_connections_and_update_state_ok [OF this] show ?thesis
  proof (rule returns_weaken)
    fix ch' assume s: "settled ch ch'"
    then show "chan_inv ch'" using inv_evolves [OF i settled_evolves [OF s]] by (simp add: settled_def)
  qed
qed

lemma set_remote_ice_params_ok:
  assumes "chan_inv ch"
  shows "returns chan_inv (set_remote_ice_params w params ch)"
proof -
  have v: "same_view ch (ch\<lparr>remote_ice_params := params\<rparr>)" by (simp add: same_view_def)
  have "chan_inv (ch\<lparr>remote_ice_params := params\<rparr>)"
    using assms same_view_ok [OF v] same_view_sync [OF v] by (simp add: chan_inv_def ok_def ports_ok_def)
  moreover have "set (conns ch) \<subseteq> dom (heap ch)" using assms by (simp add: chan_inv_def ok_def base_ok_def)
  ultimately show ?thesis
    unfolding set_remote_ice_params_def
    by (intro returns_bind [OF set_params_loop_ok inv_settle]) simp_all
qed

end

end
