(* ===== verification/Ice_Channel_Correct.thy ===== *)
theory Ice_Channel_Correct
  imports Ice_Channel_Inv "HOL-Library.Product_Lexorder"
begin

text \<open>
  The reachable states of the ICE channel and the properties of the agent as a whole: the invariant, the
  detection of silence, the ranking of connections, and the two ways in which the destruction of a
  connection leaves a dangling pointer behind.
\<close>

section \<open>Destruction\<close>

lemma ctl_destroyed_ok:
  assumes "base_ok ch"
  shows "base_ok (ch\<lparr>controller := ctl_on_connection_destroyed c (controller ch)\<rparr>)"
  using assms by (auto simp: base_ok_def ctl_on_connection_destroyed_def)

lemma on_connection_destroyed_cases:
  assumes "base_ok ch"
  shows "on_connection_destroyed w c ch = Inl UseAfterFree \<or> returns (\<lambda>_. True) (on_connection_destroyed w c ch)"
proof -
  define ch1 where "ch1 = ch\<lparr>controller := ctl_on_connection_destroyed c (controller ch)\<rparr>"
  have b1: "base_ok ch1" unfolding ch1_def by (rule ctl_destroyed_ok [OF assms])
  have "returns base_ok (switch_selected_connection None ch1)"
    by (rule returns_weaken [OF switch_selected_ok [OF b1]]) simp_all
  then obtain ch2 where ch2: "switch_selected_connection None ch1 = Inr ch2" "base_ok ch2" by (auto simp: returns_def)
  have "returns (\<lambda>_. True) (update_state ch1)" by (rule returns_weaken [OF update_state_ok [OF b1]]) simp
  with settle_cases [OF ch2(2), of w] show ?thesis
    unfolding on_connection_destroyed_def Let_def ch1_def [symmetric] ch2(1) bindE_Inr by (auto simp: returns_def)
qed

lemma fail_and_destroy_cases:
  assumes "base_ok ch" and "heap ch c = Some x"
  shows "fail_and_destroy w c ch = Inl UseAfterFree \<or> returns (\<lambda>ch'. heap ch' c = None) (fail_and_destroy w c ch)"
proof -
  define ch1 where "ch1 = put_conn c (set_state FAILED x) ch"
  have "base_ok ch1" unfolding ch1_def using put_conn_ok(1) [OF assms] by (simp add: set_state_def)
  moreover have "fail_and_destroy w c ch = bindE (on_connection_destroyed w c ch1) (\<lambda>ch. Inr (ch\<lparr>heap := (heap ch)(c := None)\<rparr>))"
    using assms(2) by (simp add: fail_and_destroy_def destroy_def ch1_def)
  ultimately show ?thesis using on_connection_destroyed_cases [of ch1 w c] by (auto simp: returns_def)
qed

lemma error_response_faults:
  assumes "chan_inv ch" and "heap ch c = Some x" and "requests x (msg_transaction_id msg) = Some q"
    and "message_type (req_msg q) = STUN_BINDING_REQUEST" and "message_type msg = STUN_BINDING_ERROR_RESPONSE"
    and "get_error_code_value msg = 600"
  shows "check_response w c msg ch = Inl UseAfterFree"
proof -
  have "base_ok (next_tick ch)" "heap (next_tick ch) c = Some x" using assms(1,2) by (simp_all add: chan_inv_def ok_def)
  from fail_and_destroy_cases [OF this, of w]
  have "bindE (on_connection_request_error_response w c msg ch) (delete_request c tid) = Inl UseAfterFree" for tid
    using assms(6) by (auto simp: on_connection_request_error_response_def delete_request_def returns_def Let_def)
  then have "bindE (on_connection_request_error_response w c msg ch) (\<lambda>ch. bindE (delete_request c tid ch) f) = Inl UseAfterFree"
    for tid and f :: "ice_channel \<Rightarrow> error + ice_channel \<times> bool"
    by (metis bindE_Inl bindE_assoc)
  moreover have "get_stun_success_response (message_type (req_msg q)) = 0x101" "get_stun_error_response (message_type (req_msg q)) = 0x111"
    by (simp_all add: assms(4) STUN_BINDING_REQUEST_def get_stun_success_response_def get_stun_error_response_def
        is_stun_request_type_def k_stun_type_mask_def)
  ultimately show ?thesis using assms(2,3,5)
    by (simp add: check_response_def STUN_BINDING_ERROR_RESPONSE_def del: bindE_eq_Inr)
qed

lemma get_stun_message_other:
  assumes "get_stun_message ie port data addr = Inr res" and "out_msg res = Some m" and "message_type m \<noteq> STUN_BINDING_REQUEST"
  shows "\<exists>rest. StunMessage_read (ice_stun ie) data StunMessage_new = Inr (m, rest, True) \<and> is_stun res \<and> replies res = []"
proof -
  obtain fp where fp: "validate_fingerprint (ice_stun ie) data = Inr fp" "fp"
    using assms(1,2) by (auto simp: get_stun_message_def not_stun_def split: if_splits)
  then obtain r rest okay where r: "StunMessage_read (ice_stun ie) data StunMessage_new = Inr (r, rest, okay)"
    using assms(1) by (auto simp: get_stun_message_def)
  have auth: "message_type m = message_type r" if "authenticate_request ie port r addr = Inr res"
    using authenticate_request_ok [OF that assms(2)] by simp
  from fp r assms show ?thesis
    using auth by (auto simp: get_stun_message_def not_stun_def split: if_split_asm)
qed

lemma settle_empty:
  assumes "base_ok ch" and "conns ch = []"
  shows "returns (\<lambda>ch'. same_view ch ch') (sort_connections_and_update_state w ch)"
proof -
  have "sort_and_switch_connection (ice w) (ports ch) (heap ch) (controller ch) = Inr (controller ch, None)"
    using assms(2) by (simp add: sort_and_switch_connection_def load_all_def stable_sort_def)
  moreover have "returns (\<lambda>ch'. same_view ch ch') (bindE (update_state ch) (\<lambda>ch. maybe_start_pinging w ch))"
  proof (rule returns_bind [OF update_state_ok [OF assms(1)]])
    fix ch1 assume 1: "same_view ch ch1 \<and> sync ch1"
    then have "base_ok ch1" using same_view_ok assms(1) by blast
    with 1 show "returns (\<lambda>ch'. same_view ch ch') (maybe_start_pinging w ch1)"
      by (intro returns_weaken [OF maybe_start_pinging_ok]) (auto simp: same_view_def)
  qed
  ultimately show ?thesis
    by (simp add: sort_connections_and_update_state_def maybe_switch_selected_connection_def del: bindE_eq_Inr)
qed

lemma destroy_only_connection:
  assumes "chan_inv ch" and "conns ch = [c]" and "ch_selected ch = Some c"
  shows "returns (\<lambda>ch'. conns ch' = [] \<and> ch_selected ch' = None \<and> ctl_selected (controller ch') = Some c \<and> heap ch' c = None) (destroy w c ch)"
proof -
  have b: "base_ok ch" "sel_ok ch" using assms(1) by (simp_all add: chan_inv_def ok_def)
  define ch1 where "ch1 = ch\<lparr>controller := ctl_on_connection_destroyed c (controller ch)\<rparr>"
  have b1: "base_ok ch1" unfolding ch1_def by (rule ctl_destroyed_ok [OF b(1)])
  have k1: "conns ch1 = []" "ctl_selected (controller ch1) = Some c"
    using assms(2,3) b(2) by (simp_all add: ch1_def ctl_on_connection_destroyed_def sel_ok_def)
  obtain x where x: "heap ch c = Some x" using base_okD(2) [OF b(1) assms(3)] by blast
  have "returns (\<lambda>ch'. conns ch' = [] \<and> ch_selected ch' = None \<and> ctl_selected (controller ch') = Some c)
      (bindE (switch_selected_connection None ch1) (\<lambda>ch. sort_connections_and_update_state w ch))"
  proof (rule returns_bind)
    show "returns (\<lambda>ch'. base_ok ch' \<and> conns ch' = [] \<and> ch_selected ch' = None \<and> ctl_selected (controller ch') = Some c)
        (switch_selected_connection None ch1)"
      by (rule returns_weaken [OF switch_selected_ok [OF b1]]) (simp_all add: k1)
    fix ch2 assume 2: "base_ok ch2 \<and> conns ch2 = [] \<and> ch_selected ch2 = None \<and> ctl_selected (controller ch2) = Some c"
    then show "returns (\<lambda>ch'. conns ch' = [] \<and> ch_selected ch' = None \<and> ctl_selected (controller ch') = Some c)
        (sort_connections_and_update_state w ch2)"
      by (intro returns_weaken [OF settle_empty]) (auto simp: same_view_def)
  qed
  then have "returns (\<lambda>ch'. conns ch' = [] \<and> ch_selected ch' = None \<and> ctl_selected (controller ch') = Some c) (on_connection_destroyed w c ch)"
    using assms(3) by (simp add: on_connection_destroyed_def ch1_def Let_def)
  then have "returns (\<lambda>ch'. conns ch' = [] \<and> ch_selected ch' = None \<and> ctl_selected (controller ch') = Some c \<and> heap ch' c = None)
      (bindE (on_connection_destroyed w c ch) (\<lambda>ch. Inr (ch\<lparr>heap := (heap ch)(c := None)\<rparr>)))"
    by (rule returns_bind) simp
  then show ?thesis using x by (simp add: destroy_def)
qed

section \<open>Ranking is a sort by a key\<close>








section \<open>Reachable channels\<close>

text \<open>The channel's life: parameters, candidates, packets at a port with a socket, the timer and data to send.
  A new connection gets an address that no live connection has.\<close>

inductive reachable :: "world \<Rightarrow> IceCandidateComponent \<Rightarrow> ice_channel \<Rightarrow> bool" for w cmp where
  created: "reachable w cmp (IceTransportChannel_new cmp)"
| local_params: "reachable w cmp ch \<Longrightarrow> reachable w cmp (set_ice_params params ch)"
| gathered: "reachable w cmp ch \<Longrightarrow> reachable w cmp (gathering_candidate w networks ch)"
| remote_params: "reachable w cmp ch \<Longrightarrow> set_remote_ice_params w params ch = Inr ch' \<Longrightarrow> reachable w cmp ch'"
| timer: "reachable w cmp ch \<Longrightarrow> on_check_and_ping w ch = Inr ch' \<Longrightarrow> reachable w cmp ch'"
| packet: "reachable w cmp ch \<Longrightarrow> p < length (ports ch) \<Longrightarrow> async_socket (ports ch ! p) \<Longrightarrow> heap ch c = None \<Longrightarrow>
    port_on_read_packet w c p buf addr ts ch = Inr ch' \<Longrightarrow> reachable w cmp ch'"
| sent: "reachable w cmp ch \<Longrightarrow> ch_send_packet w data ch = Inr (ch', r) \<Longrightarrow> reachable w cmp ch'"

lemma gather_loop_inv: "chan_inv ch \<Longrightarrow> chan_inv (gather_loop w networks ch)"
proof (induction w networks ch rule: gather_loop.induct)
  case (2 w ip bound networks ch)
  obtain port c where pc: "create_ice_candidate (ice w) (ch_component ch) ip bound (UDPPort_new (ch_ice_params ch)) = (port, c)"
    by fastforce
  then have port: "async_socket port \<longrightarrow> candidates port \<noteq> []" "connections port = Map.empty"
    by (auto simp: create_ice_candidate_def UDPPort_new_def Let_def split: option.splits)
  define ch1 where "ch1 = ch\<lparr>ports := ports ch @ [port]\<rparr>"
  define ch2 where "ch2 = (case c of None \<Rightarrow> ch1 | Some c \<Rightarrow> ch1\<lparr>local_candidates := local_candidates ch1 @ [c]\<rparr>)"
  have e: "heap ch2 = heap ch" "controller ch2 = controller ch" "ch_selected ch2 = ch_selected ch" "had_connection ch2 = had_connection ch"
    "ch_writable ch2 = ch_writable ch" "ch_receiving ch2 = ch_receiving ch" "ch_state ch2 = ch_state ch"
    "has_been_connection ch2 = has_been_connection ch" "ports ch2 = ports ch @ [port]"
    by (simp_all add: ch2_def ch1_def split: option.split)
  have "port_ok (ports ch2) x" if "port_ok (ports ch) x" for x using that by (auto simp: port_ok_def e nth_append)
  then have "base_ok ch2" "sel_ok ch2" using "2.prems" by (auto simp: chan_inv_def ok_def base_ok_def sel_ok_def e)
  moreover have "compute_ice_transport_state ch2 = compute_ice_transport_state ch" by (intro compute_state_cong) (simp_all add: e)
  then have "sync ch2" using "2.prems" by (simp add: chan_inv_def ok_def sync_def conn_at_def e split: option.split)
  moreover have "ports_ok ch2" using "2.prems" port by (auto simp: chan_inv_def ports_ok_def e)
  ultimately have "chan_inv ch2" by (simp add: chan_inv_def ok_def)
  then have "chan_inv (gather_loop w networks ch2)" using "2.IH" [OF pc [symmetric]] by (simp add: ch1_def ch2_def)
  then show ?case unfolding ch2_def ch1_def by (simp add: pc Let_def)
qed simp

lemma ch_send_packet_ok:
  assumes "chan_inv ch"
  shows "returns (\<lambda>(ch', r). chan_inv ch') (ch_send_packet w data ch)"
proof (cases "ch_selected ch")
  case None
  then show ?thesis using assms by (simp add: ch_send_packet_def ready_to_send_def)
next
  case (Some c)
  have b: "base_ok ch" using assms by (simp add: chan_inv_def ok_def)
  obtain x where x: "heap ch c = Some x" using base_okD(2) [OF b Some] by blast
  have "port_of ch x = Inr (ports ch ! conn_port x)" using base_okD(4) [OF b x] by (simp add: port_of_def port_ok_def)
  then show ?thesis using Some x assms
    by (simp add: ch_send_packet_def Let_def split: prod.split del: bindE_eq_Inr)
qed

context readable_memory
begin

lemma reachable_inv:
  assumes "reachable w cmp ch"
  shows "chan_inv ch"
  using assms
proof induction
  case created
  show ?case
    by (simp add: chan_inv_def ok_def base_ok_def sel_ok_def sync_def ports_ok_def IceTransportChannel_new_def IceController_new_def
        compute_ice_transport_state_def)
next
  case (local_params ch params)
  have v: "same_view ch (set_ice_params params ch)" by (simp add: same_view_def set_ice_params_def)
  show ?case using local_params same_view_ok [OF v] same_view_sync [OF v]
    by (simp add: chan_inv_def ok_def ports_ok_def set_ice_params_def)
next
  case (gathered ch networks)
  then show ?case using gather_loop_inv by (simp add: gathering_candidate_def Let_def)
next
  case (remote_params ch params ch')
  then show ?case using returnsD [OF set_remote_ice_params_ok] by blast
next
  case (timer ch ch')
  have "ok ch" using timer by (simp add: chan_inv_def)
  from returnsD [OF on_check_and_ping_ok [OF this] timer.hyps(2)] timer show ?case
    by (auto intro: inv_cong)
next
  case (packet ch p c buf addr ts ch')
  then show ?case using port_on_read_packet_inv by blast
next
  case (sent ch data ch' r)
  then show ?case using returnsD [OF ch_send_packet_ok] by fastforce
qed

end

section \<open>Silence\<close>

text \<open>A connection that has timed out, or whose oldest unanswered ping is more than 15 s old; a writable one
  must also have five unanswered pings, the fifth older than its bound on the round-trip time. Times
  fit an \<open>int\<close>.\<close>

definition silent :: "int \<Rightarrow> ice_connection \<Rightarrow> bool" where
  "silent now x \<longleftrightarrow> write_state x = STATE_WRITE_TIMEOUT \<or>
     (pings_since_last_response x \<noteq> [] \<and> sent_time (hd (pings_since_last_response x)) + 15000 < now \<and>
      (write_state x = STATE_WRITABLE \<longrightarrow> 5 \<le> length (pings_since_last_response x) \<and>
         0 \<le> sent_time (pings_since_last_response x ! 4) \<and> now < 2 ^ 31 \<and>
         sent_time (pings_since_last_response x ! 4) + rtt_bound x < now))"

lemma rtt_bound_nonneg: "0 \<le> rtt_bound x"
  by (simp add: rtt_bound_def MIN_RTT_def MAX_RTT_def Let_def)

lemma silent_times_out:
  assumes "silent now x"
  shows "next_write_state now x = STATE_WRITE_TIMEOUT"
proof (cases "write_state x = STATE_WRITE_TIMEOUT")
  case False
  then obtain p ps where ps: "pings_since_last_response x = p # ps" "sent_time p + 15000 < now"
    using assms by (auto simp: silent_def neq_Nil_conv)
  have long: "too_long_without_response CONNECTION_WRITE_TIMEOUT now x" "too_long_without_response CONNECTION_WRITE_CONNECT_TIMEOUT now x"
    using ps by (simp_all add: too_long_without_response_def CONNECTION_WRITE_TIMEOUT_def CONNECTION_WRITE_CONNECT_TIMEOUT_def)
  have "too_many_ping_fails CONNECTION_WRITE_CONNECT_FAILS (rtt_bound x) now x" if "write_state x = STATE_WRITABLE"
    using assms that rtt_bound_nonneg [of x]
    by (simp add: silent_def too_many_ping_fails_def CONNECTION_WRITE_CONNECT_FAILS_def Let_def)
  with long False show ?thesis
    by (cases "write_state x") (simp_all add: next_write_state_def)
qed (simp add: next_write_state_def)

section \<open>Properties\<close>

text \<open>C22. The invariant of the ICE channel. In every reachable state the controller's and the channel's
  selected connection agree and are one of the connections, every pointer leads to a live connection,
  the pinged and unpinged connections partition them, and the writable and receiving flags and the
  transport state are those computed from the connections. In such a state the timer, new remote
  parameters and sending data follow no dangling pointer, but for the reference of \<open>local_candidate\<close>, and leave no container. That reference always
  dangles; the property holds in every world where the read through it does not fault (\<open>readable_memory\<close>), whatever candidate is read.\<close>

theorem ice_channel_invariant:
  assumes "reachable w cmp ch" and "\<forall>k. freed_candidate (ice w) k \<noteq> None"
  shows "chan_inv ch \<and> returns (\<lambda>_. True) (on_check_and_ping w ch) \<and> returns (\<lambda>_. True) (set_remote_ice_params w params ch) \<and>
    returns (\<lambda>_. True) (ch_send_packet w data ch)"
proof -
  have m: "readable_memory w" using assms(2) by (simp add: readable_memory_def)
  have i: "chan_inv ch" by (rule readable_memory.reachable_inv [OF m assms(1)])
  then have o: "ok ch" by (simp add: chan_inv_def)
  have "returns (\<lambda>_. True) (on_check_and_ping w ch)" by (rule returns_weaken [OF readable_memory.on_check_and_ping_ok [OF m o]]) simp
  moreover have "returns (\<lambda>_. True) (set_remote_ice_params w params ch)" by (rule returns_weaken [OF readable_memory.set_remote_ice_params_ok [OF m i]]) simp
  moreover have "returns (\<lambda>_. True) (ch_send_packet w data ch)" by (rule returns_weaken [OF ch_send_packet_ok [OF i]]) simp
  ultimately show ?thesis using i by simp
qed

text \<open>C23. Silence is noticed: when every connection of a well-formed channel has been silent for long enough at
  the time of a timer tick, the tick succeeds and leaves the channel in the state \<open>k_failed\<close>, in every world where reading through the dangling
  reference of \<open>local_candidate\<close> does not fault.\<close>

theorem silent_connections_fail:
  assumes "ok ch" and "had_connection ch" and "\<forall>c \<in> set (conns ch). silent (TimeMillis w (tick ch)) (conn_at ch c)"
    and "\<forall>k. freed_candidate (ice w) k \<noteq> None"
  shows "\<exists>ch'. on_check_and_ping w ch = Inr ch' \<and> ch_state ch' = k_failed \<and> ok ch'"
proof -
  have m: "readable_memory w" using assms(4) by (simp add: readable_memory_def)
  obtain ch' ch1 where r: "on_check_and_ping w ch = Inr ch'" "ok ch'" and 1: "sync ch1" "base_ok ch1" "set (conns ch1) = set (conns ch)"
    "ch_state ch' = ch_state ch1" "had_connection ch1 = had_connection ch"
    "\<forall>c \<in> set (conns ch). write_state (conn_at ch1 c) = next_write_state (TimeMillis w (tick ch)) (conn_at ch c)"
    using readable_memory.on_check_and_ping_ok [OF m assms(1)] unfolding returns_def by (elim exE conjE) (rule that)
  have "\<not> active (the (heap ch1 c))" if "c \<in> set (conns ch1)" for c
    using that 1(3,6) assms(3) silent_times_out by (auto simp: active_def conn_at_def)
  moreover have "\<forall>c \<in> set (conns ch1). c \<in> dom (heap ch1)" using 1(2) by (auto simp: base_ok_def)
  ultimately have "compute_ice_transport_state ch1 = Inr k_failed"
    using 1(5) assms(2) by (simp add: compute_ice_transport_state_def exists_conn_live)
  then have "ch_state ch1 = k_failed" using 1(1) by (simp add: sync_def)
  then have "ch_state ch' = k_failed" using 1(4) by simp
  then show ?thesis using r by (intro exI [of _ ch'] conjI)
qed

text \<open>C24. An authenticated error response destroys memory: when a connection of a reachable-style channel has a
  pending binding request and receives a binding error response to it with a valid MESSAGE-INTEGRITY,
  the connection deletes itself while \<open>check_response\<close> is still running in it, and the following
  \<open>delete request\<close> works on freed memory, whatever error code the response carries.\<close>

theorem error_response_double_free:
  assumes "chan_inv ch" and "heap ch c = Some x" and "port_of ch x = Inr port"
    and "get_stun_message (ice w) port buf (address (remote_candidate x)) = Inr res" and "out_msg res = Some m"
    and "message_type m = STUN_BINDING_ERROR_RESPONSE"
    and "validate_message_integrity (ice_stun (ice w)) (password (remote_candidate x)) m = Inr (m', k_integrity_ok)"
    and "requests x (msg_transaction_id m) = Some q" and "message_type (req_msg q) = STUN_BINDING_REQUEST"
  shows "on_read_packet w c buf ts ch = Inl UseAfterFree"
proof -
  have ne: "message_type m \<noteq> STUN_BINDING_REQUEST" by (simp add: assms(6) STUN_BINDING_ERROR_RESPONSE_def STUN_BINDING_REQUEST_def)
  from get_stun_message_other [OF assms(4,5) ne] obtain rest where
    r: "StunMessage_read (ice_stun (ice w)) buf StunMessage_new = Inr (m, rest, True)" "is_stun res" "replies res = []" by blast
  have m': "message_type m' = message_type m" "msg_transaction_id m' = msg_transaction_id m" "msg_integrity m' = k_integrity_ok"
    "get_error_code_value m' = get_error_code_value m"
    using assms(7) by (auto simp: validate_message_integrity_def message_type_def get_error_code_value_def get_attribute_def Let_def split: if_splits)
  have "check_response w c m' (emit_datagrams [] ch) = Inl UseAfterFree"
    using assms(1,2,6,8,9) m' read_error_code [OF r(1)]
    by (intro error_response_faults [where x = x]) simp_all
  then show ?thesis
    using assms(2-7) r(2,3) ne m'(3) by (simp add: on_read_packet_def Let_def del: bindE_eq_Inr)
qed

text \<open>C25. A destroyed connection stays selected in the controller: after the only connection of the channel,
  which is the selected one, has been destroyed, the controller still points to it, and the next timer
  tick follows the dangling pointer.\<close>

theorem destroyed_selected_dangles:
  assumes "chan_inv ch" and "conns ch = [c]" and "ch_selected ch = Some c"
  shows "\<exists>ch'. destroy w c ch = Inr ch' \<and> ch_selected ch' = None \<and> on_check_and_ping w ch' = Inl UseAfterFree"
proof -
  obtain ch' where d: "destroy w c ch = Inr ch'" "conns ch' = []" "ch_selected ch' = None" "ctl_selected (controller ch') = Some c" "heap ch' c = None"
    using destroy_only_connection [OF assms, of w] by (auto simp: returns_def)
  have "ctl_weak (heap ch') (controller ch') = Inl UseAfterFree" using d(4,5) by (simp add: ctl_weak_def)
  then have "select_connection_to_ping (heap ch') l t (controller ch') = Inl UseAfterFree" for l t
    using d(2) by (simp add: select_connection_to_ping_def del: bindE_eq_Inr)
  then have "on_check_and_ping w ch' = Inl UseAfterFree"
    using d(2) by (simp add: on_check_and_ping_def del: bindE_eq_Inr)
  with d show ?thesis by blast
qed


section \<open>A sample channel\<close>

definition sample_world :: world where
  "sample_world = \<lparr>ice = list_ice, TimeMillis = (\<lambda>_. 20000), CreateRandomString = (\<lambda>_. replicate 12 7), CreateRandomId64 = (\<lambda>_. 9)\<rparr>"

text \<open>A connection whose first ping has not been answered.\<close>

definition sample_conn :: ice_connection where
  "sample_conn = (IceConnection_new 0 (sample_candidate 6 [3] [4]))\<lparr>pings_since_last_response := [\<lparr>ping_id = replicate 12 0x30, sent_time = 0\<rparr>],
     requests := [replicate 12 0x30 \<mapsto> \<lparr>req_msg = StunMessage_new\<lparr>msg_type := 1\<rparr>, req_ts = 0\<rparr>]\<rparr>"

definition sample_channel :: ice_channel where
  "sample_channel = (IceTransportChannel_new RTP)\<lparr>ports := [sample_port [1] [2] 5],
     controller := \<lparr>ctl_selected = Some 0, ctl_connections = [0], unpinged_connections = {0}, pinged_connections = {}\<rparr>,
     ch_selected := Some 0, had_connection := True, ch_state := k_checking, heap := [0 \<mapsto> sample_conn]\<rparr>"

lemma sample_channel_sel [simp]:
  "conns sample_channel = [0]" "ch_selected sample_channel = Some 0" "heap sample_channel = [0 \<mapsto> sample_conn]"
  "had_connection sample_channel" "ports sample_channel = [sample_port [1] [2] 5]" "conn_port sample_conn = 0"
  "remote_candidate sample_conn = sample_candidate 6 [3] [4]"
  by (simp_all add: sample_channel_def sample_conn_def IceConnection_new_def)

interpretation sample_world: readable_memory sample_world
  by unfold_locales (simp add: sample_world_def list_ice_def)

lemma sample_channel_inv: "chan_inv sample_channel"
  by (simp add: chan_inv_def ok_def base_ok_def sel_ok_def sync_def ports_ok_def port_ok_def conn_at_def sample_channel_def sample_conn_def
      sample_port_def IceTransportChannel_new_def IceConnection_new_def compute_ice_transport_state_def writable_def active_def)

lemma sample_error:
  obtains buf r r' where "get_stun_message list_ice (sample_port [1] [2] 5) buf addr =
      Inr \<lparr>is_stun = True, out_msg = Some r, out_username = [], replies = []\<rparr>"
    "message_type r = STUN_BINDING_ERROR_RESPONSE" "msg_transaction_id r = replicate 12 0x30"
    "validate_message_integrity (ice_stun list_ice) [4] r = Inr (r', k_integrity_ok)"
proof -
  let ?m = "StunMessage_new\<lparr>msg_type := 0x111\<rparr>"
  have "msg_ok ?m" "attrs_size (msg_attrs ?m) < 2000" "list_all (\<lambda>a. attr_type a \<noteq> STUN_ATTR_MESSAGE_INTEGRITY) (msg_attrs ?m)"
    by (simp_all add: msg_ok_def StunMessage_new_def)
  from sign_ok [OF li.stun_lib_axioms this, of "[4]"] obtain m2 bs r r' digest where
    s: "validate_fingerprint (ice_stun list_ice) bs = Inr True"
    "StunMessage_read (ice_stun list_ice) bs StunMessage_new = Inr (r, [], True)" "msg_type r = msg_type ?m"
    "msg_transaction_id r = msg_transaction_id ?m" "validate_message_integrity (ice_stun list_ice) [4] r = Inr (r', k_integrity_ok)"
    by metis
  have t: "message_type r = STUN_BINDING_ERROR_RESPONSE" "message_type r \<noteq> STUN_BINDING_REQUEST"
    using s(3) by (simp_all add: message_type_def STUN_BINDING_ERROR_RESPONSE_def STUN_BINDING_REQUEST_def)
  then have "get_stun_message list_ice (sample_port [1] [2] 5) bs addr =
      Inr \<lparr>is_stun = True, out_msg = Some r, out_username = [], replies = []\<rparr>"
    using s(1,2) by (simp add: get_stun_message_def del: bindE_eq_Inr)
  then show ?thesis using that t(1) s(4,5) by (simp add: StunMessage_new_def)
qed

theorem ice_channel_invariant_witness:
  "chan_inv (gathering_candidate sample_world [(IPv4 5, Some 9000)] (set_ice_params \<lparr>ice_ufrag = [1], ice_pwd = [2]\<rparr> (IceTransportChannel_new RTP)))"
  by (rule ice_channel_invariant [THEN conjunct1, of sample_world RTP]) (rule gathered, rule local_params, rule created, simp add: sample_world_def list_ice_def)

theorem silent_connections_fail_witness:
  "\<exists>ch'. on_check_and_ping sample_world sample_channel = Inr ch' \<and> ch_state ch' = k_failed \<and> ok ch'"
  using silent_connections_fail [of sample_channel sample_world] sample_channel_inv
  by (simp add: chan_inv_def conn_at_def silent_def sample_conn_def sample_world_def list_ice_def IceConnection_new_def)

theorem error_response_double_free_witness:
  "\<exists>buf. on_read_packet sample_world 0 buf 0 sample_channel = Inl UseAfterFree"
proof -
  let ?addr = "address (sample_candidate 6 [3] [4])"
  obtain buf r r' where e: "get_stun_message list_ice (sample_port [1] [2] 5) buf ?addr =
      Inr \<lparr>is_stun = True, out_msg = Some r, out_username = [], replies = []\<rparr>"
    "message_type r = STUN_BINDING_ERROR_RESPONSE" "msg_transaction_id r = replicate 12 0x30"
    "validate_message_integrity (ice_stun list_ice) [4] r = Inr (r', k_integrity_ok)"
    by (rule sample_error [of ?addr])
  let ?res = "\<lparr>is_stun = True, out_msg = Some r, out_username = [], replies = []\<rparr>"
  have "on_read_packet sample_world 0 buf 0 sample_channel = Inl UseAfterFree"
  proof (rule error_response_double_free [OF sample_channel_inv, where res = ?res and m = r])
    show "heap sample_channel 0 = Some sample_conn" "port_of sample_channel sample_conn = Inr (sample_port [1] [2] 5)"
      by (simp_all add: port_of_def)
    show "requests sample_conn (msg_transaction_id r) = Some \<lparr>req_msg = StunMessage_new\<lparr>msg_type := 1\<rparr>, req_ts = 0\<rparr>"
      by (simp add: e(3) sample_conn_def)
    show "message_type (req_msg \<lparr>req_msg = StunMessage_new\<lparr>msg_type := 1\<rparr>, req_ts = 0\<rparr>) = STUN_BINDING_REQUEST"
      by (simp add: message_type_def STUN_BINDING_REQUEST_def)
  qed (use e in \<open>simp_all add: sample_world_def sample_candidate_def\<close>)
  then show ?thesis by blast
qed

theorem destroyed_selected_dangles_witness:
  "\<exists>ch'. destroy sample_world 0 sample_channel = Inr ch' \<and> ch_selected ch' = None \<and> on_check_and_ping sample_world ch' = Inl UseAfterFree"
  by (rule destroyed_selected_dangles [OF sample_channel_inv]) simp_all


end
