(* ===== verification/Pacing.thy ===== *)
theory Pacing
  imports Rtp_Packet
begin

text \<open>
  The pacer (\<open>modules/pacing\<close>): the byte budget of an interval (\<open>interval_budget.cpp\<close>), the round-robin packet
  queue (\<open>round_robin_packet_queue.cpp\<close>), the controller that sends queued packets within the budget
  (\<open>pacing_controller.cpp\<close>) and the task that runs it periodically (\<open>task_queue_paced_sender.cpp\<close>).

  \<open>Timestamp\<close>, \<open>TimeDelta\<close> and \<open>DataSize\<close> of WebRTC are integers (microseconds and bytes), \<open>DataRate\<close> is in bits per
  second; those conversions between them that round are a parameter.
\<close>

record units =
  per_time :: "int \<Rightarrow> int \<Rightarrow> int"
  to_kbps :: "int \<Rightarrow> int"
  to_ms :: "int \<Rightarrow> int"
  div_count :: "int \<Rightarrow> nat \<Rightarrow> int"

section \<open>The budget\<close>

record interval_budget =
  target_bitrate_kbps :: int
  max_bytes_in_budget :: int
  bytes_remaining :: int
  can_build_up_underuse :: bool

definition kWindowMs :: int where
  "kWindowMs = 500"

definition SetTargetBitrateKbps :: "int \<Rightarrow> interval_budget \<Rightarrow> error + interval_budget" where
  "SetTargetBitrateKbps rate b =
     (if rate * kWindowMs < - (2 ^ 31) \<or> rate * kWindowMs \<ge> 2 ^ 31 then Inl Overflow
      else let m = tdiv (rate * kWindowMs) 8 in
        Inr (b\<lparr>target_bitrate_kbps := rate, max_bytes_in_budget := m,
               bytes_remaining := min (max (- m) (bytes_remaining b)) m\<rparr>))"

definition IntervalBudget_new :: "int \<Rightarrow> bool \<Rightarrow> error + interval_budget" where
  "IntervalBudget_new rate build_up =
     SetTargetBitrateKbps rate \<lparr>target_bitrate_kbps = rate, max_bytes_in_budget = 0, bytes_remaining = 0,
       can_build_up_underuse = build_up\<rparr>"

definition IncreaseBudget :: "int \<Rightarrow> interval_budget \<Rightarrow> interval_budget" where
  "IncreaseBudget elapsed_time b =
     (let bytes = tdiv (elapsed_time * target_bitrate_kbps b) 8 in
      if bytes_remaining b < 0 \<or> can_build_up_underuse b
      then b\<lparr>bytes_remaining := min (bytes_remaining b + bytes) (max_bytes_in_budget b)\<rparr>
      else b\<lparr>bytes_remaining := min bytes (max_bytes_in_budget b)\<rparr>)"

definition UseBudget :: "int \<Rightarrow> interval_budget \<Rightarrow> interval_budget" where
  "UseBudget bytes b = b\<lparr>bytes_remaining := max (bytes_remaining b - bytes) (- max_bytes_in_budget b)\<rparr>"

definition BytesRemaining :: "interval_budget \<Rightarrow> nat" where
  "BytesRemaining b = nat (max 0 (bytes_remaining b))"

section \<open>The queue\<close>

datatype RtpPacketMediaType = kAudio | kVideo | kRetransmission | kForwardErrorCorrection | kPadding

record rtp_packet_to_send = rtp_packet +
  media_type :: "RtpPacketMediaType option"

record queued_packet =
  qp_priority :: int
  qp_enqueue_time :: int
  qp_enqueue_order :: "64 word"
  owned_packet :: rtp_packet_to_send

text \<open>\<open>operator<\<close> of a queued packet: the greater one is sent first.\<close>

definition qp_less :: "queued_packet \<Rightarrow> queued_packet \<Rightarrow> bool" where
  "qp_less a b =
     (if qp_priority a \<noteq> qp_priority b then qp_priority a > qp_priority b
      else qp_enqueue_order a > qp_enqueue_order b)"

text \<open>A \<open>std::priority_queue\<close> is the list of its elements in the order in which they leave it.\<close>

fun pq_insert :: "queued_packet \<Rightarrow> queued_packet list \<Rightarrow> queued_packet list" where
  "pq_insert x [] = [x]"
| "pq_insert x (y # ys) = (if qp_less y x then x # y # ys else y # pq_insert x ys)"

text \<open>The key of a stream: its priority, then the bytes it has sent. A \<open>std::multimap\<close> is the list of its
  entries in order; an iterator is the number under which the entry was inserted, and \<open>end()\<close> is \<open>None\<close>.\<close>

type_synonym prio_key = "int \<times> int"
type_synonym prio_entry = "nat \<times> prio_key \<times> u32"

definition key_less :: "prio_key \<Rightarrow> prio_key \<Rightarrow> bool" where
  "key_less a b = (if fst a \<noteq> fst b then fst a < fst b else snd a < snd b)"

record pstream =
  stream_size :: int
  stream_ssrc :: u32
  packet_queue :: "queued_packet list"
  priority_it :: "nat option"

definition Stream_new :: pstream where
  "Stream_new = \<lparr>stream_size = 0, stream_ssrc = 0, packet_queue = [], priority_it = None\<rparr>"

record rr_queue =
  size_packets :: nat
  max_size :: int
  queue_bytes :: int
  streams :: "u32 \<rightharpoonup> pstream"
  stream_priorities :: "prio_entry list"
  next_entry :: nat
  last_time_updated :: int
  queue_time_sum :: int

definition kMaxLeadingSize :: int where
  "kMaxLeadingSize = 1400"

definition RoundRobinPacketQueue_new :: "int \<Rightarrow> rr_queue" where
  "RoundRobinPacketQueue_new start_time =
     \<lparr>size_packets = 0, max_size = kMaxLeadingSize, queue_bytes = 0, streams = Map.empty, stream_priorities = [],
      next_entry = 0, last_time_updated = start_time, queue_time_sum = 0\<rparr>"

text \<open>\<open>emplace\<close> puts an entry behind those with an equal key.\<close>

fun mm_insert :: "prio_entry \<Rightarrow> prio_entry list \<Rightarrow> prio_entry list" where
  "mm_insert x [] = [x]"
| "mm_insert x (y # ys) = (if key_less (fst (snd x)) (fst (snd y)) then x # y # ys else y # mm_insert x ys)"

definition emplace_priority :: "prio_key \<Rightarrow> u32 \<Rightarrow> rr_queue \<Rightarrow> rr_queue \<times> nat" where
  "emplace_priority key ssrc q =
     (q\<lparr>stream_priorities := mm_insert (next_entry q, key, ssrc) (stream_priorities q), next_entry := next_entry q + 1\<rparr>,
      next_entry q)"

text \<open>Following or erasing an iterator whose entry is gone, or \<open>end()\<close>.\<close>

definition entry_at :: "nat option \<Rightarrow> rr_queue \<Rightarrow> error + prio_entry" where
  "entry_at it q =
     (case it of
        None \<Rightarrow> Inl OutOfBounds
      | Some i \<Rightarrow> (case find (\<lambda>e. fst e = i) (stream_priorities q) of None \<Rightarrow> Inl UseAfterFree | Some e \<Rightarrow> Inr e))"

definition PacketSize :: "queued_packet \<Rightarrow> int" where
  "PacketSize qp = int (pkt_payload_size (owned_packet qp) + pkt_padding_size (owned_packet qp))"

definition Empty :: "rr_queue \<Rightarrow> bool" where
  "Empty q \<longleftrightarrow> size_packets q = 0"

definition UpdateQueueTime :: "int \<Rightarrow> rr_queue \<Rightarrow> rr_queue" where
  "UpdateQueueTime now q =
     (if now = last_time_updated q then q
      else q\<lparr>queue_time_sum := queue_time_sum q + (now - last_time_updated q) * int (size_packets q), last_time_updated := now\<rparr>)"

definition AverageQueueTime :: "units \<Rightarrow> rr_queue \<Rightarrow> int" where
  "AverageQueueTime u q = (if Empty q then 0 else div_count u (queue_time_sum q) (size_packets q))"

definition GetHighestPriorityStream :: "rr_queue \<Rightarrow> error + u32 \<times> pstream" where
  "GetHighestPriorityStream q =
     (case stream_priorities q of
        [] \<Rightarrow> Inl OutOfBounds
      | (_, _, ssrc) # _ \<Rightarrow> (case streams q ssrc of None \<Rightarrow> Inl OutOfBounds | Some stream \<Rightarrow> Inr (ssrc, stream)))"

text \<open>\<open>Push\<close>. A packet that is more urgent than its stream erases the stream from \<open>streams_\<close> and goes on with the
  pointer to it.\<close>

definition Push_packet :: "queued_packet \<Rightarrow> rr_queue \<Rightarrow> error + rr_queue" where
  "Push_packet qp q =
     (let ssrc = pkt_ssrc (owned_packet qp);
          stream = (case streams q ssrc of None \<Rightarrow> Stream_new\<lparr>stream_ssrc := ssrc\<rparr> | Some s \<Rightarrow> s) in
      bindE (case priority_it stream of
               None \<Rightarrow>
                 let (q, it) = emplace_priority (qp_priority qp, stream_size stream) ssrc q in
                 Inr (q, stream\<lparr>priority_it := Some it\<rparr>)
             | Some it \<Rightarrow> bindE (entry_at (Some it) q) (\<lambda>(_, (prio, _), _).
                 if qp_priority qp < prio then Inl UseAfterFree else Inr (q, stream))) (\<lambda>(q, stream).
        let q = UpdateQueueTime (qp_enqueue_time qp) q in
        Inr (q\<lparr>size_packets := size_packets q + 1, queue_bytes := queue_bytes q + PacketSize qp,
               streams := (streams q)(ssrc \<mapsto> stream\<lparr>packet_queue := pq_insert qp (packet_queue stream)\<rparr>)\<rparr>)))"

definition Push :: "int \<Rightarrow> int \<Rightarrow> 64 word \<Rightarrow> rtp_packet_to_send \<Rightarrow> rr_queue \<Rightarrow> error + rr_queue" where
  "Push prio enqueue_time enqueue_order packet =
     Push_packet \<lparr>qp_priority = prio, qp_enqueue_time = enqueue_time, qp_enqueue_order = enqueue_order, owned_packet = packet\<rparr>"

text \<open>The end of \<open>Pop\<close>: the stream gets the priority of its next packet.\<close>

definition reprioritize :: "u32 \<Rightarrow> pstream \<Rightarrow> rr_queue \<Rightarrow> rr_queue" where
  "reprioritize key stream q =
     (case packet_queue stream of
        [] \<Rightarrow> q\<lparr>streams := (streams q)(key \<mapsto> stream\<lparr>priority_it := None\<rparr>)\<rparr>
      | next # _ \<Rightarrow>
          let (q, it) = emplace_priority (qp_priority next, stream_size stream) (stream_ssrc stream) q in
          q\<lparr>streams := (streams q)(key \<mapsto> stream\<lparr>priority_it := Some it\<rparr>)\<rparr>)"

definition Pop :: "rr_queue \<Rightarrow> error + rr_queue \<times> rtp_packet_to_send" where
  "Pop q =
     bindE (GetHighestPriorityStream q) (\<lambda>(key, stream).
     bindE (byte_at (packet_queue stream) 0) (\<lambda>qp.
     bindE (entry_at (priority_it stream) q) (\<lambda>e.
     let bytes_sent = PacketSize qp;
         sent = max (stream_size stream + bytes_sent) (max_size q - kMaxLeadingSize);
         q = q\<lparr>stream_priorities := remove1 e (stream_priorities q),
               queue_time_sum := queue_time_sum q - (last_time_updated q - qp_enqueue_time qp),
               max_size := max sent (max_size q), size_packets := size_sub (size_packets q) 1,
               queue_bytes := queue_bytes q - bytes_sent\<rparr> in
     Inr (reprioritize key (stream\<lparr>stream_size := sent, packet_queue := tl (packet_queue stream)\<rparr>) q, owned_packet qp))))"

section \<open>The controller\<close>

record pacing_controller =
  packet_counter :: "64 word"
  last_process_time :: int
  pacing_queue :: rr_queue
  min_packet_limit :: int
  media_budget :: interval_budget
  pacing_bitrate :: int
  drain_large_queue :: bool
  queue_time_limit :: int

definition kDefaultMinPacketLimit :: int where
  "kDefaultMinPacketLimit = 5000"

definition kMaxElapsedTime :: int where
  "kMaxElapsedTime = 2000000"

definition kMaxProcessingInterval :: int where
  "kMaxProcessingInterval = 30000"

definition kMaxExpectedQueueLength :: int where
  "kMaxExpectedQueueLength = 2000000"

definition kFirstPriority :: int where
  "kFirstPriority = 0"

fun GetPriorityForType :: "RtpPacketMediaType \<Rightarrow> int" where
  "GetPriorityForType kAudio = kFirstPriority + 1"
| "GetPriorityForType kRetransmission = kFirstPriority + 2"
| "GetPriorityForType kVideo = kFirstPriority + 3"
| "GetPriorityForType kForwardErrorCorrection = kFirstPriority + 3"
| "GetPriorityForType kPadding = kFirstPriority + 4"

definition PacingController_new :: "int \<Rightarrow> error + pacing_controller" where
  "PacingController_new now =
     bindE (IntervalBudget_new 0 False) (\<lambda>b.
       Inr \<lparr>packet_counter = 0, last_process_time = now, pacing_queue = RoundRobinPacketQueue_new now,
            min_packet_limit = kDefaultMinPacketLimit, media_budget = b, pacing_bitrate = 0, drain_large_queue = True,
            queue_time_limit = kMaxExpectedQueueLength\<rparr>)"

definition SetPacingBitrate :: "int \<Rightarrow> pacing_controller \<Rightarrow> pacing_controller" where
  "SetPacingBitrate rate pc = pc\<lparr>pacing_bitrate := rate\<rparr>"

definition SetQueueTimeLimit :: "int \<Rightarrow> pacing_controller \<Rightarrow> pacing_controller" where
  "SetQueueTimeLimit limit pc = pc\<lparr>queue_time_limit := limit\<rparr>"

definition EnqueuePacketInternal :: "int \<Rightarrow> int \<Rightarrow> rtp_packet_to_send \<Rightarrow> pacing_controller \<Rightarrow> error + pacing_controller" where
  "EnqueuePacketInternal now prio packet pc =
     bindE (Push prio now (packet_counter pc) packet (pacing_queue pc)) (\<lambda>q.
       Inr (pc\<lparr>pacing_queue := q, packet_counter := packet_counter pc + 1\<rparr>))"

text \<open>The packet type is an \<open>optional\<close> that is read without a test.\<close>

definition EnqueuePacket :: "int \<Rightarrow> rtp_packet_to_send \<Rightarrow> pacing_controller \<Rightarrow> error + pacing_controller" where
  "EnqueuePacket now packet pc =
     (case media_type packet of
        None \<Rightarrow> Inl CheckFailed
      | Some t \<Rightarrow> EnqueuePacketInternal now (GetPriorityForType t) packet pc)"

definition NextSendTime :: "pacing_controller \<Rightarrow> int" where
  "NextSendTime pc = last_process_time pc + min_packet_limit pc"

definition UpdateTimeAndGetElapsed :: "int \<Rightarrow> pacing_controller \<Rightarrow> pacing_controller \<times> int" where
  "UpdateTimeAndGetElapsed now pc =
     (if now < last_process_time pc then (pc, 0)
      else (pc\<lparr>last_process_time := now\<rparr>, min (now - last_process_time pc) kMaxElapsedTime))"

definition UpdateBudgetWithElapsedTime :: "units \<Rightarrow> int \<Rightarrow> pacing_controller \<Rightarrow> pacing_controller" where
  "UpdateBudgetWithElapsedTime u elapsed_time pc =
     pc\<lparr>media_budget := IncreaseBudget (to_ms u (min elapsed_time kMaxProcessingInterval)) (media_budget pc)\<rparr>"

definition UpdateBudgetWithSendData :: "int \<Rightarrow> pacing_controller \<Rightarrow> pacing_controller" where
  "UpdateBudgetWithSendData bytes_sent pc = pc\<lparr>media_budget := UseBudget bytes_sent (media_budget pc)\<rparr>"

definition OnPacketSent :: "int \<Rightarrow> int \<Rightarrow> pacing_controller \<Rightarrow> pacing_controller" where
  "OnPacketSent bytes_sent send_time pc = (UpdateBudgetWithSendData bytes_sent pc)\<lparr>last_process_time := send_time\<rparr>"

definition GetPendingPacket :: "pacing_controller \<Rightarrow> error + pacing_controller \<times> rtp_packet_to_send option" where
  "GetPendingPacket pc =
     (if Empty (pacing_queue pc) then Inr (pc, None)
      else if BytesRemaining (media_budget pc) \<le> 0 then Inr (pc, None)
      else bindE (Pop (pacing_queue pc)) (\<lambda>(q, p). Inr (pc\<lparr>pacing_queue := q\<rparr>, Some p)))"

text \<open>The rate for the next interval: raised when the queue would otherwise take longer than its limit.\<close>

definition target_rate :: "units \<Rightarrow> pacing_controller \<Rightarrow> int" where
  "target_rate u pc =
     (let q = pacing_queue pc in
      if queue_bytes q > 0 \<and> drain_large_queue pc
      then max (per_time u (queue_bytes q) (max 1000 (queue_time_limit pc - AverageQueueTime u q))) (pacing_bitrate pc)
      else pacing_bitrate pc)"

definition update_budget :: "units \<Rightarrow> int \<Rightarrow> pacing_controller \<Rightarrow> error + pacing_controller" where
  "update_budget u now pc =
     (let (pc, elapsed_time) = UpdateTimeAndGetElapsed now pc in
      if elapsed_time > 0 then
        let pc = pc\<lparr>pacing_queue := UpdateQueueTime now (pacing_queue pc)\<rparr> in
        bindE (SetTargetBitrateKbps (to_i32 (to_kbps u (target_rate u pc))) (media_budget pc)) (\<lambda>b.
          Inr (UpdateBudgetWithElapsedTime u elapsed_time (pc\<lparr>media_budget := b\<rparr>)))
      else Inr pc)"

lemma reprioritize_size [simp]: "size_packets (reprioritize key stream q) = size_packets q"
  by (simp add: reprioritize_def emplace_priority_def split: list.split)

lemma Pop_size: "Pop q = Inr (q', p) \<Longrightarrow> size_packets q' = size_sub (size_packets q) 1"
  by (auto simp: Pop_def Let_def)

text \<open>The loop of \<open>ProcessPackets\<close>: the packets given to the sender, in order.\<close>

function send_loop :: "int \<Rightarrow> pacing_controller \<Rightarrow> error + pacing_controller \<times> rtp_packet_to_send list" where
  "send_loop target_send_time pc =
     (case GetPendingPacket pc of
        Inl e \<Rightarrow> Inl e
      | Inr (pc, None) \<Rightarrow> Inr (pc, [])
      | Inr (pc, Some p) \<Rightarrow>
          (case send_loop target_send_time (OnPacketSent (int (pkt_payload_size p + pkt_padding_size p)) target_send_time pc) of
             Inl e \<Rightarrow> Inl e
           | Inr (pc, ps) \<Rightarrow> Inr (pc, p # ps)))"
  by pat_completeness auto
termination
proof (relation "measure (\<lambda>(_, pc). size_packets (pacing_queue pc))")
  fix t pc x q y p
  assume "GetPendingPacket pc = Inr x" "(q, y) = x" "y = Some p"
  then have g: "GetPendingPacket pc = Inr (q, Some p)" by simp
  then have "size_packets (pacing_queue pc) \<noteq> 0" by (auto simp: GetPendingPacket_def Empty_def split: if_splits)
  with g show "((t, OnPacketSent (int (pkt_payload_size p + pkt_padding_size p)) t q), t, pc) \<in> measure (\<lambda>(_, pc). size_packets (pacing_queue pc))"
    by (auto simp: GetPendingPacket_def OnPacketSent_def UpdateBudgetWithSendData_def Pop_size split: if_splits)
qed simp

declare send_loop.simps [simp del]

definition ProcessPackets :: "units \<Rightarrow> int \<Rightarrow> pacing_controller \<Rightarrow> error + pacing_controller \<times> rtp_packet_to_send list" where
  "ProcessPackets u now pc = bindE (update_budget u now pc) (\<lambda>pc. send_loop now pc)"

section \<open>The periodic task\<close>

text \<open>Tasks that were posted, and those with a delay (in milliseconds): the argument with which they run
  \<open>MaybeProcessPackets\<close>. \<open>Timestamp::MinusInfinity\<close> is \<open>None\<close>.\<close>

datatype paced_task = StartTask | EnqueueTask rtp_packet_to_send

record paced_sender =
  pacer :: pacing_controller
  next_process_time :: "int option"
  hold_back_window :: int
  posted :: "paced_task list"
  delayed :: "(int \<times> int) list"
  sent_packets :: "rtp_packet_to_send list"

definition TaskQueuePacedSender_new :: "int \<Rightarrow> int \<Rightarrow> error + paced_sender" where
  "TaskQueuePacedSender_new now hold_back =
     bindE (PacingController_new now) (\<lambda>pc.
       Inr \<lparr>pacer = SetPacingBitrate 800000 pc, next_process_time = None, hold_back_window = hold_back,
            posted = [], delayed = [], sent_packets = []\<rparr>)"

definition EnsureStarted :: "paced_sender \<Rightarrow> paced_sender" where
  "EnsureStarted s = s\<lparr>posted := posted s @ [StartTask]\<rparr>"

definition ps_EnqueuePacket :: "rtp_packet_to_send \<Rightarrow> paced_sender \<Rightarrow> paced_sender" where
  "ps_EnqueuePacket p s = s\<lparr>posted := posted s @ [EnqueueTask p]\<rparr>"

text \<open>\<open>now\<close> is the clock during the processing and \<open>now2\<close> after it.\<close>

definition MaybeProcessPackets :: "units \<Rightarrow> int \<Rightarrow> int \<Rightarrow> int option \<Rightarrow> paced_sender \<Rightarrow> error + paced_sender" where
  "MaybeProcessPackets u now now2 scheduled_process_time s =
     bindE (if scheduled_process_time = next_process_time s
            then bindE (ProcessPackets u now (pacer s)) (\<lambda>(pc, ps).
              Inr (s\<lparr>next_process_time := None, pacer := pc, sent_packets := sent_packets s @ ps\<rparr>))
            else Inr s) (\<lambda>s.
     let next = NextSendTime (pacer s) in
     Inr (if next_process_time s = None
          then s\<lparr>next_process_time := Some next,
                 delayed := delayed s @ [(next, to_ms u (max (next - now2) (hold_back_window s)))]\<rparr>
          else s))"

definition run_posted :: "units \<Rightarrow> int \<Rightarrow> int \<Rightarrow> paced_sender \<Rightarrow> error + paced_sender" where
  "run_posted u now now2 s =
     (case posted s of
        [] \<Rightarrow> Inr s
      | StartTask # ts \<Rightarrow> MaybeProcessPackets u now now2 None (s\<lparr>posted := ts\<rparr>)
      | EnqueueTask p # ts \<Rightarrow> bindE (EnqueuePacket now p (pacer s)) (\<lambda>pc. Inr (s\<lparr>posted := ts, pacer := pc\<rparr>)))"

definition run_delayed :: "units \<Rightarrow> int \<Rightarrow> int \<Rightarrow> nat \<Rightarrow> paced_sender \<Rightarrow> error + paced_sender" where
  "run_delayed u now now2 i s =
     (if i < length (delayed s)
      then MaybeProcessPackets u now now2 (Some (fst (delayed s ! i))) (s\<lparr>delayed := take i (delayed s) @ drop (Suc i) (delayed s)\<rparr>)
      else Inr s)"

end
