(* ===== verification/Pacing_Correct.thy ===== *)
theory Pacing_Correct
  imports Pacing "HOL-Library.Multiset"
begin

text \<open>
  Correctness of the pacer: the round-robin queue refines a multiset of packets from which the most urgent
  one is taken (an interface stated as a locale, on which the controller's loop is proved), the
  controller sends no more than its rate allows, and the periodic task is scheduled exactly once.
\<close>

section \<open>Ordered containers\<close>

lemma set_mm_insert [simp]: "set (mm_insert x xs) = insert x (set xs)"
  by (induction xs) auto

lemma distinct_mm_insert: "distinct (map fst (mm_insert x xs)) \<longleftrightarrow> fst x \<notin> fst ` set xs \<and> distinct (map fst xs)"
  by (induction xs) auto

abbreviation keys_sorted :: "prio_entry list \<Rightarrow> bool" where
  "keys_sorted \<equiv> sorted_wrt (\<lambda>a b. \<not> key_less (fst (snd b)) (fst (snd a)))"

lemma key_less_trans: "key_less a b \<Longrightarrow> \<not> key_less c b \<Longrightarrow> key_less a c"
  by (auto simp: key_less_def split: if_splits)

lemma key_less_asym: "key_less a b \<Longrightarrow> \<not> key_less b a"
  by (auto simp: key_less_def split: if_splits)

lemma keys_sorted_insert: "keys_sorted xs \<Longrightarrow> keys_sorted (mm_insert x xs)"
  by (induction xs) (auto dest: key_less_trans key_less_asym)

lemma sorted_wrt_remove1: "sorted_wrt P xs \<Longrightarrow> sorted_wrt P (remove1 x xs)"
  by (induction xs) (auto dest: subsetD [OF set_remove1_subset])

lemma distinct_map_remove1: "distinct (map f xs) \<Longrightarrow> distinct (map f (remove1 x xs))"
  by (induction xs) (auto dest: subsetD [OF set_remove1_subset])

lemma mset_pq_insert [simp]: "mset (pq_insert x xs) = add_mset x (mset xs)"
  by (induction xs) auto

lemma set_pq_insert [simp]: "set (pq_insert x xs) = insert x (set xs)"
  by (induction xs) auto

lemma pq_insert_not_Nil [simp]: "pq_insert x xs \<noteq> []"
  by (cases xs) auto

abbreviation pq_sorted :: "queued_packet list \<Rightarrow> bool" where
  "pq_sorted \<equiv> sorted_wrt (\<lambda>a b. \<not> qp_less a b)"

lemma qp_less_trans: "qp_less a b \<Longrightarrow> \<not> qp_less a c \<Longrightarrow> \<not> qp_less b c"
  by (auto simp: qp_less_def split: if_splits)

lemma qp_less_asym: "qp_less a b \<Longrightarrow> \<not> qp_less b a"
  by (auto simp: qp_less_def split: if_splits)

lemma pq_sorted_insert: "pq_sorted xs \<Longrightarrow> pq_sorted (pq_insert x xs)"
  by (induction xs) (auto dest: qp_less_trans qp_less_asym)

lemma pq_head:
  assumes "pq_sorted (x # xs)" and "y \<in> set xs"
  shows "qp_priority x \<le> qp_priority y \<and> (qp_priority x = qp_priority y \<longrightarrow> qp_enqueue_order x \<le> qp_enqueue_order y)"
  using assms by (auto simp: qp_less_def not_less split: if_splits)

lemma pq_insert_head:
  assumes "xs \<noteq> []" and "qp_priority (hd xs) \<le> qp_priority x"
  shows "qp_priority (hd (pq_insert x xs)) = qp_priority (hd xs)"
  using assms by (cases xs) (auto simp: qp_less_def split: if_splits)

section \<open>The packets of a queue\<close>

definition contents :: "(u32 \<rightharpoonup> pstream) \<Rightarrow> queued_packet multiset" where
  "contents m = (\<Sum>k\<in>dom m. mset (packet_queue (the (m k))))"

abbreviation queued :: "rr_queue \<Rightarrow> queued_packet multiset" where
  "queued q \<equiv> contents (streams q)"

definition packets_at :: "(u32 \<rightharpoonup> pstream) \<Rightarrow> u32 \<Rightarrow> queued_packet list" where
  "packets_at m k = (case m k of None \<Rightarrow> [] | Some s \<Rightarrow> packet_queue s)"

lemma contents_empty [simp]: "contents Map.empty = {#}"
  by (simp add: contents_def)

lemma contents_split:
  assumes "finite (dom m)"
  shows "contents m = mset (packets_at m k) + contents (m(k := None))"
proof (cases "m k")
  case None
  then have "m(k := None) = m" by auto
  with None show ?thesis by (simp add: packets_at_def)
next
  case (Some s)
  then have "contents m = mset (packet_queue s) + (\<Sum>k'\<in>dom m - {k}. mset (packet_queue (the (m k'))))"
    unfolding contents_def using assms by (subst sum.remove [of _ k]) auto
  also have "(\<Sum>k'\<in>dom m - {k}. mset (packet_queue (the (m k')))) = contents (m(k := None))"
    unfolding contents_def by (rule sum.cong) auto
  finally show ?thesis using Some by (simp add: packets_at_def)
qed

lemma contents_upd:
  assumes "finite (dom m)"
  shows "contents (m(k \<mapsto> s)) = mset (packet_queue s) + contents (m(k := None))"
  using assms contents_split [of "m(k \<mapsto> s)" k] by (simp add: packets_at_def)

lemma in_contents:
  assumes "finite (dom m)"
  shows "x \<in># contents m \<longleftrightarrow> (\<exists>k s. m k = Some s \<and> x \<in> set (packet_queue s))"
proof -
  have "x \<in># contents m \<longleftrightarrow> (\<exists>k\<in>dom m. x \<in> set (packet_queue (the (m k))))"
    using assms by (simp add: contents_def set_mset_sum)
  also have "\<dots> \<longleftrightarrow> (\<exists>k s. m k = Some s \<and> x \<in> set (packet_queue s))"
  proof
    assume "\<exists>k\<in>dom m. x \<in> set (packet_queue (the (m k)))"
    then obtain k where "k \<in> dom m" "x \<in> set (packet_queue (the (m k)))" ..
    then have "m k = Some (the (m k)) \<and> x \<in> set (packet_queue (the (m k)))" by auto
    then show "\<exists>k s. m k = Some s \<and> x \<in> set (packet_queue s)" by (intro exI)
  next
    assume "\<exists>k s. m k = Some s \<and> x \<in> set (packet_queue s)"
    then obtain k s where "m k = Some s" "x \<in> set (packet_queue s)" by (elim exE conjE)
    then show "\<exists>k\<in>dom m. x \<in> set (packet_queue (the (m k)))" by (intro bexI [of _ k]) auto
  qed
  finally show ?thesis .
qed

lemma in_contentsI:
  assumes "finite (dom m)" and "m k = Some s" and "x \<in> set (packet_queue s)"
  shows "x \<in># contents m"
  unfolding in_contents [OF assms(1)] using assms(2,3) by (intro exI conjI)

section \<open>The invariant of the queue\<close>

definition stream_ok :: "prio_entry list \<Rightarrow> int \<Rightarrow> u32 \<Rightarrow> pstream \<Rightarrow> bool" where
  "stream_ok es m ssrc s \<longleftrightarrow>
     stream_ssrc s = ssrc \<and> 0 \<le> stream_size s \<and> stream_size s \<le> m \<and> pq_sorted (packet_queue s) \<and>
     (\<forall>qp \<in> set (packet_queue s). pkt_ssrc (owned_packet qp) = ssrc) \<and>
     (case priority_it s of
        None \<Rightarrow> packet_queue s = []
      | Some it \<Rightarrow> packet_queue s \<noteq> [] \<and> (it, (qp_priority (hd (packet_queue s)), stream_size s), ssrc) \<in> set es)"

definition links_ok :: "rr_queue \<Rightarrow> bool" where
  "links_ok q \<longleftrightarrow>
     finite (dom (streams q)) \<and> kMaxLeadingSize \<le> max_size q \<and> keys_sorted (stream_priorities q) \<and> distinct (map fst (stream_priorities q)) \<and>
     (\<forall>e \<in> set (stream_priorities q). fst e < next_entry q) \<and>
     (\<forall>ssrc s. streams q ssrc = Some s \<longrightarrow> stream_ok (stream_priorities q) (max_size q) ssrc s) \<and>
     (\<forall>it key ssrc. (it, key, ssrc) \<in> set (stream_priorities q) \<longrightarrow> (\<exists>s. streams q ssrc = Some s \<and> priority_it s = Some it))"

definition sums_ok :: "rr_queue \<Rightarrow> bool" where
  "sums_ok q \<longleftrightarrow>
     size_packets q = size (queued q) \<and> queue_bytes q = (\<Sum>qp\<in>#queued q. PacketSize qp) \<and>
     queue_time_sum q = (\<Sum>qp\<in>#queued q. last_time_updated q - qp_enqueue_time qp)"

definition rr_ok :: "rr_queue \<Rightarrow> bool" where
  "rr_ok q \<longleftrightarrow> links_ok q \<and> sums_ok q"

lemma new_ok: "rr_ok (RoundRobinPacketQueue_new t)"
  by (simp add: rr_ok_def links_ok_def sums_ok_def RoundRobinPacketQueue_new_def)

lemma UpdateQueueTime_sel [simp]:
  "streams (UpdateQueueTime t q) = streams q" "stream_priorities (UpdateQueueTime t q) = stream_priorities q"
  "next_entry (UpdateQueueTime t q) = next_entry q" "max_size (UpdateQueueTime t q) = max_size q"
  "size_packets (UpdateQueueTime t q) = size_packets q" "queue_bytes (UpdateQueueTime t q) = queue_bytes q"
  "last_time_updated (UpdateQueueTime t q) = t"
  by (simp_all add: UpdateQueueTime_def)

lemma sum_mset_shift: "(\<Sum>x\<in>#M. a - f x :: int) = (\<Sum>x\<in>#M. b - f x) + (a - b) * int (size M)"
  by (induction M) (auto simp: algebra_simps)

lemma UpdateQueueTime_links [simp]: "links_ok (UpdateQueueTime t q) = links_ok q"
  by (simp add: links_ok_def)

lemma UpdateQueueTime_sums:
  assumes "sums_ok q"
  shows "sums_ok (UpdateQueueTime t q)"
proof -
  have "(\<Sum>x\<in>#queued q. t - qp_enqueue_time x) =
      (\<Sum>x\<in>#queued q. last_time_updated q - qp_enqueue_time x) + (t - last_time_updated q) * int (size (queued q))"
    by (rule sum_mset_shift)
  then show ?thesis using assms by (auto simp: sums_ok_def UpdateQueueTime_def)
qed

lemma UpdateQueueTime_ok: "rr_ok q \<Longrightarrow> rr_ok (UpdateQueueTime t q)"
  by (simp add: rr_ok_def UpdateQueueTime_sums)

section \<open>Push\<close>

lemma links_okD:
  assumes "links_ok q"
  shows "finite (dom (streams q))" "keys_sorted (stream_priorities q)" "distinct (map fst (stream_priorities q))"
    "e \<in> set (stream_priorities q) \<Longrightarrow> fst e < next_entry q"
    "streams q ssrc = Some s \<Longrightarrow> stream_ok (stream_priorities q) (max_size q) ssrc s"
    "(it, key, ssrc) \<in> set (stream_priorities q) \<Longrightarrow> \<exists>s. streams q ssrc = Some s \<and> priority_it s = Some it"
    "kMaxLeadingSize \<le> max_size q"
  using assms unfolding links_ok_def by blast+

lemma find_id:
  assumes "distinct (map fst es)" and "e \<in> set es"
  shows "find (\<lambda>x. fst x = fst e) es = Some e"
  using assms by (induction es) (auto simp: rev_image_eqI)

lemma entry_at_ok:
  assumes "links_ok q" and "(it, key, ssrc) \<in> set (stream_priorities q)"
  shows "entry_at (Some it) q = Inr (it, key, ssrc)"
  using find_id [OF links_okD(3) [OF assms(1)] assms(2)] by (simp add: entry_at_def)

lemma stream_ok_mono:
  assumes "stream_ok es m ssrc s" and "m \<le> m'" and "\<And>it key. (it, key, ssrc) \<in> set es \<Longrightarrow> (it, key, ssrc) \<in> set es'"
  shows "stream_ok es' m' ssrc s"
  using assms unfolding stream_ok_def by (auto split: option.split)

lemma stream_new_ok: "0 \<le> m \<Longrightarrow> stream_ok es m ssrc (Stream_new\<lparr>stream_ssrc := ssrc\<rparr>)"
  by (simp add: stream_ok_def Stream_new_def)

text \<open>A packet may be queued when it is not more urgent than every packet its stream holds.\<close>

definition admits :: "rr_queue \<Rightarrow> queued_packet \<Rightarrow> bool" where
  "admits q qp \<longleftrightarrow> (let ps = packets_at (streams q) (pkt_ssrc (owned_packet qp)) in
     ps = [] \<or> (\<exists>r \<in> set ps. qp_priority r \<le> qp_priority qp))"

lemma sums_add:
  assumes "sums_ok q" and "queued q' = add_mset qp (queued q)" and "size_packets q' = size_packets q + 1"
    and "queue_bytes q' = queue_bytes q + PacketSize qp" and "queue_time_sum q' = queue_time_sum q"
    and "last_time_updated q' = last_time_updated q" and "qp_enqueue_time qp = last_time_updated q"
  shows "sums_ok q'"
  using assms by (simp add: sums_ok_def)

lemma admits_hd:
  assumes "stream_ok es m ssrc s" and "streams q ssrc = Some s" and "ssrc = pkt_ssrc (owned_packet qp)" and "packet_queue s \<noteq> []"
  shows "admits q qp \<longleftrightarrow> qp_priority (hd (packet_queue s)) \<le> qp_priority qp"
proof -
  obtain x xs where x: "packet_queue s = x # xs" using assms(4) by (cases "packet_queue s") auto
  have "pq_sorted (x # xs)" using assms(1) x by (simp add: stream_ok_def)
  from pq_head [OF this] have "\<And>y. y \<in> set xs \<Longrightarrow> qp_priority x \<le> qp_priority y" by blast
  then show ?thesis using assms(2,3) x by (auto simp: admits_def packets_at_def intro: order_trans)
qed


text \<open>The common step of \<open>Push\<close> and \<open>Pop\<close>: one stream is replaced and, with it, its entry.\<close>

lemma links_replace:
  assumes q: "links_ok q" and f: "streams q' = (streams q)(ssrc \<mapsto> s')"
    and es: "keys_sorted (stream_priorities q')" "distinct (map fst (stream_priorities q'))"
      "\<And>e. e \<in> set (stream_priorities q') \<Longrightarrow> fst e < next_entry q'"
    and others: "\<And>it key k. k \<noteq> ssrc \<Longrightarrow> (it, key, k) \<in> set (stream_priorities q') \<longleftrightarrow> (it, key, k) \<in> set (stream_priorities q)"
    and own: "\<And>it key. (it, key, ssrc) \<in> set (stream_priorities q') \<Longrightarrow> priority_it s' = Some it"
    and m: "max_size q \<le> max_size q'" and s': "stream_ok (stream_priorities q') (max_size q') ssrc s'"
  shows "links_ok q'"
  unfolding links_ok_def
proof (intro conjI allI impI ballI)
  show "finite (dom (streams q'))" using links_okD(1) [OF q] by (simp add: f)
  show "kMaxLeadingSize \<le> max_size q'" using links_okD(7) [OF q] m by simp
  fix k s assume "streams q' k = Some s"
  then show "stream_ok (stream_priorities q') (max_size q') k s"
    using s' stream_ok_mono [OF links_okD(5) [OF q] m] others by (cases "k = ssrc") (simp_all add: f)
next
  fix it key k assume e: "(it, key, k) \<in> set (stream_priorities q')"
  show "\<exists>s. streams q' k = Some s \<and> priority_it s = Some it"
  proof (cases "k = ssrc")
    case True
    then show ?thesis using own e by (simp add: f)
  next
    case False
    then show ?thesis using links_okD(6) [OF q] others e by (simp add: f)
  qed
qed (use es in auto)

lemma emplace_links:
  assumes q: "links_ok q" and f: "streams q' = (streams q)(ssrc \<mapsto> s')"
    and es: "stream_priorities q' = mm_insert (next_entry q, (qp_priority (hd (packet_queue s')), stream_size s'), ssrc) es" "next_entry q' = next_entry q + 1"
    and e: "keys_sorted es" "distinct (map fst es)" "set es = {e \<in> set (stream_priorities q). snd (snd e) \<noteq> ssrc}"
    and s': "priority_it s' = Some (next_entry q)" "stream_ssrc s' = ssrc" "0 \<le> stream_size s'" "stream_size s' \<le> max_size q'"
      "pq_sorted (packet_queue s')" "\<forall>qp \<in> set (packet_queue s'). pkt_ssrc (owned_packet qp) = ssrc" "packet_queue s' \<noteq> []"
    and m: "max_size q \<le> max_size q'"
  shows "links_ok q'"
proof (rule links_replace [OF q f])
  show "keys_sorted (stream_priorities q')" unfolding es by (rule keys_sorted_insert [OF e(1)])
  show "distinct (map fst (stream_priorities q'))"
    using e links_okD(4) [OF q] by (fastforce simp: es(1) distinct_mm_insert)
  show "stream_ok (stream_priorities q') (max_size q') ssrc s'" using s' by (simp add: stream_ok_def es)
qed (use e es s' m links_okD(4) [OF q] in \<open>fastforce+\<close>)

lemma push_sums:
  assumes "sums_ok q" and "finite (dom (streams q))" and "qp_enqueue_time qp = last_time_updated q"
    and "packet_queue s' = pq_insert qp (packets_at (streams q) ssrc)"
  shows "sums_ok (q\<lparr>stream_priorities := es, next_entry := n, size_packets := size_packets q + 1, queue_bytes := queue_bytes q + PacketSize qp,
      streams := (streams q)(ssrc \<mapsto> s')\<rparr>)"
    "contents ((streams q)(ssrc \<mapsto> s')) = add_mset qp (queued q)"
proof -
  show c: "contents ((streams q)(ssrc \<mapsto> s')) = add_mset qp (queued q)"
    using contents_upd [OF assms(2), of ssrc s'] contents_split [OF assms(2), of ssrc] assms(4) by simp
  show "sums_ok (q\<lparr>stream_priorities := es, next_entry := n, size_packets := size_packets q + 1, queue_bytes := queue_bytes q + PacketSize qp,
      streams := (streams q)(ssrc \<mapsto> s')\<rparr>)"
    by (rule sums_add [OF assms(1), of _ qp]) (simp_all add: c assms(3))
qed

lemma own_entries_none:
  assumes "links_ok q" and "\<And>s. streams q ssrc = Some s \<Longrightarrow> priority_it s = None"
  shows "{e \<in> set (stream_priorities q). snd (snd e) \<noteq> ssrc} = set (stream_priorities q)"
  using assms(2) links_okD(6) [OF assms(1)] by fastforce

lemma Push_idle:
  assumes q: "rr_ok q" and ssrc: "ssrc = pkt_ssrc (owned_packet qp)" and idle: "\<And>s. streams q ssrc = Some s \<Longrightarrow> priority_it s = None"
  shows "\<exists>q'. Push_packet qp q = Inr q' \<and> rr_ok q' \<and> queued q' = add_mset qp (queued q)"
proof -
  define q0 where "q0 = UpdateQueueTime (qp_enqueue_time qp) q"
  have l: "links_ok q" and l0: "links_ok q0" and s0: "sums_ok q0" using q UpdateQueueTime_ok by (simp_all add: q0_def rr_ok_def)
  define s where "s = (case streams q ssrc of None \<Rightarrow> Stream_new\<lparr>stream_ssrc := ssrc\<rparr> | Some s \<Rightarrow> s)"
  have so: "stream_ok (stream_priorities q) (max_size q) ssrc s"
    using links_okD(5,7) [OF l] by (auto simp: s_def stream_new_ok kMaxLeadingSize_def split: option.split)
  have p: "priority_it s = None" using idle by (auto simp: s_def Stream_new_def split: option.split)
  then have e: "packet_queue s = []" using so by (simp add: stream_ok_def)
  then have pa: "packets_at (streams q) ssrc = []" by (auto simp: packets_at_def s_def split: option.splits)
  define s' where "s' = s\<lparr>priority_it := Some (next_entry q), packet_queue := pq_insert qp (packet_queue s)\<rparr>"
  define q' where "q' = q0\<lparr>stream_priorities := mm_insert (next_entry q, (qp_priority qp, stream_size s), ssrc) (stream_priorities q),
      next_entry := next_entry q + 1, size_packets := size_packets q0 + 1, queue_bytes := queue_bytes q0 + PacketSize qp, streams := (streams q0)(ssrc \<mapsto> s')\<rparr>"
  have "Push_packet qp q = Inr q'"
    unfolding Push_packet_def s_def [symmetric] ssrc [symmetric] Let_def using p
    by (simp add: q'_def s'_def q0_def emplace_priority_def UpdateQueueTime_def s_def [symmetric] ssrc [symmetric])
  moreover have "links_ok q'"
  proof (rule emplace_links [OF l0])
    show "streams q' = (streams q0)(ssrc \<mapsto> s')" by (simp add: q'_def)
    show "stream_priorities q' = mm_insert (next_entry q0, (qp_priority (hd (packet_queue s')), stream_size s'), ssrc) (stream_priorities q)"
      by (simp add: q'_def s'_def q0_def e)
    show "set (stream_priorities q) = {e \<in> set (stream_priorities q0). snd (snd e) \<noteq> ssrc}"
      using own_entries_none [OF l idle] by (simp add: q0_def)
  qed (use so links_okD(2,3) [OF l] in \<open>simp_all add: q'_def q0_def s'_def e stream_ok_def ssrc\<close>)
  moreover have "sums_ok q'" "queued q' = add_mset qp (queued q)"
    using push_sums [OF s0 links_okD(1) [OF l0], of qp s' ssrc] by (simp_all add: q'_def q0_def s'_def pa e)
  ultimately show ?thesis by (simp add: rr_ok_def)
qed

lemma Push_busy:
  assumes q: "rr_ok q" and ssrc: "ssrc = pkt_ssrc (owned_packet qp)" and s: "streams q ssrc = Some s" "priority_it s = Some it"
  shows "if admits q qp then \<exists>q'. Push_packet qp q = Inr q' \<and> rr_ok q' \<and> queued q' = add_mset qp (queued q)
    else Push_packet qp q = Inl UseAfterFree"
proof -
  define q0 where "q0 = UpdateQueueTime (qp_enqueue_time qp) q"
  have l: "links_ok q" and l0: "links_ok q0" and s0: "sums_ok q0" using q UpdateQueueTime_ok by (simp_all add: q0_def rr_ok_def)
  have so: "stream_ok (stream_priorities q) (max_size q) ssrc s" by (rule links_okD(5) [OF l s(1)])
  then have ne: "packet_queue s \<noteq> []" and en: "(it, (qp_priority (hd (packet_queue s)), stream_size s), ssrc) \<in> set (stream_priorities q)"
    using s(2) by (simp_all add: stream_ok_def)
  note at = entry_at_ok [OF l en] and hd = admits_hd [OF so s(1) ssrc ne]
  define s' where "s' = s\<lparr>packet_queue := pq_insert qp (packet_queue s)\<rparr>"
  define q' where "q' = q0\<lparr>size_packets := size_packets q0 + 1, queue_bytes := queue_bytes q0 + PacketSize qp, streams := (streams q0)(ssrc \<mapsto> s')\<rparr>"
  have P: "Push_packet qp q = (if admits q qp then Inr q' else Inl UseAfterFree)"
    using s at hd by (simp add: Push_packet_def ssrc [symmetric] q'_def s'_def q0_def del: bindE_eq_Inr)
  moreover have "links_ok q' \<and> sums_ok q' \<and> queued q' = add_mset qp (queued q)" if a: "admits q qp"
  proof (intro conjI)
    have h: "qp_priority (hd (packet_queue s')) = qp_priority (hd (packet_queue s))"
      using a hd ne by (simp add: s'_def pq_insert_head)
    show "links_ok q'"
    proof (rule links_replace [OF l0])
      show "streams q' = (streams q0)(ssrc \<mapsto> s')" by (simp add: q'_def)
      show "stream_ok (stream_priorities q') (max_size q') ssrc s'"
        using so s h pq_sorted_insert by (auto simp: stream_ok_def q'_def q0_def s'_def ssrc)
      fix it' key assume "(it', key, ssrc) \<in> set (stream_priorities q')"
      then have "(it', key, ssrc) \<in> set (stream_priorities q)" by (simp add: q'_def q0_def)
      from links_okD(6) [OF l this] show "priority_it s' = Some it'" using s by (simp add: s'_def)
    qed (use links_okD(2-4) [OF l] in \<open>simp_all add: q'_def q0_def\<close>)
    have "q' = q0\<lparr>stream_priorities := stream_priorities q0, next_entry := next_entry q0, size_packets := size_packets q0 + 1,
        queue_bytes := queue_bytes q0 + PacketSize qp, streams := (streams q0)(ssrc \<mapsto> s')\<rparr>" by (simp add: q'_def)
    then show "sums_ok q'" "queued q' = add_mset qp (queued q)"
      using push_sums [OF s0 links_okD(1) [OF l0], of qp s' ssrc] s by (simp_all add: q0_def s'_def packets_at_def)
  qed
  ultimately show ?thesis by (simp add: rr_ok_def)
qed

lemma Push_packet_ok:
  assumes "rr_ok q"
  shows "if admits q qp then \<exists>q'. Push_packet qp q = Inr q' \<and> rr_ok q' \<and> queued q' = add_mset qp (queued q)
    else Push_packet qp q = Inl UseAfterFree"
proof (cases "\<exists>s it. streams q (pkt_ssrc (owned_packet qp)) = Some s \<and> priority_it s = Some it")
  case True
  then show ?thesis using Push_busy [OF assms refl] by (elim exE conjE)
next
  case False
  have l: "links_ok q" using assms by (simp add: rr_ok_def)
  have idle: "priority_it s = None" if "streams q (pkt_ssrc (owned_packet qp)) = Some s" for s
    using False that by (cases "priority_it s") auto
  have "admits q qp"
    using idle links_okD(5) [OF l] by (fastforce simp: admits_def packets_at_def stream_ok_def split: option.split)
  then show ?thesis using Push_idle [OF assms refl idle] by simp
qed

section \<open>Pop\<close>

definition served :: "rr_queue \<Rightarrow> queued_packet \<Rightarrow> bool" where
  "served q qp \<longleftrightarrow>
     qp \<in># queued q \<and> (\<forall>r \<in># queued q. qp_priority qp \<le> qp_priority r) \<and>
     (\<forall>r \<in># queued q. pkt_ssrc (owned_packet r) = pkt_ssrc (owned_packet qp) \<and> qp_priority r = qp_priority qp \<longrightarrow>
        qp_enqueue_order qp \<le> qp_enqueue_order r) \<and>
     (\<forall>ssrc s t. streams q (pkt_ssrc (owned_packet qp)) = Some s \<and> streams q ssrc = Some t \<and> packet_queue t \<noteq> [] \<and>
        qp_priority (hd (packet_queue t)) = qp_priority qp \<longrightarrow> stream_size s \<le> stream_size t)"

lemma busy_entry:
  assumes "links_ok q" and "streams q ssrc = Some s" and "packet_queue s \<noteq> []"
  obtains it where "priority_it s = Some it" "(it, (qp_priority (hd (packet_queue s)), stream_size s), ssrc) \<in> set (stream_priorities q)"
  using links_okD(5) [OF assms(1,2)] assms(3) by (auto simp: stream_ok_def split: option.splits)

lemma own_entries_one:
  assumes l: "links_ok q" and s: "streams q ssrc = Some s" "priority_it s = Some it" and e: "(it, key, ssrc) \<in> set (stream_priorities q)"
  shows "set (remove1 (it, key, ssrc) (stream_priorities q)) = {e \<in> set (stream_priorities q). snd (snd e) \<noteq> ssrc}"
proof -
  note d = links_okD(3) [OF l]
  have one: "x = (it, key, ssrc)" if in_es: "x \<in> set (stream_priorities q)" and of: "snd (snd x) = ssrc" for x
  proof -
    obtain i k where x: "x = (i, k, ssrc)" using of by (cases x) auto
    then have "i = it" using links_okD(6) [OF l] in_es s by fastforce
    then show ?thesis using eq_key_imp_eq_value [OF d e, of "(k, ssrc)"] x in_es by simp
  qed
  have "set (remove1 (it, key, ssrc) (stream_priorities q)) = set (stream_priorities q) - {(it, key, ssrc)}"
    using d by (simp add: distinct_map)
  moreover have "x = (it, key, ssrc) \<longleftrightarrow> snd (snd x) = ssrc" if "x \<in> set (stream_priorities q)" for x
    using one [OF that] by auto
  ultimately show ?thesis by blast
qed

lemma highest:
  assumes q: "rr_ok q" and ne: "queued q \<noteq> {#}"
  obtains ssrc s qp rest it where "GetHighestPriorityStream q = Inr (ssrc, s)" "streams q ssrc = Some s" "packet_queue s = qp # rest"
    "priority_it s = Some it" "(it, (qp_priority qp, stream_size s), ssrc) \<in> set (stream_priorities q)"
    "\<forall>e \<in> set (stream_priorities q). \<not> key_less (fst (snd e)) (qp_priority qp, stream_size s)"
proof -
  have l: "links_ok q" using q by (simp add: rr_ok_def)
  from ne obtain x where "x \<in># queued q" by (meson multiset_nonemptyE)
  then obtain k t where t: "streams q k = Some t" "x \<in> set (packet_queue t)" by (auto simp: in_contents [OF links_okD(1) [OF l]])
  then have "packet_queue t \<noteq> []" by auto
  then obtain it where "(it, (qp_priority (hd (packet_queue t)), stream_size t), k) \<in> set (stream_priorities q)"
    by (rule busy_entry [OF l t(1)])
  then have "stream_priorities q \<noteq> []" by auto
  then obtain it key ssrc es where e: "stream_priorities q = (it, key, ssrc) # es" by (cases "stream_priorities q") auto
  then obtain s where s: "streams q ssrc = Some s" "priority_it s = Some it" using links_okD(6) [OF l, of it key ssrc] by auto
  have so: "stream_ok (stream_priorities q) (max_size q) ssrc s" by (rule links_okD(5) [OF l s(1)])
  then have pn: "packet_queue s \<noteq> []" and en: "(it, (qp_priority (hd (packet_queue s)), stream_size s), ssrc) \<in> set (stream_priorities q)"
    using s(2) by (simp_all add: stream_ok_def)
  have k: "key = (qp_priority (hd (packet_queue s)), stream_size s)" using eq_key_imp_eq_value [OF links_okD(3) [OF l] en, of "(key, ssrc)"] by (simp add: e)
  obtain qp rest where p: "packet_queue s = qp # rest" using pn by (cases "packet_queue s") auto
  have "\<not> key_less (fst (snd x)) key" if "x \<in> set (stream_priorities q)" for x
    using that links_okD(2) [OF l] by (auto simp: e key_less_def)
  then show ?thesis using that [of ssrc s qp rest it] s p k en by (simp add: GetHighestPriorityStream_def e)
qed

lemma highest_served:
  assumes l: "links_ok q" and s: "streams q ssrc = Some s" "packet_queue s = qp # rest"
    and min: "\<forall>e \<in> set (stream_priorities q). \<not> key_less (fst (snd e)) (qp_priority qp, stream_size s)"
  shows "served q qp"
proof -
  note fin = links_okD(1) [OF l] and so = links_okD(5) [OF l s(1)]
  have ssrc: "pkt_ssrc (owned_packet qp) = ssrc" using so s(2) by (simp add: stream_ok_def)
  have key: "qp_priority qp < qp_priority (hd (packet_queue t)) \<or> qp_priority qp = qp_priority (hd (packet_queue t)) \<and> stream_size s \<le> stream_size t"
    if t: "streams q k = Some t" "packet_queue t \<noteq> []" for k t
  proof -
    obtain it where "(it, (qp_priority (hd (packet_queue t)), stream_size t), k) \<in> set (stream_priorities q)"
      by (rule busy_entry [OF l t])
    with min have "\<not> key_less (qp_priority (hd (packet_queue t)), stream_size t) (qp_priority qp, stream_size s)" by fastforce
    then show ?thesis by (auto simp: key_less_def split: if_splits)
  qed
  have sorted: "pq_sorted (packet_queue t)" if "streams q k = Some t" for k t
    using links_okD(5) [OF l that] by (simp add: stream_ok_def)
  have "qp_priority qp \<le> qp_priority r" if "r \<in># queued q" for r
  proof -
    from that obtain k t where t: "streams q k = Some t" "r \<in> set (packet_queue t)" by (auto simp: in_contents [OF fin])
    then obtain x xs where x: "packet_queue t = x # xs" by (cases "packet_queue t") auto
    have "qp_priority x \<le> qp_priority r" using sorted [OF t(1)] t(2) pq_head [of x xs r] by (auto simp: x)
    then show ?thesis using key [OF t(1)] x by auto
  qed
  moreover have "qp_enqueue_order qp \<le> qp_enqueue_order r"
    if "r \<in># queued q" "pkt_ssrc (owned_packet r) = ssrc" "qp_priority r = qp_priority qp" for r
  proof -
    from that(1) obtain k t where t: "streams q k = Some t" "r \<in> set (packet_queue t)" by (auto simp: in_contents [OF fin])
    then have "k = ssrc" using links_okD(5) [OF l t(1)] that(2) by (auto simp: stream_ok_def)
    then have "r \<in> set (qp # rest)" using t s by auto
    then show ?thesis using sorted [OF s(1)] pq_head [of qp rest r] that(3) by (auto simp: s(2))
  qed
  moreover have "qp \<in># queued q" using s by (intro in_contentsI [OF fin s(1)]) simp
  moreover have "stream_size s \<le> stream_size t"
    if "streams q k = Some t" "packet_queue t \<noteq> []" "qp_priority (hd (packet_queue t)) = qp_priority qp" for k t
    using key [OF that(1,2)] that(3) by auto
  ultimately show ?thesis using s(1) by (auto simp: served_def ssrc)
qed

lemma sums_del:
  assumes "sums_ok q" and "queued q = add_mset qp (queued q')" and "size_packets q' = size_sub (size_packets q) 1"
    and "queue_bytes q' = queue_bytes q - PacketSize qp"
    and "queue_time_sum q' = queue_time_sum q - (last_time_updated q - qp_enqueue_time qp)" and "last_time_updated q' = last_time_updated q"
  shows "sums_ok q'"
  using assms by (simp add: sums_ok_def)

lemma pop_contents:
  assumes "finite (dom m)" and "m ssrc = Some s" "packet_queue s = qp # rest" and "packet_queue s' = rest"
  shows "contents m = add_mset qp (contents (m(ssrc \<mapsto> s')))"
  using contents_upd [OF assms(1), of ssrc s'] contents_split [OF assms(1), of ssrc] assms(2-4) by (simp add: packets_at_def)

lemma Pop_ok:
  assumes q: "rr_ok q" and ne: "queued q \<noteq> {#}"
  obtains q' qp where "Pop q = Inr (q', owned_packet qp)" "rr_ok q'" "queued q = add_mset qp (queued q')" "served q qp"
    "\<exists>s'. streams q' (pkt_ssrc (owned_packet qp)) = Some s' \<and> max_size q' - kMaxLeadingSize \<le> stream_size s'"
proof -
  have l: "links_ok q" and su: "sums_ok q" using q by (simp_all add: rr_ok_def)
  obtain ssrc s qp rest it where h: "GetHighestPriorityStream q = Inr (ssrc, s)" "streams q ssrc = Some s" "packet_queue s = qp # rest"
    "priority_it s = Some it" "(it, (qp_priority qp, stream_size s), ssrc) \<in> set (stream_priorities q)"
    "\<forall>e \<in> set (stream_priorities q). \<not> key_less (fst (snd e)) (qp_priority qp, stream_size s)"
    by (rule highest [OF q ne])
  define e where "e = (it, (qp_priority qp, stream_size s), ssrc)"
  define sent where "sent = max (stream_size s + PacketSize qp) (max_size q - kMaxLeadingSize)"
  define m where "m = max sent (max_size q)"
  define q0 where "q0 = q\<lparr>stream_priorities := remove1 e (stream_priorities q),
      queue_time_sum := queue_time_sum q - (last_time_updated q - qp_enqueue_time qp), max_size := m,
      size_packets := size_sub (size_packets q) 1, queue_bytes := queue_bytes q - PacketSize qp\<rparr>"
  define s0 where "s0 = s\<lparr>stream_size := sent, packet_queue := rest\<rparr>"
  have P: "Pop q = Inr (reprioritize ssrc s0 q0, owned_packet qp)"
    using h(1,3,4) entry_at_ok [OF l h(5)] by (simp add: Pop_def e_def sent_def m_def q0_def s0_def Let_def del: bindE_eq_Inr)
  note es = own_entries_one [OF l h(2,4,5), folded e_def]
  have so: "stream_ok (stream_priorities q) (max_size q) ssrc s" by (rule links_okD(5) [OF l h(2)])
  have s0: "stream_ssrc s0 = ssrc" "0 \<le> sent" "pq_sorted rest" "\<forall>qp \<in> set rest. pkt_ssrc (owned_packet qp) = ssrc" "pkt_ssrc (owned_packet qp) = ssrc"
    using so by (simp_all add: stream_ok_def s0_def sent_def PacketSize_def h(3) le_max_iff_disj)
  have rem: "keys_sorted (remove1 e (stream_priorities q))" "distinct (map fst (remove1 e (stream_priorities q)))"
    by (rule sorted_wrt_remove1 [OF links_okD(2) [OF l]], rule distinct_map_remove1 [OF links_okD(3) [OF l]])
  define n where "n = (if rest = [] then next_entry q else next_entry q + 1)"
  define ps where "ps = (if rest = [] then remove1 e (stream_priorities q)
      else mm_insert (next_entry q, (qp_priority (hd rest), sent), ssrc) (remove1 e (stream_priorities q)))"
  define s' where "s' = s0\<lparr>priority_it := if rest = [] then None else Some (next_entry q)\<rparr>"
  define q' where "q' = q0\<lparr>stream_priorities := ps, next_entry := n, streams := (streams q)(ssrc \<mapsto> s')\<rparr>"
  have q': "reprioritize ssrc s0 q0 = q'"
    by (cases rest) (simp_all add: reprioritize_def emplace_priority_def q'_def q0_def s0_def s'_def n_def ps_def s0(1) [unfolded s0_def, simplified])
  have "links_ok q'"
  proof (cases "rest = []")
    case True
    show ?thesis
    proof (rule links_replace [OF l])
      show "streams q' = (streams q)(ssrc \<mapsto> s')" by (simp add: q'_def)
    qed (use True rem es s0 links_okD(4) [OF l] in \<open>auto simp: q'_def q0_def ps_def n_def s'_def s0_def m_def stream_ok_def\<close>)
  next
    case False
    show ?thesis
    proof (rule emplace_links [OF l])
      show "streams q' = (streams q)(ssrc \<mapsto> s')" by (simp add: q'_def)
      show "set (remove1 e (stream_priorities q)) = {e \<in> set (stream_priorities q). snd (snd e) \<noteq> ssrc}" by (rule es)
    qed (use False rem s0 in \<open>simp_all add: q'_def q0_def ps_def n_def s'_def s0_def m_def\<close>)
  qed
  moreover have "packet_queue s' = rest" by (simp add: s'_def s0_def)
  from pop_contents [OF links_okD(1) [OF l] h(2,3) this]
  have c: "queued q = add_mset qp (queued q')" by (simp add: q'_def)
  moreover have "sums_ok q'" by (rule sums_del [OF su c]) (simp_all add: q'_def q0_def)
  moreover have "streams q' (pkt_ssrc (owned_packet qp)) = Some s' \<and> max_size q' - kMaxLeadingSize \<le> stream_size s'"
    by (simp add: q'_def q0_def s'_def s0_def s0(5) m_def sent_def kMaxLeadingSize_def)
  ultimately show ?thesis using that [of q' qp] P q' highest_served [OF l h(2,3,6)] by (auto simp: rr_ok_def)
qed

section \<open>The contract between queue and controller\<close>

text \<open>Taking packets from a queue, one after the other.\<close>

fun pops :: "('q \<Rightarrow> error + 'q \<times> 'p) \<Rightarrow> nat \<Rightarrow> 'q \<Rightarrow> error + 'q \<times> 'p list" where
  "pops pop 0 q = Inr (q, [])"
| "pops pop (Suc n) q = bindE (pop q) (\<lambda>(q, p). bindE (pops pop n q) (\<lambda>(q, ps). Inr (q, p # ps)))"

text \<open>A priority queue: what is pushed comes out once, the most urgent packet first.\<close>

locale packet_queue_contract =
  fixes wf :: "'q \<Rightarrow> bool"
    and items :: "'q \<Rightarrow> queued_packet multiset"
    and fits :: "'q \<Rightarrow> queued_packet \<Rightarrow> bool"
    and push :: "queued_packet \<Rightarrow> 'q \<Rightarrow> error + 'q"
    and pop :: "'q \<Rightarrow> error + 'q \<times> rtp_packet_to_send"
  assumes push_law: "wf q \<Longrightarrow> fits q qp \<Longrightarrow> \<exists>q'. push qp q = Inr q' \<and> wf q' \<and> items q' = add_mset qp (items q)"
    and pop_law: "wf q \<Longrightarrow> items q \<noteq> {#} \<Longrightarrow> \<exists>q' qp. pop q = Inr (q', owned_packet qp) \<and> wf q' \<and>
      items q = add_mset qp (items q') \<and> (\<forall>r \<in># items q. qp_priority qp \<le> qp_priority r)"
begin

lemma pops_ok:
  assumes "wf q" and "n \<le> size (items q)"
  shows "\<exists>q' qps. pops pop n q = Inr (q', map owned_packet qps) \<and> length qps = n \<and> wf q' \<and> items q = mset qps + items q' \<and>
    sorted (map qp_priority qps) \<and> (\<forall>a \<in> set qps. \<forall>b \<in># items q'. qp_priority a \<le> qp_priority b)"
  using assms
proof (induction n arbitrary: q)
  case (Suc n)
  then have "items q \<noteq> {#}" by auto
  from pop_law [OF Suc.prems(1) this] obtain q1 qp where 1: "pop q = Inr (q1, owned_packet qp)" "wf q1"
    "items q = add_mset qp (items q1)" "\<forall>r \<in># items q. qp_priority qp \<le> qp_priority r" by (elim exE conjE)
  have "n \<le> size (items q1)" using Suc.prems(2) 1(3) by simp
  from Suc.IH [OF 1(2) this] obtain q' qps where 2: "pops pop n q1 = Inr (q', map owned_packet qps)" "length qps = n" "wf q'"
    "items q1 = mset qps + items q'" "sorted (map qp_priority qps)" "\<forall>a \<in> set qps. \<forall>b \<in># items q'. qp_priority a \<le> qp_priority b"
    by (elim exE conjE)
  show ?case
  proof (intro exI [of _ q'] exI [of _ "qp # qps"] conjI)
    show "pops pop (Suc n) q = Inr (q', map owned_packet (qp # qps))" using 1(1) 2(1) by simp
    show "sorted (map qp_priority (qp # qps))" using 1(3,4) 2(4,5) by simp
    show "\<forall>a \<in> set (qp # qps). \<forall>b \<in># items q'. qp_priority a \<le> qp_priority b" using 1(3,4) 2(4,6) by simp
  qed (use 1 2 in simp_all)
qed simp

end

interpretation rr: packet_queue_contract rr_ok queued admits Push_packet Pop
proof
  fix q qp assume "rr_ok q" "admits q qp"
  then show "\<exists>q'. Push_packet qp q = Inr q' \<and> rr_ok q' \<and> queued q' = add_mset qp (queued q)"
    using Push_packet_ok [of q qp] by simp
next
  fix q assume "rr_ok q" "queued q \<noteq> {#}"
  then obtain q' qp where "Pop q = Inr (q', owned_packet qp)" "rr_ok q'" "queued q = add_mset qp (queued q')" "served q qp"
    by (rule Pop_ok)
  then show "\<exists>q' qp. Pop q = Inr (q', owned_packet qp) \<and> rr_ok q' \<and> queued q = add_mset qp (queued q') \<and>
      (\<forall>r \<in># queued q. qp_priority qp \<le> qp_priority r)"
    by (intro exI [of _ q'] exI [of _ qp]) (simp add: served_def)
qed

section \<open>The budget\<close>

definition budget_ok :: "interval_budget \<Rightarrow> bool" where
  "budget_ok b \<longleftrightarrow> - max_bytes_in_budget b \<le> bytes_remaining b \<and> bytes_remaining b \<le> max_bytes_in_budget b"

lemma SetTarget_ok:
  assumes "0 \<le> rate" and "rate * 500 < 2 ^ 31"
  shows "\<exists>b'. SetTargetBitrateKbps rate b = Inr b' \<and> budget_ok b' \<and> target_bitrate_kbps b' = rate \<and>
    can_build_up_underuse b' = can_build_up_underuse b"
  using assms by (auto simp: SetTargetBitrateKbps_def kWindowMs_def budget_ok_def Let_def)

lemma IncreaseBudget_ok:
  assumes "budget_ok b" and "0 \<le> elapsed" and "0 \<le> target_bitrate_kbps b" and "\<not> can_build_up_underuse b"
  shows "budget_ok (IncreaseBudget elapsed b)"
    "bytes_remaining (IncreaseBudget elapsed b) \<le> elapsed * target_bitrate_kbps b div 8"
proof -
  have "0 \<le> elapsed * target_bitrate_kbps b div 8" using assms by (simp add: pos_imp_zdiv_nonneg_iff)
  then show "budget_ok (IncreaseBudget elapsed b)" "bytes_remaining (IncreaseBudget elapsed b) \<le> elapsed * target_bitrate_kbps b div 8"
    using assms by (auto simp: IncreaseBudget_def budget_ok_def Let_def min_def)
qed

lemma UseBudget_ok: "budget_ok b \<Longrightarrow> 0 \<le> n \<Longrightarrow> budget_ok (UseBudget n b)"
  by (auto simp: budget_ok_def UseBudget_def)

section \<open>The sending loop\<close>

abbreviation wire_bytes :: "rtp_packet_to_send \<Rightarrow> int" where
  "wire_bytes p \<equiv> int (pkt_payload_size p + pkt_padding_size p)"

definition sent_bytes :: "rtp_packet_to_send list \<Rightarrow> int" where
  "sent_bytes ps = sum_list (map wire_bytes ps)"

lemma sent_bytes_simps [simp]: "sent_bytes [] = 0" "sent_bytes (p # ps) = wire_bytes p + sent_bytes ps"
  by (simp_all add: sent_bytes_def)

lemma sent_bytes_nonneg: "0 \<le> sent_bytes ps"
  by (induction ps) simp_all

text \<open>What the loop promises of the controller it starts in and the one it ends in.\<close>

definition drained :: "pacing_controller \<Rightarrow> pacing_controller \<Rightarrow> rtp_packet_to_send list \<Rightarrow> bool" where
  "drained pc pc' ps \<longleftrightarrow>
     length ps \<le> size (queued (pacing_queue pc)) \<and> pops Pop (length ps) (pacing_queue pc) = Inr (pacing_queue pc', ps) \<and>
     budget_ok (media_budget pc') \<and> (Empty (pacing_queue pc') \<or> bytes_remaining (media_budget pc') \<le> 0) \<and>
     (ps \<noteq> [] \<longrightarrow> sent_bytes (butlast ps) < bytes_remaining (media_budget pc))"

lemma OnPacketSent_sel [simp]:
  "pacing_queue (OnPacketSent n t pc) = pacing_queue pc" "media_budget (OnPacketSent n t pc) = UseBudget n (media_budget pc)"
  by (simp_all add: OnPacketSent_def UpdateBudgetWithSendData_def)

lemma send_loop_ok:
  assumes "rr_ok (pacing_queue pc)" and "budget_ok (media_budget pc)"
  shows "\<exists>pc' ps. send_loop t pc = Inr (pc', ps) \<and> drained pc pc' ps"
  using assms
proof (induction "size (queued (pacing_queue pc))" arbitrary: pc)
  case 0
  then have "Empty (pacing_queue pc)" by (simp add: rr_ok_def sums_ok_def Empty_def)
  then show ?case using 0 by (subst send_loop.simps) (simp add: GetPendingPacket_def drained_def)
next
  case (Suc n)
  then have ne: "queued (pacing_queue pc) \<noteq> {#}" by auto
  show ?case
  proof (cases "bytes_remaining (media_budget pc) \<le> 0")
    case True
    then show ?thesis using Suc.prems by (subst send_loop.simps) (simp add: GetPendingPacket_def drained_def BytesRemaining_def)
  next
    case False
    obtain q1 qp where 1: "Pop (pacing_queue pc) = Inr (q1, owned_packet qp)" "rr_ok q1" "queued (pacing_queue pc) = add_mset qp (queued q1)"
      by (rule Pop_ok [OF Suc.prems(1) ne])
    let ?p = "owned_packet qp"
    define pc1 where "pc1 = OnPacketSent (wire_bytes ?p) t (pc\<lparr>pacing_queue := q1\<rparr>)"
    have g: "GetPendingPacket pc = Inr (pc\<lparr>pacing_queue := q1\<rparr>, Some ?p)"
      using False 1(1) ne Suc.prems(1) by (simp add: GetPendingPacket_def BytesRemaining_def Empty_def rr_ok_def sums_ok_def)
    have "n = size (queued (pacing_queue pc1))" using Suc.hyps(2) 1(3) by (simp add: pc1_def)
    from Suc.hyps(1) [OF this] obtain pc' ps where 2: "send_loop t pc1 = Inr (pc', ps)" "drained pc1 pc' ps"
      using 1(2) UseBudget_ok [OF Suc.prems(2)] by (auto simp: pc1_def)
    have "send_loop t pc = Inr (pc', ?p # ps)" using 2(1) by (subst send_loop.simps) (simp add: g pc1_def)
    moreover have "sent_bytes (butlast (?p # ps)) < bytes_remaining (media_budget pc)"
    proof (cases "ps = []")
      case False
      then have "sent_bytes (butlast ps) < max (bytes_remaining (media_budget pc) - wire_bytes ?p) (- max_bytes_in_budget (media_budget pc))"
        using 2(2) by (simp add: drained_def pc1_def UseBudget_def)
      moreover have "0 \<le> max_bytes_in_budget (media_budget pc)" using Suc.prems(2) by (simp add: budget_ok_def)
      ultimately show ?thesis using False sent_bytes_nonneg [of "butlast ps"] by (simp add: max_def split: if_splits)
    qed (use False in simp)
    then have "drained pc pc' (?p # ps)"
      using 2(2) 1(1,3) by (simp add: drained_def pc1_def)
    ultimately show ?thesis by (intro exI conjI)
  qed
qed

section \<open>One round of the controller\<close>

text \<open>The rate of the round, in kbit/s, and the milliseconds for which it gives budget.\<close>

definition rate_at :: "units \<Rightarrow> int \<Rightarrow> pacing_controller \<Rightarrow> int" where
  "rate_at u now pc = to_i32 (to_kbps u (target_rate u (pc\<lparr>pacing_queue := UpdateQueueTime now (pacing_queue pc)\<rparr>)))"

definition credit_ms :: "units \<Rightarrow> int \<Rightarrow> pacing_controller \<Rightarrow> int" where
  "credit_ms u now pc = to_ms u (min (min (now - last_process_time pc) kMaxElapsedTime) kMaxProcessingInterval)"

lemma target_rate_time [simp]: "target_rate u (pc\<lparr>last_process_time := t\<rparr>) = target_rate u pc"
  by (simp add: target_rate_def Let_def)

lemma update_budget_set:
  assumes "last_process_time pc < now"
  shows "update_budget u now pc =
    bindE (SetTargetBitrateKbps (rate_at u now pc) (media_budget pc)) (\<lambda>b.
      Inr (pc\<lparr>last_process_time := now, pacing_queue := UpdateQueueTime now (pacing_queue pc),
              media_budget := IncreaseBudget (credit_ms u now pc) b\<rparr>))"
proof -
  have "target_rate u (pc\<lparr>last_process_time := now, pacing_queue := q\<rparr>) = target_rate u (pc\<lparr>pacing_queue := q\<rparr>)" for q
    by (simp add: target_rate_def Let_def)
  then show ?thesis using assms
    by (auto simp: update_budget_def UpdateTimeAndGetElapsed_def rate_at_def credit_ms_def UpdateBudgetWithElapsedTime_def kMaxElapsedTime_def Let_def
        intro!: arg_cong2 [where f = bindE] ext)
qed

lemma update_budget_ok:
  assumes "last_process_time pc < now" and "0 \<le> credit_ms u now pc" and "0 \<le> rate_at u now pc" and "rate_at u now pc * 500 < 2 ^ 31"
    and "\<not> can_build_up_underuse (media_budget pc)"
  shows "\<exists>pc'. update_budget u now pc = Inr pc' \<and> pacing_queue pc' = UpdateQueueTime now (pacing_queue pc) \<and> budget_ok (media_budget pc') \<and>
    bytes_remaining (media_budget pc') \<le> credit_ms u now pc * rate_at u now pc div 8"
proof -
  obtain b where b: "SetTargetBitrateKbps (rate_at u now pc) (media_budget pc) = Inr b" "budget_ok b" "target_bitrate_kbps b = rate_at u now pc"
    "\<not> can_build_up_underuse b"
    using SetTarget_ok [OF assms(3,4), of "media_budget pc"] assms(5) by (elim exE conjE) simp
  show ?thesis using IncreaseBudget_ok [OF b(2) assms(2)] b assms(3) by (simp add: update_budget_set [OF assms(1)])
qed

section \<open>The periodic task\<close>

inductive sender_reachable :: "units \<Rightarrow> paced_sender \<Rightarrow> bool" for u where
  created: "TaskQueuePacedSender_new now hold_back = Inr s \<Longrightarrow> sender_reachable u s"
| start: "sender_reachable u s \<Longrightarrow> sender_reachable u (EnsureStarted s)"
| enqueue: "sender_reachable u s \<Longrightarrow> sender_reachable u (ps_EnqueuePacket p s)"
| posted: "sender_reachable u s \<Longrightarrow> run_posted u now now2 s = Inr s' \<Longrightarrow> sender_reachable u s'"
| delayed: "sender_reachable u s \<Longrightarrow> run_delayed u now now2 i s = Inr s' \<Longrightarrow> sender_reachable u s'"

definition one_task :: "paced_sender \<Rightarrow> bool" where
  "one_task s \<longleftrightarrow> map fst (delayed s) = (case next_process_time s of None \<Rightarrow> [] | Some t \<Rightarrow> [t])"

lemma MaybeProcess_one:
  assumes "MaybeProcessPackets u now now2 t s = Inr s'"
    and "t = next_process_time s \<and> delayed s = [] \<or> next_process_time s \<noteq> None \<and> t = None \<and> one_task s"
  shows "one_task s' \<and> length (delayed s') = 1"
proof (cases "t = next_process_time s")
  case True
  then obtain pc ps where r: "ProcessPackets u now (pacer s) = Inr (pc, ps)" using assms(1) by (auto simp: MaybeProcessPackets_def)
  have "delayed s = []" using assms(2) True by auto
  moreover have "\<exists>s1 d. s' = s1\<lparr>next_process_time := Some (NextSendTime pc), delayed := delayed s @ [(NextSendTime pc, d)]\<rparr>"
    using assms(1) True r by (auto simp: MaybeProcessPackets_def Let_def simp del: bindE_eq_Inr)
  ultimately show ?thesis by (auto simp: one_task_def)
next
  case False
  then have "next_process_time s \<noteq> None" "one_task s" using assms(2) by auto
  then show ?thesis using False assms by (auto simp: MaybeProcessPackets_def one_task_def Let_def)
qed

lemma sender_reachable_one:
  assumes "sender_reachable u s"
  shows "one_task s"
  using assms
proof induction
  case (created now hold_back s)
  then show ?case by (auto simp: TaskQueuePacedSender_new_def one_task_def)
next
  case (posted s now now2 s')
  show ?case
  proof (cases "posted s")
    case (Cons t ts)
    show ?thesis
    proof (cases t)
      case StartTask
      have "one_task (s\<lparr>posted := ts\<rparr>)" using posted.IH by (simp add: one_task_def)
      then show ?thesis using posted.hyps(2) Cons StartTask
        by (intro conjunct1 [OF MaybeProcess_one]) (auto simp: run_posted_def one_task_def split: option.splits)
    next
      case (EnqueueTask p)
      then show ?thesis using posted Cons by (auto simp: run_posted_def one_task_def)
    qed
  qed (use posted in \<open>simp add: run_posted_def\<close>)
next
  case (delayed s now now2 i s')
  show ?case
  proof (cases "i < length (delayed s)")
    case True
    then obtain t d where t: "next_process_time s = Some t" "delayed s = [(t, d)]" "i = 0"
      using delayed.IH by (auto simp: one_task_def split: option.splits)
    then show ?thesis using delayed.hyps(2) by (intro conjunct1 [OF MaybeProcess_one]) (auto simp: run_delayed_def)
  qed (use delayed in \<open>simp add: run_delayed_def\<close>)
qed (simp_all add: one_task_def EnsureStarted_def ps_EnqueuePacket_def)

section \<open>Properties\<close>

text \<open>C27. The round-robin queue refines a priority queue of packets. A new queue is well formed and empty. In a
  well-formed queue, whose byte count and waiting time are the sums over its packets, pushing a packet
  that is not more urgent than its stream adds exactly that packet. Taking one returns a packet that is
  most urgent of all, that precedes the equally urgent ones of its stream, and whose stream has sent no
  more bytes than any equally urgent one; it removes exactly that packet, and afterwards the stream is
  at most 1400 bytes behind the one that has sent most.\<close>

theorem round_robin_refines:
  assumes "rr_ok q"
  shows "rr_ok (RoundRobinPacketQueue_new t) \<and> queued (RoundRobinPacketQueue_new t) = {#} \<and> (Empty q \<longleftrightarrow> queued q = {#}) \<and>
    (admits q qp \<longrightarrow> (\<exists>q'. Push_packet qp q = Inr q' \<and> rr_ok q' \<and> queued q' = add_mset qp (queued q))) \<and>
    (\<not> Empty q \<longrightarrow> (\<exists>q' qp. Pop q = Inr (q', owned_packet qp) \<and> rr_ok q' \<and> queued q = add_mset qp (queued q') \<and> served q qp \<and>
       (\<exists>s. streams q' (pkt_ssrc (owned_packet qp)) = Some s \<and> max_size q' - kMaxLeadingSize \<le> stream_size s)))"
proof -
  have e: "Empty q \<longleftrightarrow> queued q = {#}" using assms by (simp add: Empty_def rr_ok_def sums_ok_def)
  have "\<exists>q' qp. Pop q = Inr (q', owned_packet qp) \<and> rr_ok q' \<and> queued q = add_mset qp (queued q') \<and> served q qp \<and>
       (\<exists>s. streams q' (pkt_ssrc (owned_packet qp)) = Some s \<and> max_size q' - kMaxLeadingSize \<le> stream_size s)" if "queued q \<noteq> {#}"
  proof (rule Pop_ok [OF assms that])
    fix q' qp assume "Pop q = Inr (q', owned_packet qp)" "rr_ok q'" "queued q = add_mset qp (queued q')" "served q qp"
      "\<exists>s. streams q' (pkt_ssrc (owned_packet qp)) = Some s \<and> max_size q' - kMaxLeadingSize \<le> stream_size s"
    then show ?thesis by (intro exI [of _ q'] exI [of _ qp] conjI)
  qed
  then show ?thesis using e new_ok rr.push_law [OF assms, of qp] by (simp add: RoundRobinPacketQueue_new_def)
qed

text \<open>A packet that is more urgent than every packet its stream has queued is a use after free: \<open>Push\<close> erases the
  stream itself where it means to erase the stream's priority.\<close>

theorem urgent_push_faults:
  assumes "rr_ok (pacing_queue pc)" and "media_type p = Some ty" and "packets_at (streams (pacing_queue pc)) (pkt_ssrc p) \<noteq> []"
    and "\<forall>r \<in> set (packets_at (streams (pacing_queue pc)) (pkt_ssrc p)). GetPriorityForType ty < qp_priority r"
  shows "EnqueuePacket now p pc = Inl UseAfterFree"
proof -
  let ?qp = "\<lparr>qp_priority = GetPriorityForType ty, qp_enqueue_time = now, qp_enqueue_order = packet_counter pc, owned_packet = p\<rparr>"
  have "\<not> admits (pacing_queue pc) ?qp" using assms(3,4) by (auto simp: admits_def not_le Let_def)
  then have "Push_packet ?qp (pacing_queue pc) = Inl UseAfterFree" using Push_packet_ok [OF assms(1), of ?qp] by simp
  then show ?thesis by (simp add: EnqueuePacket_def EnqueuePacketInternal_def Push_def assms(2))
qed

text \<open>C28. The pacer keeps its rate. When time has passed since the last round and the rate of the round fits the
  budget's arithmetic, \<open>ProcessPackets\<close> ends; it sends the most urgent packets first, keeps the others, and
  stops when the queue is empty or the budget is used up. All packets but the last one together have
  fewer bytes than the rate allows for the elapsed time, of which at most 30 ms count.\<close>

theorem process_packets_paced:
  assumes "rr_ok (pacing_queue pc)" and "last_process_time pc < now" and "0 \<le> credit_ms u now pc"
    and "0 \<le> rate_at u now pc" and "rate_at u now pc * 500 < 2 ^ 31" and "\<not> can_build_up_underuse (media_budget pc)"
  shows "\<exists>pc' qps. ProcessPackets u now pc = Inr (pc', map owned_packet qps) \<and> rr_ok (pacing_queue pc') \<and>
    queued (pacing_queue pc) = mset qps + queued (pacing_queue pc') \<and> sorted (map qp_priority qps) \<and>
    (\<forall>a \<in> set qps. \<forall>b \<in># queued (pacing_queue pc'). qp_priority a \<le> qp_priority b) \<and>
    (queued (pacing_queue pc') = {#} \<or> bytes_remaining (media_budget pc') \<le> 0) \<and> budget_ok (media_budget pc') \<and>
    (qps \<noteq> [] \<longrightarrow> sent_bytes (butlast (map owned_packet qps)) < credit_ms u now pc * rate_at u now pc div 8)"
proof -
  obtain pc1 where 1: "update_budget u now pc = Inr pc1" "pacing_queue pc1 = UpdateQueueTime now (pacing_queue pc)" "budget_ok (media_budget pc1)"
    "bytes_remaining (media_budget pc1) \<le> credit_ms u now pc * rate_at u now pc div 8"
    using update_budget_ok [OF assms(2-6)] by (elim exE conjE)
  have ok1: "rr_ok (pacing_queue pc1)" using UpdateQueueTime_ok [OF assms(1)] 1(2) by simp
  obtain pc' ps where 2: "send_loop now pc1 = Inr (pc', ps)" and d: "drained pc1 pc' ps"
    using send_loop_ok [OF ok1 1(3), of now] by (elim exE conjE)
  have n: "length ps \<le> size (queued (pacing_queue pc1))" using d by (simp add: drained_def)
  obtain q' qps where 3: "pops Pop (length ps) (pacing_queue pc1) = Inr (q', map owned_packet qps)" "rr_ok q'"
    "queued (pacing_queue pc1) = mset qps + queued q'" "sorted (map qp_priority qps)" "\<forall>a \<in> set qps. \<forall>b \<in># queued q'. qp_priority a \<le> qp_priority b"
    using rr.pops_ok [OF ok1 n] by (elim exE conjE)
  have e: "q' = pacing_queue pc'" "ps = map owned_packet qps" using d 3(1) by (simp_all add: drained_def)
  show ?thesis
  proof (intro exI [of _ pc'] exI [of _ qps] conjI)
    show "ProcessPackets u now pc = Inr (pc', map owned_packet qps)" using 1(1) 2 e(2) by (simp add: ProcessPackets_def)
    show "queued (pacing_queue pc') = {#} \<or> bytes_remaining (media_budget pc') \<le> 0"
      using d 3(2) by (auto simp: drained_def Empty_def rr_ok_def sums_ok_def e(1))
    show "qps \<noteq> [] \<longrightarrow> sent_bytes (butlast (map owned_packet qps)) < credit_ms u now pc * rate_at u now pc div 8"
      using d 1(4) by (auto simp: drained_def e(2))
  qed (use 1(2) 3 d e in \<open>simp_all add: drained_def\<close>)
qed

text \<open>C29. Draining a large queue overflows the budget: when more than 536870 bytes are queued for longer than the limit,
  the rate that would empty the queue within a millisecond, in kbit/s, times the window of 500 ms is no
  longer an \<open>int\<close>.\<close>

theorem drain_rate_overflows:
  assumes "\<And>s. per_time u s 1000 = 8000 * s" and "\<And>s. to_kbps u (8000 * s) = 8 * s"
    and "rr_ok (pacing_queue pc)" and "last_process_time pc < now" and "drain_large_queue pc"
    and "queue_time_limit pc - AverageQueueTime u (UpdateQueueTime now (pacing_queue pc)) \<le> 1000"
    and "536870 < queue_bytes (pacing_queue pc)" and "queue_bytes (pacing_queue pc) < 2 ^ 28"
    and "pacing_bitrate pc \<le> 8000 * queue_bytes (pacing_queue pc)"
  shows "ProcessPackets u now pc = Inl Overflow"
proof -
  have "rate_at u now pc = 8 * queue_bytes (pacing_queue pc)"
    using assms(1,2,5-9) by (simp add: rate_at_def target_rate_def Let_def max_absorb1 to_i32_small)
  then show ?thesis using assms(4,7)
    by (simp add: ProcessPackets_def update_budget_set SetTargetBitrateKbps_def kWindowMs_def)
qed

text \<open>The pacer's task is scheduled exactly once: in every reachable state there is no delayed task before the
  start, and afterwards exactly one, for the time the sender has noted. Running the start task or the
  delayed task, if it succeeds, leaves exactly one delayed task.\<close>

theorem paced_sender_one_task:
  assumes "sender_reachable u s"
  shows "one_task s \<and> (\<forall>now now2 ts s'. posted s = StartTask # ts \<longrightarrow> run_posted u now now2 s = Inr s' \<longrightarrow> length (delayed s') = 1) \<and>
    (\<forall>now now2 i s'. i < length (delayed s) \<longrightarrow> run_delayed u now now2 i s = Inr s' \<longrightarrow> length (delayed s') = 1)"
proof (intro conjI allI impI)
  show o: "one_task s" by (rule sender_reachable_one [OF assms])
  fix now now2 ts s' assume "posted s = StartTask # ts" "run_posted u now now2 s = Inr s'"
  then show "length (delayed s') = 1" using o
    by (intro conjunct2 [OF MaybeProcess_one [of u now now2 None "s\<lparr>posted := ts\<rparr>"]]) (auto simp: run_posted_def one_task_def split: option.splits)
next
  fix now now2 i s' assume i: "i < length (delayed s)" and r: "run_delayed u now now2 i s = Inr s'"
  obtain t d where t: "next_process_time s = Some t" "delayed s = [(t, d)]" "i = 0"
    using i sender_reachable_one [OF assms] by (auto simp: one_task_def split: option.splits)
  then show "length (delayed s') = 1" using r
    by (intro conjunct2 [OF MaybeProcess_one [of u now now2 "Some t" "s\<lparr>delayed := []\<rparr>"]]) (auto simp: run_delayed_def)
qed


section \<open>Sample values\<close>

definition list_units :: units where
  "list_units = \<lparr>per_time = (\<lambda>s t. s * 8000000 div t), to_kbps = (\<lambda>r. r div 1000), to_ms = (\<lambda>d. d div 1000), div_count = (\<lambda>t n. t div int n)\<rparr>"

definition sample_media :: "nat \<Rightarrow> RtpPacketMediaType \<Rightarrow> rtp_packet_to_send" where
  "sample_media n ty = \<lparr>pkt_marker = False, pkt_payload_type = 107, pkt_sequence_number = 1, pkt_timestamp = 0, pkt_ssrc = 7, payload_offset = 12,
     pkt_payload_size = n, pkt_padding_size = 0, buffer = [], buffer_capacity = 1500, extensions = RtpHeaderExtensionMap_init False,
     extensions_size = 0, extension_entries = [], media_type = Some ty\<rparr>"

definition sample_queued :: "nat \<Rightarrow> RtpPacketMediaType \<Rightarrow> queued_packet" where
  "sample_queued n ty = \<lparr>qp_priority = GetPriorityForType ty, qp_enqueue_time = 0, qp_enqueue_order = 0, owned_packet = sample_media n ty\<rparr>"

definition sample_stream :: "nat \<Rightarrow> RtpPacketMediaType \<Rightarrow> pstream" where
  "sample_stream n ty = \<lparr>stream_size = 0, stream_ssrc = 7, packet_queue = [sample_queued n ty], priority_it = Some 0\<rparr>"

definition sample_queue :: "nat \<Rightarrow> RtpPacketMediaType \<Rightarrow> rr_queue" where
  "sample_queue n ty = \<lparr>size_packets = 1, max_size = 1400, queue_bytes = int n, streams = [7 \<mapsto> sample_stream n ty],
     stream_priorities = [(0, (GetPriorityForType ty, 0), 7)], next_entry = 1, last_time_updated = 0, queue_time_sum = 0\<rparr>"

definition sample_pacer :: "nat \<Rightarrow> RtpPacketMediaType \<Rightarrow> pacing_controller" where
  "sample_pacer n ty = \<lparr>packet_counter = 1, last_process_time = 0, pacing_queue = sample_queue n ty, min_packet_limit = kDefaultMinPacketLimit,
     media_budget = \<lparr>target_bitrate_kbps = 0, max_bytes_in_budget = 0, bytes_remaining = 0, can_build_up_underuse = False\<rparr>,
     pacing_bitrate = 800000, drain_large_queue = True, queue_time_limit = kMaxExpectedQueueLength\<rparr>"

lemma sample_queue_push: "Push_packet (sample_queued n ty) (RoundRobinPacketQueue_new 0) = Inr (sample_queue n ty)"
  by (simp add: Push_packet_def sample_queued_def sample_media_def RoundRobinPacketQueue_new_def Stream_new_def emplace_priority_def UpdateQueueTime_def
      PacketSize_def sample_queue_def sample_stream_def kMaxLeadingSize_def)

lemma sample_queue_ok: "rr_ok (sample_queue n ty)"
  using Push_packet_ok [OF new_ok [of 0], of "sample_queued n ty"] by (simp add: sample_queue_push split: if_splits)

theorem round_robin_refines_witness:
  "\<not> Empty (sample_queue 200 kVideo) \<and> (\<exists>q' (qp :: queued_packet). Pop (sample_queue 200 kVideo) = Inr (q', owned_packet qp) \<and> rr_ok q')"
proof -
  have e: "\<not> Empty (sample_queue 200 kVideo)" by (simp add: Empty_def sample_queue_def)
  have "\<exists>q' qp. Pop (sample_queue 200 kVideo) = Inr (q', owned_packet qp) \<and> rr_ok q' \<and>
      queued (sample_queue 200 kVideo) = add_mset qp (queued q') \<and> served (sample_queue 200 kVideo) qp \<and>
      (\<exists>s. streams q' (pkt_ssrc (owned_packet qp)) = Some s \<and> max_size q' - kMaxLeadingSize \<le> stream_size s)"
    by (rule mp [OF round_robin_refines [OF sample_queue_ok, THEN conjunct2, THEN conjunct2, THEN conjunct2, THEN conjunct2] e])
  then obtain q' and qp :: queued_packet where "Pop (sample_queue 200 kVideo) = Inr (q', owned_packet qp)" "rr_ok q'" by (elim exE conjE) (rule that)
  then show ?thesis using e by (intro conjI exI [of _ q'] exI [of _ qp])
qed

theorem urgent_push_faults_witness:
  "EnqueuePacket 5 (sample_media 200 kVideo) (sample_pacer 100 kPadding) = Inl UseAfterFree"
proof (rule urgent_push_faults)
  show "rr_ok (pacing_queue (sample_pacer 100 kPadding))" by (simp add: sample_pacer_def sample_queue_ok)
  show "media_type (sample_media 200 kVideo) = Some kVideo" by (simp add: sample_media_def)
qed (simp_all add: sample_pacer_def sample_media_def sample_queue_def packets_at_def sample_stream_def sample_queued_def)

theorem process_packets_paced_witness:
  "\<exists>pc' qps. ProcessPackets list_units 30000 (sample_pacer 200 kVideo) = Inr (pc', map owned_packet qps) \<and>
    queued (sample_queue 200 kVideo) = mset qps + queued (pacing_queue pc') \<and>
    (qps \<noteq> [] \<longrightarrow> sent_bytes (butlast (map owned_packet qps)) < 3000)"
proof -
  have r: "rate_at list_units 30000 (sample_pacer 200 kVideo) = 800"
    by (simp add: rate_at_def target_rate_def sample_pacer_def sample_queue_def list_units_def UpdateQueueTime_def AverageQueueTime_def Empty_def
        kMaxExpectedQueueLength_def)
  have c: "credit_ms list_units 30000 (sample_pacer 200 kVideo) = 30"
    by (simp add: credit_ms_def sample_pacer_def list_units_def kMaxElapsedTime_def kMaxProcessingInterval_def)
  have "rr_ok (pacing_queue (sample_pacer 200 kVideo))" by (simp add: sample_pacer_def sample_queue_ok)
  from process_packets_paced [OF this, of 30000 list_units] show ?thesis
    unfolding r c by (simp add: sample_pacer_def) blast
qed

theorem drain_rate_overflows_witness:
  "ProcessPackets list_units 3000000 (sample_pacer 600000 kVideo) = Inl Overflow"
  by (rule drain_rate_overflows)
    (simp_all add: sample_pacer_def sample_queue_ok, simp_all add: list_units_def sample_queue_def UpdateQueueTime_def AverageQueueTime_def Empty_def
        kMaxExpectedQueueLength_def)

theorem paced_sender_one_task_witness:
  "\<exists>s. TaskQueuePacedSender_new 0 1000 = Inr s \<and> one_task (EnsureStarted s)"
proof -
  obtain s where s: "TaskQueuePacedSender_new 0 1000 = Inr s"
    by (simp add: TaskQueuePacedSender_new_def PacingController_new_def IntervalBudget_new_def SetTargetBitrateKbps_def kWindowMs_def Let_def)
  then show ?thesis using paced_sender_one_task [OF sender_reachable.start [OF sender_reachable.created [OF s]], of list_units] by blast
qed

end
