(* ===== verification/Spec2Isabelle.thy ===== *)
theory Spec2Isabelle
  imports Sdp_Correct Media_Streams_Correct H264_Payloads Ice_Channel_Correct Pacing_Correct
begin

text \<open>
  Verification of the media server \<open>xrtcserver\<close> (\<open>src/xrtcserver/src\<close>), a selective forwarding unit written in C++
  on top of parts of WebRTC.

  \<^bold>\<open>The program.\<close> A browser finds the server by ICE: \<open>ice/\<close> gathers candidates on UDP ports, answers and sends STUN
  binding requests, and selects one connection per channel. Media arrives as RTP and RTCP packets, which
  \<open>modules/rtp_rtcp\<close> classifies, parses and builds; \<open>modules/video_coding\<close> finds missing packets and asks for them
  with RTCP NACK messages, and the peer's NACK messages reach the observers of \<open>rtcp_receiver.cpp\<close>. Encoded frames
  are cut into RTP payloads by \<open>rtp_format_h264.cpp\<close> and leave through the pacer of \<open>modules/pacing\<close>. The streams of \<open>video/\<close> and
  \<open>audio/\<close> join these parts, and \<open>pc/\<close> exchanges with the peer the session descriptions that say which streams there are.

  \<^bold>\<open>Conventions.\<close> \<open>Prelude\<close> has the error values, byte buffers with checked access, big-endian words, and the lemmas on
  words and lists that the components share. A function of the source is a HOL function with the source's name, a
  class is a record, an out-parameter a component of the result. A \<open>return false\<close> is \<open>Rejected\<close> or a boolean; undefined
  behaviour of C++ is a value of the type \<open>error\<close> (an access outside a buffer, a signed overflow, a use after free),
  so that a result \<open>Inr\<close> says that none occurred. Sizes are natural numbers with the wrap-around of \<open>size_t\<close> written out
  (\<open>size_sub\<close>), fixed-width integers are words. Two reads of the source always go to freed memory: the flag that \<open>NextFragmentPacket\<close>
  reads after the pop and the candidate that \<open>local_candidate\<close> refers to. What such a read gives is a parameter
  (\<open>freed_flag\<close>, \<open>freed_candidate\<close>), \<open>None\<close> being a fault, and every property that rests on it says so. The product \<open>2 * rtt_\<close> of the ICE connection is the one
  that is computed on integers without a bound. Log lines are left out unless they have an effect of their own.
  Code of WebRTC, Abseil and the C library that is not part of the repository is a record of functions (\<open>byte_io\<close>,
  \<open>cow_ops\<close>, \<open>rtcp_env\<close>, \<open>sender_env\<close>, \<open>module_env\<close>, \<open>stat_env\<close>, \<open>stream_env\<close>, \<open>stun_env\<close>, \<open>ice_env\<close>, \<open>world\<close>, \<open>units\<close>, \<open>seq_env\<close>,
  \<open>sdp_env\<close>, \<open>text_env\<close>); what is used of it is stated as the assumptions of a
  locale (\<open>big_endian_io\<close>, \<open>cow_buffer\<close>, \<open>stun_lib\<close>, \<open>ice_lib\<close>, \<open>seq_lib\<close>, \<open>text_lib\<close>), with an instance that satisfies them. The locale
  \<open>readable_memory\<close> holds the lemmas on worlds in which the read of the freed candidate does not fault.

  \<^bold>\<open>RTCP.\<close> \<open>Rtcp_Packets\<close>: the common header, report blocks, sender and receiver reports
  (\<open>rtcp_packet.cpp\<close>, \<open>rtcp_packet/*.cpp\<close>). \<open>Rtcp_Nack\<close>: the NACK message with its packing of ids into bit masks
  (\<open>nack.cpp\<close>). \<open>Rtp_Utils\<close>: the classification of packets (\<open>rtp_utils.cpp\<close>) and the request statistics.
  \<open>Rtcp_Receiver\<close>: the parsing of compound packets and the delivery to observers (\<open>rtcp_receiver.cpp\<close>). The lemmas show
  that writing and parsing are inverse where they are, that no input makes the receiver fault, and that every id of a
  NACK arrives at the observer. \<open>Receive_Statistics\<close>: loss, jitter and the report blocks of received streams
  (\<open>receive_statistics_impl.cpp\<close>), with the accounting of losses as the invariant of a stream and the round robin of the blocks.
  \<open>Rtcp_Sender\<close> and \<open>Rtcp_Sender_Correct\<close>: the building of compound packets (\<open>rtcp_sender.cpp\<close>); sending ends without a
  fault, its packets fit the network, and the ids it requests reach the peer. \<open>Rtp_Rtcp_Module\<close>: sender, receiver and timer together
  (\<open>rtp_rtcp_impl.cpp\<close>), over every history of calls.

  \<^bold>\<open>RTP.\<close> \<open>Extension_Map\<close>: the map between extension types and ids (\<open>rtp_header_extension_map.cpp\<close>). \<open>Rtp_Extensions\<close>: the
  formats of the header extensions (\<open>rtp_header_extensions.cpp\<close>). \<open>Frame_Descriptor\<close>: the generic frame descriptor
  (\<open>rtp_generic_frame_descriptor_extension.cpp\<close>). \<open>Rtp_Packet\<close>: building and parsing packets
  (\<open>rtp_packet.cpp\<close>). \<open>Rtp_Format\<close>: splitting a payload into about equal parts (\<open>rtp_format.cpp\<close>).
  \<open>H264_Packetizer\<close> and \<open>H264_Payloads\<close>: start codes, aggregation and fragmentation (\<open>rtp_format_h264.cpp\<close>) against a
  depacketizer written from RFC 6184, which is the specification of the round trip.

  \<^bold>\<open>ICE.\<close> \<open>Stun\<close> and \<open>Stun_Correct\<close>: messages and attributes (\<open>stun.cpp\<close>), their round trip, and that reading ends on
  every input. \<open>Ice_Connection\<close> and \<open>Ice_Checks\<close>: candidates, ports, connections and requests
  (\<open>candidate.cpp\<close>, \<open>udp_port.cpp\<close>, \<open>ice_connection.cpp\<close>, \<open>stun_request.cpp\<close>), a connectivity check end to end, and the
  authentication of requests. \<open>Ice_Controller\<close> and \<open>Ice_Channel\<close>: the controller and the channel
  (\<open>ice_controller.cpp\<close>, \<open>ice_transport_channel.cpp\<close>) over one store of connections; signals are calls. \<open>Ice_Channel_Inv\<close>
  proves what every operation keeps, \<open>Ice_Channel_Correct\<close> the invariant of all reachable channels and what is lost
  when a connection is destroyed.

  \<^bold>\<open>Sending and receiving.\<close> \<open>Pacing\<close> and \<open>Pacing_Correct\<close>: the budget, the round-robin queue, the controller and the
  periodic task (\<open>modules/pacing\<close>). The contract of the queue is the locale \<open>packet_queue_contract\<close>, in which taking a
  number of packets is proved correct once, and which the queue's model interprets. \<open>Nack_Requester\<close> and
  \<open>Nack_Correct\<close>: the missing packets of a video stream (\<open>nack_requester.cpp\<close>, \<open>histogram.cpp\<close>).
  \<open>Media_Streams\<close> and \<open>Media_Streams_Correct\<close>: the send and receive streams (\<open>video/\<close>, \<open>audio/\<close>), which
  join the module, the statistics and the NACK requester: from a gap in the received packets to the request at the peer, the
  retransmission format, and what the streams never see.

  \<^bold>\<open>Session descriptions.\<close> \<open>Session_Description\<close>: the data and the text that the server writes (\<open>pc/session_description.cpp\<close>,
  \<open>pc/codec_info.h\<close>, \<open>pc/stream_params.cpp\<close>). \<open>Sdp_Parser\<close>: the reading of the peer's text (the parsing part of \<open>pc/peer_connection.cpp\<close>).
  \<open>Sdp_Reading\<close> and \<open>Sdp_Correct\<close>: what each written line does when it is read, and the round trip of the whole text.

  \<^bold>\<open>Loops.\<close> One function has fuel, the reading of STUN attributes (\<open>read_attrs\<close>): \<open>StunMessage_read\<close> starts it with the length of the
  buffer, every attribute takes at least four bytes, and \<open>stun_read_total\<close> shows that it never runs out. Loops over lists are structural; the others (the NACK writer, the extension
  parser, the splitting of payloads, the start code search, the pacer's sending loop, the
  loops of the NACK requester) are total functions with a termination measure. A loop of the source that does not
  end for some argument is the value \<open>Diverges\<close>.

  \<^bold>\<open>Not modelled.\<close> The rest of \<open>pc/\<close> (the peer connection, DTLS and SRTP) wires the components above to WebRTC's own classes;
  \<open>ice_agent.cpp\<close> fans calls out to the channels; \<open>server/\<close>, \<open>stream/\<close> and \<open>base/\<close> are threads, sockets, timers, configuration and JSON messages;
  the client SDK (\<open>src/xrtcsdk\<close>) is devices, rendering and hardware codecs, and the signalling server (\<open>src/signaling\<close>) is a web
  server in Go. Concurrency is not modelled: every component runs on one thread of the server.
\<close>

end
